(* ===== verification/GoPrelude.thy ===== *)
theory GoPrelude
  imports Main "HOL-Library.List_Lexorder" "HOL-Library.Char_ord" "HOL-Library.Sublist" "HOL-Library.Word"
begin

text \<open>
  What every component of the development shares: the Go standard-library operations the
  sources call on strings, integers and slices, and the lemmas about them.

  A Go string is a sequence of bytes, modelled as a \<open>char list\<close> (a HOL \<open>char\<close> is a byte).
  The classifications below (digit, letter, space, case folding) are those of the Go functions
  and regular expressions on ASCII input; text that is decoded as UTF-8 goes through the
  decoder of the theory \<open>GoUtf8\<close>.
\<close>

named_theorems codec_simps \<open>laws of the byte codecs: lengths and decode after encode\<close>
named_theorems string_simps \<open>laws of the string helpers\<close>

type_synonym byte = "8 word"
type_synonym bytes = "byte list"

section \<open>Characters\<close>

definition is_digit :: "char \<Rightarrow> bool" where
  "is_digit c \<longleftrightarrow> CHR ''0'' \<le> c \<and> c \<le> CHR ''9''"

definition is_lower :: "char \<Rightarrow> bool" where
  "is_lower c \<longleftrightarrow> CHR ''a'' \<le> c \<and> c \<le> CHR ''z''"

definition is_upper :: "char \<Rightarrow> bool" where
  "is_upper c \<longleftrightarrow> CHR ''A'' \<le> c \<and> c \<le> CHR ''Z''"

text \<open>The bytes \<open>strings.TrimSpace\<close> removes from ASCII text: tab to carriage return, space.\<close>

definition is_space :: "char \<Rightarrow> bool" where
  "is_space c \<longleftrightarrow> c = CHR '' '' \<or> (CHR 0x09 \<le> c \<and> c \<le> CHR 0x0D)"

definition lower_char :: "char \<Rightarrow> char" where
  "lower_char c = (if is_upper c then char_of ((of_char c :: nat) + 32) else c)"

text \<open>\<open>strings.ToLower\<close> on ASCII text.\<close>

definition to_lower :: "string \<Rightarrow> string" where
  "to_lower s = map lower_char s"

lemma is_digit_not_lower [simp]: "is_digit c \<Longrightarrow> \<not> is_lower c"
  by (auto simp: is_digit_def is_lower_def less_eq_char_def)

lemma is_digit_not_space [simp]: "is_digit c \<Longrightarrow> \<not> is_space c"
  by (auto simp: is_digit_def is_space_def less_eq_char_def)

definition LF :: char where "LF = CHR 0x0A"
definition CR :: char where "CR = CHR 0x0D"

section \<open>Slices and strings\<close>

text \<open>\<open>strings.Trim\<close>-style trimming on both ends; \<open>strings.TrimSpace\<close>.\<close>

definition trim_right :: "(char \<Rightarrow> bool) \<Rightarrow> string \<Rightarrow> string" where
  "trim_right p s = rev (dropWhile p (rev s))"

definition trim_space :: "string \<Rightarrow> string" where
  "trim_space s = trim_right is_space (dropWhile is_space s)"

lemma trim_right_id [string_simps]: "s = [] \<or> \<not> p (last s) \<Longrightarrow> trim_right p s = s"
  by (cases s rule: rev_cases) (auto simp: trim_right_def)

lemma trim_right_append_in [string_simps]: "\<forall>c \<in> set t. p c \<Longrightarrow> trim_right p (s @ t) = trim_right p s"
proof -
  assume "\<forall>c \<in> set t. p c"
  then have "\<And>c. c \<in> set (rev t) \<Longrightarrow> p c" by simp
  then have "dropWhile p (rev t @ rev s) = dropWhile p (rev s)" by (rule dropWhile_append2)
  then show ?thesis by (simp add: trim_right_def)
qed

lemma prefix_trim_right: "prefix (trim_right p s) s"
proof -
  have "suffix (dropWhile p (rev s)) (rev s)" by (rule suffix_dropWhile)
  then show ?thesis by (simp add: trim_right_def suffix_to_prefix)
qed

lemma trim_space_id [string_simps]:
  "s = [] \<or> (\<not> is_space (hd s) \<and> \<not> is_space (last s)) \<Longrightarrow> trim_space s = s"
  by (cases s) (auto simp: trim_space_def trim_right_id)

lemma trim_space_no_space [string_simps]: "\<forall>c \<in> set s. \<not> is_space c \<Longrightarrow> trim_space s = s"
  by (intro trim_space_id) (cases s; simp)

text \<open>
  \<open>strings.IndexByte\<close>: the position of the first byte that satisfies \<open>p\<close>; \<open>None\<close> is Go's \<open>-1\<close>.
\<close>

fun index_where :: "(char \<Rightarrow> bool) \<Rightarrow> string \<Rightarrow> nat option" where
  "index_where p [] = None"
| "index_where p (c # cs) = (if p c then Some 0 else map_option Suc (index_where p cs))"

lemma index_where_None [string_simps]: "index_where p s = None \<longleftrightarrow> (\<forall>c \<in> set s. \<not> p c)"
  by (induction s) auto

lemma index_where_append [string_simps]:
  "\<forall>c \<in> set s. \<not> p c \<Longrightarrow> index_where p (s @ c # t) = (if p c then Some (length s) else map_option (\<lambda>i. Suc (length s + i)) (index_where p t))"
  by (induction s) (auto simp: option.map_comp comp_def)

lemma index_where_SomeD: "index_where p s = Some i \<Longrightarrow> i < length s \<and> p (s ! i) \<and> (\<forall>c \<in> set (take i s). \<not> p c)"
  by (induction s arbitrary: i) (auto split: if_splits)

text \<open>Splitting at every byte that satisfies \<open>p\<close>, as \<open>regexp.Split\<close> with a one-byte class does.\<close>

fun split_at :: "(char \<Rightarrow> bool) \<Rightarrow> string \<Rightarrow> string list" where
  "split_at p [] = [[]]"
| "split_at p (c # cs) =
     (if p c then [] # split_at p cs
      else (case split_at p cs of [] \<Rightarrow> [[c]] | w # ws \<Rightarrow> (c # w) # ws))"

lemma split_at_nonempty [simp]: "split_at p s \<noteq> []"
  by (induction s) (auto split: list.splits)

lemma split_at_no_sep [string_simps]: "\<forall>c \<in> set s. \<not> p c \<Longrightarrow> split_at p s = [s]"
  by (induction s) auto

lemma split_at_append [string_simps]:
  "\<forall>c \<in> set s. \<not> p c \<Longrightarrow> p d \<Longrightarrow> split_at p (s @ d # t) = s # split_at p t"
  by (induction s) auto

text \<open>Joining the parts with the separator gives the text back, so splitting is injective.\<close>

fun join_with :: "string \<Rightarrow> string list \<Rightarrow> string" where
  "join_with sep [] = []"
| "join_with sep [w] = w"
| "join_with sep (w # ws) = w @ sep @ join_with sep ws"

lemma join_with_Cons: "ws \<noteq> [] \<Longrightarrow> join_with sep (w # ws) = w @ sep @ join_with sep ws"
  by (cases ws) auto

lemma join_with_head: "join_with sep ((c # w) # ws) = c # join_with sep (w # ws)"
  by (cases ws) auto

lemma join_split_at: "join_with [d] (split_at ((=) d) s) = s"
proof (induction s)
  case (Cons c cs)
  obtain w ws where "split_at ((=) d) cs = w # ws"
    by (cases "split_at ((=) d) cs") auto
  with Cons show ?case
    by (cases "c = d") (simp_all add: join_with_head join_with_Cons)
qed simp

lemma split_at_inj: "split_at ((=) d) s = split_at ((=) d) t \<Longrightarrow> s = t"
  by (metis join_split_at)

lemma split_at_parts: "w \<in> set (split_at p s) \<Longrightarrow> c \<in> set w \<Longrightarrow> c \<in> set s \<and> \<not> p c"
proof (induction s arbitrary: w)
  case (Cons a s)
  obtain x xs where split: "split_at p s = x # xs" by (cases "split_at p s") auto
  with Cons.IH [of x] Cons.IH [of w] Cons.prems show ?case
    by (auto split: if_splits)
qed simp

lemma split_at_covers: "c \<in> set s \<Longrightarrow> p c \<or> (\<exists>w \<in> set (split_at p s). c \<in> set w)"
  by (induction s) (auto split: list.splits)

text \<open>\<open>strings.Compare\<close>: three-way bytewise lexicographic comparison.\<close>

definition str_compare :: "string \<Rightarrow> string \<Rightarrow> int" where
  "str_compare a b = (if a = b then 0 else if a < b then -1 else 1)"

lemma str_compare_eq_0 [simp]: "str_compare a b = 0 \<longleftrightarrow> a = b"
  by (simp add: str_compare_def)

lemma str_compare_anti: "str_compare b a = - str_compare a b"
  by (auto simp: str_compare_def dest: order.strict_trans)

lemma str_compare_trans: "str_compare a b \<le> 0 \<Longrightarrow> str_compare b c \<le> 0 \<Longrightarrow> str_compare a c \<le> 0"
  by (auto simp: str_compare_def split: if_splits)

section \<open>Decimal numbers\<close>

definition digit_char :: "nat \<Rightarrow> char" where
  "digit_char n = char_of (48 + n)"

definition digit_val :: "char \<Rightarrow> nat" where
  "digit_val c = of_char c - 48"

text \<open>The digits \<open>fmt.Sprintf("%d", n)\<close> prints for a non-negative number.\<close>

fun show_nat :: "nat \<Rightarrow> string" where
  "show_nat n = (if n < 10 then [digit_char n] else show_nat (n div 10) @ [digit_char (n mod 10)])"

declare show_nat.simps [simp del]

definition show_int :: "int \<Rightarrow> string" where
  "show_int i = (if i < 0 then CHR ''-'' # show_nat (nat (- i)) else show_nat (nat i))"

text \<open>The value of a string of digits.\<close>

definition parse_nat :: "string \<Rightarrow> nat" where
  "parse_nat s = foldl (\<lambda>n c. 10 * n + digit_val c) 0 s"

lemma digit_char_simps [simp]:
  "digit_char 0 = CHR ''0''" "digit_char (Suc 0) = CHR ''1''" "digit_char 1 = CHR ''1''"
  "digit_char 2 = CHR ''2''" "digit_char 3 = CHR ''3''" "digit_char 4 = CHR ''4''"
  "digit_char 5 = CHR ''5''" "digit_char 6 = CHR ''6''" "digit_char 7 = CHR ''7''"
  "digit_char 8 = CHR ''8''" "digit_char 9 = CHR ''9''"
  by code_simp+

lemma is_digit_digit_char [simp]: "n < 10 \<Longrightarrow> is_digit (digit_char n)"
  by (simp add: is_digit_def digit_char_def less_eq_char_def)

lemma digit_val_digit_char [simp]: "n < 10 \<Longrightarrow> digit_val (digit_char n) = n"
  by (simp add: digit_val_def digit_char_def)

lemma show_nat_nonempty [simp]: "show_nat n \<noteq> []"
  by (subst show_nat.simps) simp

lemma show_nat_digits: "c \<in> set (show_nat n) \<Longrightarrow> is_digit c"
proof (induction n rule: show_nat.induct)
  case (1 n)
  then show ?case
    by (subst (asm) (2) show_nat.simps) (auto split: if_splits)
qed

lemma parse_show_nat [string_simps]: "parse_nat (show_nat n) = n"
proof (induction n rule: show_nat.induct)
  case (1 n)
  show ?case
  proof (cases "n < 10")
    case True
    then show ?thesis by (subst show_nat.simps) (simp add: parse_nat_def)
  next
    case False
    with 1 have "parse_nat (show_nat (n div 10)) = n div 10" by simp
    with False show ?thesis
      by (subst show_nat.simps) (simp add: parse_nat_def)
  qed
qed

lemma takeWhile_digits_show_nat [string_simps]:
  "t = [] \<or> \<not> is_digit (hd t) \<Longrightarrow> takeWhile is_digit (show_nat n @ t) = show_nat n"
  by (cases t) (auto simp: takeWhile_append show_nat_digits)

lemma dropWhile_digits_show_nat [string_simps]:
  "t = [] \<or> \<not> is_digit (hd t) \<Longrightarrow> dropWhile is_digit (show_nat n @ t) = t"
  by (cases t) (auto simp: dropWhile_append show_nat_digits)

section \<open>Machine integers\<close>

text \<open>
  Go's \<open>int\<close> and \<open>int64\<close> are 64 bits wide: arithmetic is done on \<open>int\<close> and wrapped into
  two's complement. \<open>strconv.Atoi\<close> on a string of digits returns the largest \<open>int\<close> (with an
  error) when the value does not fit.
\<close>

definition int64 :: "int \<Rightarrow> int" where
  "int64 i = signed_take_bit 63 i"

definition int32 :: "int \<Rightarrow> int" where
  "int32 i = signed_take_bit 31 i"

definition max_int64 :: int where
  "max_int64 = 2 ^ 63 - 1"

definition atoi_digits :: "string \<Rightarrow> int" where
  "atoi_digits s = min (int (parse_nat s)) max_int64"

lemma int64_id: "- (2 ^ 63) \<le> i \<Longrightarrow> i < 2 ^ 63 \<Longrightarrow> int64 i = i"
  by (simp add: int64_def signed_take_bit_int_eq_self)

lemma int32_id: "- (2 ^ 31) \<le> i \<Longrightarrow> i < 2 ^ 31 \<Longrightarrow> int32 i = i"
  by (simp add: int32_def signed_take_bit_int_eq_self)

lemma int64_bounds: "- (2 ^ 63) \<le> int64 i \<and> int64 i < 2 ^ 63"
  using signed_take_bit_int_greater_eq_minus_exp [of 63 i] signed_take_bit_int_less_exp [of 63 i]
  by (simp add: int64_def)

lemma int32_bounds: "- (2 ^ 31) \<le> int32 i \<and> int32 i < 2 ^ 31"
  using signed_take_bit_int_greater_eq_minus_exp [of 31 i] signed_take_bit_int_less_exp [of 31 i]
  by (simp add: int32_def)

section \<open>Lists\<close>

lemma length_dropWhile_less: "xs \<noteq> [] \<Longrightarrow> p (hd xs) \<Longrightarrow> length (dropWhile p xs) < length xs"
  by (cases xs) (auto simp: le_imp_less_Suc length_dropWhile_le)

text \<open>Indexing that reports an index out of range instead of an unspecified value.\<close>

definition nth_opt :: "'a list \<Rightarrow> nat \<Rightarrow> 'a option" where
  "nth_opt xs i = (if i < length xs then Some (xs ! i) else None)"

lemma nth_opt_Cons_0 [simp]: "nth_opt (x # xs) 0 = Some x"
  by (simp add: nth_opt_def)

lemma nth_opt_Cons_Suc [simp]: "nth_opt (x # xs) (Suc i) = nth_opt xs i"
  by (simp add: nth_opt_def)

lemma nth_opt_Nil [simp]: "nth_opt [] i = None"
  by (simp add: nth_opt_def)

lemma nth_opt_eq_None [simp]: "nth_opt xs i = None \<longleftrightarrow> length xs \<le> i"
  by (auto simp: nth_opt_def)

end
