(* ===== verification/MavenVersion.thy ===== *)
theory MavenVersion
  imports GoPrelude
begin

text \<open>
  Maven version ordering, version ranges and the \<open>cappu add\<close> version specs:
  \<open>togo/internal/packages/version_range.go\<close> and \<open>versions.go\<close>.
  A version string is split into numeric and qualifier segments, versions are compared segment
  by segment, a range is parsed into OR-joined restrictions, and the selector folds over the
  published versions. The interface \<open>preorder_cmp\<close> states what a three-way comparison
  must satisfy for that fold to return a greatest element.
\<close>

section \<open>Segments\<close>

text \<open>\<open>segment\<close>: a \<open>*big.Int\<close> (never negative here) or, when it is nil, a qualifier.\<close>

datatype segment = Num nat | Qual string

definition qualifier_rank :: "string \<Rightarrow> int option" where
  "qualifier_rank = map_of
     [(''alpha'', -6), (''a'', -6), (''beta'', -5), (''b'', -5), (''milestone'', -4), (''m'', -4),
      (''rc'', -3), (''cr'', -3), (''snapshot'', -2), ('''', 0), (''ga'', 0), (''final'', 0),
      (''release'', 0), (''sp'', 1)]"

text \<open>\<open>splitRe\<close> is the class of \<open>. - _ +\<close>.\<close>

definition is_sep :: "char \<Rightarrow> bool" where
  "is_sep c \<longleftrightarrow> c \<in> {CHR ''.'', CHR ''-'', CHR ''_'', CHR ''+''}"

text \<open>
  \<open>pieceRe.FindAllString(raw, -1)\<close>: the maximal runs of digits and of lower-case letters, from
  the left; any other byte is skipped.
\<close>

function pieces :: "string \<Rightarrow> string list" where
  "pieces [] = []"
| "pieces (c # cs) =
     (if is_digit c then (c # takeWhile is_digit cs) # pieces (dropWhile is_digit cs)
      else if is_lower c then (c # takeWhile is_lower cs) # pieces (dropWhile is_lower cs)
      else pieces cs)"
  by pat_completeness auto
termination
  by (relation "measure length") (auto simp: le_imp_less_Suc length_dropWhile_le)

text \<open>\<open>digitRe.MatchString(piece)\<close> decides the kind; \<open>n.SetString(piece, 10)\<close> its value.\<close>

definition segment_of :: "string \<Rightarrow> segment" where
  "segment_of piece =
     (if piece \<noteq> [] \<and> list_all is_digit piece then Num (parse_nat piece) else Qual piece)"

definition segmentsOf :: "string \<Rightarrow> segment list" where
  "segmentsOf version =
     concat (map (\<lambda>raw. if raw = [] then [] else map segment_of (pieces raw))
       (split_at is_sep (to_lower version)))"

definition sign_of :: "int \<Rightarrow> int" where
  "sign_of n = (if n < 0 then -1 else if n > 0 then 1 else 0)"

definition compareQualifier :: "string \<Rightarrow> string \<Rightarrow> int" where
  "compareQualifier aq bq =
     (case (qualifier_rank aq, qualifier_rank bq) of
        (Some ar, Some br) \<Rightarrow> sign_of (ar - br)
      | (Some _, None) \<Rightarrow> -1
      | (None, Some _) \<Rightarrow> 1
      | (None, None) \<Rightarrow> str_compare aq bq)"

fun compareToMissing :: "segment \<Rightarrow> int" where
  "compareToMissing (Num n) = sign_of (int n)"
| "compareToMissing (Qual q) = compareQualifier q ''''"

fun compareSegment :: "segment option \<Rightarrow> segment option \<Rightarrow> int" where
  "compareSegment None None = 0"
| "compareSegment None (Some b) = - compareToMissing b"
| "compareSegment (Some a) None = compareToMissing a"
| "compareSegment (Some (Num a)) (Some (Num b)) = sign_of (int a - int b)"
| "compareSegment (Some (Num a)) (Some (Qual b)) = 1"
| "compareSegment (Some (Qual a)) (Some (Num b)) = -1"
| "compareSegment (Some (Qual a)) (Some (Qual b)) = compareQualifier a b"

text \<open>The loop of \<open>CompareVersions\<close> over \<open>i < n\<close>, reading past an end as the missing segment.\<close>

function compare_from :: "segment list \<Rightarrow> segment list \<Rightarrow> nat \<Rightarrow> int" where
  "compare_from as bs i =
     (if i < max (length as) (length bs) then
        (let c = compareSegment (nth_opt as i) (nth_opt bs i)
         in if c \<noteq> 0 then c else compare_from as bs (Suc i))
      else 0)"
  by pat_completeness auto
termination
  by (relation "measure (\<lambda>(as, bs, i). max (length as) (length bs) - i)") auto

declare compare_from.simps [simp del]

definition CompareVersions :: "string \<Rightarrow> string \<Rightarrow> int" where
  "CompareVersions a b = compare_from (segmentsOf a) (segmentsOf b) 0"

section \<open>Ranges\<close>

text \<open>\<open>restriction\<close>: the bounds with their \<open>hasLower\<close>/\<open>hasUpper\<close> flags, as the code has them.\<close>

record restriction =
  lower :: string
  lowerInclusive :: bool
  upper :: string
  upperInclusive :: bool
  hasLower :: bool
  hasUpper :: bool

record VersionSpec =
  Newest :: bool
  restrictions :: "restriction list"

definition parseRestriction :: "string \<Rightarrow> restriction option" where
  "parseRestriction txt =
     (let lowerIncl = prefix ''['' txt;
          upperIncl = suffix '']'' txt;
          isOpen = prefix ''['' txt \<or> prefix ''('' txt;
          isClosed = suffix '']'' txt \<or> suffix '')'' txt
      in if \<not> isOpen \<or> \<not> isClosed then None
         else let inner = butlast (tl txt)
              in case index_where ((=) CHR '','') inner of
                   None \<Rightarrow>
                     (if \<not> lowerIncl \<or> \<not> upperIncl \<or> inner = [] then None
                      else Some \<lparr>lower = inner, lowerInclusive = True, upper = inner,
                                 upperInclusive = True, hasLower = True, hasUpper = True\<rparr>)
                 | Some comma \<Rightarrow>
                     (let lo = trim_space (take comma inner); hi = trim_space (drop (Suc comma) inner)
                      in Some \<lparr>lower = lo, lowerInclusive = lowerIncl, upper = hi,
                               upperInclusive = upperIncl, hasLower = (lo \<noteq> []), hasUpper = (hi \<noteq> [])\<rparr>))"

text \<open>
  The scanning loop of \<open>ParseVersionSpec\<close>. \<open>part\<close> is \<open>trimmed[start:i]\<close>; the bracket depth is
  updated before the test for a top-level comma. The end of the text closes the last part.
\<close>

definition add_part :: "string \<Rightarrow> restriction list \<Rightarrow> restriction list option" where
  "add_part raw rs =
     (let part = trim_space raw
      in if part \<noteq> [] then
           (case parseRestriction part of None \<Rightarrow> None | Some r \<Rightarrow> Some (rs @ [r]))
         else Some rs)"

definition next_depth :: "char \<Rightarrow> int \<Rightarrow> int" where
  "next_depth ch depth =
     (if ch = CHR ''['' \<or> ch = CHR ''('' then depth + 1
      else if ch = CHR '']'' \<or> ch = CHR '')'' then depth - 1 else depth)"

fun scan_spec :: "string \<Rightarrow> int \<Rightarrow> string \<Rightarrow> restriction list \<Rightarrow> restriction list option" where
  "scan_spec [] depth part rs = add_part part rs"
| "scan_spec (ch # cs) depth part rs =
     (let d = next_depth ch depth
      in if ch = CHR '','' \<and> d = 0 then
           (case add_part part rs of None \<Rightarrow> None | Some rs' \<Rightarrow> scan_spec cs d [] rs')
         else scan_spec cs d (part @ [ch]) rs)"

definition ParseVersionSpec :: "string \<Rightarrow> VersionSpec option" where
  "ParseVersionSpec spec =
     (let trimmed = trim_space spec
      in if trimmed = ''RELEASE'' \<or> trimmed = ''LATEST'' then Some \<lparr>Newest = True, restrictions = []\<rparr>
         else if \<not> prefix ''['' trimmed \<and> \<not> prefix ''('' trimmed then None
         else case scan_spec trimmed 0 [] [] of
                None \<Rightarrow> None
              | Some rs \<Rightarrow> if rs = [] then None else Some \<lparr>Newest = False, restrictions = rs\<rparr>)"

definition withinRestriction :: "restriction \<Rightarrow> string \<Rightarrow> bool" where
  "withinRestriction r version =
     (if hasLower r \<and> (let c = CompareVersions version (lower r) in c < 0 \<or> (c = 0 \<and> \<not> lowerInclusive r))
      then False
      else if hasUpper r \<and> (let c = CompareVersions version (upper r) in c > 0 \<or> (c = 0 \<and> \<not> upperInclusive r))
      then False
      else True)"

definition Satisfies :: "VersionSpec \<Rightarrow> string \<Rightarrow> bool" where
  "Satisfies spec version = (if Newest spec then True else \<exists>r \<in> set (restrictions spec). withinRestriction r version)"

definition select_step :: "VersionSpec \<Rightarrow> string \<Rightarrow> string \<Rightarrow> string" where
  "select_step spec best version =
     (if \<not> Satisfies spec version then best
      else if best = [] \<or> CompareVersions version best > 0 then version
      else best)"

definition SelectVersion :: "VersionSpec \<Rightarrow> string list \<Rightarrow> string" where
  "SelectVersion spec published = foldl (select_step spec) [] published"

section \<open>Specs of \<open>cappu add\<close>\<close>

definition MatchesVersionSpec :: "string \<Rightarrow> string \<Rightarrow> bool" where
  "MatchesVersionSpec spec version \<longleftrightarrow>
     version = spec \<or> prefix (spec @ ''.'') version \<or> prefix (spec @ ''-'') version"

definition MatchingVersions :: "string list \<Rightarrow> string \<Rightarrow> string list" where
  "MatchingVersions versions spec = rev (filter (\<lambda>v. spec = [] \<or> MatchesVersionSpec spec v) versions)"

section \<open>The comparison interface\<close>

text \<open>
  What the selector needs of a three-way comparison on the values it is run on: the sign flips
  with the arguments, and \<open>\<le>\<close> is transitive on \<open>ok\<close> values.
\<close>

definition pick :: "('a \<Rightarrow> 'a \<Rightarrow> int) \<Rightarrow> ('a \<Rightarrow> bool) \<Rightarrow> 'a option \<Rightarrow> 'a \<Rightarrow> 'a option" where
  "pick cmp keep best v =
     (if \<not> keep v then best
      else case best of None \<Rightarrow> Some v | Some b \<Rightarrow> if cmp v b > 0 then Some v else best)"

locale preorder_cmp =
  fixes cmp :: "'a \<Rightarrow> 'a \<Rightarrow> int" and ok :: "'a \<Rightarrow> bool"
  assumes cmp_flip: "cmp b a = - cmp a b"
    and cmp_le_trans: "ok a \<Longrightarrow> ok b \<Longrightarrow> ok c \<Longrightarrow> cmp a b \<le> 0 \<Longrightarrow> cmp b c \<le> 0 \<Longrightarrow> cmp a c \<le> 0"
begin

lemma cmp_refl [simp]: "cmp a a = 0"
  using cmp_flip [of a a] by simp

lemma foldl_pick_greatest:
  assumes "list_all ok xs" and "\<And>b. best = Some b \<Longrightarrow> ok b \<and> keep b"
    and "foldl (pick cmp keep) best xs = Some m"
  shows "ok m \<and> keep m \<and> (m \<in> set xs \<or> best = Some m)
    \<and> (\<forall>b. best = Some b \<longrightarrow> cmp b m \<le> 0) \<and> (\<forall>v \<in> set xs. keep v \<longrightarrow> cmp v m \<le> 0)"
  using assms
proof (induction xs arbitrary: best)
  case Nil
  then show ?case by auto
next
  case (Cons v xs)
  let ?best = "pick cmp keep best v"
  have ok: "\<And>b. ?best = Some b \<Longrightarrow> ok b \<and> keep b"
    using Cons.prems by (auto simp: pick_def split: if_splits option.splits)
  from Cons.prems ok have IH: "ok m \<and> keep m \<and> (m \<in> set xs \<or> ?best = Some m)
    \<and> (\<forall>b. ?best = Some b \<longrightarrow> cmp b m \<le> 0) \<and> (\<forall>v \<in> set xs. keep v \<longrightarrow> cmp v m \<le> 0)"
    by (intro Cons.IH) auto
  have v: "keep v \<longrightarrow> cmp v m \<le> 0"
  proof
    assume "keep v"
    then have "\<exists>b. ?best = Some b \<and> cmp v b \<le> 0"
      by (auto simp: pick_def split: option.splits)
    then obtain b where b: "?best = Some b" "cmp v b \<le> 0" by blast
    with IH ok Cons.prems(1) show "cmp v m \<le> 0"
      by (auto intro: cmp_le_trans [of v b m])
  qed
  have best: "\<forall>b. best = Some b \<longrightarrow> cmp b m \<le> 0"
  proof (intro allI impI)
    fix b assume b: "best = Some b"
    then have "\<exists>b'. ?best = Some b' \<and> cmp b b' \<le> 0"
      using cmp_flip [of b v] by (simp add: pick_def)
    then obtain b' where b': "?best = Some b'" "cmp b b' \<le> 0" by blast
    with b IH ok Cons.prems(2) show "cmp b m \<le> 0"
      by (auto intro: cmp_le_trans [of b b' m])
  qed
  from IH v best show ?case
    by (auto simp: pick_def split: if_splits option.splits)
qed

lemma foldl_pick_None_iff:
  "foldl (pick cmp keep) None xs = None \<longleftrightarrow> (\<forall>v \<in> set xs. \<not> keep v)"
proof -
  have some: "foldl (pick cmp keep) (Some b) ys \<noteq> None" for b ys
    by (induction ys arbitrary: b) (auto simp: pick_def)
  show ?thesis
  proof (induction xs)
    case (Cons v xs)
    then show ?case
      by (cases "keep v") (simp_all add: pick_def some [unfolded pick_def] del: not_None_eq)
  qed simp
qed

end

section \<open>Laws of the comparison\<close>

lemma sign_of_simps [simp]:
  "sign_of n = 0 \<longleftrightarrow> n = 0" "sign_of n \<le> 0 \<longleftrightarrow> n \<le> 0" "sign_of n < 0 \<longleftrightarrow> n < 0"
  "0 < sign_of n \<longleftrightarrow> 0 < n" "sign_of n \<in> {-1, 0, 1}"
  by (auto simp: sign_of_def)

lemma sign_of_diff_flip: "sign_of (a - b) = - sign_of (b - a)"
  by (simp add: sign_of_def)

lemma compareQualifier_flip: "compareQualifier b a = - compareQualifier a b"
  using str_compare_anti [of b a]
  by (simp add: compareQualifier_def sign_of_def split: option.split)

lemma compareSegment_flip: "compareSegment b a = - compareSegment a b"
proof (induction a b rule: compareSegment.induct)
  case (4 a b)
  show ?case by (simp add: sign_of_diff_flip [of "int a"])
next
  case (7 a b)
  show ?case by (simp add: compareQualifier_flip [of b a])
qed simp_all

lemma compareSegment_range: "compareSegment a b \<in> {-1, 0, 1}"
proof -
  have q: "compareQualifier x y \<in> {-1, 0, 1}" for x y
    by (auto simp: compareQualifier_def str_compare_def sign_of_def split: option.splits)
  have "compareToMissing s \<in> {-1, 0, 1}" for s
    using q by (cases s) (auto simp: sign_of_def)
  with q show ?thesis
    by (induction a b rule: compareSegment.induct) (auto simp: sign_of_def)
qed

lemma compare_from_flip: "compare_from bs as i = - compare_from as bs i"
proof (induction as bs i rule: compare_from.induct)
  case (1 as bs i)
  show ?case
  proof (cases "i < max (length as) (length bs)")
    case True
    have flip: "compareSegment (nth_opt bs i) (nth_opt as i) = - compareSegment (nth_opt as i) (nth_opt bs i)"
      by (rule compareSegment_flip)
    show ?thesis
    proof (cases "compareSegment (nth_opt as i) (nth_opt bs i) = 0")
      case True
      with 1 \<open>i < _\<close> flip show ?thesis
        by (simp add: compare_from.simps [of as] compare_from.simps [of bs] max.commute)
    next
      case False
      with \<open>i < _\<close> flip show ?thesis
        by (simp add: compare_from.simps [of as] compare_from.simps [of bs] max.commute)
    qed
  next
    case False
    then show ?thesis
      by (simp add: compare_from.simps [of as] compare_from.simps [of bs] max.commute)
  qed
qed

lemma compare_from_range: "compare_from as bs i \<in> {-1, 0, 1}"
proof (induction as bs i rule: compare_from.induct)
  case (1 as bs i)
  then show ?case
    using compareSegment_range [of "nth_opt as i" "nth_opt bs i"]
    by (subst compare_from.simps) (auto simp: Let_def)
qed

text \<open>
  The loop is the lexicographic comparison of the segments as infinite sequences: it stops at
  the first position whose segments differ.
\<close>

lemma compare_from_cases:
  "(compare_from as bs i = 0 \<and> (\<forall>j \<ge> i. compareSegment (nth_opt as j) (nth_opt bs j) = 0))
   \<or> (\<exists>j \<ge> i. (\<forall>k. i \<le> k \<and> k < j \<longrightarrow> compareSegment (nth_opt as k) (nth_opt bs k) = 0)
        \<and> compareSegment (nth_opt as j) (nth_opt bs j) \<noteq> 0
        \<and> compare_from as bs i = compareSegment (nth_opt as j) (nth_opt bs j))"
proof (induction as bs i rule: compare_from.induct)
  case (1 as bs i)
  let ?d = "\<lambda>j. compareSegment (nth_opt as j) (nth_opt bs j)"
  consider (stop) "\<not> i < max (length as) (length bs)"
    | (diff) "i < max (length as) (length bs)" "?d i \<noteq> 0"
    | (same) "i < max (length as) (length bs)" "?d i = 0" by blast
  then show ?case
  proof cases
    case stop
    then have past: "nth_opt as j = None" "nth_opt bs j = None" if "j \<ge> i" for j
      using that by auto
    have "\<forall>j \<ge> i. ?d j = 0"
      by (intro allI impI) (simp only: past compareSegment.simps)
    moreover have "compare_from as bs i = 0"
      using stop by (simp add: compare_from.simps [of as bs i])
    ultimately show ?thesis by blast
  next
    case diff
    then have "compare_from as bs i = ?d i" by (simp add: compare_from.simps [of as bs i])
    with diff show ?thesis by (intro disjI2 exI [of _ i]) auto
  next
    case same
    then have eq: "compare_from as bs i = compare_from as bs (Suc i)"
      by (simp add: compare_from.simps [of as bs i])
    have step: "?d j = 0" if "j \<ge> i" "j \<ge> Suc i \<Longrightarrow> ?d j = 0" for j
      using that same by (cases "j = i") auto
    from 1 [OF same(1) refl] same consider
        (zero) "compare_from as bs (Suc i) = 0" "\<forall>j \<ge> Suc i. ?d j = 0"
      | (at) j where "j \<ge> Suc i" "\<forall>k. Suc i \<le> k \<and> k < j \<longrightarrow> ?d k = 0" "?d j \<noteq> 0"
          "compare_from as bs (Suc i) = ?d j"
      by blast
    then show ?thesis
    proof cases
      case zero
      with step eq show ?thesis by simp
    next
      case (at j)
      then have "\<forall>k. i \<le> k \<and> k < j \<longrightarrow> ?d k = 0" using step by blast
      with at eq show ?thesis by (intro disjI2 exI [of _ j]) auto
    qed
  qed
qed

text \<open>
  On versions whose qualifiers are all known pre-release qualifiers, a segment is an integer
  (a missing one is 0), and comparing two segments is comparing those integers.
\<close>

definition prerelease_qualifier :: "string \<Rightarrow> bool" where
  "prerelease_qualifier q \<longleftrightarrow> (case qualifier_rank q of None \<Rightarrow> False | Some r \<Rightarrow> r < 0)"

fun segment_ok :: "segment \<Rightarrow> bool" where
  "segment_ok (Num n) = True"
| "segment_ok (Qual q) = prerelease_qualifier q"

definition prerelease_only :: "string \<Rightarrow> bool" where
  "prerelease_only v \<longleftrightarrow> list_all segment_ok (segmentsOf v)"

fun segment_key :: "segment option \<Rightarrow> int" where
  "segment_key None = 0"
| "segment_key (Some (Num n)) = int n"
| "segment_key (Some (Qual q)) = the (qualifier_rank q)"

lemma qualifier_rank_release [simp]: "qualifier_rank [] = Some 0"
  by (simp add: qualifier_rank_def)

lemma prerelease_qualifierE:
  assumes "prerelease_qualifier q"
  obtains r where "qualifier_rank q = Some r" and "r < 0"
  using assms by (cases "qualifier_rank q") (auto simp: prerelease_qualifier_def)

lemma compareToMissing_key: "segment_ok s \<Longrightarrow> compareToMissing s = sign_of (segment_key (Some s))"
  by (cases s) (auto simp: compareQualifier_def elim: prerelease_qualifierE)

lemma compareSegment_key:
  assumes "pred_option segment_ok a" and "pred_option segment_ok b"
  shows "compareSegment a b = sign_of (segment_key a - segment_key b)"
proof (cases "(a, b)" rule: compareSegment.cases)
  case (2 s)
  with assms show ?thesis by (simp add: compareToMissing_key sign_of_def)
next
  case (5 n q)
  with assms show ?thesis by (auto simp: sign_of_def elim!: prerelease_qualifierE)
next
  case (6 q n)
  with assms show ?thesis by (auto simp: sign_of_def elim!: prerelease_qualifierE)
next
  case (7 p q)
  with assms show ?thesis by (auto simp: compareQualifier_def elim!: prerelease_qualifierE)
qed (use assms in \<open>simp_all add: compareToMissing_key\<close>)

lemma nth_opt_ok: "list_all p xs \<Longrightarrow> pred_option p (nth_opt xs i)"
  by (auto simp: nth_opt_def list_all_length)

lemma compare_from_lex:
  assumes "list_all segment_ok as" and "list_all segment_ok bs"
  defines "a \<equiv> \<lambda>j. segment_key (nth_opt as j)" and "b \<equiv> \<lambda>j. segment_key (nth_opt bs j)"
  shows "compare_from as bs 0 \<le> 0 \<longleftrightarrow> (a = b \<or> (\<exists>j. (\<forall>k < j. a k = b k) \<and> a j < b j))"
proof -
  have key: "compareSegment (nth_opt as j) (nth_opt bs j) = sign_of (a j - b j)" for j
    using assms by (simp add: compareSegment_key nth_opt_ok)
  from compare_from_cases [of as bs 0] show ?thesis
  proof (elim disjE exE conjE, goal_cases)
    case 1
    then have "a = b" by (auto simp: key)
    with 1 show ?case by simp
  next
    case (2 j)
    then have eq: "\<forall>k < j. a k = b k" and ne: "a j \<noteq> b j" and val: "compare_from as bs 0 = sign_of (a j - b j)"
      by (auto simp: key)
    have "(\<exists>i. (\<forall>k < i. a k = b k) \<and> a i < b i) \<longleftrightarrow> a j < b j"
    proof
      assume "\<exists>i. (\<forall>k < i. a k = b k) \<and> a i < b i"
      then obtain i where "\<forall>k < i. a k = b k" "a i < b i" by blast
      then have "i = j" using eq ne by (metis linorder_neqE_nat order_less_irrefl)
      with \<open>a i < b i\<close> show "a j < b j" by simp
    qed (use eq in blast)
    then show ?case using ne val by auto
  qed
qed

lemma lex_le_trans:
  fixes a b c :: "nat \<Rightarrow> int"
  assumes "a = b \<or> (\<exists>j. (\<forall>k < j. a k = b k) \<and> a j < b j)"
    and "b = c \<or> (\<exists>j. (\<forall>k < j. b k = c k) \<and> b j < c j)"
  shows "a = c \<or> (\<exists>j. (\<forall>k < j. a k = c k) \<and> a j < c j)"
  using assms
proof (elim disjE exE conjE)
  fix i j
  assume "\<forall>k < i. a k = b k" "a i < b i" "\<forall>k < j. b k = c k" "b j < c j"
  then have "(\<forall>k < min i j. a k = c k) \<and> a (min i j) < c (min i j)"
    by (cases i j rule: linorder_cases) auto
  then show ?thesis by blast
qed auto

lemma compare_from_le_trans:
  assumes "list_all segment_ok as" "list_all segment_ok bs" "list_all segment_ok cs"
    and "compare_from as bs 0 \<le> 0" "compare_from bs cs 0 \<le> 0"
  shows "compare_from as cs 0 \<le> 0"
  using assms(4,5) unfolding compare_from_lex [OF assms(1,2)] compare_from_lex [OF assms(2,3)]
    compare_from_lex [OF assms(1,3)]
  by (rule lex_le_trans)

lemma CompareVersions_le_trans:
  "prerelease_only a \<Longrightarrow> prerelease_only b \<Longrightarrow> prerelease_only c \<Longrightarrow>
   CompareVersions a b \<le> 0 \<Longrightarrow> CompareVersions b c \<le> 0 \<Longrightarrow> CompareVersions a c \<le> 0"
  unfolding prerelease_only_def CompareVersions_def by (rule compare_from_le_trans)

interpretation maven: preorder_cmp CompareVersions prerelease_only
proof
  show "CompareVersions b a = - CompareVersions a b" for a b
    unfolding CompareVersions_def by (rule compare_from_flip)
qed (rule CompareVersions_le_trans)


section \<open>Properties\<close>

lemma foldl_select_pick:
  "\<forall>v \<in> set xs. v \<noteq> [] \<Longrightarrow> best \<noteq> Some [] \<Longrightarrow>
   foldl (select_step spec) (case best of None \<Rightarrow> [] | Some b \<Rightarrow> b) xs
     = (case foldl (pick CompareVersions (Satisfies spec)) best xs of None \<Rightarrow> [] | Some b \<Rightarrow> b)"
proof (induction xs arbitrary: best)
  case (Cons v xs)
  have "select_step spec (case best of None \<Rightarrow> [] | Some b \<Rightarrow> b) v
      = (case pick CompareVersions (Satisfies spec) best v of None \<Rightarrow> [] | Some b \<Rightarrow> b)"
    using Cons.prems by (auto simp: select_step_def pick_def split: option.split)
  moreover have "pick CompareVersions (Satisfies spec) best v \<noteq> Some []"
    using Cons.prems by (auto simp: pick_def split: option.split if_splits)
  ultimately show ?case using Cons by simp
qed simp

text \<open>
  \<open>CompareVersions\<close> is a three-way comparison: it returns -1, 0 or 1, exchanging the
  arguments flips the sign, and a version is equal to itself.
\<close>

theorem CompareVersions_three_way:
  "CompareVersions a b \<in> {-1, 0, 1} \<and> CompareVersions b a = - CompareVersions a b
   \<and> CompareVersions a a = 0"
  using compare_from_range by (simp add: CompareVersions_def compare_from_flip [symmetric] maven.cmp_refl [unfolded CompareVersions_def])

text \<open>
  C36. On versions whose qualifiers are known pre-release qualifiers (alpha, beta, milestone, rc,
  snapshot and their aliases) the order is a total preorder, so \<open>SelectVersion\<close> returns a
  published version that satisfies the spec and that no satisfying published version exceeds, and
  it returns "" only when none satisfies.
\<close>

theorem SelectVersion_highest:
  assumes "\<forall>v \<in> set published. v \<noteq> [] \<and> prerelease_only v"
  shows "(SelectVersion spec published = [] \<longleftrightarrow> (\<forall>v \<in> set published. \<not> Satisfies spec v))
    \<and> (SelectVersion spec published \<noteq> [] \<longrightarrow>
         SelectVersion spec published \<in> set published
       \<and> Satisfies spec (SelectVersion spec published)
       \<and> (\<forall>v \<in> set published. Satisfies spec v \<longrightarrow> CompareVersions v (SelectVersion spec published) \<le> 0))"
proof -
  let ?pick = "foldl (pick CompareVersions (Satisfies spec)) None published"
  have sel: "SelectVersion spec published = (case ?pick of None \<Rightarrow> [] | Some b \<Rightarrow> b)"
    using foldl_select_pick [of published None spec] assms by (simp add: SelectVersion_def)
  show ?thesis
  proof (cases ?pick)
    case None
    with sel maven.foldl_pick_None_iff show ?thesis by simp
  next
    case (Some m)
    have "list_all prerelease_only published" using assms by (simp add: list_all_iff)
    from maven.foldl_pick_greatest [OF this _ Some]
    have "Satisfies spec m \<and> m \<in> set published \<and> (\<forall>v \<in> set published. Satisfies spec v \<longrightarrow> CompareVersions v m \<le> 0)"
      by simp
    moreover from this assms have "m \<noteq> []" by blast
    ultimately show ?thesis using sel Some by auto
  qed
qed

theorem SelectVersion_highest_witness:
  "SelectVersion \<lparr>Newest = True, restrictions = []\<rparr> [''1.0-rc1'', ''1.0'', ''1.0-beta''] = ''1.0''
   \<and> CompareVersions ''1.0-rc1'' ''1.0'' \<le> 0"
proof -
  have all: "\<forall>v \<in> set [''1.0-rc1'', ''1.0'', ''1.0-beta'']. v \<noteq> [] \<and> prerelease_only v"
    by code_simp
  have sel: "SelectVersion \<lparr>Newest = True, restrictions = []\<rparr> [''1.0-rc1'', ''1.0'', ''1.0-beta''] = ''1.0''"
    by code_simp
  show ?thesis
    using SelectVersion_highest [OF all, of "\<lparr>Newest = True, restrictions = []\<rparr>"] sel
    by (simp add: Satisfies_def)
qed


text \<open>Rendering a restriction back to the text a POM declares.\<close>

definition plain_bound :: "string \<Rightarrow> bool" where
  "plain_bound s \<longleftrightarrow> (\<forall>c \<in> set s. \<not> is_space c \<and> c \<notin> {CHR ''['', CHR '']'', CHR ''('', CHR '')'', CHR '',''})"

definition restriction_ok :: "restriction \<Rightarrow> bool" where
  "restriction_ok r \<longleftrightarrow> plain_bound (lower r) \<and> plain_bound (upper r)
     \<and> (hasLower r \<longleftrightarrow> lower r \<noteq> []) \<and> (hasUpper r \<longleftrightarrow> upper r \<noteq> [])"

definition render_restriction :: "restriction \<Rightarrow> string" where
  "render_restriction r =
     (if lowerInclusive r then ''['' else ''('') @ lower r @ '','' @ upper r
     @ (if upperInclusive r then '']'' else '')'')"

fun render_ranges :: "restriction list \<Rightarrow> string" where
  "render_ranges [] = []"
| "render_ranges [r] = render_restriction r"
| "render_ranges (r # rs) = render_restriction r @ '','' @ render_ranges rs"

lemma render_ranges_nonempty [simp]: "rs \<noteq> [] \<Longrightarrow> render_ranges rs \<noteq> []"
  by (cases rs rule: render_ranges.cases) (auto simp: render_restriction_def)

lemma parse_render_restriction:
  assumes "restriction_ok r"
  shows "parseRestriction (render_restriction r) = Some r"
proof -
  have lo: "\<forall>c \<in> set (lower r). c \<noteq> CHR '',''" and hi: "\<forall>c \<in> set (upper r). c \<noteq> CHR '',''"
    and sp: "\<forall>c \<in> set (lower r). \<not> is_space c" "\<forall>c \<in> set (upper r). \<not> is_space c"
    using assms by (auto simp: restriction_ok_def plain_bound_def)
  have inner: "butlast (tl (render_restriction r)) = lower r @ CHR '','' # upper r"
    by (simp add: render_restriction_def butlast_append)
  have comma: "index_where ((=) CHR '','') (lower r @ CHR '','' # upper r) = Some (length (lower r))"
    using lo by (subst index_where_append) auto
  have trims: "trim_space (lower r) = lower r" "trim_space (upper r) = upper r"
    using sp by (simp_all add: trim_space_no_space)
  have brackets: "prefix ''['' (render_restriction r) \<longleftrightarrow> lowerInclusive r"
    "prefix ''('' (render_restriction r) \<longleftrightarrow> \<not> lowerInclusive r"
    "suffix '']'' (render_restriction r) \<longleftrightarrow> upperInclusive r"
    "suffix '')'' (render_restriction r) \<longleftrightarrow> \<not> upperInclusive r"
    by (auto simp: render_restriction_def suffix_def)
  show ?thesis
    using assms brackets by (auto simp: parseRestriction_def Let_def inner comma trims restriction_ok_def)
qed

lemma scan_plain:
  "plain_bound s \<Longrightarrow> scan_spec (s @ cs) d part rs = scan_spec cs d (part @ s) rs"
  by (induction s arbitrary: part) (auto simp: plain_bound_def next_depth_def)

lemma scan_render_restriction:
  assumes "restriction_ok r"
  shows "scan_spec (render_restriction r @ cs) 0 [] rs = scan_spec cs 0 (render_restriction r) rs"
proof -
  have "plain_bound (lower r)" "plain_bound (upper r)" using assms by (simp_all add: restriction_ok_def)
  then show ?thesis
    by (simp add: render_restriction_def next_depth_def scan_plain)
qed

lemma add_part_render:
  assumes "restriction_ok r"
  shows "add_part (render_restriction r) rs = Some (rs @ [r])"
proof -
  have "trim_space (render_restriction r) = render_restriction r"
    by (rule trim_space_id) (auto simp: render_restriction_def is_space_def)
  moreover have "render_restriction r \<noteq> []" by (simp add: render_restriction_def)
  ultimately show ?thesis using assms by (simp add: add_part_def parse_render_restriction)
qed

lemma scan_render_ranges:
  "xs \<noteq> [] \<Longrightarrow> list_all restriction_ok xs \<Longrightarrow> scan_spec (render_ranges xs) 0 [] rs = Some (rs @ xs)"
proof (induction xs arbitrary: rs rule: render_ranges.induct)
  case (2 r)
  then show ?case
    using scan_render_restriction [of r "[]" rs] by (simp add: add_part_render)
next
  case (3 r v vs)
  then show ?case
    by (simp add: scan_render_restriction add_part_render next_depth_def)
qed simp

text \<open>
  C38. Parsing inverts rendering: for any non-empty list of restrictions with plain bounds, the
  text \<open>[l,u),(l,u],...\<close> is parsed into exactly those restrictions, with their inclusiveness and
  the missing bounds of an empty side.
\<close>

theorem ParseVersionSpec_render:
  assumes "rs \<noteq> []" and "list_all restriction_ok rs"
  shows "ParseVersionSpec (render_ranges rs) = Some \<lparr>Newest = False, restrictions = rs\<rparr>"
proof -
  have hd: "\<exists>t. render_ranges rs = CHR ''['' # t \<or> render_ranges rs = CHR ''('' # t"
    using assms(1) by (cases rs rule: render_ranges.cases) (auto simp: render_restriction_def)
  have last: "last (render_ranges rs) \<in> {CHR '']'', CHR '')''}"
    using assms(1) by (induction rs rule: render_ranges.induct) (auto simp: render_restriction_def)
  from hd last have trim: "trim_space (render_ranges rs) = render_ranges rs"
    by (intro trim_space_id) (auto simp: is_space_def)
  from hd show ?thesis
    using scan_render_ranges [OF assms, of "[]"] assms(1)
    by (auto simp: ParseVersionSpec_def Let_def trim)
qed

theorem ParseVersionSpec_render_witness:
  "ParseVersionSpec ''[1.0,2.0),(,0.5]'' = Some \<lparr>Newest = False, restrictions =
     [\<lparr>lower = ''1.0'', lowerInclusive = True, upper = ''2.0'', upperInclusive = False, hasLower = True, hasUpper = True\<rparr>,
      \<lparr>lower = [], lowerInclusive = False, upper = ''0.5'', upperInclusive = True, hasLower = False, hasUpper = True\<rparr>]\<rparr>"
  using ParseVersionSpec_render [of
     "[\<lparr>lower = ''1.0'', lowerInclusive = True, upper = ''2.0'', upperInclusive = False, hasLower = True, hasUpper = True\<rparr>,
      \<lparr>lower = [], lowerInclusive = False, upper = ''0.5'', upperInclusive = True, hasLower = False, hasUpper = True\<rparr>]"]
  by (simp add: restriction_ok_def plain_bound_def is_space_def less_eq_char_def render_restriction_def)

text \<open>
  C39. Membership in a parsed range: a version satisfies the spec exactly when, for some
  restriction, it is on the right side of each bound that is present, a bound itself being
  admitted when its bracket is square.
\<close>

theorem Satisfies_parsed_range:
  assumes "rs \<noteq> []" and "list_all restriction_ok rs" and "ParseVersionSpec (render_ranges rs) = Some spec"
  shows "Satisfies spec v \<longleftrightarrow> (\<exists>r \<in> set rs.
      (lower r \<noteq> [] \<longrightarrow> 0 < CompareVersions v (lower r) \<or> (lowerInclusive r \<and> CompareVersions v (lower r) = 0))
    \<and> (upper r \<noteq> [] \<longrightarrow> CompareVersions v (upper r) < 0 \<or> (upperInclusive r \<and> CompareVersions v (upper r) = 0)))"
proof -
  have spec: "spec = \<lparr>Newest = False, restrictions = rs\<rparr>"
    using ParseVersionSpec_render [OF assms(1,2)] assms(3) by simp
  have "withinRestriction r v \<longleftrightarrow>
      (lower r \<noteq> [] \<longrightarrow> 0 < CompareVersions v (lower r) \<or> (lowerInclusive r \<and> CompareVersions v (lower r) = 0))
    \<and> (upper r \<noteq> [] \<longrightarrow> CompareVersions v (upper r) < 0 \<or> (upperInclusive r \<and> CompareVersions v (upper r) = 0))"
    if "restriction_ok r" for r
    using that by (auto simp: withinRestriction_def restriction_ok_def Let_def)
  with assms(2) show ?thesis by (auto simp: Satisfies_def spec list_all_iff)
qed

theorem Satisfies_parsed_range_witness:
  "Satisfies (the (ParseVersionSpec ''[1.0,2.0)'')) ''1.5'' \<and> \<not> Satisfies (the (ParseVersionSpec ''[1.0,2.0)'')) ''2.0''"
proof -
  define r where "r = \<lparr>lower = ''1.0'', lowerInclusive = True, upper = ''2.0'', upperInclusive = False,
    hasLower = True, hasUpper = True\<rparr>"
  have ok: "list_all restriction_ok [r]" unfolding r_def by code_simp
  have shown: "render_ranges [r] = ''[1.0,2.0)''" unfolding r_def by code_simp
  obtain spec where spec: "ParseVersionSpec (render_ranges [r]) = Some spec"
    using ParseVersionSpec_render [OF _ ok] by simp
  have cmp: "CompareVersions ''1.5'' ''1.0'' = 1" "CompareVersions ''1.5'' ''2.0'' = -1"
    "CompareVersions ''2.0'' ''2.0'' = 0"
    by code_simp+
  show ?thesis
    using Satisfies_parsed_range [OF _ ok spec, of "''1.5''"] Satisfies_parsed_range [OF _ ok spec, of "''2.0''"]
      cmp spec shown by (simp add: r_def)
qed

end
