(* ===== verification/SemverBump.thy ===== *)
theory SemverBump
  imports GoPrelude
begin

text \<open>
  The version bump of \<open>cappu version\<close>: \<open>togo/internal/semver/semver.go\<close>. A release kind is a
  string, as in the code; the numbers are 64-bit \<open>int\<close>s, because the code drops the range error
  of \<open>strconv.Atoi\<close> and then adds 1.
\<close>

definition ReleaseTypes :: "string list" where
  "ReleaseTypes = [''major'', ''minor'', ''patch'']"

definition IsReleaseType :: "string \<Rightarrow> bool" where
  "IsReleaseType s \<longleftrightarrow> s \<in> set ReleaseTypes"

text \<open>
  \<open>corePrefix.FindStringSubmatch\<close>: three dot-separated runs of digits at the start, each as long
  as it can be; the submatches.
\<close>

definition core_prefix :: "string \<Rightarrow> (string \<times> string \<times> string) option" where
  "core_prefix v =
     (let a = takeWhile is_digit v; r1 = dropWhile is_digit v
      in if a = [] \<or> \<not> prefix ''.'' r1 then None
         else let b = takeWhile is_digit (tl r1); r2 = dropWhile is_digit (tl r1)
         in if b = [] \<or> \<not> prefix ''.'' r2 then None
            else let c = takeWhile is_digit (tl r2)
            in if c = [] then None else Some (a, b, c))"

definition bump_parts :: "string \<Rightarrow> int \<times> int \<times> int \<Rightarrow> int \<times> int \<times> int" where
  "bump_parts release = (\<lambda>(major, minor, pat).
     if release = ''major'' then (int64 (major + 1), 0, 0)
     else if release = ''minor'' then (major, int64 (minor + 1), 0)
     else (major, minor, int64 (pat + 1)))"

definition show_core :: "int \<times> int \<times> int \<Rightarrow> string" where
  "show_core = (\<lambda>(major, minor, pat). show_int major @ ''.'' @ show_int minor @ ''.'' @ show_int pat)"

definition Bump :: "string \<Rightarrow> string \<Rightarrow> string + string" where
  "Bump version release =
     (case core_prefix version of
        None \<Rightarrow> Inl (''not a semver version: '' @ version)
      | Some (a, b, c) \<Rightarrow>
          Inr (show_core (bump_parts release (atoi_digits a, atoi_digits b, atoi_digits c))))"

section \<open>Properties\<close>

definition core_value :: "string \<Rightarrow> (int \<times> int \<times> int) option" where
  "core_value v = map_option (\<lambda>(a, b, c). (int (parse_nat a), int (parse_nat b), int (parse_nat c))) (core_prefix v)"

fun lex3_less :: "int \<times> int \<times> int \<Rightarrow> int \<times> int \<times> int \<Rightarrow> bool" where
  "lex3_less (a, b, c) (a', b', c') \<longleftrightarrow> a < a' \<or> (a = a' \<and> (b < b' \<or> (b = b' \<and> c < c')))"

lemma core_prefix_show_core:
  "core_prefix (show_nat a @ ''.'' @ show_nat b @ ''.'' @ show_nat c) = Some (show_nat a, show_nat b, show_nat c)"
proof -
  have dot: "\<not> is_digit CHR ''.''" by (simp add: is_digit_def less_eq_char_def)
  have end_digits: "takeWhile is_digit (show_nat c) = show_nat c"
    using takeWhile_digits_show_nat [of "[]" c] by simp
  show ?thesis
    by (simp add: core_prefix_def Let_def dot end_digits takeWhile_digits_show_nat dropWhile_digits_show_nat)
qed

lemma show_int_nonneg: "0 \<le> i \<Longrightarrow> show_int i = show_nat (nat i)"
  by (simp add: show_int_def)

text \<open>
  A bump of a version whose three numbers are below the largest 64-bit \<open>int\<close> succeeds, its
  result is a clean version (its whole text is the three numbers, any pre-release or build
  suffix is gone), the numbers are the bumped ones with the lower ones reset, and the result is
  strictly greater than the core it started from.
\<close>

theorem Bump_increases:
  assumes "core_value v = Some (ma, mi, pa)" and "ma < max_int64" "mi < max_int64" "pa < max_int64"
  shows "\<exists>w n. Bump v release = Inr w \<and> core_value w = Some n \<and> show_core n = w
     \<and> lex3_less (ma, mi, pa) n
     \<and> n = (if release = ''major'' then (ma + 1, 0, 0)
            else if release = ''minor'' then (ma, mi + 1, 0) else (ma, mi, pa + 1))"
proof -
  obtain a b c where core: "core_prefix v = Some (a, b, c)"
    and vals: "ma = int (parse_nat a)" "mi = int (parse_nat b)" "pa = int (parse_nat c)"
    using assms(1) by (auto simp: core_value_def)
  have atoi: "atoi_digits a = ma" "atoi_digits b = mi" "atoi_digits c = pa"
    using vals assms(2-4) by (simp_all add: atoi_digits_def)
  define n where "n = (if release = ''major'' then (ma + 1, 0, 0)
            else if release = ''minor'' then (ma, mi + 1, 0) else (ma, mi, pa + 1))"
  have parts: "bump_parts release (ma, mi, pa) = n"
    using assms(2-4) vals by (simp add: bump_parts_def n_def int64_id max_int64_def)
  obtain x y z where n: "n = (x, y, z)" and nonneg: "0 \<le> x" "0 \<le> y" "0 \<le> z"
    using vals by (cases n) (auto simp: n_def split: if_splits)
  have "Bump v release = Inr (show_core n)"
    using core atoi parts by (simp add: Bump_def)
  moreover have "core_value (show_core n) = Some n"
    using core_prefix_show_core [of "nat x" "nat y" "nat z"] nonneg
    by (simp add: core_value_def show_core_def n show_int_nonneg parse_show_nat)
  moreover have "lex3_less (ma, mi, pa) n"
    using vals by (simp add: n_def)
  ultimately show ?thesis unfolding n_def by blast
qed

theorem Bump_increases_witness:
  "Bump ''1.2.3-SNAPSHOT'' ''patch'' = Inr ''1.2.4'' \<and> Bump ''1.9.3'' ''minor'' = Inr ''1.10.0''"
proof -
  have v: "core_value ''1.2.3-SNAPSHOT'' = Some (1, 2, 3)" "core_value ''1.9.3'' = Some (1, 9, 3)"
    by code_simp+
  have small: "1 < max_int64" "2 < max_int64" "3 < max_int64" "9 < max_int64"
    by (simp_all add: max_int64_def)
  have shown: "show_core (1, 2, 4) = ''1.2.4''" "show_core (1, 10, 0) = ''1.10.0''"
    by code_simp+
  show ?thesis
    using Bump_increases [OF v(1) small(1-3), of "''patch''"]
      Bump_increases [OF v(2) small(1) small(4) small(3), of "''minor''"] shown
    by auto
qed

text \<open>
  At the bound the bump wraps: the code ignores the range error of \<open>strconv.Atoi\<close> and the
  addition overflows, so a major bump of the largest \<open>int\<close> (or of any larger number) yields a
  negative version, which no later bump accepts.
\<close>

theorem Bump_overflow:
  assumes "core_value v = Some (ma, mi, pa)" and "max_int64 \<le> ma"
  shows "Bump v ''major'' = Inr ''-9223372036854775808.0.0''
    \<and> Bump ''-9223372036854775808.0.0'' r = Inl ''not a semver version: -9223372036854775808.0.0''"
proof
  obtain a b c where core: "core_prefix v = Some (a, b, c)" and "ma = int (parse_nat a)"
    using assms(1) by (auto simp: core_value_def)
  then have "atoi_digits a = max_int64" using assms(2) by (simp add: atoi_digits_def)
  moreover have "int64 (max_int64 + 1) = - (2 ^ 63)"
    by (simp add: int64_def max_int64_def)
  moreover have "show_core (- (2 ^ 63), 0, 0) = ''-9223372036854775808.0.0''"
    by (simp add: show_core_def show_int_def show_nat.simps)
  ultimately show "Bump v ''major'' = Inr ''-9223372036854775808.0.0''"
    using core by (simp add: Bump_def bump_parts_def)
  show "Bump ''-9223372036854775808.0.0'' r = Inl ''not a semver version: -9223372036854775808.0.0''"
    by (simp add: Bump_def core_prefix_def is_digit_def less_eq_char_def)
qed

theorem Bump_overflow_witness:
  "Bump ''9223372036854775807.1.0-rc1'' ''major'' = Inr ''-9223372036854775808.0.0''"
proof -
  have v: "core_value ''9223372036854775807.1.0-rc1'' = Some (9223372036854775807, 1, 0)"
    by (simp add: core_value_def core_prefix_def is_digit_def less_eq_char_def parse_nat_def digit_val_def)
  show ?thesis using Bump_overflow [OF v] by (simp add: max_int64_def)
qed

end
