(* ===== verification/Packages.thy ===== *)
theory Packages
  imports GoPrelude
begin

text \<open>
  The package domain model (\<open>togo/internal/packages/types.go\<close>), the store paths of downloaded
  jars (\<open>togo/internal/install/store.go\<close>) and the license normalization
  (\<open>togo/internal/packages/license.go\<close>).
\<close>

section \<open>Coordinates and metadata\<close>

record Coordinates =
  GroupID :: string
  ArtifactID :: string
  Version :: string
  Classifier :: string

definition no_coordinates :: Coordinates where
  "no_coordinates = \<lparr>GroupID = [], ArtifactID = [], Version = [], Classifier = []\<rparr>"

definition CoordinateString :: "Coordinates \<Rightarrow> string" where
  "CoordinateString c = GroupID c @ '':'' @ ArtifactID c @ '':'' @ Version c"

definition Key :: "Coordinates \<Rightarrow> string" where
  "Key c = GroupID c @ '':'' @ ArtifactID c"

definition NewCoordinates :: "string \<Rightarrow> string \<Rightarrow> string \<Rightarrow> Coordinates" where
  "NewCoordinates g a v = \<lparr>GroupID = g, ArtifactID = a, Version = v, Classifier = []\<rparr>"

definition WithClassifier :: "Coordinates \<Rightarrow> string \<Rightarrow> Coordinates" where
  "WithClassifier c classifier = c\<lparr>Classifier := classifier\<rparr>"

definition ArtifactJarName :: "Coordinates \<Rightarrow> string" where
  "ArtifactJarName c =
     ArtifactID c @ ''-'' @ Version c
     @ (if Classifier c \<noteq> [] then ''-'' @ Classifier c else []) @ ''.jar''"

record DependencyDeclaration =
  dep_coordinates :: Coordinates
  Scope :: string
  Optional :: bool

record License =
  license_name :: string
  license_url :: string

record PackageMetadata =
  meta_coordinates :: Coordinates
  Description :: string
  Homepage :: string
  ScmURL :: string
  Dependencies :: "DependencyDeclaration list"
  Licenses :: "License list"
  LicenseNormalized :: "string list"

lemma Key_eq_iff:
  "CHR '':'' \<notin> set (GroupID a) \<Longrightarrow> CHR '':'' \<notin> set (GroupID b) \<Longrightarrow>
   Key a = Key b \<longleftrightarrow> GroupID a = GroupID b \<and> ArtifactID a = ArtifactID b"
proof -
  assume "CHR '':'' \<notin> set (GroupID a)" "CHR '':'' \<notin> set (GroupID b)"
  then have "takeWhile ((\<noteq>) CHR '':'') (Key a) = GroupID a" "takeWhile ((\<noteq>) CHR '':'') (Key b) = GroupID b"
    unfolding Key_def by (auto simp: takeWhile_append intro: takeWhile_eq_all_conv [THEN iffD2])
  then show ?thesis by (auto simp: Key_def)
qed

section \<open>The jar store\<close>

definition segment_char :: "char \<Rightarrow> bool" where
  "segment_char c \<longleftrightarrow> is_upper c \<or> is_lower c \<or> is_digit c \<or> c = CHR ''_'' \<or> c = CHR ''-''"

text \<open>\<open>storeSegment\<close>: dot-separated non-empty runs of letters, digits, \<open>_\<close> and \<open>-\<close>.\<close>

definition storeSegment :: "string \<Rightarrow> bool" where
  "storeSegment s \<longleftrightarrow> list_all (\<lambda>w. w \<noteq> [] \<and> list_all segment_char w) (split_at ((=) CHR ''.'') s)"

text \<open>
  \<open>StorePathFor\<close>, with the store directory as an argument and the path as its list of components:
  every checked component is free of separators, so \<open>filepath.Join\<close> puts one \<open>/\<close> between each
  two of them and cleans nothing away.
\<close>

definition store_segments :: "Coordinates \<Rightarrow> string list" where
  "store_segments c = split_at ((=) CHR ''.'') (GroupID c) @ [ArtifactID c, Version c]"

definition StorePathFor :: "string \<Rightarrow> Coordinates \<Rightarrow> string list option" where
  "StorePathFor dir c =
     (let segments = store_segments c;
          checked = (if Classifier c \<noteq> [] then segments @ [Classifier c] else segments)
      in if list_all storeSegment checked then Some (dir # segments @ [ArtifactJarName c]) else None)"

section \<open>Licenses\<close>

text \<open>
  \<open>nonAlnum.ReplaceAllString\<close>: each maximal run of bytes that are neither lower-case letters nor
  digits becomes one space.
\<close>

definition is_alnum_lower :: "char \<Rightarrow> bool" where
  "is_alnum_lower c \<longleftrightarrow> is_lower c \<or> is_digit c"

function fold_runs :: "string \<Rightarrow> string" where
  "fold_runs [] = []"
| "fold_runs (c # cs) =
     (if is_alnum_lower c then c # fold_runs cs
      else CHR '' '' # fold_runs (dropWhile (\<lambda>c. \<not> is_alnum_lower c) cs))"
  by pat_completeness auto
termination
  by (relation "measure length") (auto simp: le_imp_less_Suc length_dropWhile_le)

definition normalizeKey :: "string \<Rightarrow> string" where
  "normalizeKey name = trim_space (fold_runs (to_lower name))"

definition spdxAliases :: "string \<Rightarrow> string option" where
  "spdxAliases = map_of
     [(''apache 2 0'', ''Apache-2.0''),
      (''apache license 2 0'', ''Apache-2.0''),
      (''apache license version 2 0'', ''Apache-2.0''),
      (''apache software license version 2 0'', ''Apache-2.0''),
      (''the apache license version 2 0'', ''Apache-2.0''),
      (''the apache software license version 2 0'', ''Apache-2.0''),
      (''bsd 2 clause'', ''BSD-2-Clause''),
      (''bsd 3 clause'', ''BSD-3-Clause''),
      (''bsd license 3'', ''BSD-3-Clause''),
      (''new bsd license'', ''BSD-3-Clause''),
      (''the new bsd license'', ''BSD-3-Clause''),
      (''cddl gplv2 with classpath exception'', ''CDDL-1.1 OR GPL-2.0-with-classpath-exception''),
      (''gpl2 w cpe'', ''GPL-2.0-with-classpath-exception''),
      (''gnu general public license gpl version 2 with the classpath exception'', ''GPL-2.0-with-classpath-exception''),
      (''eclipse distribution license v 1 0'', ''BSD-3-Clause''),
      (''edl 1 0'', ''BSD-3-Clause''),
      (''eclipse public license 1 0'', ''EPL-1.0''),
      (''eclipse public license v 1 0'', ''EPL-1.0''),
      (''epl 1 0'', ''EPL-1.0''),
      (''eclipse public license v2 0'', ''EPL-2.0''),
      (''eclipse public license version 2 0'', ''EPL-2.0''),
      (''epl 2 0'', ''EPL-2.0''),
      (''gnu lesser general public license'', ''LGPL-2.1''),
      (''gnu lesser public license'', ''LGPL-2.1''),
      (''mit'', ''MIT''),
      (''mit license'', ''MIT''),
      (''the mit license'', ''MIT''),
      (''mozilla public license version 1 0'', ''MPL-1.0''),
      (''mpl 2 0'', ''MPL-2.0'')]"

definition spdxURLPatterns :: "(string \<times> string) list" where
  "spdxURLPatterns =
     [(''oss.oracle.com/licenses/cddl+gpl'', ''CDDL-1.1 OR GPL-2.0-with-classpath-exception''),
      (''classpath/license'', ''GPL-2.0-with-classpath-exception''),
      (''apache.org/licenses/license-2.0'', ''Apache-2.0''),
      (''opensource.org/licenses/apache-2.0'', ''Apache-2.0''),
      (''opensource.org/licenses/bsd-3-clause'', ''BSD-3-Clause''),
      (''opensource.org/licenses/bsd-2-clause'', ''BSD-2-Clause''),
      (''eclipse.org/legal/epl-2.0'', ''EPL-2.0''),
      (''eclipse.org/legal/epl-v20'', ''EPL-2.0''),
      (''eclipse.org/legal/epl-v10'', ''EPL-1.0''),
      (''documents/edl-v10'', ''BSD-3-Clause''),
      (''eclipse.org/legal/epl-1.0'', ''EPL-1.0''),
      (''opensource.org/licenses/eclipse-1.0'', ''EPL-1.0''),
      (''mozilla.org/en-us/mpl/2.0'', ''MPL-2.0''),
      (''mozilla.org/mpl/2.0'', ''MPL-2.0''),
      (''gnu.org/licenses/old-licenses/lgpl-2.1'', ''LGPL-2.1''),
      (''opensource.org/licenses/mit'', ''MIT'')]"

definition strip_prefix :: "string \<Rightarrow> string \<Rightarrow> string" where
  "strip_prefix p s = (if prefix p s then drop (length p) s else s)"

definition spdxFromURL :: "string \<Rightarrow> string option" where
  "spdxFromURL url =
     (let lowered = to_lower url;
          noscheme = (if prefix ''http://'' lowered then drop 7 lowered else strip_prefix ''https://'' lowered);
          normalized = trim_right ((=) CHR ''/'') (strip_prefix ''www.'' noscheme)
      in map_option snd (List.find (\<lambda>p. sublist (fst p) normalized) spdxURLPatterns))"

definition NormalizeLicense :: "string \<Rightarrow> string \<Rightarrow> string option" where
  "NormalizeLicense name url =
     (case spdxAliases (normalizeKey name) of
        Some spdx \<Rightarrow> Some spdx
      | None \<Rightarrow> if url \<noteq> [] then spdxFromURL url else None)"

fun normalize_licenses_from :: "License list \<Rightarrow> string list \<Rightarrow> string list" where
  "normalize_licenses_from [] ids = ids"
| "normalize_licenses_from (l # ls) ids =
     (case NormalizeLicense (license_name l) (license_url l) of
        None \<Rightarrow> normalize_licenses_from ls ids
      | Some spdx \<Rightarrow> if spdx \<in> set ids then normalize_licenses_from ls ids
                     else normalize_licenses_from ls (ids @ [spdx]))"

definition NormalizeLicenses :: "License list \<Rightarrow> string list" where
  "NormalizeLicenses licenses = normalize_licenses_from licenses []"


section \<open>Properties\<close>

lemma storeSegment_chars: "storeSegment s \<Longrightarrow> c \<in> set s \<Longrightarrow> segment_char c \<or> c = CHR ''.''"
  using split_at_covers [of c s "(=) CHR ''.''"] by (auto simp: storeSegment_def list_all_iff)

lemma storeSegment_not_special: "storeSegment s \<Longrightarrow> s \<noteq> [] \<and> s \<noteq> ''.'' \<and> s \<noteq> ''..''"
  by (auto simp: storeSegment_def)

lemma separator_not_segment_char [simp]:
  "\<not> segment_char CHR ''/''" "\<not> segment_char CHR 0x5C" "\<not> segment_char CHR ''.''"
  by (simp_all add: segment_char_def is_upper_def is_lower_def is_digit_def less_eq_char_def)

lemma storeSegment_no_separator: "storeSegment s \<Longrightarrow> CHR ''/'' \<notin> set s \<and> CHR 0x5C \<notin> set s"
  using storeSegment_chars by fastforce

lemma ArtifactJarName_inj:
  assumes "ArtifactID a = ArtifactID b" "Version a = Version b" "ArtifactJarName a = ArtifactJarName b"
  shows "Classifier a = Classifier b"
  using assms by (auto simp: ArtifactJarName_def split: if_splits)

text \<open>The components below the store directory that a coordinate gets.\<close>

definition safe_component :: "string \<Rightarrow> bool" where
  "safe_component s \<longleftrightarrow> s \<noteq> [] \<and> s \<noteq> ''.'' \<and> s \<noteq> ''..'' \<and> CHR ''/'' \<notin> set s \<and> CHR 0x5C \<notin> set s"

lemma safe_jar_name:
  assumes "storeSegment (ArtifactID c)" "storeSegment (Version c)"
    and "Classifier c \<noteq> [] \<Longrightarrow> storeSegment (Classifier c)"
  shows "safe_component (ArtifactJarName c)"
proof -
  have "5 \<le> length (ArtifactJarName c)" by (simp add: ArtifactJarName_def)
  then have "ArtifactJarName c \<noteq> [] \<and> ArtifactJarName c \<noteq> ''.'' \<and> ArtifactJarName c \<noteq> ''..''" by auto
  moreover have "CHR ''/'' \<notin> set (ArtifactJarName c) \<and> CHR 0x5C \<notin> set (ArtifactJarName c)"
    using storeSegment_no_separator [OF assms(1)] storeSegment_no_separator [OF assms(2)]
      assms(3) [THEN storeSegment_no_separator]
    by (auto simp: ArtifactJarName_def)
  ultimately show ?thesis by (simp add: safe_component_def)
qed

lemma StorePathFor_SomeD:
  assumes "StorePathFor dir c = Some p"
  shows "p = dir # store_segments c @ [ArtifactJarName c]" and "list_all storeSegment (store_segments c)"
    and "Classifier c \<noteq> [] \<Longrightarrow> storeSegment (Classifier c)"
  using assms by (auto simp: StorePathFor_def Let_def split: if_splits)

lemma store_segments_inj:
  assumes "store_segments a = store_segments b"
  shows "GroupID a = GroupID b \<and> ArtifactID a = ArtifactID b \<and> Version a = Version b"
proof -
  have "split_at ((=) CHR ''.'') (GroupID a) = split_at ((=) CHR ''.'') (GroupID b)"
    "ArtifactID a = ArtifactID b" "Version a = Version b"
    using assms by (simp_all add: store_segments_def)
  then show ?thesis using split_at_inj by blast
qed

lemma StorePathFor_inj:
  assumes "StorePathFor dir a = Some p" "StorePathFor dir b = Some p"
  shows "a = b"
proof -
  have "store_segments a = store_segments b" "ArtifactJarName a = ArtifactJarName b"
    using StorePathFor_SomeD(1) [OF assms(1)] StorePathFor_SomeD(1) [OF assms(2)] by simp_all
  then show ?thesis
    using store_segments_inj [of a b] ArtifactJarName_inj [of a b] by (intro Coordinates.equality) simp_all
qed

lemma StorePathFor_components:
  assumes "StorePathFor dir a = Some p"
  shows "\<exists>below. p = dir # below \<and> list_all safe_component below"
proof -
  note segs = StorePathFor_SomeD(2) [OF assms]
  have "safe_component s" if "storeSegment s" for s
    using storeSegment_not_special [OF that] storeSegment_no_separator [OF that]
    by (simp add: safe_component_def)
  then have "list_all safe_component (store_segments a)"
    using segs by (simp add: list_all_iff)
  moreover have "safe_component (ArtifactJarName a)"
    using segs StorePathFor_SomeD(3) [OF assms] by (intro safe_jar_name) (auto simp: store_segments_def)
  ultimately show ?thesis using StorePathFor_SomeD(1) [OF assms] by simp
qed

text \<open>
  C40. A store path never leaves the store: it starts with the store directory, and no component
  below it is empty, \<open>.\<close> or \<open>..\<close> or contains a path separator. Two coordinates share a path
  only when they are equal, classifier included.
\<close>

theorem StorePathFor_safe_injective:
  assumes "StorePathFor dir a = Some p"
  shows "(\<exists>below. p = dir # below \<and> list_all safe_component below)
    \<and> (\<forall>b. StorePathFor dir b = Some p \<longrightarrow> a = b)"
  using StorePathFor_components [OF assms] StorePathFor_inj [OF assms] by blast

theorem StorePathFor_safe_injective_witness:
  "StorePathFor ''/cache'' (NewCoordinates ''com.google'' ''gson'' ''2.14.0'')
     = Some [''/cache'', ''com'', ''google'', ''gson'', ''2.14.0'', ''gson-2.14.0.jar'']
   \<and> list_all safe_component [''com'', ''google'', ''gson'', ''2.14.0'', ''gson-2.14.0.jar'']
   \<and> StorePathFor ''/cache'' (NewCoordinates ''..'' ''gson'' ''2.14.0'') = None"
proof -
  have path: "StorePathFor ''/cache'' (NewCoordinates ''com.google'' ''gson'' ''2.14.0'')
     = Some [''/cache'', ''com'', ''google'', ''gson'', ''2.14.0'', ''gson-2.14.0.jar'']" by code_simp
  moreover have "StorePathFor ''/cache'' (NewCoordinates ''..'' ''gson'' ''2.14.0'') = None" by code_simp
  moreover have "list_all safe_component [''com'', ''google'', ''gson'', ''2.14.0'', ''gson-2.14.0.jar'']"
    using StorePathFor_safe_injective [OF path] by blast
  ultimately show ?thesis by blast
qed

section \<open>Properties of the license normalization\<close>

lemma normalize_licenses_from_set:
  "set (normalize_licenses_from ls ids)
     = set ids \<union> {i. \<exists>l \<in> set ls. NormalizeLicense (license_name l) (license_url l) = Some i}"
  by (induction ls ids rule: normalize_licenses_from.induct) (auto split: option.split)

lemma normalize_licenses_from_distinct:
  "distinct ids \<Longrightarrow> distinct (normalize_licenses_from ls ids) \<and> prefix ids (normalize_licenses_from ls ids)"
proof (induction ls ids rule: normalize_licenses_from.induct)
  case (2 l ls ids)
  then show ?case
    by (cases "NormalizeLicense (license_name l) (license_url l)") (auto dest: append_prefixD)
qed simp

lemma normalize_licenses_from_append:
  "normalize_licenses_from (ks @ ls) ids = normalize_licenses_from ls (normalize_licenses_from ks ids)"
  by (induction ks ids rule: normalize_licenses_from.induct) (auto split: option.split)

text \<open>
  \<open>NormalizeLicenses\<close> returns each SPDX id once, exactly the ids some declared license maps to,
  and in first-seen order: what a prefix of the list yields is a prefix of the result.
\<close>

theorem NormalizeLicenses_spec:
  "distinct (NormalizeLicenses (ks @ ls))
   \<and> set (NormalizeLicenses ls) = {i. \<exists>l \<in> set ls. NormalizeLicense (license_name l) (license_url l) = Some i}
   \<and> prefix (NormalizeLicenses ks) (NormalizeLicenses (ks @ ls))"
  unfolding NormalizeLicenses_def
  using normalize_licenses_from_distinct [of "[]"] normalize_licenses_from_distinct
  by (simp add: normalize_licenses_from_append normalize_licenses_from_set)

end
