(* ===== verification/Resolve.thy ===== *)
theory Resolve
  imports Packages MavenVersion
begin

text \<open>
  Transitive dependency resolution: \<open>togo/internal/packages/resolver.go\<close>. The package sources are
  values of the record \<open>source\<close>, one function per method of the Go interface that resolution
  calls; a call that fails returns \<open>Inl\<close> its error. The bookkeeping of \<open>ResolveTransitive\<close> is the
  record \<open>rstate\<close>. \<open>prefetchLevel\<close> only warms caches behind those calls and changes none of this
  state, so it has no counterpart here.
\<close>

section \<open>Sources\<close>

record source =
  source_name :: string
  ListVersions :: "string \<Rightarrow> string \<Rightarrow> string + string list"
  GetMetadata :: "Coordinates \<Rightarrow> string + PackageMetadata option"

record ResolvedPackage =
  coordinates :: Coordinates
  metadata :: PackageMetadata
  depth :: nat
  requestedBy :: Coordinates
  provider :: string

record VersionConflict =
  conflict_key :: string
  Selected :: string
  Rejected :: string
  RejectedBy :: Coordinates

record MissingPackage =
  missing_coordinates :: Coordinates
  missing_requestedBy :: Coordinates

record Resolution =
  packages :: "ResolvedPackage list"
  conflicts :: "VersionConflict list"
  missing :: "MissingPackage list"

definition propagates :: "DependencyDeclaration \<Rightarrow> bool" where
  "propagates d \<longleftrightarrow> \<not> Optional d \<and> (Scope d = [] \<or> Scope d = ''compile'' \<or> Scope d = ''runtime'')"

fun metadataFrom :: "source list \<Rightarrow> Coordinates \<Rightarrow> string + (PackageMetadata \<times> string) option" where
  "metadataFrom [] c = Inr None"
| "metadataFrom (s # ss) c =
     (case GetMetadata s c of
        Inl err \<Rightarrow> Inl err
      | Inr (Some meta) \<Rightarrow> Inr (Some (meta, source_name s))
      | Inr None \<Rightarrow> metadataFrom ss c)"

text \<open>The inner loop of \<open>resolveRange\<close>: the first source that lists any version decides.\<close>

fun range_from :: "source list \<Rightarrow> VersionSpec \<Rightarrow> Coordinates \<Rightarrow> string + Coordinates option" where
  "range_from [] spec c = Inr None"
| "range_from (s # ss) spec c =
     (case ListVersions s (GroupID c) (ArtifactID c) of
        Inl err \<Rightarrow> Inl err
      | Inr published \<Rightarrow>
          if published = [] then range_from ss spec c
          else let version = SelectVersion spec published
               in if version = [] then Inr None
                  else Inr (Some (NewCoordinates (GroupID c) (ArtifactID c) version)))"

definition resolveRange :: "Coordinates \<Rightarrow> source list \<Rightarrow> string + Coordinates option" where
  "resolveRange c sources =
     (case ParseVersionSpec (Version c) of
        None \<Rightarrow> Inr (Some c)
      | Some spec \<Rightarrow> range_from sources spec c)"

section \<open>The breadth-first loop\<close>

record frontierItem =
  item_coordinates :: Coordinates
  item_requestedBy :: Coordinates
  isRoot :: bool

text \<open>
  \<open>selected\<close> maps group:artifact to the chosen version, \<open>resolution\<close> is the result so far,
  \<open>notified\<close> the calls of \<open>onResolve\<close> in order, \<open>frontier_next\<close> the next level.
\<close>

record rstate =
  selected :: "string \<rightharpoonup> string"
  resolution :: Resolution
  notified :: "Coordinates list"
  frontier_next :: "frontierItem list"

definition add_missing :: "frontierItem \<Rightarrow> rstate \<Rightarrow> rstate" where
  "add_missing item st =
     st\<lparr>selected := (selected st)(Key (item_coordinates item) \<mapsto> Version (item_coordinates item)),
        resolution := (resolution st)\<lparr>missing := missing (resolution st)
          @ [\<lparr>missing_coordinates = item_coordinates item, missing_requestedBy = item_requestedBy item\<rparr>]\<rparr>\<rparr>"

definition add_conflict :: "frontierItem \<Rightarrow> string \<Rightarrow> rstate \<Rightarrow> rstate" where
  "add_conflict item winner st =
     st\<lparr>resolution := (resolution st)\<lparr>conflicts := conflicts (resolution st)
          @ [\<lparr>conflict_key = Key (item_coordinates item), Selected = winner,
              Rejected = Version (item_coordinates item),
              RejectedBy = (if isRoot item then item_coordinates item else item_requestedBy item)\<rparr>]\<rparr>\<rparr>"

definition child_items :: "Coordinates \<Rightarrow> PackageMetadata \<Rightarrow> frontierItem list" where
  "child_items c meta =
     map (\<lambda>dep. \<lparr>item_coordinates = dep_coordinates dep, item_requestedBy = c, isRoot = False\<rparr>)
       (filter propagates (Dependencies meta))"

definition add_package :: "frontierItem \<Rightarrow> nat \<Rightarrow> PackageMetadata \<Rightarrow> string \<Rightarrow> rstate \<Rightarrow> rstate" where
  "add_package item d meta src st =
     st\<lparr>selected := (selected st)(Key (item_coordinates item) \<mapsto> Version (item_coordinates item)),
        resolution := (resolution st)\<lparr>packages := packages (resolution st)
          @ [\<lparr>coordinates = item_coordinates item, metadata = meta, depth = d,
              requestedBy = item_requestedBy item, provider = src\<rparr>]\<rparr>,
        frontier_next := frontier_next st @ child_items (item_coordinates item) meta\<rparr>"

text \<open>One iteration of the inner loop. An error ends the whole resolution with the result so far.\<close>

definition resolve_item :: "source list \<Rightarrow> nat \<Rightarrow> frontierItem \<Rightarrow> rstate \<Rightarrow> (string \<times> rstate) + rstate" where
  "resolve_item sources d item st =
     (case resolveRange (item_coordinates item) sources of
        Inl err \<Rightarrow> Inl (err, st)
      | Inr None \<Rightarrow>
          (if selected st (Key (item_coordinates item)) = None then Inr (add_missing item st) else Inr st)
      | Inr (Some concrete) \<Rightarrow>
          (let item' = item\<lparr>item_coordinates := concrete\<rparr>
           in case selected st (Key concrete) of
                Some winner \<Rightarrow>
                  (if winner \<noteq> Version concrete then Inr (add_conflict item' winner st) else Inr st)
              | None \<Rightarrow>
                  (let st' = st\<lparr>notified := notified st @ [concrete]\<rparr>
                   in case metadataFrom sources concrete of
                        Inl err \<Rightarrow> Inl (err, st')
                      | Inr None \<Rightarrow> Inr (add_missing item' st')
                      | Inr (Some (meta, src)) \<Rightarrow> Inr (add_package item' d meta src st'))))"

fun resolve_level :: "source list \<Rightarrow> nat \<Rightarrow> frontierItem list \<Rightarrow> rstate \<Rightarrow> (string \<times> rstate) + rstate" where
  "resolve_level sources d [] st = Inr st"
| "resolve_level sources d (item # items) st =
     (case resolve_item sources d item st of
        Inl err \<Rightarrow> Inl err
      | Inr st' \<Rightarrow> resolve_level sources d items st')"

text \<open>
  The outer loop \<open>for depth := 0; len(frontier) > 0; depth++\<close>. It may run forever when a source
  keeps inventing packages, so not returning is \<open>None\<close>.
\<close>

partial_function (option) resolve_bfs ::
  "source list \<Rightarrow> nat \<Rightarrow> frontierItem list \<Rightarrow> rstate \<Rightarrow> ((string \<times> rstate) + rstate) option" where
  "resolve_bfs sources d frontier st =
     (if frontier = [] then Some (Inr st)
      else case resolve_level sources d frontier (st\<lparr>frontier_next := []\<rparr>) of
             Inl err \<Rightarrow> Some (Inl err)
           | Inr st' \<Rightarrow> resolve_bfs sources (Suc d) (frontier_next st') st')"

declare resolve_bfs.simps [code]

definition root_item :: "Coordinates \<Rightarrow> frontierItem" where
  "root_item r = \<lparr>item_coordinates = r, item_requestedBy = no_coordinates, isRoot = True\<rparr>"

definition initial_state :: rstate where
  "initial_state = \<lparr>selected = Map.empty, resolution = \<lparr>packages = [], conflicts = [], missing = []\<rparr>,
     notified = [], frontier_next = []\<rparr>"

definition ResolveTransitive :: "Coordinates list \<Rightarrow> source list \<Rightarrow> ((string \<times> rstate) + rstate) option" where
  "ResolveTransitive roots sources = resolve_bfs sources 0 (map root_item roots) initial_state"

fun LatestVersion :: "string \<Rightarrow> string \<Rightarrow> source list \<Rightarrow> string + string" where
  "LatestVersion g a [] = Inr []"
| "LatestVersion g a (s # ss) =
     (case ListVersions s g a of
        Inl err \<Rightarrow> Inl err
      | Inr versions \<Rightarrow> if versions \<noteq> [] then Inr (last versions) else LatestVersion g a ss)"

section \<open>The in-memory source\<close>

record InMemoryPackageSource =
  mem_name :: string
  byKey :: "string \<Rightarrow> PackageMetadata list"
  keys :: "string list"

definition mem_add :: "InMemoryPackageSource \<Rightarrow> PackageMetadata \<Rightarrow> InMemoryPackageSource" where
  "mem_add s pkg =
     (let key = Key (meta_coordinates pkg)
      in s\<lparr>keys := (if byKey s key = [] then keys s @ [key] else keys s),
           byKey := (byKey s)(key := byKey s key @ [pkg])\<rparr>)"

definition NewInMemoryPackageSource :: "string \<Rightarrow> PackageMetadata list \<Rightarrow> InMemoryPackageSource" where
  "NewInMemoryPackageSource name pkgs = foldl mem_add \<lparr>mem_name = name, byKey = (\<lambda>_. []), keys = []\<rparr> pkgs"

definition mem_Search :: "InMemoryPackageSource \<Rightarrow> string \<Rightarrow> (Coordinates \<times> nat) list" where
  "mem_Search s query =
     map (\<lambda>key. (meta_coordinates (last (byKey s key)), length (byKey s key)))
       (filter (\<lambda>key. sublist (to_lower query) (to_lower key)) (keys s))"

definition mem_ListVersions :: "InMemoryPackageSource \<Rightarrow> string \<Rightarrow> string \<Rightarrow> string + string list" where
  "mem_ListVersions s g a = Inr (map (\<lambda>p. Version (meta_coordinates p)) (byKey s (Key (NewCoordinates g a []))))"

definition mem_GetMetadata :: "InMemoryPackageSource \<Rightarrow> Coordinates \<Rightarrow> string + PackageMetadata option" where
  "mem_GetMetadata s c =
     Inr (List.find (\<lambda>p. CoordinateString (meta_coordinates p) = CoordinateString c) (byKey s (Key c)))"

definition mem_source :: "InMemoryPackageSource \<Rightarrow> source" where
  "mem_source s = \<lparr>source_name = mem_name s, ListVersions = mem_ListVersions s, GetMetadata = mem_GetMetadata s\<rparr>"

end
