(* ===== verification/ResolveCorrect.thy ===== *)
theory ResolveCorrect
  imports Resolve
begin

text \<open>
  Correctness of \<open>ResolveTransitive\<close>: what every returned resolution satisfies (one version per
  package, nearest wins, every propagating dependency accounted for), that the loop returns
  whenever only finitely many packages can be reached, and the contract of a package source,
  which the in-memory source meets.
\<close>

section \<open>Elimination of one iteration\<close>

abbreviation item_key :: "frontierItem \<Rightarrow> string" where
  "item_key it \<equiv> Key (item_coordinates it)"

abbreviation package_key :: "ResolvedPackage \<Rightarrow> string" where
  "package_key p \<equiv> Key (coordinates p)"

definition child_keys :: "PackageMetadata \<Rightarrow> string set" where
  "child_keys meta = {Key (dep_coordinates dep) | dep. dep \<in> set (Dependencies meta) \<and> propagates dep}"

lemma range_from_key: "range_from ss spec c = Inr (Some c') \<Longrightarrow> Key c' = Key c"
  by (induction ss) (auto simp: Key_def NewCoordinates_def Let_def split: sum.splits if_splits)

lemma resolveRange_key: "resolveRange c ss = Inr (Some c') \<Longrightarrow> Key c' = Key c"
  by (auto simp: resolveRange_def range_from_key split: option.splits)

lemma resolve_item_cases:
  assumes "resolve_item sources d it st = Inr st'"
  obtains (skip) "st' = st" "item_key it \<in> dom (selected st)"
  | (conflict) it' winner where "st' = add_conflict it' winner st" "item_key it' = item_key it"
      "selected st (item_key it') = Some winner" "winner \<noteq> Version (item_coordinates it')"
  | (missing) it' ns where "st' = add_missing it' (st\<lparr>notified := ns\<rparr>)" "item_key it' = item_key it"
      "item_requestedBy it' = item_requestedBy it" "selected st (item_key it') = None"
  | (package) it' ns meta src where "st' = add_package it' d meta src (st\<lparr>notified := ns\<rparr>)"
      "item_key it' = item_key it" "item_requestedBy it' = item_requestedBy it"
      "selected st (item_key it') = None"
      "metadataFrom sources (item_coordinates it') = Inr (Some (meta, src))"
proof (cases "resolveRange (item_coordinates it) sources")
  case (Inl err)
  with assms show ?thesis by (simp add: resolve_item_def)
next
  case (Inr found)
  show ?thesis
  proof (cases found)
    case None
    show ?thesis
    proof (cases "selected st (item_key it)")
      case None
      with assms Inr \<open>found = None\<close> have "st' = add_missing it (st\<lparr>notified := notified st\<rparr>)"
        by (simp add: resolve_item_def)
      with None show ?thesis using missing by blast
    next
      case (Some w)
      with assms Inr \<open>found = None\<close> show ?thesis
        by (intro skip) (auto simp: resolve_item_def)
    qed
  next
    case (Some concrete)
    let ?it = "it\<lparr>item_coordinates := concrete\<rparr>" and ?ns = "notified st @ [concrete]"
    have key: "item_key ?it = item_key it" using Inr Some by (simp add: resolveRange_key)
    show ?thesis
    proof (cases "selected st (Key concrete)")
      case None
      show ?thesis
      proof (cases "metadataFrom sources concrete")
        case (Inl err)
        with assms Inr Some None show ?thesis by (simp add: resolve_item_def Let_def)
      next
        case (Inr m)
        with assms \<open>resolveRange _ _ = _\<close> Some None key show ?thesis
          by (cases m) (auto simp: resolve_item_def Let_def intro: missing [of ?it ?ns] package [of ?it _ _ ?ns])
      qed
    next
      case (Some w)
      with assms Inr \<open>found = _\<close> key show ?thesis
        by (cases "w = Version concrete") (auto simp: resolve_item_def Let_def intro: skip conflict [of ?it w])
    qed
  qed
qed

section \<open>The invariants of the loop\<close>

text \<open>
  The table invariant: \<open>selected\<close> is exactly the versions of the resolved and the missing packages,
  no key is resolved or reported missing twice, each resolved package carries the metadata of the
  first source that knows it, and each conflict names the winner of its key.
\<close>

definition entries :: "rstate \<Rightarrow> (string \<times> string) list" where
  "entries st =
     map (\<lambda>p. (package_key p, Version (coordinates p))) (packages (resolution st))
   @ map (\<lambda>m. (Key (missing_coordinates m), Version (missing_coordinates m))) (missing (resolution st))"

definition table_inv :: "source list \<Rightarrow> rstate \<Rightarrow> bool" where
  "table_inv sources st \<longleftrightarrow>
     distinct (map fst (entries st))
   \<and> (\<forall>k v. selected st k = Some v \<longleftrightarrow> (k, v) \<in> set (entries st))
   \<and> (\<forall>p \<in> set (packages (resolution st)).
        metadataFrom sources (coordinates p) = Inr (Some (metadata p, provider p)))
   \<and> (\<forall>x \<in> set (conflicts (resolution st)).
        selected st (conflict_key x) = Some (Selected x) \<and> Selected x \<noteq> Rejected x)"

text \<open>
  The graph invariant while level \<open>d\<close> is processed and \<open>items\<close> of it are left: how depths, parents
  and the dependencies still to be visited relate.
\<close>

definition parent_of :: "rstate \<Rightarrow> nat \<Rightarrow> Coordinates \<Rightarrow> string \<Rightarrow> bool" where
  "parent_of st n by k \<longleftrightarrow>
     (\<exists>q \<in> set (packages (resolution st)). depth q = n \<and> coordinates q = by \<and> k \<in> child_keys (metadata q))"

definition requested :: "Coordinates list \<Rightarrow> rstate \<Rightarrow> nat \<Rightarrow> Coordinates \<Rightarrow> string \<Rightarrow> bool" where
  "requested roots st d by k \<longleftrightarrow> (case d of 0 \<Rightarrow> k \<in> Key ` set roots | Suc n \<Rightarrow> parent_of st n by k)"

definition origin_inv :: "Coordinates list \<Rightarrow> nat \<Rightarrow> frontierItem list \<Rightarrow> rstate \<Rightarrow> bool" where
  "origin_inv roots d items st \<longleftrightarrow>
     (\<forall>p \<in> set (packages (resolution st)). requested roots st (depth p) (requestedBy p) (package_key p))
   \<and> (\<forall>it \<in> set items. requested roots st d (item_requestedBy it) (item_key it))
   \<and> (\<forall>it \<in> set (frontier_next st). parent_of st d (item_requestedBy it) (item_key it))"

definition depth_inv :: "nat \<Rightarrow> rstate \<Rightarrow> bool" where
  "depth_inv d st \<longleftrightarrow>
     (\<forall>p \<in> set (packages (resolution st)). depth p \<le> d) \<and> sorted (map depth (packages (resolution st)))"

text \<open>
  The keys the dependencies of \<open>p\<close> may have: \<open>S\<close> are the decided keys, \<open>I\<close> those left in level \<open>d\<close>,
  \<open>N\<close> those queued for the next.
\<close>

definition child_ok :: "nat \<Rightarrow> string set \<Rightarrow> string set \<Rightarrow> string set \<Rightarrow> ResolvedPackage \<Rightarrow> bool" where
  "child_ok d S I N p \<longleftrightarrow>
     (Suc (depth p) < d \<longrightarrow> child_keys (metadata p) \<subseteq> S)
   \<and> (Suc (depth p) = d \<longrightarrow> child_keys (metadata p) \<subseteq> S \<union> I)
   \<and> (depth p = d \<longrightarrow> child_keys (metadata p) \<subseteq> N)"

definition child_inv :: "nat \<Rightarrow> frontierItem list \<Rightarrow> rstate \<Rightarrow> bool" where
  "child_inv d items st \<longleftrightarrow>
     (\<forall>p \<in> set (packages (resolution st)).
        child_ok d (dom (selected st)) (item_key ` set items) (item_key ` set (frontier_next st)) p)"

lemma child_ok_mono:
  "child_ok d S I N p \<Longrightarrow> S \<subseteq> S' \<Longrightarrow> S \<union> I \<subseteq> S' \<union> I' \<Longrightarrow> N \<subseteq> N' \<Longrightarrow> child_ok d S' I' N' p"
  unfolding child_ok_def by (meson subset_trans)

lemma child_inv_mono:
  assumes "child_inv d items st" and "set (packages (resolution st')) \<subseteq> set (packages (resolution st))"
    and "dom (selected st) \<subseteq> dom (selected st')"
    and "dom (selected st) \<union> item_key ` set items \<subseteq> dom (selected st') \<union> item_key ` set items'"
    and "item_key ` set (frontier_next st) \<subseteq> item_key ` set (frontier_next st')"
  shows "child_inv d items' st'"
  unfolding child_inv_def
proof
  fix p assume "p \<in> set (packages (resolution st'))"
  with assms(1,2) have "child_ok d (dom (selected st)) (item_key ` set items) (item_key ` set (frontier_next st)) p"
    unfolding child_inv_def by blast
  then show "child_ok d (dom (selected st')) (item_key ` set items') (item_key ` set (frontier_next st')) p"
    using assms(3-5) by (rule child_ok_mono)
qed

definition root_inv :: "Coordinates list \<Rightarrow> nat \<Rightarrow> frontierItem list \<Rightarrow> rstate \<Rightarrow> bool" where
  "root_inv roots d items st \<longleftrightarrow>
     (\<forall>k \<in> Key ` set roots. k \<in> dom (selected st) \<or> (d = 0 \<and> k \<in> item_key ` set items))
   \<and> (\<forall>q \<in> set (packages (resolution st)). package_key q \<in> Key ` set roots \<longrightarrow> depth q = 0)"

definition near_inv :: "rstate \<Rightarrow> bool" where
  "near_inv st \<longleftrightarrow>
     (\<forall>p \<in> set (packages (resolution st)). \<forall>q \<in> set (packages (resolution st)).
        package_key q \<in> child_keys (metadata p) \<longrightarrow> depth q \<le> Suc (depth p))"

definition graph_inv :: "Coordinates list \<Rightarrow> nat \<Rightarrow> frontierItem list \<Rightarrow> rstate \<Rightarrow> bool" where
  "graph_inv roots d items st \<longleftrightarrow>
     depth_inv d st \<and> child_inv d items st \<and> root_inv roots d items st \<and> near_inv st"

lemmas graph_inv_defs = graph_inv_def depth_inv_def child_inv_def root_inv_def near_inv_def

lemma child_items_keys: "item_key ` set (child_items c meta) = child_keys meta"
  by (auto simp: child_items_def child_keys_def image_iff)

lemmas rstate_ops = add_missing_def add_conflict_def add_package_def

lemma add_missing_entries:
  "set (entries (add_missing it (st\<lparr>notified := ns\<rparr>))) = insert (item_key it, Version (item_coordinates it)) (set (entries st))"
  "distinct (map fst (entries (add_missing it (st\<lparr>notified := ns\<rparr>))))
     \<longleftrightarrow> distinct (map fst (entries st)) \<and> item_key it \<notin> fst ` set (entries st)"
  by (auto simp: entries_def add_missing_def comp_def image_Un image_image)

lemma add_package_entries:
  "set (entries (add_package it d meta src (st\<lparr>notified := ns\<rparr>))) = insert (item_key it, Version (item_coordinates it)) (set (entries st))"
  "distinct (map fst (entries (add_package it d meta src (st\<lparr>notified := ns\<rparr>))))
     \<longleftrightarrow> distinct (map fst (entries st)) \<and> item_key it \<notin> fst ` set (entries st)"
  by (auto simp: entries_def add_package_def comp_def image_Un image_image)

lemma table_inv_dom: "table_inv sources st \<Longrightarrow> dom (selected st) = fst ` set (entries st)"
proof (rule set_eqI)
  fix k assume "table_inv sources st"
  then have iff: "selected st k = Some v \<longleftrightarrow> (k, v) \<in> set (entries st)" for v
    by (simp add: table_inv_def)
  show "k \<in> dom (selected st) \<longleftrightarrow> k \<in> fst ` set (entries st)"
    unfolding dom_def mem_Collect_eq not_None_eq iff by force
qed

lemma table_inv_add:
  assumes inv: "table_inv sources st" and fresh: "selected st k = None"
    and ent: "set (entries st') = insert (k, v) (set (entries st))"
    and dist: "distinct (map fst (entries st')) \<longleftrightarrow> distinct (map fst (entries st)) \<and> k \<notin> fst ` set (entries st)"
    and sel: "selected st' = (selected st)(k \<mapsto> v)"
    and pkgs: "\<forall>p \<in> set (packages (resolution st')). p \<in> set (packages (resolution st))
      \<or> metadataFrom sources (coordinates p) = Inr (Some (metadata p, provider p))"
    and conf: "conflicts (resolution st') = conflicts (resolution st)"
  shows "table_inv sources st'"
proof -
  have k: "k \<notin> fst ` set (entries st)" using table_inv_dom [OF inv] fresh by blast
  have "selected st' x = Some w \<longleftrightarrow> (x, w) \<in> set (entries st')" for x w
    using inv k by (cases "x = k") (force simp: table_inv_def ent sel)+
  moreover have "\<forall>x \<in> set (conflicts (resolution st')). selected st' (conflict_key x) = Some (Selected x) \<and> Selected x \<noteq> Rejected x"
    using inv fresh by (auto simp: table_inv_def conf sel)
  moreover have "\<forall>p \<in> set (packages (resolution st')). metadataFrom sources (coordinates p) = Inr (Some (metadata p, provider p))"
    using inv pkgs unfolding table_inv_def by blast
  moreover have "distinct (map fst (entries st'))" using inv k dist by (simp add: table_inv_def)
  ultimately show ?thesis by (simp add: table_inv_def)
qed

lemma resolve_item_table_inv:
  assumes "resolve_item sources d it st = Inr st'" and inv: "table_inv sources st"
  shows "table_inv sources st'"
  using assms(1)
proof (cases rule: resolve_item_cases)
  case skip
  with inv show ?thesis by simp
next
  case (conflict it' winner)
  with inv show ?thesis by (auto simp: table_inv_def entries_def add_conflict_def)
next
  case (missing it' ns)
  show ?thesis unfolding missing(1)
    by (rule table_inv_add [OF inv missing(4) add_missing_entries]) (auto simp: add_missing_def)
next
  case (package it' ns meta src)
  show ?thesis unfolding package(1)
    by (rule table_inv_add [OF inv package(4) add_package_entries])
      (use package(5) in \<open>auto simp: add_package_def\<close>)
qed

lemma parent_of_mono:
  "set (packages (resolution st)) \<subseteq> set (packages (resolution st')) \<Longrightarrow> parent_of st n by k \<Longrightarrow> parent_of st' n by k"
  by (auto simp: parent_of_def)

lemma requested_mono:
  "set (packages (resolution st)) \<subseteq> set (packages (resolution st')) \<Longrightarrow> requested roots st n by k \<Longrightarrow> requested roots st' n by k"
  by (auto simp: requested_def parent_of_mono split: nat.splits)

lemma resolve_item_origin_inv:
  assumes "resolve_item sources d it st = Inr st'" and inv: "origin_inv roots d (it # items) st"
  shows "origin_inv roots d items st'"
  using assms(1)
proof (cases rule: resolve_item_cases)
  case (package it' ns meta src)
  have sub: "set (packages (resolution st)) \<subseteq> set (packages (resolution st'))"
    using package by (auto simp: rstate_ops)
  have new: "parent_of st' d (item_coordinates it') k" if "k \<in> child_keys meta" for k
    using package that by (auto simp: parent_of_def rstate_ops)
  have child: "item_requestedBy i = item_coordinates it' \<and> item_key i \<in> child_keys meta"
    if "i \<in> set (child_items (item_coordinates it') meta)" for i
    using that child_items_keys [of "item_coordinates it'" meta] by (auto simp: child_items_def child_keys_def)
  show ?thesis
    using inv package(1-3) new child requested_mono [OF sub] parent_of_mono [OF sub]
    unfolding origin_inv_def by (fastforce simp: rstate_ops)
qed (use inv in \<open>auto simp: origin_inv_def rstate_ops requested_def parent_of_def split: nat.splits\<close>)

lemma graph_inv_drop_item:
  assumes inv: "graph_inv roots d (it # items) st" and key: "item_key it \<in> dom (selected st)"
  shows "graph_inv roots d items st"
proof -
  have "child_inv d items st"
    by (rule child_inv_mono [of d "it # items" st]) (use inv key in \<open>auto simp: graph_inv_def\<close>)
  moreover have "root_inv roots d items st"
    using inv key unfolding graph_inv_def root_inv_def by auto
  ultimately show ?thesis using inv by (simp add: graph_inv_def)
qed

lemma graph_inv_frame:
  assumes inv: "graph_inv roots d items st" and pk: "packages (resolution st') = packages (resolution st)"
    and nxt: "frontier_next st' = frontier_next st" and sub: "dom (selected st) \<subseteq> dom (selected st')"
  shows "graph_inv roots d items st'"
proof -
  have "child_inv d items st'"
    by (rule child_inv_mono [of d items st]) (use inv sub in \<open>auto simp: graph_inv_def pk nxt\<close>)
  moreover have "root_inv roots d items st'"
    using inv subsetD [OF sub] unfolding graph_inv_def root_inv_def pk by blast
  moreover have "depth_inv d st'" "near_inv st'"
    using inv unfolding graph_inv_def depth_inv_def near_inv_def pk by blast+
  ultimately show ?thesis by (simp add: graph_inv_def)
qed

lemma graph_inv_add_package:
  assumes inv: "graph_inv roots d (it # items) st" and key: "item_key it' = item_key it"
    and fresh: "selected st (item_key it') = None"
  shows "graph_inv roots d items (add_package it' d meta src (st\<lparr>notified := ns\<rparr>))"
    (is "graph_inv _ _ _ ?st'")
proof -
  define new where "new = \<lparr>coordinates = item_coordinates it', metadata = meta, depth = d,
    requestedBy = item_requestedBy it', provider = src\<rparr>"
  let ?P = "packages (resolution st)" and ?k = "item_key it'"
  have pk: "packages (resolution ?st') = ?P @ [new]"
    and sel: "dom (selected ?st') = insert ?k (dom (selected st))"
    and nxt: "item_key ` set (frontier_next ?st') = item_key ` set (frontier_next st) \<union> child_keys meta"
    by (simp_all add: add_package_def new_def image_Un child_items_keys)
  have new: "depth new = d" "metadata new = meta" "coordinates new = item_coordinates it'" by (simp_all add: new_def)
  have k: "?k \<notin> dom (selected st)" using fresh by (simp add: domIff)
  have child: "child_inv d (it # items) st" and rts: "root_inv roots d (it # items) st"
    and dep: "depth_inv d st" and near: "near_inv st"
    using inv by (simp_all add: graph_inv_def)
  have ge: "d \<le> Suc (depth p)" if "p \<in> set ?P" "?k \<in> child_keys (metadata p)" for p
    using child k that unfolding child_inv_def child_ok_def by (meson not_less subsetD)
  have root: "d = 0" if "?k \<in> Key ` set roots"
    using rts k that unfolding root_inv_def by blast
  have "depth_inv d ?st'"
    using dep unfolding depth_inv_def pk by (auto simp: sorted_append new)
  moreover have "child_inv d items ?st'"
    unfolding child_inv_def pk sel nxt set_append Un_iff ball_Un
  proof (intro conjI ballI)
    fix p assume "p \<in> set ?P"
    with child have "child_ok d (dom (selected st)) (item_key ` set (it # items)) (item_key ` set (frontier_next st)) p"
      by (simp add: child_inv_def)
    then show "child_ok d (insert ?k (dom (selected st))) (item_key ` set items) (item_key ` set (frontier_next st) \<union> child_keys meta) p"
      by (rule child_ok_mono) (auto simp: key)
  qed (simp add: child_ok_def new)
  moreover have "root_inv roots d items ?st'"
    using rts root unfolding root_inv_def pk sel by (auto simp: key new)
  moreover have "near_inv ?st'"
    unfolding near_inv_def pk
  proof (intro ballI impI)
    fix p q assume p: "p \<in> set (?P @ [new])" and q: "q \<in> set (?P @ [new])"
      and x: "package_key q \<in> child_keys (metadata p)"
    have le: "depth q \<le> d" using q dep by (auto simp: depth_inv_def new)
    show "depth q \<le> Suc (depth p)"
    proof (cases "p \<in> set ?P")
      case True
      then show ?thesis using near ge [OF True] q x
        by (cases "q \<in> set ?P") (auto simp: near_inv_def new)
    next
      case False
      with p le show ?thesis by (simp add: new)
    qed
  qed
  ultimately show ?thesis by (simp add: graph_inv_def)
qed

lemma resolve_item_graph_inv:
  assumes "resolve_item sources d it st = Inr st'" and inv: "graph_inv roots d (it # items) st"
  shows "graph_inv roots d items st'"
  using assms(1)
proof (cases rule: resolve_item_cases)
  case skip
  with inv show ?thesis by (simp add: graph_inv_drop_item)
next
  case (conflict it' winner)
  have "item_key it \<in> dom (selected st)" using conflict(2,3) by (simp add: domIff)
  with inv have "graph_inv roots d items st" by (rule graph_inv_drop_item)
  then show ?thesis unfolding conflict(1) by (rule graph_inv_frame) (auto simp: add_conflict_def)
next
  case (missing it' ns)
  have "graph_inv roots d (it # items) st'" unfolding missing(1)
    by (rule graph_inv_frame [OF inv]) (auto simp: add_missing_def)
  moreover have "item_key it \<in> dom (selected st')" using missing(1,2) by (simp add: add_missing_def)
  ultimately show ?thesis by (rule graph_inv_drop_item)
next
  case (package it' ns meta src)
  show ?thesis unfolding package(1) by (rule graph_inv_add_package [OF inv package(2,4)])
qed


section \<open>Levels and the whole loop\<close>

definition loop_inv :: "Coordinates list \<Rightarrow> source list \<Rightarrow> nat \<Rightarrow> frontierItem list \<Rightarrow> rstate \<Rightarrow> bool" where
  "loop_inv roots sources d items st \<longleftrightarrow>
     table_inv sources st \<and> origin_inv roots d items st \<and> graph_inv roots d items st"

lemma resolve_level_inv:
  "resolve_level sources d items st = Inr st' \<Longrightarrow> loop_inv roots sources d items st \<Longrightarrow> loop_inv roots sources d [] st'"
proof (induction items arbitrary: st)
  case (Cons it items)
  then obtain st1 where st1: "resolve_item sources d it st = Inr st1" "resolve_level sources d items st1 = Inr st'"
    by (auto split: sum.splits)
  with Cons.prems(2) have "loop_inv roots sources d items st1"
    using resolve_item_table_inv resolve_item_origin_inv resolve_item_graph_inv
    unfolding loop_inv_def by blast
  with st1(2) show ?case by (rule Cons.IH)
qed simp

lemma parent_of_frontier [simp]: "parent_of (st\<lparr>frontier_next := f\<rparr>) n by k = parent_of st n by k"
  by (simp add: parent_of_def)

lemma requested_frontier [simp]: "requested roots (st\<lparr>frontier_next := f\<rparr>) n by k = requested roots st n by k"
  by (simp add: requested_def split: nat.split)

lemma requested_Suc: "requested roots st (Suc n) by k = parent_of st n by k"
  by (simp add: requested_def)

text \<open>Between two levels the children of level \<open>d\<close> become the items of level \<open>d + 1\<close>.\<close>

lemma loop_inv_next:
  assumes "loop_inv roots sources d [] st"
  shows "loop_inv roots sources (Suc d) (frontier_next st) (st\<lparr>frontier_next := []\<rparr>)"
proof -
  let ?st' = "st\<lparr>frontier_next := []\<rparr>"
  have inv: "table_inv sources st" "origin_inv roots d [] st" "graph_inv roots d [] st"
    using assms by (simp_all add: loop_inv_def)
  have "table_inv sources ?st'" using inv(1) by (simp add: table_inv_def entries_def)
  moreover have "origin_inv roots (Suc d) (frontier_next st) ?st'"
    using inv(2) by (simp add: origin_inv_def requested_Suc)
  moreover have "child_inv (Suc d) (frontier_next st) ?st'"
    using inv(3) by (auto simp: graph_inv_def child_inv_def child_ok_def depth_inv_def less_Suc_eq)
  moreover have "depth_inv (Suc d) ?st'" using inv(3) by (auto simp: graph_inv_def depth_inv_def)
  moreover have "root_inv roots (Suc d) (frontier_next st) ?st'"
    using inv(3) by (auto simp: graph_inv_def root_inv_def)
  moreover have "near_inv ?st'" using inv(3) by (simp add: graph_inv_def near_inv_def)
  ultimately show ?thesis by (simp add: loop_inv_def graph_inv_def)
qed

lemma loop_inv_initial: "loop_inv roots sources 0 (map root_item roots) initial_state"
  by (auto simp: loop_inv_def table_inv_def origin_inv_def requested_def graph_inv_def depth_inv_def
      child_inv_def root_inv_def near_inv_def initial_state_def entries_def root_item_def image_image)

lemma resolve_bfs_inv:
  assumes "resolve_bfs sources d frontier st = Some r" and "r = Inr st'"
    and "loop_inv roots sources d frontier (st\<lparr>frontier_next := []\<rparr>)"
  shows "\<exists>d. loop_inv roots sources d [] (st'\<lparr>frontier_next := []\<rparr>)"
proof -
  let ?P = "\<lambda>sources d frontier st r. \<forall>st'. r = Inr st' \<longrightarrow> loop_inv roots sources d frontier (st\<lparr>frontier_next := []\<rparr>)
      \<longrightarrow> (\<exists>d. loop_inv roots sources d [] (st'\<lparr>frontier_next := []\<rparr>))"
  have "?P sources d frontier st r"
  proof (rule resolve_bfs.raw_induct [where P = ?P, OF _ assms(1)], intro allI impI)
    fix bfs sources d frontier st r st'
    assume IH: "\<And>sources d frontier st r. bfs sources d frontier st = Some r \<Longrightarrow> ?P sources d frontier st r"
      and eq: "(if frontier = [] then Some (Inr st)
        else case resolve_level sources d frontier (st\<lparr>frontier_next := []\<rparr>) of
               Inl err \<Rightarrow> Some (Inl err) | Inr st' \<Rightarrow> bfs sources (Suc d) (frontier_next st') st') = Some r"
      and r: "r = Inr st'" and inv: "loop_inv roots sources d frontier (st\<lparr>frontier_next := []\<rparr>)"
    show "\<exists>d. loop_inv roots sources d [] (st'\<lparr>frontier_next := []\<rparr>)"
    proof (cases "frontier = []")
      case True
      with eq r inv show ?thesis by auto
    next
      case False
      with eq r obtain st1 where lvl: "resolve_level sources d frontier (st\<lparr>frontier_next := []\<rparr>) = Inr st1"
        and rest: "bfs sources (Suc d) (frontier_next st1) st1 = Some r"
        by (auto split: sum.splits)
      from resolve_level_inv [OF lvl inv]
      have "loop_inv roots sources (Suc d) (frontier_next st1) (st1\<lparr>frontier_next := []\<rparr>)"
        by (rule loop_inv_next)
      with IH [OF rest] r show ?thesis by blast
    qed
  qed
  with assms(2,3) show ?thesis by blast
qed

lemma ResolveTransitive_inv:
  assumes "ResolveTransitive roots sources = Some (Inr st)"
  shows "\<exists>d. loop_inv roots sources d [] (st\<lparr>frontier_next := []\<rparr>)"
proof -
  have "loop_inv roots sources 0 (map root_item roots) (initial_state\<lparr>frontier_next := []\<rparr>)"
    using loop_inv_initial by (simp add: initial_state_def)
  from resolve_bfs_inv [OF assms [unfolded ResolveTransitive_def] refl this] show ?thesis .
qed


section \<open>Termination\<close>

text \<open>
  \<open>K\<close> bounds what can be reached: it holds the keys of the dependencies of every package whose key
  is in \<open>K\<close>.
\<close>

definition closed_keys :: "source list \<Rightarrow> string set \<Rightarrow> bool" where
  "closed_keys sources K \<longleftrightarrow>
     (\<forall>c meta src. Key c \<in> K \<and> metadataFrom sources c = Inr (Some (meta, src)) \<longrightarrow> child_keys meta \<subseteq> K)"

lemma resolve_item_progress:
  assumes "resolve_item sources d it st = Inr st'" and "closed_keys sources K" and "item_key it \<in> K"
  shows "dom (selected st') = insert (item_key it) (dom (selected st))
    \<and> (frontier_next st' = frontier_next st \<or> item_key it \<notin> dom (selected st))
    \<and> item_key ` set (frontier_next st') \<subseteq> item_key ` set (frontier_next st) \<union> K"
  using assms(1)
proof (cases rule: resolve_item_cases)
  case (conflict it' winner)
  then show ?thesis by (auto simp: add_conflict_def)
next
  case (missing it' ns)
  then show ?thesis by (auto simp: add_missing_def)
next
  case (package it' ns meta src)
  then have "child_keys meta \<subseteq> K" using assms(2,3) unfolding closed_keys_def by metis
  with package show ?thesis by (auto simp: add_package_def child_items_keys image_Un)
qed auto

lemma resolve_level_progress:
  assumes "closed_keys sources K"
  shows "resolve_level sources d items st = Inr st' \<Longrightarrow> item_key ` set items \<subseteq> K \<Longrightarrow>
    dom (selected st) \<subseteq> dom (selected st')
    \<and> (frontier_next st' = frontier_next st \<or> (\<exists>k \<in> K. k \<in> dom (selected st') - dom (selected st)))
    \<and> item_key ` set (frontier_next st') \<subseteq> item_key ` set (frontier_next st) \<union> K"
proof (induction items arbitrary: st)
  case (Cons it items)
  then obtain st1 where st1: "resolve_item sources d it st = Inr st1" "resolve_level sources d items st1 = Inr st'"
    by (auto split: sum.splits)
  have key: "item_key it \<in> K" and rest: "item_key ` set items \<subseteq> K" using Cons.prems(2) by auto
  note step = resolve_item_progress [OF st1(1) assms key]
  note more = Cons.IH [OF st1(2) rest]
  have s1: "dom (selected st1) = insert (item_key it) (dom (selected st))"
    "item_key ` set (frontier_next st1) \<subseteq> item_key ` set (frontier_next st) \<union> K"
    using step by simp_all
  have m1: "dom (selected st1) \<subseteq> dom (selected st')"
    "item_key ` set (frontier_next st') \<subseteq> item_key ` set (frontier_next st1) \<union> K"
    using more by simp_all
  have dom: "dom (selected st) \<subseteq> dom (selected st')" using s1(1) m1(1) by blast
  have next_keys: "item_key ` set (frontier_next st') \<subseteq> item_key ` set (frontier_next st) \<union> K"
    using s1(2) m1(2) by blast
  have "frontier_next st' = frontier_next st \<or> (\<exists>k \<in> K. k \<in> dom (selected st') - dom (selected st))"
  proof (cases "item_key it \<in> dom (selected st)")
    case True
    then have "dom (selected st1) = dom (selected st)" "frontier_next st1 = frontier_next st"
      using step by (simp_all add: insert_absorb)
    with more show ?thesis by simp
  next
    case False
    moreover have "item_key it \<in> dom (selected st')" using s1(1) m1(1) by blast
    ultimately show ?thesis using key by blast
  qed
  with dom next_keys show ?case by blast
qed simp

lemma resolve_bfs_returns:
  assumes K: "finite K" "closed_keys sources K"
  shows "item_key ` set frontier \<subseteq> K \<Longrightarrow> card (K - dom (selected st)) \<le> n \<Longrightarrow>
    \<exists>r. resolve_bfs sources d frontier st = Some r"
proof (induction n arbitrary: d frontier st rule: less_induct)
  case (less n)
  show ?case
  proof (cases "resolve_level sources d frontier (st\<lparr>frontier_next := []\<rparr>)")
    case (Inl err)
    then show ?thesis by (subst resolve_bfs.simps) simp
  next
    case (Inr st1)
    have bfs: "resolve_bfs sources d frontier st
        = (if frontier = [] then Some (Inr st) else resolve_bfs sources (Suc d) (frontier_next st1) st1)"
      using Inr by (subst resolve_bfs.simps) simp
    note progress = resolve_level_progress [OF K(2) Inr less.prems(1)]
    show ?thesis
    proof (cases "frontier_next st1 = []")
      case True
      have "resolve_bfs sources (Suc d) [] st1 = Some (Inr st1)" by (subst resolve_bfs.simps) simp
      with True bfs show ?thesis by simp
    next
      case False
      with progress obtain k where "k \<in> K" "k \<in> dom (selected st1)" "k \<notin> dom (selected st)" by auto
      with progress have "K - dom (selected st1) \<subset> K - dom (selected st)" by auto
      with K(1) less.prems(2) have "card (K - dom (selected st1)) < n"
        by (meson finite_Diff psubset_card_mono order_less_le_trans)
      moreover have "item_key ` set (frontier_next st1) \<subseteq> K" using progress by simp
      ultimately have "\<exists>r. resolve_bfs sources (Suc d) (frontier_next st1) st1 = Some r"
        using less.IH by blast
      with bfs show ?thesis by simp
    qed
  qed
qed

section \<open>The contract of a package source\<close>

text \<open>
  What resolution relies on when it asks one source: metadata belongs to the coordinates asked
  for, and every listed version has metadata.
\<close>

locale package_source =
  fixes src :: source
  assumes metadata_own: "GetMetadata src c = Inr (Some m) \<Longrightarrow> Key (meta_coordinates m) = Key c"
    and listed_known: "ListVersions src g a = Inr vs \<Longrightarrow> v \<in> set vs \<Longrightarrow>
      \<exists>m. GetMetadata src (NewCoordinates g a v) = Inr (Some m)"
begin

text \<open>A range the source can satisfy resolves to a version whose metadata the source has.\<close>

lemma range_has_metadata:
  assumes "ParseVersionSpec (Version c) = Some spec" and "resolveRange c [src] = Inr (Some c')"
  shows "\<exists>m. metadataFrom [src] c' = Inr (Some (m, source_name src)) \<and> Key (meta_coordinates m) = Key c"
proof -
  obtain vs where vs: "ListVersions src (GroupID c) (ArtifactID c) = Inr vs" and ne: "SelectVersion spec vs \<noteq> []"
    and c': "c' = NewCoordinates (GroupID c) (ArtifactID c) (SelectVersion spec vs)"
    using assms by (auto simp: resolveRange_def Let_def split: sum.splits if_splits)
  have "foldl (select_step spec) b xs = b \<or> foldl (select_step spec) b xs \<in> set xs" for b and xs :: "string list"
  proof (induction xs arbitrary: b)
    case (Cons v xs)
    have "select_step spec b v \<in> {b, v}" by (simp add: select_step_def)
    with Cons.IH [of "select_step spec b v"] show ?case by auto
  qed simp
  then have "SelectVersion spec vs \<in> set vs" using ne unfolding SelectVersion_def by metis
  from listed_known [OF vs this] obtain m where "GetMetadata src c' = Inr (Some m)"
    unfolding c' by blast
  moreover from metadata_own [OF this] have "Key (meta_coordinates m) = Key c"
    unfolding c' by (simp add: Key_def NewCoordinates_def)
  ultimately show ?thesis by simp
qed

end

text \<open>The in-memory source, as \<open>NewInMemoryPackageSource\<close> builds it, meets the contract.\<close>

definition mem_inv :: "InMemoryPackageSource \<Rightarrow> bool" where
  "mem_inv s \<longleftrightarrow> (\<forall>k. \<forall>p \<in> set (byKey s k). Key (meta_coordinates p) = k)
     \<and> set (keys s) = {k. byKey s k \<noteq> []} \<and> distinct (keys s)"

lemma mem_inv_add: "mem_inv s \<Longrightarrow> mem_inv (mem_add s p)"
  unfolding mem_inv_def mem_add_def Let_def by auto

lemma mem_inv_foldl: "mem_inv s \<Longrightarrow> mem_inv (foldl mem_add s pkgs)"
  by (induction pkgs arbitrary: s) (simp_all add: mem_inv_add)

lemma mem_inv_new: "mem_inv (NewInMemoryPackageSource name pkgs)"
  unfolding NewInMemoryPackageSource_def by (rule mem_inv_foldl) (simp add: mem_inv_def)

lemma NewInMemoryPackageSource_name: "mem_name (NewInMemoryPackageSource name pkgs) = name"
proof -
  have "mem_name (foldl mem_add s pkgs) = mem_name s" for s
    by (induction pkgs arbitrary: s) (simp_all add: mem_add_def Let_def)
  then show ?thesis by (simp add: NewInMemoryPackageSource_def)
qed

lemma Key_NewCoordinates: "Key (NewCoordinates g a v) = Key (NewCoordinates g a w)"
  by (simp add: Key_def NewCoordinates_def)

lemma CoordinateString_Key: "CoordinateString c = Key c @ '':'' @ Version c"
  by (simp add: CoordinateString_def Key_def)

interpretation mem: package_source "mem_source (NewInMemoryPackageSource name pkgs)" for name pkgs
proof
  let ?s = "NewInMemoryPackageSource name pkgs"
  note inv = mem_inv_new [of name pkgs]
  show "Key (meta_coordinates m) = Key c" if "GetMetadata (mem_source ?s) c = Inr (Some m)" for c m
    using that inv by (auto simp: mem_source_def mem_GetMetadata_def find_Some_iff mem_inv_def)
  show "\<exists>m. GetMetadata (mem_source ?s) (NewCoordinates g a v) = Inr (Some m)"
    if listed: "ListVersions (mem_source ?s) g a = Inr vs" "v \<in> set vs" for g a vs v
  proof -
    let ?k = "Key (NewCoordinates g a v)"
    have "vs = map (\<lambda>p. Version (meta_coordinates p)) (byKey ?s ?k)"
      using listed(1) unfolding Key_NewCoordinates [of g a v "[]"] by (simp add: mem_source_def mem_ListVersions_def)
    with listed(2) obtain p where p: "p \<in> set (byKey ?s ?k)" "v = Version (meta_coordinates p)" by auto
    have "Key (meta_coordinates p) = ?k" using inv p(1) unfolding mem_inv_def by blast
    then have "CoordinateString (meta_coordinates p) = CoordinateString (NewCoordinates g a v)"
      unfolding CoordinateString_Key p(2) by (simp add: NewCoordinates_def)
    with p(1) show ?thesis
      by (cases "List.find (\<lambda>p. CoordinateString (meta_coordinates p) = CoordinateString (NewCoordinates g a v)) (byKey ?s ?k)")
        (auto simp: mem_source_def mem_GetMetadata_def find_None_iff)
  qed
qed


section \<open>Properties\<close>

text \<open>A small repository: a diamond with a version clash, an optional dependency and a range.\<close>

definition demo_dep :: "string \<Rightarrow> string \<Rightarrow> string \<Rightarrow> DependencyDeclaration" where
  "demo_dep a v scope = \<lparr>dep_coordinates = NewCoordinates ''g'' a v, Scope = scope, Optional = False\<rparr>"

definition demo_package :: "string \<Rightarrow> string \<Rightarrow> DependencyDeclaration list \<Rightarrow> PackageMetadata" where
  "demo_package a v deps = \<lparr>meta_coordinates = NewCoordinates ''g'' a v, Description = [], Homepage = [],
     ScmURL = [], Dependencies = deps, Licenses = [], LicenseNormalized = []\<rparr>"

definition demo_source :: source where
  "demo_source = mem_source (NewInMemoryPackageSource ''mem''
     [demo_package ''app'' ''1'' [demo_dep ''b'' ''1'' [], demo_dep ''c'' ''1'' ''runtime''],
      demo_package ''b'' ''1'' [demo_dep ''d'' ''2'' []],
      demo_package ''c'' ''1'' [demo_dep ''d'' ''3'' [], demo_dep ''x'' ''1'' ''compile''],
      demo_package ''d'' ''2'' [], demo_package ''d'' ''3'' []])"

definition demo_roots :: "Coordinates list" where
  "demo_roots = [NewCoordinates ''g'' ''app'' ''[1,)'']"

definition summary :: "rstate \<Rightarrow> (string \<times> nat) list \<times> (string \<times> string \<times> string) list \<times> string list" where
  "summary st =
     (map (\<lambda>p. (CoordinateString (coordinates p), depth p)) (packages (resolution st)),
      map (\<lambda>x. (conflict_key x, Selected x, Rejected x)) (conflicts (resolution st)),
      map (\<lambda>m. CoordinateString (missing_coordinates m)) (missing (resolution st)))"

lemma demo_run:
  "\<exists>st. ResolveTransitive demo_roots [demo_source] = Some (Inr st)
   \<and> summary st = ([(''g:app:1'', 0), (''g:b:1'', 1), (''g:c:1'', 1), (''g:d:2'', 2)],
        [(''g:d'', ''2'', ''3'')], [''g:x:1''])"
proof -
  have "map_option (map_sum fst summary) (ResolveTransitive demo_roots [demo_source])
    = Some (Inr ([(''g:app:1'', 0), (''g:b:1'', 1), (''g:c:1'', 1), (''g:d:2'', 2)],
        [(''g:d'', ''2'', ''3'')], [''g:x:1'']))"
    by code_simp
  then obtain r where r: "ResolveTransitive demo_roots [demo_source] = Some r"
    "map_sum fst summary r = Inr ([(''g:app:1'', 0), (''g:b:1'', 1), (''g:c:1'', 1), (''g:d:2'', 2)],
        [(''g:d'', ''2'', ''3'')], [''g:x:1''])"
    by auto
  then show ?thesis by (cases r) auto
qed


lemma demo_runE:
  obtains st where "ResolveTransitive demo_roots [demo_source] = Some (Inr st)"
    and "map (\<lambda>p. (CoordinateString (coordinates p), depth p)) (packages (resolution st))
      = [(''g:app:1'', 0), (''g:b:1'', 1), (''g:c:1'', 1), (''g:d:2'', 2)]"
    and "map (\<lambda>x. (conflict_key x, Selected x, Rejected x)) (conflicts (resolution st)) = [(''g:d'', ''2'', ''3'')]"
proof -
  obtain st where st: "ResolveTransitive demo_roots [demo_source] = Some (Inr st)"
    and sum: "summary st = ([(''g:app:1'', 0), (''g:b:1'', 1), (''g:c:1'', 1), (''g:d:2'', 2)],
        [(''g:d'', ''2'', ''3'')], [''g:x:1''])"
    using demo_run by (elim exE conjE)
  from sum that [OF st] show ?thesis unfolding summary_def Pair_inject prod.inject by (elim conjE)
qed

lemma loop_inv_parts:
  assumes "ResolveTransitive roots sources = Some (Inr st)"
  obtains d :: nat where "table_inv sources st" "origin_inv roots d [] (st\<lparr>frontier_next := []\<rparr>)"
    "graph_inv roots d [] (st\<lparr>frontier_next := []\<rparr>)"
proof -
  obtain d where "loop_inv roots sources d [] (st\<lparr>frontier_next := []\<rparr>)"
    using ResolveTransitive_inv [OF assms] by blast
  then show ?thesis using that by (auto simp: loop_inv_def table_inv_def entries_def)
qed

text \<open>
  C6. Every returned resolution is a consistent table: no group:artifact is resolved twice,
  reported missing twice, or both; each resolved package carries the metadata and the name of the
  first source that knows its coordinates; and each recorded conflict names a rejected version
  that differs from the one chosen (resolved, or requested and found missing) for that key.
\<close>

theorem resolution_consistent:
  assumes "ResolveTransitive roots sources = Some (Inr st)"
  shows "distinct (map package_key (packages (resolution st)) @ map (\<lambda>m. Key (missing_coordinates m)) (missing (resolution st)))
    \<and> (\<forall>p \<in> set (packages (resolution st)). metadataFrom sources (coordinates p) = Inr (Some (metadata p, provider p)))
    \<and> (\<forall>x \<in> set (conflicts (resolution st)). Selected x \<noteq> Rejected x
         \<and> (conflict_key x, Selected x) \<in> (\<lambda>p. (package_key p, Version (coordinates p))) ` set (packages (resolution st))
             \<union> (\<lambda>m. (Key (missing_coordinates m), Version (missing_coordinates m))) ` set (missing (resolution st)))"
proof -
  have inv: "table_inv sources st" using loop_inv_parts [OF assms] by blast
  have "distinct (map fst (entries st))" using inv by (simp add: table_inv_def)
  then have dist: "distinct (map package_key (packages (resolution st)) @ map (\<lambda>m. Key (missing_coordinates m)) (missing (resolution st)))"
    by (simp add: entries_def comp_def)
  have "(conflict_key x, Selected x) \<in> set (entries st) \<and> Selected x \<noteq> Rejected x"
    if "x \<in> set (conflicts (resolution st))" for x
  proof -
    from inv that have "selected st (conflict_key x) = Some (Selected x)" "Selected x \<noteq> Rejected x"
      unfolding table_inv_def by blast+
    with inv show ?thesis by (simp add: table_inv_def)
  qed
  then have conf: "\<forall>x \<in> set (conflicts (resolution st)). Selected x \<noteq> Rejected x \<and> (conflict_key x, Selected x) \<in> set (entries st)"
    by blast
  have ents: "set (entries st) = (\<lambda>p. (package_key p, Version (coordinates p))) ` set (packages (resolution st))
      \<union> (\<lambda>m. (Key (missing_coordinates m), Version (missing_coordinates m))) ` set (missing (resolution st))"
    by (simp add: entries_def)
  have "\<forall>p \<in> set (packages (resolution st)). metadataFrom sources (coordinates p) = Inr (Some (metadata p, provider p))"
    using inv by (simp add: table_inv_def)
  with dist conf show ?thesis unfolding ents by blast
qed

theorem resolution_consistent_witness:
  "\<exists>st. ResolveTransitive demo_roots [demo_source] = Some (Inr st)
    \<and> map (\<lambda>x. (conflict_key x, Selected x, Rejected x)) (conflicts (resolution st)) = [(''g:d'', ''2'', ''3'')]
    \<and> distinct (map package_key (packages (resolution st)) @ map (\<lambda>m. Key (missing_coordinates m)) (missing (resolution st)))"
proof -
  obtain st where st: "ResolveTransitive demo_roots [demo_source] = Some (Inr st)"
    and conf: "map (\<lambda>x. (conflict_key x, Selected x, Rejected x)) (conflicts (resolution st)) = [(''g:d'', ''2'', ''3'')]"
    by (rule demo_runE)
  have "distinct (map package_key (packages (resolution st)) @ map (\<lambda>m. Key (missing_coordinates m)) (missing (resolution st)))"
    by (rule resolution_consistent [OF st, THEN conjunct1])
  with st conf show ?thesis by (intro exI [of _ st] conjI)
qed

text \<open>
  C7. Nothing is dropped: the key of every root, and of every non-optional compile or runtime
  dependency of every resolved package, is either resolved or reported missing.
\<close>

theorem resolution_complete:
  assumes "ResolveTransitive roots sources = Some (Inr st)"
  shows "Key ` set roots \<union> (\<Union>p \<in> set (packages (resolution st)). child_keys (metadata p))
    \<subseteq> package_key ` set (packages (resolution st))
        \<union> (\<lambda>m. Key (missing_coordinates m)) ` set (missing (resolution st))"
proof -
  obtain d where inv: "table_inv sources st" and graph: "graph_inv roots d [] (st\<lparr>frontier_next := []\<rparr>)"
    using loop_inv_parts [OF assms] by blast
  have ents: "dom (selected st) = package_key ` set (packages (resolution st))
        \<union> (\<lambda>m. Key (missing_coordinates m)) ` set (missing (resolution st))"
    unfolding table_inv_dom [OF inv] by (simp add: entries_def image_Un image_image)
  have "Key ` set roots \<subseteq> dom (selected st)"
    using graph by (auto simp: graph_inv_def root_inv_def)
  moreover have "child_keys (metadata p) \<subseteq> dom (selected st)" if "p \<in> set (packages (resolution st))" for p
  proof -
    have "child_ok d (dom (selected st)) {} {} p" "depth p \<le> d"
      using graph that by (auto simp: graph_inv_def child_inv_def depth_inv_def)
    then consider "Suc (depth p) < d" | "Suc (depth p) = d" | "depth p = d" by linarith
    then show ?thesis using \<open>child_ok _ _ _ _ _\<close> by cases (auto simp: child_ok_def)
  qed
  ultimately show ?thesis unfolding ents [symmetric] by blast
qed

theorem resolution_complete_witness:
  "\<exists>st. ResolveTransitive demo_roots [demo_source] = Some (Inr st)
    \<and> Key ` set demo_roots \<subseteq> package_key ` set (packages (resolution st))
        \<union> (\<lambda>m. Key (missing_coordinates m)) ` set (missing (resolution st))"
proof -
  obtain st where st: "ResolveTransitive demo_roots [demo_source] = Some (Inr st)"
    using demo_run by blast
  with resolution_complete [OF st] show ?thesis by blast
qed

text \<open>
  Nearest wins. A chain of length \<open>n\<close> leads from a root to a resolved package through the
  dependencies of resolved packages, matching by key.
\<close>

inductive chain :: "Coordinates list \<Rightarrow> ResolvedPackage list \<Rightarrow> nat \<Rightarrow> ResolvedPackage \<Rightarrow> bool" for roots ps where
  chain_root: "p \<in> set ps \<Longrightarrow> package_key p \<in> Key ` set roots \<Longrightarrow> chain roots ps 0 p"
| chain_dep: "chain roots ps n p \<Longrightarrow> q \<in> set ps \<Longrightarrow> package_key q \<in> child_keys (metadata p) \<Longrightarrow>
    chain roots ps (Suc n) q"

inductive_cases chain_zeroE: "chain roots ps 0 p"

lemma chain_member: "chain roots ps n p \<Longrightarrow> p \<in> set ps"
  by (induction rule: chain.induct) auto

lemma depth_le_chain:
  assumes "graph_inv roots d [] st" and "chain roots (packages (resolution st)) n p"
  shows "depth p \<le> n"
  using assms(2)
proof (induction rule: chain.induct)
  case (chain_root p)
  with assms(1) show ?case by (simp add: graph_inv_def root_inv_def)
next
  case (chain_dep n p q)
  then have "depth q \<le> Suc (depth p)"
    using assms(1) chain_member [OF chain_dep.hyps(1)] unfolding graph_inv_def near_inv_def by blast
  with chain_dep.IH show ?case by simp
qed

lemma chain_of_depth:
  assumes "origin_inv roots d [] st" and "p \<in> set (packages (resolution st))"
  shows "chain roots (packages (resolution st)) (depth p) p"
  using assms(2)
proof (induction "depth p" arbitrary: p)
  case 0
  have "requested roots st (depth p) (requestedBy p) (package_key p)"
    using assms(1) 0(2) by (simp add: origin_inv_def)
  with 0 have "package_key p \<in> Key ` set roots" by (simp add: requested_def split: nat.splits)
  with 0 show ?case by (metis chain_root)
next
  case (Suc n)
  have "requested roots st (depth p) (requestedBy p) (package_key p)"
    using assms(1) Suc.prems by (simp add: origin_inv_def)
  then have "parent_of st n (requestedBy p) (package_key p)"
    using Suc.hyps(2) [symmetric] by (simp add: requested_Suc)
  then obtain q where q: "q \<in> set (packages (resolution st))" "depth q = n" "package_key p \<in> child_keys (metadata q)"
    by (auto simp: parent_of_def)
  from Suc.hyps(1) [OF q(2) [symmetric] q(1)] q(2) have "chain roots (packages (resolution st)) n q" by simp
  from chain_dep [OF this Suc.prems q(3)] Suc.hyps(2) show ?case by simp
qed

text \<open>
  C8. Nearest wins: packages are listed by non-decreasing depth, and the depth of a resolved
  package is the length of the shortest chain of dependencies from a root to it.
\<close>

theorem resolution_nearest:
  assumes "ResolveTransitive roots sources = Some (Inr st)" and "p \<in> set (packages (resolution st))"
  shows "sorted (map depth (packages (resolution st)))
    \<and> chain roots (packages (resolution st)) (depth p) p
    \<and> (\<forall>n. chain roots (packages (resolution st)) n p \<longrightarrow> depth p \<le> n)"
proof -
  let ?st' = "st\<lparr>frontier_next := []\<rparr>"
  obtain d where origin: "origin_inv roots d [] ?st'" and graph: "graph_inv roots d [] ?st'"
    using loop_inv_parts [OF assms(1)] by blast
  have "sorted (map depth (packages (resolution st)))"
    using graph by (simp add: graph_inv_def depth_inv_def)
  moreover have "chain roots (packages (resolution st)) (depth p) p"
    using chain_of_depth [OF origin] assms(2) by simp
  moreover have "\<forall>n. chain roots (packages (resolution st)) n p \<longrightarrow> depth p \<le> n"
    using depth_le_chain [OF graph] by simp
  ultimately show ?thesis by blast
qed

theorem resolution_nearest_witness:
  "\<exists>st p. ResolveTransitive demo_roots [demo_source] = Some (Inr st) \<and> p \<in> set (packages (resolution st))
    \<and> CoordinateString (coordinates p) = ''g:d:2'' \<and> depth p = 2
    \<and> chain demo_roots (packages (resolution st)) 2 p"
proof -
  obtain st where st: "ResolveTransitive demo_roots [demo_source] = Some (Inr st)"
    and sum: "map (\<lambda>p. (CoordinateString (coordinates p), depth p)) (packages (resolution st))
      = [(''g:app:1'', 0), (''g:b:1'', 1), (''g:c:1'', 1), (''g:d:2'', 2)]"
    by (rule demo_runE)
  have "(''g:d:2'', 2) \<in> set (map (\<lambda>p. (CoordinateString (coordinates p), depth p)) (packages (resolution st)))"
    unfolding sum by simp
  then obtain p where p: "p \<in> set (packages (resolution st))" "CoordinateString (coordinates p) = ''g:d:2''" "depth p = 2"
    by auto
  have "chain demo_roots (packages (resolution st)) 2 p"
    using resolution_nearest [OF st p(1)] p(3) by simp
  with st p show ?thesis by blast
qed

lemma ResolveTransitive_returns:
  assumes "finite K" and "closed_keys sources K" and "Key ` set roots \<subseteq> K"
  shows "\<exists>r. ResolveTransitive roots sources = Some r"
proof -
  have "item_key ` set (map root_item roots) \<subseteq> K"
    using assms(3) by (auto simp: root_item_def)
  from resolve_bfs_returns [OF assms(1,2) this order.refl] show ?thesis
    unfolding ResolveTransitive_def .
qed




section \<open>Resolution against in-memory sources\<close>

definition never_fails :: "source list \<Rightarrow> bool" where
  "never_fails sources \<longleftrightarrow> (\<forall>s \<in> set sources. (\<forall>g a e. ListVersions s g a \<noteq> Inl e) \<and> (\<forall>c e. GetMetadata s c \<noteq> Inl e))"

lemma never_fails_metadataFrom: "never_fails ss \<Longrightarrow> metadataFrom ss c \<noteq> Inl e"
  by (induction ss) (auto simp: never_fails_def split: sum.splits option.splits)

lemma never_fails_range_from: "never_fails ss \<Longrightarrow> range_from ss spec c \<noteq> Inl e"
  by (induction ss) (auto simp: never_fails_def Let_def split: sum.splits)

lemma never_fails_item: "never_fails ss \<Longrightarrow> resolve_item ss d it st \<noteq> Inl e"
  using never_fails_metadataFrom [of ss] never_fails_range_from [of ss]
  by (auto simp: resolve_item_def resolveRange_def Let_def split: sum.splits option.splits)

lemma never_fails_level: "never_fails ss \<Longrightarrow> resolve_level ss d its st \<noteq> Inl e"
  using never_fails_item by (induction its arbitrary: st) (auto split: sum.splits)

lemma never_fails_bfs:
  assumes "resolve_bfs ss d frontier st = Some r" and "never_fails ss"
  shows "\<exists>st'. r = Inr st'"
proof -
  let ?P = "\<lambda>ss d frontier st r. never_fails ss \<longrightarrow> (\<exists>st'. r = Inr st')"
  have "?P ss d frontier st r"
  proof (rule resolve_bfs.raw_induct [where P = ?P, OF _ assms(1)], intro impI)
    fix bfs ss d frontier st r
    assume IH: "\<And>ss d frontier st r. bfs ss d frontier st = Some r \<Longrightarrow> ?P ss d frontier st r"
      and eq: "(if frontier = [] then Some (Inr st)
        else case resolve_level ss d frontier (st\<lparr>frontier_next := []\<rparr>) of
               Inl err \<Rightarrow> Some (Inl err) | Inr st' \<Rightarrow> bfs ss (Suc d) (frontier_next st') st') = Some r"
      and nf: "never_fails ss"
    show "\<exists>st'. r = Inr st'"
      using eq nf never_fails_level [OF nf] IH by (auto split: if_splits sum.splits)
  qed
  with assms(2) show ?thesis by blast
qed

abbreviation mem_sources :: "(string \<times> PackageMetadata list) list \<Rightarrow> source list" where
  "mem_sources reps \<equiv> map (\<lambda>(name, pkgs). mem_source (NewInMemoryPackageSource name pkgs)) reps"

lemma foldl_mem_add_pkgs:
  "p \<in> set (byKey (foldl mem_add s pkgs) k) \<Longrightarrow> p \<in> set (byKey s k) \<union> set pkgs"
  by (induction pkgs arbitrary: s) (fastforce simp: mem_add_def Let_def split: if_splits)+

lemma mem_sources_metadata:
  "metadataFrom (mem_sources reps) c = Inr (Some (meta, src)) \<Longrightarrow> \<exists>pkgs \<in> snd ` set reps. meta \<in> set pkgs"
proof (induction reps)
  case (Cons rep reps)
  obtain name pkgs where rep: "rep = (name, pkgs)" by (cases rep)
  let ?s = "NewInMemoryPackageSource name pkgs"
  show ?case
  proof (cases "List.find (\<lambda>p. CoordinateString (meta_coordinates p) = CoordinateString c) (byKey ?s (Key c))")
    case None
    with Cons rep show ?thesis by (simp add: mem_source_def mem_GetMetadata_def)
  next
    case (Some m)
    then have "m \<in> set (byKey ?s (Key c))" by (auto simp: find_Some_iff)
    then have "m \<in> set pkgs"
      unfolding NewInMemoryPackageSource_def by (auto dest: foldl_mem_add_pkgs)
    with Some Cons.prems rep show ?thesis by (simp add: mem_source_def mem_GetMetadata_def)
  qed
qed simp

text \<open>
  Against in-memory sources resolution always returns and never fails: for any roots and any
  list of such sources, cyclic dependencies included, it ends with a resolution.
\<close>

theorem ResolveTransitive_in_memory:
  "\<exists>st. ResolveTransitive roots (mem_sources reps) = Some (Inr st)"
proof -
  define K where "K = Key ` set roots \<union> (\<Union>pkgs \<in> snd ` set reps. \<Union>m \<in> set pkgs. child_keys m)"
  have fin_child: "finite (child_keys m)" for m
    unfolding child_keys_def by (rule finite_subset [of _ "(\<lambda>d. Key (dep_coordinates d)) ` set (Dependencies m)"]) auto
  have fin: "finite K" by (auto simp: K_def fin_child)
  have "closed_keys (mem_sources reps) K"
    unfolding closed_keys_def
  proof (intro allI impI)
    fix c meta src
    assume "Key c \<in> K \<and> metadataFrom (mem_sources reps) c = Inr (Some (meta, src))"
    then obtain pkgs where "pkgs \<in> snd ` set reps" "meta \<in> set pkgs"
      using mem_sources_metadata by blast
    then show "child_keys meta \<subseteq> K" unfolding K_def by blast
  qed
  with fin have "\<exists>r. ResolveTransitive roots (mem_sources reps) = Some r"
    by (rule ResolveTransitive_returns) (simp add: K_def)
  then obtain r where r: "ResolveTransitive roots (mem_sources reps) = Some r" ..
  have "never_fails (mem_sources reps)"
    by (auto simp: never_fails_def mem_source_def mem_ListVersions_def mem_GetMetadata_def)
  with r show ?thesis unfolding ResolveTransitive_def by (metis never_fails_bfs)
qed

text \<open>
  A version range that resolves against an in-memory source resolves to a version of the same
  package for which that source has metadata, so a satisfiable range is never reported missing.
\<close>

theorem resolveRange_in_memory:
  assumes "ParseVersionSpec (Version c) = Some spec"
    and "resolveRange c [mem_source (NewInMemoryPackageSource name pkgs)] = Inr (Some c')"
  shows "\<exists>m. metadataFrom [mem_source (NewInMemoryPackageSource name pkgs)] c' = Inr (Some (m, name))
    \<and> Key (meta_coordinates m) = Key c"
  using mem.range_has_metadata [OF assms] by (simp add: mem_source_def NewInMemoryPackageSource_name)

theorem resolveRange_in_memory_witness:
  "\<exists>m. metadataFrom [demo_source] (NewCoordinates ''g'' ''d'' ''3'') = Inr (Some (m, ''mem''))
    \<and> Key (meta_coordinates m) = ''g:d''"
proof -
  have spec: "ParseVersionSpec (Version (NewCoordinates ''g'' ''d'' ''[2,]'')) \<noteq> None" by code_simp
  have range: "resolveRange (NewCoordinates ''g'' ''d'' ''[2,]'') [demo_source] = Inr (Some (NewCoordinates ''g'' ''d'' ''3''))"
    by code_simp
  have key: "Key (NewCoordinates ''g'' ''d'' ''[2,]'') = ''g:d''" by code_simp
  from spec obtain sp where sp: "ParseVersionSpec (Version (NewCoordinates ''g'' ''d'' ''[2,]'')) = Some sp" by blast
  show ?thesis
    using resolveRange_in_memory [OF sp range [unfolded demo_source_def]] key
    unfolding demo_source_def by simp
qed

end
