(* ===== verification/UpdatePlan.thy ===== *)
theory UpdatePlan
  imports ResolveCorrect
begin

text \<open>
  Version selection for \<open>cappu add\<close>, \<open>cappu update\<close> and \<open>cappu outdated\<close>:
  \<open>togo/internal/install/plan.go\<close>, with the root helpers of \<open>togo/internal/sources/sources.go\<close>
  and the \<open>Dependencies\<close> section of \<open>togo/internal/config/config.go\<close>. A Go map is an association
  list whose keys are distinct; iteration is over its sorted keys, as in the code.
  Resolution may not return, so every planner's result is an \<open>option\<close> around Go's (value, error).
\<close>

section \<open>The configured dependencies\<close>

type_synonym dep_map = "(string \<times> string) list"

record Dependencies =
  API :: dep_map
  Implementation :: dep_map
  AnnotationProcessor :: dep_map
  TestImplementation :: dep_map

definition sortedKeys :: "dep_map \<Rightarrow> string list" where
  "sortedKeys m = sort (map fst m)"

definition entry_of :: "dep_map \<Rightarrow> string \<Rightarrow> string" where
  "entry_of m k = (case map_of m k of None \<Rightarrow> [] | Some v \<Rightarrow> v)"

definition set_entry :: "dep_map \<Rightarrow> string \<Rightarrow> string \<Rightarrow> dep_map" where
  "set_entry m k v = (if k \<in> fst ` set m then map (\<lambda>(k', v'). if k' = k then (k', v) else (k', v')) m
                      else m @ [(k, v)])"

text \<open>\<open>strings.Cut(key, ":")\<close>.\<close>

definition cut_colon :: "string \<Rightarrow> string \<times> string" where
  "cut_colon key =
     (case index_where ((=) CHR '':'') key of
        None \<Rightarrow> (key, [])
      | Some i \<Rightarrow> (take i key, drop (Suc i) key))"

definition RootsOf :: "dep_map \<Rightarrow> Coordinates list" where
  "RootsOf m = map (\<lambda>key. let (g, a) = cut_colon key in NewCoordinates g a (entry_of m key)) (sortedKeys m)"

definition CompileRoots :: "Dependencies \<Rightarrow> Coordinates list" where
  "CompileRoots cfg = RootsOf (API cfg) @ RootsOf (Implementation cfg)"

definition ProcessorRoots :: "Dependencies \<Rightarrow> Coordinates list" where
  "ProcessorRoots cfg = RootsOf (AnnotationProcessor cfg)"

definition TestRoots :: "Dependencies \<Rightarrow> Coordinates list" where
  "TestRoots cfg = RootsOf (TestImplementation cfg)"

text \<open>\<open>config.Configurations\<close>, and the map a configuration names.\<close>

definition Configurations :: "string list" where
  "Configurations = [''api'', ''implementation'', ''annotationProcessor'', ''testImplementation'']"

definition section_of :: "Dependencies \<Rightarrow> string \<Rightarrow> dep_map" where
  "section_of w conf =
     (if conf = ''api'' then API w else if conf = ''implementation'' then Implementation w
      else if conf = ''annotationProcessor'' then AnnotationProcessor w
      else if conf = ''testImplementation'' then TestImplementation w else [])"

definition set_section :: "Dependencies \<Rightarrow> string \<Rightarrow> dep_map \<Rightarrow> Dependencies" where
  "set_section w conf m =
     (if conf = ''api'' then w\<lparr>API := m\<rparr> else if conf = ''implementation'' then w\<lparr>Implementation := m\<rparr>
      else if conf = ''annotationProcessor'' then w\<lparr>AnnotationProcessor := m\<rparr>
      else if conf = ''testImplementation'' then w\<lparr>TestImplementation := m\<rparr> else w)"

section \<open>Version predicates\<close>

definition prerelease_words :: "string list" where
  "prerelease_words = [''alpha'', ''beta'', ''rc'', ''cr'', ''snapshot'', ''milestone'', ''preview'', ''ea'', ''dev'']"

text \<open>What the second group of the \<open>prerelease\<close> pattern accepts at a position, ignoring case.\<close>

definition qualifier_here :: "string \<Rightarrow> bool" where
  "qualifier_here s =
     (let l = to_lower s
      in (\<exists>w \<in> set prerelease_words. prefix w l)
       \<or> (prefix ''m'' l \<and> tl l \<noteq> [] \<and> is_digit (hd (tl l))))"

fun prerelease_after :: "string \<Rightarrow> bool" where
  "prerelease_after [] = False"
| "prerelease_after (c # cs) =
     ((c \<in> {CHR ''-'', CHR ''.'', CHR ''_''} \<and> qualifier_here cs) \<or> prerelease_after cs)"

definition isStableVersion :: "string \<Rightarrow> bool" where
  "isStableVersion version = (\<not> (qualifier_here version \<or> prerelease_after version))"

definition majorOf :: "string \<Rightarrow> string" where
  "majorOf version =
     (case index_where (\<lambda>c. c \<in> {CHR ''.'', CHR ''+'', CHR ''-''}) version of
        None \<Rightarrow> version | Some i \<Rightarrow> take i version)"

text \<open>\<open>slices.Index\<close>.\<close>

fun slice_index :: "'a list \<Rightarrow> 'a \<Rightarrow> nat option" where
  "slice_index [] x = None"
| "slice_index (y # ys) x = (if y = x then Some 0 else map_option Suc (slice_index ys x))"

section \<open>The planners\<close>

definition pickAttempts :: nat where
  "pickAttempts = 5"

definition updateAttempts :: nat where
  "updateAttempts = 5"

fun listVersions :: "string \<Rightarrow> string \<Rightarrow> source list \<Rightarrow> string + string list" where
  "listVersions g a [] = Inr []"
| "listVersions g a (s # ss) =
     (case ListVersions s g a of
        Inl err \<Rightarrow> Inl err
      | Inr versions \<Rightarrow> if versions \<noteq> [] then Inr versions else listVersions g a ss)"

definition clean :: "rstate \<Rightarrow> bool" where
  "clean st \<longleftrightarrow> conflicts (resolution st) = [] \<and> missing (resolution st) = []"

text \<open>
  The candidate loop both planners run: the first version whose roots resolve without conflict and
  completely; \<open>Inr None\<close> when the loop runs out of candidates.
\<close>

fun first_clean :: "(string \<Rightarrow> Coordinates list) \<Rightarrow> source list \<Rightarrow> string list \<Rightarrow> (string + string option) option" where
  "first_clean roots srcs [] = Some (Inr None)"
| "first_clean roots srcs (v # vs) =
     (case ResolveTransitive (roots v) srcs of
        None \<Rightarrow> None
      | Some (Inl (err, _)) \<Rightarrow> Some (Inl err)
      | Some (Inr st) \<Rightarrow> if clean st then Some (Inr (Some v)) else first_clean roots srcs vs)"

record PickedVersion =
  picked :: string
  Compatible :: bool

definition pick_roots :: "Dependencies \<Rightarrow> string \<Rightarrow> string \<Rightarrow> Coordinates list" where
  "pick_roots cfg key version =
     filter (\<lambda>c. Key c \<noteq> key) (CompileRoots cfg)
     @ [NewCoordinates (fst (cut_colon key)) (snd (cut_colon key)) version]"

definition PickAddVersion :: "Dependencies \<Rightarrow> string \<Rightarrow> string \<Rightarrow> source list \<Rightarrow> (string + PickedVersion option) option" where
  "PickAddVersion cfg key spec srcs =
     (case listVersions (fst (cut_colon key)) (snd (cut_colon key)) srcs of
        Inl err \<Rightarrow> Some (Inl err)
      | Inr published \<Rightarrow>
          (let candidates = MatchingVersions published spec
           in if candidates = [] then Some (Inr None)
              else case first_clean (pick_roots cfg key) srcs (take pickAttempts candidates) of
                     None \<Rightarrow> None
                   | Some (Inl err) \<Rightarrow> Some (Inl err)
                   | Some (Inr (Some v)) \<Rightarrow> Some (Inr (Some \<lparr>picked = v, Compatible = True\<rparr>))
                   | Some (Inr None) \<Rightarrow> Some (Inr (Some \<lparr>picked = hd candidates, Compatible = False\<rparr>))))"

record DependencyBump =
  Configuration :: string
  bump_key :: string
  From :: string
  To :: string

definition withVersion :: "Coordinates list \<Rightarrow> string \<Rightarrow> string \<Rightarrow> Coordinates list" where
  "withVersion roots key version =
     map (\<lambda>c. if Key c = key then NewCoordinates (GroupID c) (ArtifactID c) version else c) roots"

definition graphRoots :: "Dependencies \<Rightarrow> string \<Rightarrow> Coordinates list" where
  "graphRoots working conf =
     (if conf = ''annotationProcessor'' then RootsOf (AnnotationProcessor working)
      else if conf = ''testImplementation'' then RootsOf (TestImplementation working)
      else RootsOf (API working) @ RootsOf (Implementation working))"

text \<open>The published versions newer than \<open>current\<close>, newest first; \<open>None\<close> when its place is unknown.\<close>

definition newer_than :: "string list \<Rightarrow> string \<Rightarrow> string list option" where
  "newer_than published current =
     (let order = MatchingVersions published []
      in map_option (\<lambda>i. take i order) (slice_index order current))"

text \<open>The body of the inner loop of \<open>PlanUpdates\<close>: the working maps and the bumps so far.\<close>

definition plan_key :: "source list \<Rightarrow> string \<Rightarrow> string \<Rightarrow> Dependencies \<times> DependencyBump list \<Rightarrow>
    (string + Dependencies \<times> DependencyBump list) option" where
  "plan_key srcs conf key st =
     (let working = fst st; bumps = snd st;
          current = entry_of (section_of working conf) key
      in case listVersions (fst (cut_colon key)) (snd (cut_colon key)) srcs of
           Inl err \<Rightarrow> Some (Inl err)
         | Inr published \<Rightarrow>
             (case newer_than published current of
                None \<Rightarrow> Some (Inr st)
              | Some newest \<Rightarrow>
                  (let newer = filter (\<lambda>v. isStableVersion v \<and> majorOf v = majorOf current) newest
                   in case first_clean (withVersion (graphRoots working conf) key) srcs (take updateAttempts newer) of
                        None \<Rightarrow> None
                      | Some (Inl err) \<Rightarrow> Some (Inl err)
                      | Some (Inr None) \<Rightarrow> Some (Inr st)
                      | Some (Inr (Some candidate)) \<Rightarrow>
                          Some (Inr (set_section working conf (set_entry (section_of working conf) key candidate),
                            bumps @ [\<lparr>Configuration = conf, bump_key = key, From = current, To = candidate\<rparr>])))))"

fun plan_keys :: "source list \<Rightarrow> string \<Rightarrow> string list \<Rightarrow> Dependencies \<times> DependencyBump list \<Rightarrow>
    (string + Dependencies \<times> DependencyBump list) option" where
  "plan_keys srcs conf [] st = Some (Inr st)"
| "plan_keys srcs conf (k # ks) st =
     (case plan_key srcs conf k st of
        None \<Rightarrow> None
      | Some (Inl err) \<Rightarrow> Some (Inl err)
      | Some (Inr st') \<Rightarrow> plan_keys srcs conf ks st')"

fun plan_configs :: "source list \<Rightarrow> string list \<Rightarrow> Dependencies \<times> DependencyBump list \<Rightarrow>
    (string + Dependencies \<times> DependencyBump list) option" where
  "plan_configs srcs [] st = Some (Inr st)"
| "plan_configs srcs (c # cs) st =
     (case plan_keys srcs c (sortedKeys (section_of (fst st) c)) st of
        None \<Rightarrow> None
      | Some (Inl err) \<Rightarrow> Some (Inl err)
      | Some (Inr st') \<Rightarrow> plan_configs srcs cs st')"

definition PlanUpdates :: "Dependencies \<Rightarrow> source list \<Rightarrow> (string + DependencyBump list) option" where
  "PlanUpdates cfg srcs = map_option (map_sum id snd) (plan_configs srcs Configurations (cfg, []))"

record OutdatedDependency =
  out_configuration :: string
  out_key :: string
  Current :: string
  Wanted :: string
  Latest :: string

definition outdated_row :: "string \<Rightarrow> string \<Rightarrow> string \<Rightarrow> string list \<Rightarrow> OutdatedDependency option" where
  "outdated_row conf key current published =
     (case newer_than published current of
        None \<Rightarrow> None
      | Some newest \<Rightarrow>
          (let newer = filter isStableVersion newest
           in if newer = [] then None
              else Some \<lparr>out_configuration = conf, out_key = key, Current = current,
                Wanted = (case List.find (\<lambda>v. majorOf v = majorOf current) newer of
                            None \<Rightarrow> [] | Some v \<Rightarrow> if v \<noteq> current then v else []),
                Latest = (if hd newer \<noteq> current then hd newer else [])\<rparr>))"

fun outdated_keys :: "source list \<Rightarrow> string \<Rightarrow> dep_map \<Rightarrow> string list \<Rightarrow> string + OutdatedDependency list" where
  "outdated_keys srcs conf m [] = Inr []"
| "outdated_keys srcs conf m (k # ks) =
     (case listVersions (fst (cut_colon k)) (snd (cut_colon k)) srcs of
        Inl err \<Rightarrow> Inl err
      | Inr published \<Rightarrow>
          (case outdated_keys srcs conf m ks of
             Inl err \<Rightarrow> Inl err
           | Inr rows \<Rightarrow>
               Inr (case outdated_row conf k (entry_of m k) published of None \<Rightarrow> rows | Some r \<Rightarrow> r # rows)))"

fun outdated_sections :: "source list \<Rightarrow> Dependencies \<Rightarrow> string list \<Rightarrow> string + OutdatedDependency list" where
  "outdated_sections srcs cfg [] = Inr []"
| "outdated_sections srcs cfg (c # cs) =
     (case outdated_keys srcs c (section_of cfg c) (sortedKeys (section_of cfg c)) of
        Inl err \<Rightarrow> Inl err
      | Inr rows \<Rightarrow>
          (case outdated_sections srcs cfg cs of Inl err \<Rightarrow> Inl err | Inr rest \<Rightarrow> Inr (rows @ rest)))"

definition PlanOutdated :: "Dependencies \<Rightarrow> source list \<Rightarrow> string + OutdatedDependency list" where
  "PlanOutdated cfg srcs = outdated_sections srcs cfg Configurations"

end
