(* ===== verification/UpdateCorrect.thy ===== *)
theory UpdateCorrect
  imports UpdatePlan
begin

text \<open>
  What the planners of \<open>UpdatePlan\<close> guarantee. Both rest on one fact about the candidate loop,
  \<open>first_clean\<close>: the version it returns resolves without conflict and completely, and no earlier
  candidate does. The invariant of the update loop says which working set each bump was tried on.
\<close>

section \<open>The candidate loop\<close>

definition resolves_clean :: "source list \<Rightarrow> Coordinates list \<Rightarrow> bool" where
  "resolves_clean srcs roots \<longleftrightarrow> (\<exists>st. ResolveTransitive roots srcs = Some (Inr st) \<and> clean st)"

definition resolves_dirty :: "source list \<Rightarrow> Coordinates list \<Rightarrow> bool" where
  "resolves_dirty srcs roots \<longleftrightarrow> (\<exists>st. ResolveTransitive roots srcs = Some (Inr st) \<and> \<not> clean st)"

lemma first_clean_Some:
  "first_clean roots srcs vs = Some (Inr (Some v)) \<Longrightarrow>
   \<exists>pre post. vs = pre @ v # post \<and> resolves_clean srcs (roots v) \<and> (\<forall>u \<in> set pre. resolves_dirty srcs (roots u))"
proof (induction vs)
  case (Cons u us)
  from Cons.prems obtain st where st: "ResolveTransitive (roots u) srcs = Some (Inr st)"
    by (auto split: option.splits sum.splits)
  show ?case
  proof (cases "clean st")
    case True
    with Cons.prems st have "u = v" by simp
    moreover have "resolves_clean srcs (roots u)" using st True by (auto simp: resolves_clean_def)
    ultimately show ?thesis by (intro exI [of _ "[]"] exI [of _ us]) simp
  next
    case False
    with Cons.prems st have "first_clean roots srcs us = Some (Inr (Some v))" by simp
    from Cons.IH [OF this] obtain pre post where us: "us = pre @ v # post" "resolves_clean srcs (roots v)"
      "\<forall>u \<in> set pre. resolves_dirty srcs (roots u)" by blast
    have "resolves_dirty srcs (roots u)" using st False by (auto simp: resolves_dirty_def)
    with us show ?thesis by (intro exI [of _ "u # pre"] exI [of _ post]) simp
  qed
qed simp

lemma first_clean_None:
  "first_clean roots srcs vs = Some (Inr None) \<Longrightarrow> u \<in> set vs \<Longrightarrow> resolves_dirty srcs (roots u)"
proof (induction vs)
  case (Cons v vs)
  from Cons.prems obtain st where st: "ResolveTransitive (roots v) srcs = Some (Inr st)" "\<not> clean st"
    "first_clean roots srcs vs = Some (Inr None)"
    by (auto split: option.splits sum.splits if_splits)
  then have "resolves_dirty srcs (roots v)" by (auto simp: resolves_dirty_def)
  with Cons st(3) show ?case by auto
qed simp

section \<open>\<open>cappu add\<close>\<close>


text \<open>The witness adds \<open>g:d\<close> to a project whose \<open>g:b\<close> already brings version 2 of it.\<close>

definition demo_config :: UpdatePlan.Dependencies where
  "demo_config = \<lparr>API = [], Implementation = [(''g:b'', ''1'')], AnnotationProcessor = [], TestImplementation = []\<rparr>"


section \<open>\<open>cappu update\<close>\<close>

text \<open>The working set after some bumps, and what holds of one bump made on top of others.\<close>

definition apply_bump :: "UpdatePlan.Dependencies \<Rightarrow> DependencyBump \<Rightarrow> UpdatePlan.Dependencies" where
  "apply_bump w b = set_section w (Configuration b) (set_entry (section_of w (Configuration b)) (bump_key b) (To b))"

abbreviation apply_bumps :: "UpdatePlan.Dependencies \<Rightarrow> DependencyBump list \<Rightarrow> UpdatePlan.Dependencies" where
  "apply_bumps \<equiv> foldl apply_bump"

definition bump_slot :: "DependencyBump \<Rightarrow> string \<times> string" where
  "bump_slot b = (Configuration b, bump_key b)"

definition published_after :: "source list \<Rightarrow> string \<Rightarrow> string \<Rightarrow> string \<Rightarrow> bool" where
  "published_after srcs key old new \<longleftrightarrow>
     (\<exists>older newer. listVersions (fst (cut_colon key)) (snd (cut_colon key)) srcs = Inr (older @ old # newer)
        \<and> old \<notin> set newer \<and> new \<in> set newer)"

definition bump_ok :: "source list \<Rightarrow> UpdatePlan.Dependencies \<Rightarrow> DependencyBump list \<Rightarrow> DependencyBump \<Rightarrow> bool" where
  "bump_ok srcs cfg before b \<longleftrightarrow>
     Configuration b \<in> set Configurations
     \<and> map_of (section_of cfg (Configuration b)) (bump_key b) = Some (From b)
     \<and> isStableVersion (To b) \<and> majorOf (To b) = majorOf (From b)
     \<and> published_after srcs (bump_key b) (From b) (To b)
     \<and> resolves_clean srcs (withVersion (graphRoots (apply_bumps cfg before) (Configuration b)) (bump_key b) (To b))"

definition bumps_ok :: "source list \<Rightarrow> UpdatePlan.Dependencies \<Rightarrow> DependencyBump list \<Rightarrow> bool" where
  "bumps_ok srcs cfg bumps \<longleftrightarrow> (\<forall>before b after. bumps = before @ b # after \<longrightarrow> bump_ok srcs cfg before b)"

lemma bumps_ok_Nil [simp]: "bumps_ok srcs cfg []"
  by (simp add: bumps_ok_def)

lemma bumps_ok_snoc:
  assumes "bumps_ok srcs cfg bs" and "bump_ok srcs cfg bs b"
  shows "bumps_ok srcs cfg (bs @ [b])"
  unfolding bumps_ok_def
proof (intro allI impI)
  fix before x after assume split: "bs @ [b] = before @ x # after"
  show "bump_ok srcs cfg before x"
  proof (cases after rule: rev_cases)
    case Nil
    with split assms(2) show ?thesis by simp
  next
    case (snoc ys y)
    with split have "bs = before @ x # ys" by simp
    with assms(1) show ?thesis unfolding bumps_ok_def by blast
  qed
qed

lemma bumps_ok_bump: "bumps_ok srcs cfg bs \<Longrightarrow> b \<in> set bs \<Longrightarrow> Configuration b \<in> set Configurations"
  unfolding bumps_ok_def bump_ok_def by (metis split_list)

lemma section_of_set_section:
  "c \<in> set Configurations \<Longrightarrow> section_of (set_section w c m) c' = (if c' = c then m else section_of w c')"
  by (auto simp: Configurations_def section_of_def set_section_def)

lemma entry_of_set_entry:
  "entry_of (set_entry m k v) k' = (if k' = k then v else entry_of m k')"
proof (cases "k \<in> fst ` set m")
  case True
  have "map_of (map (\<lambda>(k', v'). if k' = k then (k', v) else (k', v')) m) k'
      = (if k' = k then Some v else map_of m k')" if "k \<in> fst ` set m" for m :: "(string \<times> string) list"
    using that
  proof (induction m)
    case (Cons e m)
    obtain a b where e: "e = (a, b)" by (cases e)
    show ?case
    proof (cases "k \<in> fst ` set m")
      case True
      with Cons.IH e show ?thesis by auto
    next
      case False
      then have "map_of (map (\<lambda>(k', v'). if k' = k then (k', v) else (k', v')) m) = map_of m"
        by (intro arg_cong [where f = map_of] map_idI) force
      with Cons.prems e False show ?thesis by auto
    qed
  qed simp
  from this [OF True] True show ?thesis by (simp add: entry_of_def set_entry_def)
next
  case False
  then show ?thesis by (auto simp: entry_of_def set_entry_def map_add_def split: option.splits)
    (metis domI dom_map_of_conv_image_fst)+
qed

lemma apply_bumps_section:
  assumes "bumps_ok srcs cfg bs" and "\<forall>b \<in> set bs. Configuration b \<noteq> c"
  shows "section_of (apply_bumps cfg bs) c = section_of cfg c"
proof -
  have "\<forall>b \<in> set bs. Configuration b \<in> set Configurations"
    using bumps_ok_bump [OF assms(1)] by blast
  with assms(2) show ?thesis
    by (induction bs rule: rev_induct) (auto simp: apply_bump_def section_of_set_section)
qed

lemma apply_bumps_entry:
  assumes "bumps_ok srcs cfg bs" and "(c, k) \<notin> bump_slot ` set bs"
  shows "entry_of (section_of (apply_bumps cfg bs) c) k = entry_of (section_of cfg c) k"
proof -
  have "\<forall>b \<in> set bs. Configuration b \<in> set Configurations"
    using bumps_ok_bump [OF assms(1)] by blast
  with assms(2) show ?thesis
    by (induction bs rule: rev_induct)
      (auto simp: apply_bump_def section_of_set_section entry_of_set_entry bump_slot_def)
qed

lemma slice_index_Some:
  "slice_index xs x = Some i \<Longrightarrow> \<exists>pre post. xs = pre @ x # post \<and> length pre = i \<and> x \<notin> set pre"
proof (induction xs arbitrary: i)
  case (Cons y ys)
  show ?case
  proof (cases "y = x")
    case True
    with Cons.prems show ?thesis by (intro exI [of _ "[]"] exI [of _ ys]) simp
  next
    case False
    with Cons.prems obtain j where j: "slice_index ys x = Some j" "i = Suc j" by auto
    with Cons.IH obtain pre post where "ys = pre @ x # post \<and> length pre = j \<and> x \<notin> set pre" by blast
    with j False show ?thesis by (intro exI [of _ "y # pre"] exI [of _ post]) simp
  qed
qed simp

lemma newer_than_Some:
  assumes "newer_than published current = Some newest"
  shows "\<exists>older. published = older @ current # rev newest \<and> current \<notin> set newest"
proof -
  from assms obtain i where i: "slice_index (rev published) current = Some i" "newest = take i (rev published)"
    by (auto simp: newer_than_def MatchingVersions_def Let_def)
  from slice_index_Some [OF i(1)] obtain pre post
    where split: "rev published = pre @ current # post" "length pre = i" "current \<notin> set pre" by auto
  have newest: "newest = pre" using i(2) split(1,2) by simp
  have "published = rev post @ current # rev pre"
    using arg_cong [OF split(1), of rev] by simp
  with split(3) show ?thesis unfolding newest by (intro exI [of _ "rev post"]) simp
qed

text \<open>The invariant of the update loop, for the slots still to visit.\<close>

definition plan_inv :: "source list \<Rightarrow> UpdatePlan.Dependencies \<Rightarrow> (string \<times> string) set \<Rightarrow>
    UpdatePlan.Dependencies \<times> DependencyBump list \<Rightarrow> bool" where
  "plan_inv srcs cfg todo st \<longleftrightarrow>
     fst st = apply_bumps cfg (snd st) \<and> bumps_ok srcs cfg (snd st)
     \<and> distinct (map bump_slot (snd st)) \<and> todo \<inter> bump_slot ` set (snd st) = {}"

lemma plan_inv_mono: "plan_inv srcs cfg todo st \<Longrightarrow> todo' \<subseteq> todo \<Longrightarrow> plan_inv srcs cfg todo' st"
  unfolding plan_inv_def by blast

lemma plan_key_inv:
  assumes inv: "plan_inv srcs cfg (insert (c, k) todo) st" and new: "(c, k) \<notin> todo"
    and conf: "c \<in> set Configurations" and key: "k \<in> fst ` set (section_of cfg c)"
    and run: "plan_key srcs c k st = Some (Inr st')"
  shows "plan_inv srcs cfg todo st'"
proof (cases "st' = st")
  case True
  with inv show ?thesis by (auto intro: plan_inv_mono)
next
  case False
  let ?current = "entry_of (section_of (fst st) c) k"
  from run False obtain published newest v where
      pub: "listVersions (fst (cut_colon k)) (snd (cut_colon k)) srcs = Inr published"
      "newer_than published ?current = Some newest"
    and loop: "first_clean (withVersion (graphRoots (fst st) c) k) srcs
        (take updateAttempts (filter (\<lambda>v. isStableVersion v \<and> majorOf v = majorOf ?current) newest)) = Some (Inr (Some v))"
    and st': "st' = (set_section (fst st) c (set_entry (section_of (fst st) c) k v),
        snd st @ [\<lparr>Configuration = c, bump_key = k, From = ?current, To = v\<rparr>])"
    unfolding plan_key_def Let_def by (auto split: sum.splits option.splits)
  let ?b = "\<lparr>Configuration = c, bump_key = k, From = ?current, To = v\<rparr>"
  have bs: "bumps_ok srcs cfg (snd st)" "fst st = apply_bumps cfg (snd st)" "(c, k) \<notin> bump_slot ` set (snd st)"
    using inv by (auto simp: plan_inv_def)
  have current: "?current = entry_of (section_of cfg c) k"
    using apply_bumps_entry [OF bs(1,3)] bs(2) by simp
  from key obtain w where "map_of (section_of cfg c) k = Some w"
    by (metis dom_map_of_conv_image_fst domD)
  then have map: "map_of (section_of cfg c) k = Some ?current"
    unfolding current by (simp add: entry_of_def)
  from first_clean_Some [OF loop] obtain pre post
    where takes: "take updateAttempts (filter (\<lambda>v. isStableVersion v \<and> majorOf v = majorOf ?current) newest) = pre @ v # post"
    and ok: "resolves_clean srcs (withVersion (graphRoots (fst st) c) k v)" by blast
  have "v \<in> set (take updateAttempts (filter (\<lambda>v. isStableVersion v \<and> majorOf v = majorOf ?current) newest))"
    unfolding takes by simp
  then have "v \<in> set (filter (\<lambda>v. isStableVersion v \<and> majorOf v = majorOf ?current) newest)"
    by (rule in_set_takeD)
  then have v: "v \<in> set newest" "isStableVersion v" "majorOf v = majorOf ?current" by simp_all
  have "published_after srcs k ?current v"
    using newer_than_Some [OF pub(2)] pub(1) v(1) unfolding published_after_def by (metis set_rev)
  then have "bump_ok srcs cfg (snd st) ?b"
    using conf map v ok bs(2) by (simp add: bump_ok_def)
  with bs(1) have "bumps_ok srcs cfg (snd st @ [?b])" by (rule bumps_ok_snoc)
  moreover have "fst st' = apply_bumps cfg (snd st @ [?b])"
    using bs(2) by (simp add: st' apply_bump_def)
  ultimately show ?thesis
    using inv new by (auto simp: plan_inv_def st' bump_slot_def)
qed

lemma plan_keys_inv:
  assumes "plan_inv srcs cfg (Pair c ` set ks \<union> todo) st" and "distinct ks"
    and "todo \<inter> Pair c ` set ks = {}"
    and "c \<in> set Configurations" and "set ks \<subseteq> fst ` set (section_of cfg c)"
    and "plan_keys srcs c ks st = Some (Inr st')"
  shows "plan_inv srcs cfg todo st'"
  using assms
proof (induction ks arbitrary: st)
  case (Cons k ks)
  from Cons.prems obtain st1 where st1: "plan_key srcs c k st = Some (Inr st1)" "plan_keys srcs c ks st1 = Some (Inr st')"
    by (auto split: option.splits sum.splits)
  have "plan_inv srcs cfg (insert (c, k) (Pair c ` set ks \<union> todo)) st"
    using Cons.prems(1) by (rule plan_inv_mono) auto
  from plan_key_inv [OF this _ _ _ st1(1)] have "plan_inv srcs cfg (Pair c ` set ks \<union> todo) st1"
    using Cons.prems by auto
  from Cons.IH [OF this] Cons.prems st1(2) show ?case by auto
qed (auto intro: plan_inv_mono)

lemma set_sortedKeys [simp]: "set (sortedKeys m) = fst ` set m"
  by (simp add: sortedKeys_def)

lemma distinct_sortedKeys [simp]: "distinct (sortedKeys m) \<longleftrightarrow> distinct (map fst m)"
  by (simp add: sortedKeys_def)

definition keys_distinct :: "UpdatePlan.Dependencies \<Rightarrow> bool" where
  "keys_distinct cfg \<longleftrightarrow> (\<forall>c \<in> set Configurations. distinct (map fst (section_of cfg c)))"

lemma plan_configs_inv:
  assumes "plan_inv srcs cfg {s. fst s \<in> set cs} st" and "keys_distinct cfg"
    and "distinct cs" and "set cs \<subseteq> set Configurations"
    and "plan_configs srcs cs st = Some (Inr st')"
  shows "plan_inv srcs cfg {} st'"
  using assms
proof (induction cs arbitrary: st)
  case (Cons c cs)
  have bs: "bumps_ok srcs cfg (snd st)" "fst st = apply_bumps cfg (snd st)" "\<forall>b \<in> set (snd st). Configuration b \<noteq> c"
    using Cons.prems(1) by (force simp: plan_inv_def bump_slot_def)+
  have same: "section_of (fst st) c = section_of cfg c"
    using apply_bumps_section [OF bs(1,3)] bs(2) by simp
  from Cons.prems obtain st1 where st1: "plan_keys srcs c (sortedKeys (section_of cfg c)) st = Some (Inr st1)"
    "plan_configs srcs cs st1 = Some (Inr st')"
    unfolding same [symmetric] by (auto split: option.splits sum.splits)
  have "plan_inv srcs cfg (Pair c ` set (sortedKeys (section_of cfg c)) \<union> {s. fst s \<in> set cs}) st"
    using Cons.prems(1) by (rule plan_inv_mono) auto
  moreover have "distinct (sortedKeys (section_of cfg c))" "c \<in> set Configurations"
    using Cons.prems by (auto simp: keys_distinct_def)
  moreover have "{s. fst s \<in> set cs} \<inter> Pair c ` set (sortedKeys (section_of cfg c)) = {}"
    using Cons.prems(3) by auto
  ultimately have "plan_inv srcs cfg {s. fst s \<in> set cs} st1"
    using plan_keys_inv [OF _ _ _ _ _ st1(1)] by simp
  from Cons.IH [OF this] Cons.prems st1(2) show ?case by auto
qed (auto intro: plan_inv_mono)

lemma map_sum_Inr_iff: "map_sum f g x = Inr y \<longleftrightarrow> (\<exists>z. x = Inr z \<and> g z = y)"
  by (cases x) auto


text \<open>\<open>g:d\<close> can move from 2 to 3 only where \<open>g:b\<close> does not bring 2.\<close>

definition demo_update_config :: UpdatePlan.Dependencies where
  "demo_update_config = \<lparr>API = [], Implementation = [(''g:b'', ''1'')], AnnotationProcessor = [],
     TestImplementation = [(''g:d'', ''2.0'')]\<rparr>"

definition demo_update_source :: source where
  "demo_update_source = mem_source (NewInMemoryPackageSource ''mem''
     [demo_package ''b'' ''1'' [], demo_package ''d'' ''2.0'' [], demo_package ''d'' ''2.1'' [],
      demo_package ''d'' ''2.2-rc1'' [], demo_package ''d'' ''3.0'' []])"


end
