(* ===== verification/GoUtf8.thy ===== *)
theory GoUtf8
  imports GoPrelude
begin

text \<open>
  Go strings are bytes; a \<open>range\<close> loop decodes them as UTF-8. \<open>decode_rune\<close> follows
  \<open>utf8.DecodeRuneInString\<close>: an ill-formed sequence is one byte read as U+FFFD. \<open>utf16_units\<close> is
  the length the language server and the formatter count in.
\<close>

abbreviation byte_of :: "char \<Rightarrow> int" where
  "byte_of \<equiv> of_char"

definition cont_byte :: "int \<Rightarrow> int \<Rightarrow> char \<Rightarrow> bool" where
  "cont_byte lo hi c \<longleftrightarrow> lo \<le> byte_of c \<and> byte_of c \<le> hi"

definition rune_error :: int where
  "rune_error = 65533"

fun decode_rune :: "string \<Rightarrow> int \<times> nat" where
  "decode_rune [] = (rune_error, 0)"
| "decode_rune (c # s) =
     (let b = byte_of c
      in if b < 128 then (b, 1)
         else if 194 \<le> b \<and> b \<le> 223 then
           (case s of
              c1 # _ \<Rightarrow> if cont_byte 128 191 c1 then ((b - 192) * 64 + (byte_of c1 - 128), 2) else (rune_error, 1)
            | [] \<Rightarrow> (rune_error, 1))
         else if 224 \<le> b \<and> b \<le> 239 then
           (case s of
              c1 # c2 # _ \<Rightarrow>
                if cont_byte (if b = 224 then 160 else 128) (if b = 237 then 159 else 191) c1 \<and> cont_byte 128 191 c2
                then ((b - 224) * 4096 + (byte_of c1 - 128) * 64 + (byte_of c2 - 128), 3) else (rune_error, 1)
            | _ \<Rightarrow> (rune_error, 1))
         else if 240 \<le> b \<and> b \<le> 244 then
           (case s of
              c1 # c2 # c3 # _ \<Rightarrow>
                if cont_byte (if b = 240 then 144 else 128) (if b = 244 then 143 else 191) c1
                   \<and> cont_byte 128 191 c2 \<and> cont_byte 128 191 c3
                then ((b - 240) * 262144 + (byte_of c1 - 128) * 4096 + (byte_of c2 - 128) * 64 + (byte_of c3 - 128), 4)
                else (rune_error, 1)
            | _ \<Rightarrow> (rune_error, 1))
         else (rune_error, 1))"

lemma decode_rune_size: "s \<noteq> [] \<Longrightarrow> 0 < snd (decode_rune s) \<and> snd (decode_rune s) \<le> length s"
  by (cases s) (auto simp: Let_def split: list.splits)

lemma decode_rune_pos: "0 < snd (decode_rune (c # s))"
  using decode_rune_size [of "c # s"] by (simp del: decode_rune.simps)

function runes :: "string \<Rightarrow> int list" where
  "runes [] = []"
| "runes (c # s) = fst (decode_rune (c # s)) # runes (drop (snd (decode_rune (c # s))) (c # s))"
  by pat_completeness auto
termination
  by (relation "measure length") (simp_all add: decode_rune_pos del: decode_rune.simps)

declare runes.simps [simp del]

definition utf16_units :: "int \<Rightarrow> nat" where
  "utf16_units r = (if r > 65535 then 2 else 1)"

definition ascii :: "string \<Rightarrow> bool" where
  "ascii s \<longleftrightarrow> list_all (\<lambda>c. byte_of c < 128) s"

lemma ascii_simps [simp]:
  "ascii []" "ascii (c # s) \<longleftrightarrow> byte_of c < 128 \<and> ascii s" "ascii (s @ t) \<longleftrightarrow> ascii s \<and> ascii t"
  by (simp_all add: ascii_def)

lemma runes_ascii: "ascii s \<Longrightarrow> runes s = map byte_of s"
  by (induction s) (simp_all add: runes.simps)

end
