(* ===== verification/LayoutDoc.thy ===== *)
theory LayoutDoc
  imports GoUtf8
begin

text \<open>
  The layout engine of the formatter: \<open>togo/internal/format/doc.go\<close>. A document is a tree; the
  width and flat-text caches of the Go nodes hold values that never change and are left out. A
  \<open>BreakTag\<close> is a number and the tags taken so far are a function, threaded through the layout in
  the order the code records them. The decisions the code stores in the mutable fields of a Level
  (\<open>oneLine\<close>, \<open>splits\<close>, \<open>breaks\<close>, \<open>broken\<close>, \<open>newIndent\<close>) are the tree \<open>laid\<close> that the layout
  returns; each Level occurs once in a document, so a decision is written once. A panic is \<open>None\<close>.
\<close>

section \<open>Documents\<close>

datatype FillMode = fillUnified | fillIndependent | fillForced

datatype Indent = indentConst int | indentIf nat Indent Indent

type_synonym tags = "nat \<Rightarrow> bool"

fun evalIndent :: "tags \<Rightarrow> Indent \<Rightarrow> int \<Rightarrow> int" where
  "evalIndent t (indentConst n) mult = n * mult"
| "evalIndent t (indentIf c i j) mult = (if t c then evalIndent t i mult else evalIndent t j mult)"

datatype brkDoc = brk (fillMode: FillMode) (flatText: string) (plusIndt: Indent) (optTag: "nat option")

datatype doc =
    token string
  | reflowDoc string
  | concatDoc "doc list"
  | Brk brkDoc
  | levelDoc Indent "doc list"

definition newline :: char where
  "newline = CHR 0x0A"

definition maxWidth :: int where
  "maxWidth = 1000"

definition textWidth :: "string \<Rightarrow> int" where
  "textWidth s = int (sum_list (map utf16_units (runes s)))"

definition leafWidth :: "string \<Rightarrow> int" where
  "leafWidth s = (if newline \<in> set s then maxWidth else textWidth s)"

definition brkWidth :: "brkDoc \<Rightarrow> int" where
  "brkWidth b = (if fillMode b = fillForced then maxWidth else int (length (flatText b)))"

text \<open>\<open>sumWidth\<close> stops at the first partial sum that reaches \<open>maxWidth\<close>.\<close>

fun sum_from :: "int \<Rightarrow> int list \<Rightarrow> int" where
  "sum_from w [] = w"
| "sum_from w (x # xs) = (if w + x \<ge> maxWidth then maxWidth else sum_from (w + x) xs)"

fun width :: "doc \<Rightarrow> int" where
  "width (token s) = leafWidth s"
| "width (reflowDoc s) = leafWidth s"
| "width (concatDoc ds) = sum_from 0 (map width ds)"
| "width (Brk b) = brkWidth b"
| "width (levelDoc i ds) = sum_from 0 (map width ds)"

definition sumWidth :: "doc list \<Rightarrow> int" where
  "sumWidth ds = sum_from 0 (map width ds)"

fun flat :: "doc \<Rightarrow> string" where
  "flat (token s) = s"
| "flat (reflowDoc s) = s"
| "flat (concatDoc ds) = concat (map flat ds)"
| "flat (Brk b) = flatText b"
| "flat (levelDoc i ds) = concat (map flat ds)"

definition flatAll :: "doc list \<Rightarrow> string" where
  "flatAll ds = concat (map flat ds)"

text \<open>The constructors of the compatibility layer.\<close>

fun join_loop :: "doc \<Rightarrow> doc list \<Rightarrow> doc list" where
  "join_loop sep [] = []"
| "join_loop sep (p # ps) = sep # p # join_loop sep ps"

definition doc_join :: "doc \<Rightarrow> doc list \<Rightarrow> doc" where
  "doc_join sep parts = concatDoc (case parts of [] \<Rightarrow> [] | p # ps \<Rightarrow> p # join_loop sep ps)"

definition doc_group :: "doc \<Rightarrow> doc" where
  "doc_group d = levelDoc (indentConst 0) [d]"

definition doc_indent :: "doc \<Rightarrow> doc" where
  "doc_indent d = levelDoc (indentConst 2) [d]"

definition doc_line :: doc where
  "doc_line = Brk (brk fillUnified '' '' (indentConst 0) None)"

definition doc_hardline :: doc where
  "doc_hardline = Brk (brk fillForced [] (indentConst 0) None)"

section \<open>Breaking\<close>

record lstate =
  lastIndent :: int
  indent :: int
  column :: int
  mustBreak :: bool

text \<open>
  \<open>splitByBreaks\<close>: the group before the first break, and each break with the group after it.
  Concats are walked in place.
\<close>

type_synonym groups = "doc list \<times> (brkDoc \<times> doc list) list"

definition add_doc :: "doc \<Rightarrow> groups \<Rightarrow> groups" where
  "add_doc d g =
     (if snd g = [] then (fst g @ [d], [])
      else (fst g, butlast (snd g) @ [(fst (last (snd g)), snd (last (snd g)) @ [d])]))"

fun walk :: "doc list \<Rightarrow> groups \<Rightarrow> groups" where
  "walk [] g = g"
| "walk (Brk b # ds) g = walk ds (fst g, snd g @ [(b, [])])"
| "walk (concatDoc ps # ds) g = walk ds (walk ps g)"
| "walk (token s # ds) g = walk ds (add_doc (token s) g)"
| "walk (reflowDoc s # ds) g = walk ds (add_doc (reflowDoc s) g)"
| "walk (levelDoc i ps # ds) g = walk ds (add_doc (levelDoc i ps) g)"

definition splitByBreaks :: "doc list \<Rightarrow> groups" where
  "splitByBreaks ds = walk ds ([], [])"

text \<open>
  What the layout decides: a one-line Level keeps its documents; a broken one has its groups, each
  with the break before it (the first has none) and the indent of the break when it is taken.
\<close>

type_synonym decision = "(brkDoc \<times> int option) option"

datatype laid =
    LToken string
  | LReflow string
  | LConcat "laid list"
  | LOneLine "doc list"
  | LSplit "(decision \<times> laid list) list"

definition shouldBreak :: "int \<Rightarrow> brkDoc option \<Rightarrow> int \<Rightarrow> lstate \<Rightarrow> bool" where
  "shouldBreak maxW ob splitWidth st \<longleftrightarrow>
     (case ob of None \<Rightarrow> False | Some b \<Rightarrow> fillMode b = fillUnified)
     \<or> mustBreak st
     \<or> column st + (case ob of None \<Rightarrow> 0 | Some b \<Rightarrow> brkWidth b) + splitWidth > maxW"

text \<open>The first half of \<open>breakAndSplit\<close>: the decision on the break, and the state after it.\<close>

definition place_break :: "int \<Rightarrow> int \<Rightarrow> brkDoc option \<Rightarrow> int \<Rightarrow> lstate \<times> tags \<Rightarrow> decision \<times> lstate \<times> tags" where
  "place_break maxW mult ob splitWidth = (\<lambda>(st, t).
     (case ob of
        None \<Rightarrow> (None, st, t)
      | Some b \<Rightarrow>
          (let br = shouldBreak maxW ob splitWidth st;
               t' = (case optTag b of None \<Rightarrow> t | Some g \<Rightarrow> t(g := br));
               ni = max 0 (lastIndent st + evalIndent t' (plusIndt b) mult)
           in if br then (Some (b, Some ni), st\<lparr>column := ni\<rparr>, t')
              else (Some (b, None), st\<lparr>column := column st + int (length (flatText b))\<rparr>, t'))))"

text \<open>A measure on documents for the recursion through the groups of a Level.\<close>

fun nodes :: "doc \<Rightarrow> nat" where
  "nodes (concatDoc ds) = Suc (sum_list (map (\<lambda>d. Suc (nodes d)) ds))"
| "nodes (levelDoc i ds) = Suc (sum_list (map (\<lambda>d. Suc (nodes d)) ds))"
| "nodes _ = 0"

definition list_nodes :: "doc list \<Rightarrow> nat" where
  "list_nodes ds = sum_list (map (\<lambda>d. Suc (nodes d)) ds)"

definition groups_nodes :: "groups \<Rightarrow> nat" where
  "groups_nodes g = list_nodes (fst g) + sum_list (map (\<lambda>p. list_nodes (snd p)) (snd g))"

lemma list_nodes_simps [simp]:
  "list_nodes [] = 0" "list_nodes (d # ds) = Suc (nodes d) + list_nodes ds"
  "list_nodes (ds @ es) = list_nodes ds + list_nodes es"
  by (simp_all add: list_nodes_def)

lemma nodes_list [simp]:
  "nodes (concatDoc ds) = Suc (list_nodes ds)" "nodes (levelDoc i ds) = Suc (list_nodes ds)"
  by (simp_all add: list_nodes_def)

lemma groups_nodes_add_doc: "groups_nodes (add_doc d g) = groups_nodes g + Suc (nodes d)"
proof (cases "snd g" rule: rev_cases)
  case Nil
  then show ?thesis by (simp add: add_doc_def groups_nodes_def)
next
  case (snoc ys y)
  then show ?thesis by (simp add: add_doc_def groups_nodes_def)
qed

lemma groups_nodes_add_brk: "groups_nodes (fst g, snd g @ [(b, [])]) = groups_nodes g"
  by (simp add: groups_nodes_def)

lemma groups_nodes_walk: "groups_nodes (walk ds g) \<le> groups_nodes g + list_nodes ds"
  by (induction ds g rule: walk.induct)
    (auto simp: groups_nodes_add_doc groups_nodes_add_brk simp del: nodes.simps(1,2))

definition as_groups :: "groups \<Rightarrow> (brkDoc option \<times> doc list) list" where
  "as_groups g = (None, fst g) # map (\<lambda>(b, ds). (Some b, ds)) (snd g)"

definition all_nodes :: "(brkDoc option \<times> doc list) list \<Rightarrow> nat" where
  "all_nodes gs = sum_list (map (\<lambda>p. list_nodes (snd p)) gs)"

lemma all_nodes_simps [simp]:
  "all_nodes [] = 0" "all_nodes ((ob, ds) # gs) = list_nodes ds + all_nodes gs"
  by (simp_all add: all_nodes_def)

lemma all_nodes_split: "all_nodes (as_groups (splitByBreaks ds)) \<le> list_nodes ds"
proof -
  have "all_nodes (as_groups g) = groups_nodes g" for g
    by (cases g) (simp add: as_groups_def groups_nodes_def all_nodes_def comp_def split_def)
  with groups_nodes_walk [of ds "([], [])"] show ?thesis
    by (simp add: splitByBreaks_def groups_nodes_def)
qed

text \<open>
  \<open>computeBreaks\<close> with \<open>computeLevel\<close> as its Level case, \<open>computeSplit\<close>, and the loop of
  \<open>computeLevel\<close> over \<open>breakAndSplit\<close>.
\<close>

function (sequential)
  computeBreaks :: "int \<Rightarrow> int \<Rightarrow> doc \<Rightarrow> lstate \<times> tags \<Rightarrow> (laid \<times> lstate \<times> tags) option" and
  computeSplit :: "int \<Rightarrow> int \<Rightarrow> doc list \<Rightarrow> lstate \<times> tags \<Rightarrow> (laid list \<times> lstate \<times> tags) option" and
  breakAndSplit :: "int \<Rightarrow> int \<Rightarrow> (brkDoc option \<times> doc list) list \<Rightarrow> lstate \<times> tags \<Rightarrow>
    ((decision \<times> laid list) list \<times> lstate \<times> tags) option" where
  "computeBreaks maxW mult (token s) (st, t) = Some (LToken s, st\<lparr>column := column st + leafWidth s\<rparr>, t)"
| "computeBreaks maxW mult (reflowDoc s) (st, t) = Some (LReflow s, st\<lparr>column := column st + leafWidth s\<rparr>, t)"
| "computeBreaks maxW mult (concatDoc ds) (st, t) =
     map_option (\<lambda>(ls, r). (LConcat ls, r)) (computeSplit maxW mult ds (st, t))"
| "computeBreaks maxW mult (levelDoc i ds) (st, t) =
     (let w = sumWidth ds
      in if column st + w \<le> maxW then Some (LOneLine ds, st\<lparr>column := column st + w\<rparr>, t)
         else let startIndent = indent st + evalIndent t i mult
              in case breakAndSplit maxW mult (as_groups (splitByBreaks ds))
                        (\<lparr>lastIndent = startIndent, indent = startIndent, column = column st, mustBreak = False\<rparr>, t) of
                   None \<Rightarrow> None
                 | Some (gs, s, t') \<Rightarrow> Some (LSplit gs, st\<lparr>column := column s\<rparr>, t'))"
| "computeBreaks maxW mult (Brk b) (st, t) = None"
| "computeSplit maxW mult [] (st, t) = Some ([], st, t)"
| "computeSplit maxW mult (d # ds) (st, t) =
     (case computeBreaks maxW mult d (st, t) of
        None \<Rightarrow> None
      | Some (l, r) \<Rightarrow> map_option (\<lambda>(ls, r'). (l # ls, r')) (computeSplit maxW mult ds r))"
| "breakAndSplit maxW mult [] (st, t) = Some ([], st, t)"
| "breakAndSplit maxW mult ((ob, split) # gs) (st, t) =
     (let splitWidth = sumWidth split;
          (dec, s, t1) = place_break maxW mult ob splitWidth (st, t);
          enoughRoom = (column s + splitWidth \<le> maxW)
      in case computeSplit maxW mult split (s\<lparr>mustBreak := False\<rparr>, t1) of
           None \<Rightarrow> None
         | Some (ls, s2, t2) \<Rightarrow>
             map_option (\<lambda>(rest, r). ((dec, ls) # rest, r))
               (breakAndSplit maxW mult gs (if enoughRoom then s2 else s2\<lparr>mustBreak := True\<rparr>, t2)))"
  by pat_completeness auto
termination
  by (relation "measures [\<lambda>x. case x of Inl (_, _, d, _) \<Rightarrow> nodes d
        | Inr (Inl (_, _, ds, _)) \<Rightarrow> list_nodes ds | Inr (Inr (_, _, gs, _)) \<Rightarrow> all_nodes gs,
      \<lambda>x. case x of Inl _ \<Rightarrow> 0 | Inr (Inl (_, _, ds, _)) \<Rightarrow> 1 | Inr (Inr (_, _, gs, _)) \<Rightarrow> 2 + length gs]")
    (auto simp: le_imp_less_Suc all_nodes_split simp del: nodes.simps(1,2))

definition computeLevel :: "int \<Rightarrow> int \<Rightarrow> Indent \<Rightarrow> doc list \<Rightarrow> lstate \<times> tags \<Rightarrow> (laid \<times> lstate \<times> tags) option" where
  "computeLevel maxW mult i ds st = computeBreaks maxW mult (levelDoc i ds) st"

section \<open>Writing\<close>

record writer =
  out :: "string list"
  col :: int
  rewrite :: "(string \<Rightarrow> int \<Rightarrow> string) option"

definition is_blank :: "char \<Rightarrow> bool" where
  "is_blank c \<longleftrightarrow> c = CHR '' ''"

text \<open>The length of the text after its last newline.\<close>

definition last_line :: "string \<Rightarrow> nat" where
  "last_line s = length (takeWhile (\<lambda>c. c \<noteq> newline) (rev s))"

definition push :: "string \<Rightarrow> writer \<Rightarrow> writer" where
  "push s w = w\<lparr>out := out w @ [s],
     col := (if newline \<in> set s then int (last_line s) else col w + int (length s))\<rparr>"

fun hasReflow :: "doc \<Rightarrow> bool" where
  "hasReflow (reflowDoc s) = True"
| "hasReflow (concatDoc ds) = list_ex hasReflow ds"
| "hasReflow (levelDoc i ds) = list_ex hasReflow ds"
| "hasReflow _ = False"

definition push_reflow :: "string \<Rightarrow> writer \<Rightarrow> writer" where
  "push_reflow raw w = (case rewrite w of Some f \<Rightarrow> push (f raw (col w)) w | None \<Rightarrow> push raw w)"

fun writeFlat :: "doc \<Rightarrow> writer \<Rightarrow> writer" where
  "writeFlat (token s) w = push s w"
| "writeFlat (reflowDoc raw) w = push_reflow raw w"
| "writeFlat (Brk b) w = push (flatText b) w"
| "writeFlat (concatDoc ds) w = fold writeFlat ds w"
| "writeFlat (levelDoc i ds) w = fold writeFlat ds w"

text \<open>
  \<open>trimTrailingSpace\<close>, on the chunks in reverse: blank chunks become empty until one is not
  blank, and that one loses its trailing spaces.
\<close>

fun trim_rev :: "string list \<Rightarrow> string list" where
  "trim_rev [] = []"
| "trim_rev (s # ss) =
     (if s = [] then s # trim_rev ss
      else if list_all is_blank s then [] # trim_rev ss
      else trim_right is_blank s # ss)"

definition trimTrailingSpace :: "writer \<Rightarrow> writer" where
  "trimTrailingSpace w = w\<lparr>out := rev (trim_rev (rev (out w)))\<rparr>"

definition write_break :: "decision \<Rightarrow> writer \<Rightarrow> writer" where
  "write_break dec w =
     (case dec of
        None \<Rightarrow> w
      | Some (b, Some ni) \<Rightarrow> push (newline # replicate (nat ni) CHR '' '') (trimTrailingSpace w)
      | Some (b, None) \<Rightarrow> push (flatText b) w)"

fun writeDoc :: "laid \<Rightarrow> writer \<Rightarrow> writer" where
  "writeDoc (LToken s) w = push s w"
| "writeDoc (LReflow raw) w = push_reflow raw w"
| "writeDoc (LConcat ls) w = fold writeDoc ls w"
| "writeDoc (LOneLine ds) w =
     (if list_ex hasReflow ds then fold writeFlat ds w else push (flatAll ds) w)"
| "writeDoc (LSplit gs) w = fold (\<lambda>(dec, ls) w. fold writeDoc ls (write_break dec w)) gs w"

record printOptions =
  opt_width :: int
  indentMult :: int
  commentRewriter :: "(string \<Rightarrow> int \<Rightarrow> string) option"

definition start_state :: lstate where
  "start_state = \<lparr>lastIndent = 0, indent = 0, column = 0, mustBreak = False\<rparr>"

definition root_level :: "doc \<Rightarrow> Indent \<times> doc list" where
  "root_level d = (case d of levelDoc i ds \<Rightarrow> (i, ds) | _ \<Rightarrow> (indentConst 0, [d]))"

definition printDoc :: "doc \<Rightarrow> printOptions \<Rightarrow> string option" where
  "printDoc d options =
     map_option (\<lambda>(l, _).
         concat (out (trimTrailingSpace (writeDoc l \<lparr>out = [], col = 0, rewrite = commentRewriter options\<rparr>))))
       (computeLevel (opt_width options) (indentMult options) (fst (root_level d)) (snd (root_level d))
         (start_state, \<lambda>_. False))"

end
