(* ===== verification/LayoutCorrect.thy ===== *)
theory LayoutCorrect
  imports LayoutDoc
begin

text \<open>
  What the layout engine guarantees. The layout never changes the text, only which breaks are
  taken (\<open>laidFlat\<close>); the writer adds and removes nothing but spaces and newlines; a forced break
  always ends its line; and the column the layout counts is the column the writer reaches.
\<close>

section \<open>The layout keeps the text\<close>

fun dec_flat :: "decision \<Rightarrow> string" where
  "dec_flat None = []"
| "dec_flat (Some (b, d)) = flatText b"

fun laidFlat :: "laid \<Rightarrow> string" where
  "laidFlat (LToken s) = s"
| "laidFlat (LReflow s) = s"
| "laidFlat (LConcat ls) = concat (map laidFlat ls)"
| "laidFlat (LOneLine ds) = flatAll ds"
| "laidFlat (LSplit gs) = concat (map (\<lambda>(dec, ls). dec_flat dec @ concat (map laidFlat ls)) gs)"

definition groups_flat :: "(brkDoc option \<times> doc list) list \<Rightarrow> string" where
  "groups_flat gs = concat (map (\<lambda>(ob, ds). (case ob of None \<Rightarrow> [] | Some b \<Rightarrow> flatText b) @ flatAll ds) gs)"

lemma flatAll_simps [simp]:
  "flatAll [] = []" "flatAll (d # ds) = flat d @ flatAll ds" "flatAll (ds @ es) = flatAll ds @ flatAll es"
  by (simp_all add: flatAll_def)

lemma flat_list [simp]: "flat (concatDoc ds) = flatAll ds" "flat (levelDoc i ds) = flatAll ds"
  by (simp_all add: flatAll_def)

lemma groups_flat_simps [simp]:
  "groups_flat [] = []"
  "groups_flat ((ob, ds) # gs) = (case ob of None \<Rightarrow> [] | Some b \<Rightarrow> flatText b) @ flatAll ds @ groups_flat gs"
  "groups_flat (gs @ hs) = groups_flat gs @ groups_flat hs"
  by (simp_all add: groups_flat_def)

text \<open>The groups of a Level, seen as the list the layout runs over, and how \<open>walk\<close> extends it.\<close>

lemma as_groups_brk: "as_groups (fst g, snd g @ [(b, [])]) = as_groups g @ [(Some b, [])]"
  by (simp add: as_groups_def)

lemma as_groups_add_doc:
  "as_groups (add_doc d g) = butlast (as_groups g) @ [(fst (last (as_groups g)), snd (last (as_groups g)) @ [d])]"
proof (cases "snd g" rule: rev_cases)
  case Nil
  then show ?thesis by (simp add: as_groups_def add_doc_def)
next
  case (snoc ys y)
  then show ?thesis by (cases y) (simp add: as_groups_def add_doc_def butlast_append)
qed

lemma as_groups_split: obtains gs ob ds where "as_groups g = gs @ [(ob, ds)]"
  by (metis as_groups_def list.discI rev_exhaust surj_pair)

lemma groups_flat_add_doc: "groups_flat (as_groups (add_doc d g)) = groups_flat (as_groups g) @ flat d"
  by (rule as_groups_split [of g]) (simp add: as_groups_add_doc)

lemma groups_flat_walk: "groups_flat (as_groups (walk ds g)) = groups_flat (as_groups g) @ flatAll ds"
  by (induction ds g rule: walk.induct)
    (simp_all add: as_groups_brk groups_flat_add_doc del: flat.simps(3,5))

lemma groups_flat_split: "groups_flat (as_groups (splitByBreaks ds)) = flatAll ds"
  using groups_flat_walk [of ds "([], [])"] by (simp add: splitByBreaks_def as_groups_def)

lemma dec_flat_place:
  "place_break maxW mult ob sw (st, t) = (dec, r) \<Longrightarrow> dec_flat dec = (case ob of None \<Rightarrow> [] | Some b \<Rightarrow> flatText b)"
  by (auto simp: place_break_def Let_def split: option.splits if_splits)

lemma compute_flat:
  "computeBreaks maxW mult d s = Some (l, r) \<Longrightarrow> laidFlat l = flat d"
  "computeSplit maxW mult ds s = Some (ls, r) \<Longrightarrow> concat (map laidFlat ls) = flatAll ds"
  "breakAndSplit maxW mult gs s = Some (lgs, r) \<Longrightarrow>
     concat (map (\<lambda>(dec, ls). dec_flat dec @ concat (map laidFlat ls)) lgs) = groups_flat gs"
proof (induction maxW mult d s and maxW mult ds s and maxW mult gs s arbitrary: l r and ls r and lgs r
    rule: computeBreaks_computeSplit_breakAndSplit.induct)
  case (4 maxW mult i ds st t)
  then show ?case
    by (auto simp: Let_def groups_flat_split simp del: flat.simps(5) split: if_splits option.splits)
next
  case (9 maxW mult ob split gs st t)
  obtain dec s t1 where p: "place_break maxW mult ob (sumWidth split) (st, t) = (dec, s, t1)"
    by (metis prod_cases3)
  with 9 show ?case
    by (auto simp: Let_def dec_flat_place split: option.splits)
qed (auto simp del: flat.simps(3,5) split: option.splits)

section \<open>Predicates on the parts of a document\<close>

fun doc_all :: "(brkDoc \<Rightarrow> bool) \<Rightarrow> (string \<Rightarrow> bool) \<Rightarrow> doc \<Rightarrow> bool" where
  "doc_all P Q (token s) = Q s"
| "doc_all P Q (reflowDoc s) = Q s"
| "doc_all P Q (Brk b) = P b"
| "doc_all P Q (concatDoc ds) = list_all (doc_all P Q) ds"
| "doc_all P Q (levelDoc i ds) = list_all (doc_all P Q) ds"

fun laid_all :: "(brkDoc \<Rightarrow> bool) \<Rightarrow> (string \<Rightarrow> bool) \<Rightarrow> laid \<Rightarrow> bool" where
  "laid_all P Q (LToken s) = Q s"
| "laid_all P Q (LReflow s) = Q s"
| "laid_all P Q (LConcat ls) = list_all (laid_all P Q) ls"
| "laid_all P Q (LOneLine ds) = list_all (doc_all P Q) ds"
| "laid_all P Q (LSplit gs) =
     list_all (\<lambda>(dec, ls). (case dec of None \<Rightarrow> True | Some (b, _) \<Rightarrow> P b) \<and> list_all (laid_all P Q) ls) gs"

definition groups_all :: "(brkDoc \<Rightarrow> bool) \<Rightarrow> (string \<Rightarrow> bool) \<Rightarrow> (brkDoc option \<times> doc list) list \<Rightarrow> bool" where
  "groups_all P Q gs \<longleftrightarrow> list_all (\<lambda>(ob, ds). (case ob of None \<Rightarrow> True | Some b \<Rightarrow> P b) \<and> list_all (doc_all P Q) ds) gs"

lemma groups_all_simps [simp]:
  "groups_all P Q []"
  "groups_all P Q ((ob, ds) # gs) \<longleftrightarrow>
     (case ob of None \<Rightarrow> True | Some b \<Rightarrow> P b) \<and> list_all (doc_all P Q) ds \<and> groups_all P Q gs"
  "groups_all P Q (gs @ hs) \<longleftrightarrow> groups_all P Q gs \<and> groups_all P Q hs"
  by (auto simp: groups_all_def)

lemma groups_all_add_doc: "groups_all P Q (as_groups (add_doc d g)) \<longleftrightarrow> groups_all P Q (as_groups g) \<and> doc_all P Q d"
  by (rule as_groups_split [of g]) (auto simp: as_groups_add_doc)

lemma groups_all_walk: "groups_all P Q (as_groups (walk ds g)) \<longleftrightarrow> groups_all P Q (as_groups g) \<and> list_all (doc_all P Q) ds"
  by (induction ds g rule: walk.induct) (auto simp: as_groups_brk groups_all_add_doc)

lemma groups_all_split: "groups_all P Q (as_groups (splitByBreaks ds)) \<longleftrightarrow> list_all (doc_all P Q) ds"
  using groups_all_walk [of P Q ds "([], [])"] by (simp add: splitByBreaks_def as_groups_def)

lemma place_break_brk:
  "place_break maxW mult ob sw (st, t) = (dec, r) \<Longrightarrow>
   (case dec of None \<Rightarrow> ob = None | Some (b, _) \<Rightarrow> ob = Some b)"
  by (auto simp: place_break_def Let_def split: option.splits if_splits)

lemma compute_all:
  "computeBreaks maxW mult d s = Some (l, r) \<Longrightarrow> doc_all P Q d \<Longrightarrow> laid_all P Q l"
  "computeSplit maxW mult ds s = Some (ls, r) \<Longrightarrow> list_all (doc_all P Q) ds \<Longrightarrow> list_all (laid_all P Q) ls"
  "breakAndSplit maxW mult gs s = Some (lgs, r) \<Longrightarrow> groups_all P Q gs \<Longrightarrow>
     list_all (\<lambda>(dec, ls). (case dec of None \<Rightarrow> True | Some (b, _) \<Rightarrow> P b) \<and> list_all (laid_all P Q) ls) lgs"
proof (induction maxW mult d s and maxW mult ds s and maxW mult gs s arbitrary: l r and ls r and lgs r
    rule: computeBreaks_computeSplit_breakAndSplit.induct)
  case (4 maxW mult i ds st t)
  then show ?case
    by (auto simp: Let_def groups_all_split split: if_splits option.splits)
next
  case (9 maxW mult ob split gs st t)
  obtain dec s t1 where p: "place_break maxW mult ob (sumWidth split) (st, t) = (dec, s, t1)"
    by (metis prod_cases3)
  with 9 place_break_brk [OF p] show ?case
    by (auto simp: Let_def split: option.splits)
qed (auto split: option.splits)

section \<open>The writer as a text buffer\<close>

text \<open>The chunk list refines one string: a chunk is appended, trailing spaces are dropped.\<close>

definition buf :: "writer \<Rightarrow> string" where
  "buf w = concat (out w)"

lemma buf_push [simp]: "buf (push s w) = buf w @ s"
  by (simp add: buf_def push_def)

lemma rewrite_push [simp]: "rewrite (push s w) = rewrite w"
  by (simp add: push_def)

lemma trim_right_all: "list_all p s \<Longrightarrow> trim_right p s = []"
  by (simp add: trim_right_def list_all_iff)

lemma trim_right_append_out: "\<not> list_all p s \<Longrightarrow> trim_right p (t @ s) = t @ trim_right p s"
  by (auto simp: trim_right_def list_all_iff dropWhile_append1 [of _ "rev s"])

lemma concat_trim_rev: "concat (rev (trim_rev ss)) = trim_right is_blank (concat (rev ss))"
proof (induction ss)
  case (Cons s ss)
  show ?case
  proof (cases "s = [] \<or> list_all is_blank s")
    case True
    then have "trim_right is_blank (concat (rev ss) @ s) = trim_right is_blank (concat (rev ss))"
      by (auto simp: list_all_iff intro: trim_right_append_in)
    with True Cons.IH show ?thesis by auto
  next
    case False
    then show ?thesis by (simp add: trim_right_append_out)
  qed
qed (simp add: trim_right_def)

lemma buf_trim [simp]: "buf (trimTrailingSpace w) = trim_right is_blank (buf w)"
  using concat_trim_rev [of "rev (out w)"] by (simp add: buf_def trimTrailingSpace_def)

lemma rewrite_trim [simp]: "rewrite (trimTrailingSpace w) = rewrite w"
  by (simp add: trimTrailingSpace_def)

section \<open>Nothing but blanks changes\<close>

definition ink :: "string \<Rightarrow> string" where
  "ink s = filter (\<lambda>c. \<not> is_blank c \<and> c \<noteq> newline) s"

lemma ink_simps [simp]: "ink [] = []" "ink (s @ t) = ink s @ ink t"
  by (simp_all add: ink_def)

lemma ink_blank: "list_all is_blank s \<Longrightarrow> ink s = []"
  by (simp add: ink_def list_all_iff filter_empty_conv)

lemma ink_newline: "ink (newline # replicate n CHR '' '') = []"
  by (simp add: ink_def is_blank_def)

lemma ink_trim [simp]: "ink (trim_right is_blank s) = ink s"
proof -
  have "filter (\<lambda>c. \<not> is_blank c \<and> c \<noteq> newline) (dropWhile is_blank xs)
      = filter (\<lambda>c. \<not> is_blank c \<and> c \<noteq> newline) xs" for xs :: string
    by (induction xs) auto
  from this [of "rev s"] show ?thesis
    by (simp add: ink_def trim_right_def flip: rev_filter)
qed

definition keeps_ink :: "(string \<Rightarrow> int \<Rightarrow> string) option \<Rightarrow> bool" where
  "keeps_ink rw \<longleftrightarrow> (\<forall>f raw c. rw = Some f \<longrightarrow> ink (f raw c) = ink raw)"

text \<open>What a writing step does to the inked text, and its composition over a list.\<close>

definition inks :: "(writer \<Rightarrow> writer) \<Rightarrow> string \<Rightarrow> bool" where
  "inks f s \<longleftrightarrow> (\<forall>w. keeps_ink (rewrite w) \<longrightarrow> ink (buf (f w)) = ink (buf w) @ ink s \<and> rewrite (f w) = rewrite w)"

lemma inks_fold:
  "(\<And>x. x \<in> set xs \<Longrightarrow> inks (f x) (g x)) \<Longrightarrow> inks (fold f xs) (concat (map g xs))"
  unfolding inks_def by (induction xs) auto

lemma inks_comp: "inks f s \<Longrightarrow> inks g t \<Longrightarrow> inks (\<lambda>w. g (f w)) (s @ t)"
  unfolding inks_def by auto

lemma inks_push: "inks (push s) s"
  by (simp add: inks_def)

lemma inks_push_reflow: "inks (push_reflow raw) raw"
  unfolding inks_def by (auto simp: push_reflow_def keeps_ink_def split: option.splits)

lemma inks_writeFlat: "inks (writeFlat d) (flat d)"
proof (induction d)
  case (concatDoc ds)
  then have "inks (fold writeFlat ds) (flatAll ds)"
    unfolding flatAll_def by (rule inks_fold)
  then show ?case by (simp add: inks_def del: flat.simps(3))
next
  case (levelDoc i ds)
  then have "inks (fold writeFlat ds) (flatAll ds)"
    unfolding flatAll_def by (rule inks_fold)
  then show ?case by (simp add: inks_def del: flat.simps(5))
qed (simp_all add: inks_def inks_push [unfolded inks_def] inks_push_reflow [unfolded inks_def])

definition blank_break :: "brkDoc \<Rightarrow> bool" where
  "blank_break b \<longleftrightarrow> list_all is_blank (flatText b)"

lemma inks_write_break:
  "(case dec of None \<Rightarrow> True | Some (b, _) \<Rightarrow> blank_break b) \<Longrightarrow> inks (write_break dec) (dec_flat dec)"
  by (cases dec rule: dec_flat.cases)
    (auto simp: inks_def write_break_def blank_break_def ink_blank ink_newline split: option.splits)

lemma inks_writeDoc: "laid_all blank_break Q l \<Longrightarrow> inks (writeDoc l) (laidFlat l)"
proof (induction l)
  case (LConcat ls)
  then have "inks (fold writeDoc ls) (concat (map laidFlat ls))"
    by (intro inks_fold) (auto simp: list_all_iff)
  then show ?case by (simp add: inks_def)
next
  case (LOneLine ds)
  have "inks (fold writeFlat ds) (flatAll ds)"
    unfolding flatAll_def by (rule inks_fold) (rule inks_writeFlat)
  then show ?case using inks_push [of "flatAll ds"] by (auto simp: inks_def)
next
  case (LSplit gs)
  have "inks (\<lambda>w. fold writeDoc ls (write_break dec w)) (dec_flat dec @ concat (map laidFlat ls))"
    if "(dec, ls) \<in> set gs" for dec ls
  proof (rule inks_comp [where f = "write_break dec" and g = "fold writeDoc ls"])
    show "inks (write_break dec) (dec_flat dec)"
      using LSplit.prems that by (intro inks_write_break) (auto simp: list_all_iff)
    have "\<And>l. l \<in> set ls \<Longrightarrow> inks (writeDoc l) (laidFlat l)"
      using LSplit that by (fastforce simp: list_all_iff)
    then show "inks (fold writeDoc ls) (concat (map laidFlat ls))" by (rule inks_fold)
  qed
  then have "inks (fold (\<lambda>(dec, ls) w. fold writeDoc ls (write_break dec w)) gs)
      (concat (map (\<lambda>(dec, ls). dec_flat dec @ concat (map laidFlat ls)) gs))"
    by (intro inks_fold) auto
  then show ?case by (simp add: inks_def)
qed (simp_all add: inks_def inks_push [unfolded inks_def] inks_push_reflow [unfolded inks_def])


definition demo_doc :: doc where
  "demo_doc = levelDoc (indentConst 4)
     [token ''foo('', Brk (brk fillUnified [] (indentConst 0) None), token ''alpha,'', doc_line,
      doc_group (concatDoc [token ''b'', doc_line, token ''c'']), token '')'', doc_hardline, token ''x'']"

definition demo_options :: printOptions where
  "demo_options = \<lparr>opt_width = 10, indentMult = 1, commentRewriter = None\<rparr>"

lemma demo_layout:
  "printDoc demo_doc demo_options = Some (''foo('' @ [newline] @ ''    alpha,'' @ [newline] @ ''    b c)'' @ [newline] @ ''    x'')"
  by code_simp


section \<open>Forced breaks\<close>

fun forced :: "doc \<Rightarrow> nat" where
  "forced (Brk b) = (if fillMode b = fillForced then 1 else 0)"
| "forced (concatDoc ds) = sum_list (map forced ds)"
| "forced (levelDoc i ds) = sum_list (map forced ds)"
| "forced _ = 0"

fun taken :: "laid \<Rightarrow> nat" where
  "taken (LConcat ls) = sum_list (map taken ls)"
| "taken (LSplit gs) =
     sum_list (map (\<lambda>(dec, ls). (case dec of Some (b, Some ni) \<Rightarrow> 1 | _ \<Rightarrow> 0) + sum_list (map taken ls)) gs)"
| "taken _ = 0"

definition groups_forced :: "(brkDoc option \<times> doc list) list \<Rightarrow> nat" where
  "groups_forced gs = sum_list (map (\<lambda>(ob, ds). (case ob of None \<Rightarrow> 0 | Some b \<Rightarrow> forced (Brk b)) + sum_list (map forced ds)) gs)"

lemma groups_forced_simps [simp]:
  "groups_forced [] = 0"
  "groups_forced ((ob, ds) # gs) = (case ob of None \<Rightarrow> 0 | Some b \<Rightarrow> forced (Brk b)) + sum_list (map forced ds) + groups_forced gs"
  "groups_forced (gs @ hs) = groups_forced gs + groups_forced hs"
  by (simp_all add: groups_forced_def)

lemma groups_forced_add_doc: "groups_forced (as_groups (add_doc d g)) = groups_forced (as_groups g) + forced d"
  by (rule as_groups_split [of g]) (simp add: as_groups_add_doc del: forced.simps)

lemma groups_forced_walk: "groups_forced (as_groups (walk ds g)) = groups_forced (as_groups g) + sum_list (map forced ds)"
  by (induction ds g rule: walk.induct) (simp_all add: as_groups_brk groups_forced_add_doc)

lemma groups_forced_split: "groups_forced (as_groups (splitByBreaks ds)) = sum_list (map forced ds)"
  using groups_forced_walk [of ds "([], [])"] by (simp add: splitByBreaks_def as_groups_def)

text \<open>Widths are never negative, and a forced break makes a document as wide as \<open>maxWidth\<close>.\<close>

lemma sum_from_ge: "list_all (\<lambda>x. 0 \<le> x) xs \<Longrightarrow> w \<le> maxWidth \<Longrightarrow> w \<le> sum_from w xs"
proof (induction xs arbitrary: w)
  case (Cons x xs)
  show ?case
  proof (cases "maxWidth \<le> w + x")
    case True
    with Cons.prems show ?thesis by simp
  next
    case False
    with Cons.prems Cons.IH [of "w + x"] show ?thesis by simp
  qed
qed simp

lemma sum_list_pos: "0 < sum_list (map f xs) \<Longrightarrow> \<exists>x \<in> set xs. 0 < f x" for f :: "'a \<Rightarrow> nat"
  by (induction xs) auto

lemma sum_from_max: "list_all (\<lambda>x. 0 \<le> x) xs \<Longrightarrow> 0 \<le> w \<Longrightarrow> maxWidth \<le> x \<Longrightarrow> x \<in> set xs \<Longrightarrow> sum_from w xs = maxWidth"
  by (induction xs arbitrary: w) auto

lemma leafWidth_nonneg [simp]: "0 \<le> leafWidth s"
  by (simp add: leafWidth_def textWidth_def maxWidth_def)

lemma width_nonneg: "0 \<le> width d"
proof (induction d)
  case (concatDoc ds)
  then show ?case using sum_from_ge [of "map width ds" 0] by (simp add: list_all_iff maxWidth_def)
next
  case (levelDoc i ds)
  then show ?case using sum_from_ge [of "map width ds" 0] by (simp add: list_all_iff maxWidth_def)
qed (auto simp: brkWidth_def maxWidth_def)

lemma widths_nonneg: "list_all (\<lambda>x. 0 \<le> x) (map width ds)"
  by (simp add: list_all_iff width_nonneg)

lemma sumWidth_nonneg: "0 \<le> sumWidth ds"
  using sum_from_ge [OF widths_nonneg, of 0 ds] by (simp add: sumWidth_def maxWidth_def)

lemma sumWidth_max: "d \<in> set ds \<Longrightarrow> maxWidth \<le> width d \<Longrightarrow> sumWidth ds = maxWidth"
  unfolding sumWidth_def by (rule sum_from_max [OF widths_nonneg]) auto

lemma forced_width: "0 < forced d \<Longrightarrow> maxWidth \<le> width d"
proof (induction d)
  case (concatDoc ds)
  from sum_list_pos [of forced ds] concatDoc.prems obtain d where "d \<in> set ds" "0 < forced d" by auto
  with concatDoc.IH sumWidth_max [of d ds] show ?case by (simp add: sumWidth_def)
next
  case (levelDoc i ds)
  from sum_list_pos [of forced ds] levelDoc.prems obtain d where "d \<in> set ds" "0 < forced d" by auto
  with levelDoc.IH sumWidth_max [of d ds] show ?case by (simp add: sumWidth_def)
qed (auto simp: brkWidth_def split: if_splits)

lemma not_forced_fits: "sumWidth ds < maxWidth \<Longrightarrow> sum_list (map forced ds) = 0"
proof (rule ccontr)
  assume fits: "sumWidth ds < maxWidth" and "sum_list (map forced ds) \<noteq> 0"
  then obtain d where "d \<in> set ds" "0 < forced d" using sum_list_pos [of forced ds] by auto
  with forced_width sumWidth_max [of d ds] fits show False by simp
qed

text \<open>The layout takes every forced break when the line width is below \<open>maxWidth\<close>.\<close>

lemma place_break_forced:
  assumes "place_break maxW mult ob sw (st, t) = (dec, s, t1)" and "maxW < maxWidth" and "0 \<le> sw" and "0 \<le> column st"
  shows "(case ob of None \<Rightarrow> 0 | Some b \<Rightarrow> forced (Brk b)) \<le> (case dec of Some (b, Some ni) \<Rightarrow> 1 | _ \<Rightarrow> (0::nat))"
    and "0 \<le> column s"
  using assms
  by (auto simp: place_break_def Let_def shouldBreak_def brkWidth_def split: option.splits if_splits)

lemma compute_forced:
  "computeBreaks maxW mult d s = Some (l, r) \<Longrightarrow> maxW < maxWidth \<Longrightarrow> 0 \<le> column (fst s) \<Longrightarrow>
     forced d \<le> taken l \<and> 0 \<le> column (fst r)"
  "computeSplit maxW mult ds s = Some (ls, r) \<Longrightarrow> maxW < maxWidth \<Longrightarrow> 0 \<le> column (fst s) \<Longrightarrow>
     sum_list (map forced ds) \<le> sum_list (map taken ls) \<and> 0 \<le> column (fst r)"
  "breakAndSplit maxW mult gs s = Some (lgs, r) \<Longrightarrow> maxW < maxWidth \<Longrightarrow> 0 \<le> column (fst s) \<Longrightarrow>
     groups_forced gs \<le> taken (LSplit lgs) \<and> 0 \<le> column (fst r)"
proof (induction maxW mult d s and maxW mult ds s and maxW mult gs s arbitrary: l r and ls r and lgs r
    rule: computeBreaks_computeSplit_breakAndSplit.induct)
  case (4 maxW mult i ds st t)
  show ?case
  proof (cases "column st + sumWidth ds \<le> maxW")
    case True
    with 4 have "sum_list (map forced ds) = 0" by (intro not_forced_fits) simp
    with True 4 show ?thesis using sumWidth_nonneg [of ds] by (auto simp: Let_def)
  next
    case False
    with 4 show ?thesis
      by (auto simp: Let_def groups_forced_split split: option.splits)
  qed
next
  case (7 maxW mult d ds st t)
  then show ?case by (fastforce split: option.splits)
next
  case (9 maxW mult ob split gs st t)
  obtain dec s t1 where p: "place_break maxW mult ob (sumWidth split) (st, t) = (dec, s, t1)"
    by (metis prod_cases3)
  from 9(3) p obtain ls s2 t2 rest where
      run: "computeSplit maxW mult split (s\<lparr>mustBreak := False\<rparr>, t1) = Some (ls, s2, t2)"
      "breakAndSplit maxW mult gs (if column s + sumWidth split \<le> maxW then s2 else s2\<lparr>mustBreak := True\<rparr>, t2) = Some (rest, r)"
      "lgs = (dec, ls) # rest"
    by (auto simp: Let_def split: option.splits)
  have col: "0 \<le> column s"
    and brk: "(case ob of None \<Rightarrow> 0 | Some b \<Rightarrow> forced (Brk b)) \<le> (case dec of Some (b, Some ni) \<Rightarrow> 1 | _ \<Rightarrow> (0::nat))"
    using place_break_forced [OF p 9(4) sumWidth_nonneg] 9(5) by simp_all
  from 9(1) [OF refl refl p [symmetric] refl refl run(1) 9(4)] col
  have split: "sum_list (map forced split) \<le> sum_list (map taken ls)" "0 \<le> column s2" by simp_all
  from 9(2) [OF refl refl p [symmetric] refl refl run(1) refl refl] run(2) 9(4) split(2)
  have "groups_forced gs \<le> taken (LSplit rest)" "0 \<le> column (fst r)" by (auto split: if_splits)
  with brk split(1) show ?case by (simp add: run(3) del: forced.simps)
qed (auto split: option.splits)

text \<open>A writing step that adds at least \<open>n\<close> newlines, and its composition over a list.\<close>

definition grows :: "(writer \<Rightarrow> writer) \<Rightarrow> nat \<Rightarrow> bool" where
  "grows f n \<longleftrightarrow> (\<forall>w. count_list (buf w) newline + n \<le> count_list (buf (f w)) newline)"

lemma grows_comp: "grows f m \<Longrightarrow> grows g n \<Longrightarrow> grows (\<lambda>w. g (f w)) (m + n)"
  unfolding grows_def
proof
  fix w
  assume "\<forall>w. count_list (buf w) newline + m \<le> count_list (buf (f w)) newline"
    and "\<forall>w. count_list (buf w) newline + n \<le> count_list (buf (g w)) newline"
  from this(1) [rule_format, of w] this(2) [rule_format, of "f w"]
  show "count_list (buf w) newline + (m + n) \<le> count_list (buf (g (f w))) newline" by linarith
qed

lemma grows_fold: "(\<And>x. x \<in> set xs \<Longrightarrow> grows (f x) (g x)) \<Longrightarrow> grows (fold f xs) (sum_list (map g xs))"
proof (induction xs)
  case (Cons x xs)
  then have "grows (f x) (g x)" "grows (fold f xs) (sum_list (map g xs))" by simp_all
  from grows_comp [OF this] show ?case by (simp add: comp_def)
qed (simp add: grows_def)

lemma grows_push: "grows (push s) 0"
  by (simp add: grows_def)

lemma grows_push_reflow: "grows (push_reflow s) 0"
  by (simp add: grows_def push_reflow_def split: option.splits)

lemma grows_writeFlat: "grows (writeFlat d) 0"
proof (induction d)
  case (concatDoc ds)
  then show ?case using grows_fold [of ds writeFlat "\<lambda>_. 0"] by (simp add: grows_def)
next
  case (levelDoc i ds)
  then show ?case using grows_fold [of ds writeFlat "\<lambda>_. 0"] by (simp add: grows_def)
qed (simp_all add: grows_def grows_push [unfolded grows_def] grows_push_reflow [unfolded grows_def, simplified])

lemma count_trim [simp]: "count_list (trim_right is_blank s) newline = count_list s newline"
proof -
  have "count_list (dropWhile is_blank xs) newline = count_list xs newline" for xs
    by (induction xs) (auto simp: is_blank_def newline_def)
  from this [of "rev s"] show ?thesis by (simp add: trim_right_def)
qed

lemma grows_write_break:
  "grows (write_break dec) (case dec of Some (b, Some ni) \<Rightarrow> 1 | _ \<Rightarrow> 0)"
  by (auto simp: grows_def write_break_def split: option.splits)

lemma grows_writeDoc: "grows (writeDoc l) (taken l)"
proof (induction l)
  case (LConcat ls)
  then show ?case using grows_fold [of ls writeDoc taken] by (simp add: grows_def)
next
  case (LOneLine ds)
  have "grows (fold writeFlat ds) 0"
    using grows_fold [of ds writeFlat "\<lambda>_. 0"] grows_writeFlat by simp
  then show ?case using grows_push [of "flatAll ds"] by (simp add: grows_def)
next
  case (LSplit gs)
  have "grows (\<lambda>w. fold writeDoc ls (write_break dec w))
      ((case dec of Some (b, Some ni) \<Rightarrow> 1 | _ \<Rightarrow> 0) + sum_list (map taken ls))" if "(dec, ls) \<in> set gs" for dec ls
  proof -
    have "grows (fold writeDoc ls) (sum_list (map taken ls))"
      using LSplit that by (intro grows_fold) fastforce
    from grows_comp [OF grows_write_break [of dec] this] show ?thesis .
  qed
  then have "grows (fold (\<lambda>(dec, ls) w. fold writeDoc ls (write_break dec w)) gs) (taken (LSplit gs))"
    unfolding taken.simps by (intro grows_fold) auto
  then show ?case by (simp add: grows_def)
qed (simp_all add: grows_def grows_push [unfolded grows_def, simplified] grows_push_reflow [unfolded grows_def, simplified])



section \<open>Columns\<close>

definition plain :: "string \<Rightarrow> bool" where
  "plain s \<longleftrightarrow> ascii s \<and> newline \<notin> set s"

definition plain_break :: "brkDoc \<Rightarrow> bool" where
  "plain_break b \<longleftrightarrow> newline \<notin> set (flatText b)"

lemma leafWidth_plain: "plain s \<Longrightarrow> leafWidth s = int (length s)"
proof -
  have "ascii s \<Longrightarrow> sum_list (map utf16_units (runes s)) = length s"
    by (simp add: runes_ascii) (induction s, auto simp: utf16_units_def)
  then show "plain s \<Longrightarrow> ?thesis" by (simp add: plain_def leafWidth_def textWidth_def)
qed

lemma sum_from_exact:
  "list_all (\<lambda>x. 0 \<le> x) xs \<Longrightarrow> 0 \<le> w \<Longrightarrow> sum_from w xs < maxWidth \<Longrightarrow>
   sum_from w xs = w + sum_list xs \<and> list_all (\<lambda>x. x < maxWidth) xs"
proof (induction xs arbitrary: w)
  case (Cons x xs)
  then have "w + x < maxWidth" "sum_from (w + x) xs < maxWidth" by (auto split: if_splits)
  with Cons.prems Cons.IH [of "w + x"] show ?case by simp
qed simp

lemma sumWidth_exact:
  assumes "sumWidth ds < maxWidth" and "\<And>d. d \<in> set ds \<Longrightarrow> width d < maxWidth \<Longrightarrow> width d = int (length (flat d))"
  shows "sumWidth ds = int (length (flatAll ds))"
proof -
  have sum: "sumWidth ds = sum_list (map width ds)" "list_all (\<lambda>x. x < maxWidth) (map width ds)"
    using sum_from_exact [OF widths_nonneg, of 0 ds] assms(1) by (simp_all add: sumWidth_def)
  then have "\<forall>d \<in> set ds. width d = int (length (flat d))" using assms(2) by (simp add: list_all_iff)
  then show ?thesis unfolding sum(1) by (induction ds) simp_all
qed

lemma width_exact: "doc_all plain_break plain d \<Longrightarrow> width d < maxWidth \<Longrightarrow> width d = int (length (flat d))"
proof (induction d)
  case (concatDoc ds)
  then show ?case using sumWidth_exact [of ds] by (simp add: sumWidth_def list_all_iff flatAll_def)
next
  case (levelDoc i ds)
  then show ?case using sumWidth_exact [of ds] by (simp add: sumWidth_def list_all_iff flatAll_def)
qed (auto simp: leafWidth_plain brkWidth_def split: if_splits)

lemma sumWidth_plain:
  "list_all (doc_all plain_break plain) ds \<Longrightarrow> sumWidth ds < maxWidth \<Longrightarrow> sumWidth ds = int (length (flatAll ds))"
  by (rule sumWidth_exact) (auto simp: list_all_iff intro: width_exact)

lemma plain_flat: "doc_all plain_break plain d \<Longrightarrow> newline \<notin> set (flat d)"
  by (induction d) (auto simp: plain_def plain_break_def list_all_iff)

text \<open>Without a rewriter, writing plain text advances the writer's column by its length.\<close>

definition advances :: "(writer \<Rightarrow> writer) \<Rightarrow> nat \<Rightarrow> bool" where
  "advances f n \<longleftrightarrow> (\<forall>w. rewrite w = None \<longrightarrow> col (f w) = col w + int n \<and> rewrite (f w) = None)"

lemma advances_fold: "(\<And>x. x \<in> set xs \<Longrightarrow> advances (f x) (g x)) \<Longrightarrow> advances (fold f xs) (sum_list (map g xs))"
  unfolding advances_def by (induction xs) auto

lemma advances_push: "newline \<notin> set s \<Longrightarrow> advances (push s) (length s)"
  by (simp add: advances_def push_def)

lemma length_flatAll: "length (flatAll ds) = sum_list (map (\<lambda>d. length (flat d)) ds)"
  by (induction ds) simp_all

lemma advances_writeFlat: "doc_all plain_break plain d \<Longrightarrow> advances (writeFlat d) (length (flat d))"
proof (induction d)
  case (concatDoc ds)
  then have "advances (fold writeFlat ds) (length (flatAll ds))"
    unfolding length_flatAll by (intro advances_fold) (simp add: list_all_iff)
  then show ?case by (simp add: advances_def del: flat.simps)
next
  case (levelDoc i ds)
  then have "advances (fold writeFlat ds) (length (flatAll ds))"
    unfolding length_flatAll by (intro advances_fold) (simp add: list_all_iff)
  then show ?case by (simp add: advances_def del: flat.simps)
qed (auto simp: advances_def push_def push_reflow_def plain_def plain_break_def)

lemma advances_oneLine:
  assumes "list_all (doc_all plain_break plain) ds"
  shows "advances (writeDoc (LOneLine ds)) (length (flatAll ds))"
proof -
  have "advances (fold writeFlat ds) (length (flatAll ds))"
    unfolding length_flatAll using assms by (intro advances_fold) (simp add: list_all_iff advances_writeFlat)
  moreover have "advances (push (flatAll ds)) (length (flatAll ds))"
    using assms by (intro advances_push) (auto simp: flatAll_def list_all_iff plain_flat)
  ultimately show ?thesis by (simp add: advances_def)
qed

text \<open>The writer is where the layout thinks it is: \<open>at w st\<close>.\<close>

definition at :: "writer \<Rightarrow> lstate \<Rightarrow> bool" where
  "at w st \<longleftrightarrow> rewrite w = None \<and> col w = column st"

lemma last_line_append: "last_line (t @ s) = (if newline \<in> set s then last_line s else last_line t + length s)"
proof (cases "newline \<in> set s")
  case True
  then show ?thesis by (simp add: last_line_def takeWhile_append1 [of newline])
next
  case False
  then have "takeWhile (\<lambda>c. c \<noteq> newline) (rev s @ rev t) = rev s @ takeWhile (\<lambda>c. c \<noteq> newline) (rev t)"
    by (intro takeWhile_append2) auto
  with False show ?thesis by (simp add: last_line_def)
qed

lemma last_line_newline:
  assumes "newline \<notin> set s"
  shows "last_line (t @ newline # s) = length s"
proof -
  have "last_line (t @ newline # s) = last_line ([newline] @ s)" by (subst last_line_append) simp
  also have "\<dots> = last_line [newline] + length s" using assms by (subst last_line_append) simp
  also have "last_line [newline] = 0" by (simp add: last_line_def)
  finally show ?thesis by simp
qed

lemma place_break_at:
  assumes "place_break maxW mult ob sw (st, t) = (dec, s, t1)" and "case ob of None \<Rightarrow> True | Some b \<Rightarrow> plain_break b"
    and "at w st"
  shows "at (write_break dec w) s"
  using assms
  by (auto simp: place_break_def Let_def at_def write_break_def push_def plain_break_def newline_def
      last_line_newline [of _ "[]", unfolded newline_def, simplified] trimTrailingSpace_def split: option.splits if_splits)

lemma compute_at:
  "computeBreaks maxW mult d s = Some (l, r) \<Longrightarrow> maxW < maxWidth \<Longrightarrow> 0 \<le> column (fst s) \<Longrightarrow>
     doc_all plain_break plain d \<Longrightarrow> at w (fst s) \<Longrightarrow> at (writeDoc l w) (fst r)"
  "computeSplit maxW mult ds s = Some (ls, r) \<Longrightarrow> maxW < maxWidth \<Longrightarrow> 0 \<le> column (fst s) \<Longrightarrow>
     list_all (doc_all plain_break plain) ds \<Longrightarrow> at w (fst s) \<Longrightarrow> at (fold writeDoc ls w) (fst r)"
  "breakAndSplit maxW mult gs s = Some (lgs, r) \<Longrightarrow> maxW < maxWidth \<Longrightarrow> 0 \<le> column (fst s) \<Longrightarrow>
     groups_all plain_break plain gs \<Longrightarrow> at w (fst s) \<Longrightarrow> at (writeDoc (LSplit lgs) w) (fst r)"
proof (induction maxW mult d s and maxW mult ds s and maxW mult gs s arbitrary: l r w and ls r w and lgs r w
    rule: computeBreaks_computeSplit_breakAndSplit.induct)
  case (1 maxW mult s st t)
  then show ?case by (auto simp: at_def push_def plain_def leafWidth_plain)
next
  case (2 maxW mult s st t)
  then show ?case by (auto simp: at_def push_def push_reflow_def plain_def leafWidth_plain)
next
  case (4 maxW mult i ds st t)
  show ?case
  proof (cases "column st + sumWidth ds \<le> maxW")
    case True
    with 4 have "sumWidth ds = int (length (flatAll ds))" by (intro sumWidth_plain) auto
    moreover have "advances (writeDoc (LOneLine ds)) (length (flatAll ds))" using 4 by (intro advances_oneLine) simp
    ultimately show ?thesis using 4(2,6) True by (auto simp: at_def advances_def simp del: writeDoc.simps)
  next
    case False
    with 4(2) obtain gs s t' where run: "breakAndSplit maxW mult (as_groups (splitByBreaks ds))
        (\<lparr>lastIndent = indent st + evalIndent t i mult, indent = indent st + evalIndent t i mult,
          column = column st, mustBreak = False\<rparr>, t) = Some (gs, s, t')"
      and l: "l = LSplit gs" "r = (st\<lparr>column := column s\<rparr>, t')"
      by (auto simp: Let_def split: option.splits)
    from 4(1) [OF refl False refl run 4(3)] 4(4-6)
    have "at (writeDoc (LSplit gs) w) s" by (simp add: groups_all_split at_def)
    then show ?thesis by (simp add: l at_def)
  qed
next
  case (7 maxW mult d ds st t)
  then obtain l1 r1 ls1 where run: "computeBreaks maxW mult d (st, t) = Some (l1, r1)"
    "computeSplit maxW mult ds r1 = Some (ls1, r)" "ls = l1 # ls1" by (auto split: option.splits)
  have "0 \<le> column (fst r1)" using compute_forced(1) [OF run(1) 7(4,5)] by simp
  moreover have "at (writeDoc l1 w) (fst r1)" using 7(1) [OF run(1) 7(4,5) _ 7(7)] 7(6) by simp
  ultimately show ?case using 7(2) [OF run(1) refl run(2) 7(4)] 7(6) by (simp add: run(3))
next
  case (9 maxW mult ob split gs st t)
  obtain dec s t1 where p: "place_break maxW mult ob (sumWidth split) (st, t) = (dec, s, t1)"
    by (metis prod_cases3)
  from 9(3) p obtain ls s2 t2 rest where
      run: "computeSplit maxW mult split (s\<lparr>mustBreak := False\<rparr>, t1) = Some (ls, s2, t2)"
      "breakAndSplit maxW mult gs (if column s + sumWidth split \<le> maxW then s2 else s2\<lparr>mustBreak := True\<rparr>, t2) = Some (rest, r)"
      "lgs = (dec, ls) # rest"
    by (auto simp: Let_def split: option.splits)
  have col: "0 \<le> column s"
    using place_break_forced(2) [OF p 9(4) sumWidth_nonneg] 9(5) by simp
  have "at (write_break dec w) s" using place_break_at [OF p] 9(6,7) by simp
  then have w: "at (write_break dec w) (s\<lparr>mustBreak := False\<rparr>)" by (simp add: at_def)
  have "at (fold writeDoc ls (write_break dec w)) s2"
    using 9(1) [OF refl refl p [symmetric] refl refl run(1) 9(4)] col 9(6) w by simp
  then have w2: "at (fold writeDoc ls (write_break dec w)) (if column s + sumWidth split \<le> maxW then s2 else s2\<lparr>mustBreak := True\<rparr>)"
    by (simp add: at_def)
  have "0 \<le> column s2" using compute_forced(2) [OF run(1) 9(4)] col by simp
  with 9(2) [OF refl refl p [symmetric] refl refl run(1) refl refl run(2) 9(4)] w2 9(6)
  have "at (writeDoc (LSplit rest) (fold writeDoc ls (write_break dec w))) (fst r)" by simp
  then show ?case by (simp add: run(3))
qed (auto split: option.splits)

text \<open>The writer's column is the length of the last line of its text.\<close>

definition col_ok :: "writer \<Rightarrow> bool" where
  "col_ok w \<longleftrightarrow> col w = int (last_line (buf w))"

lemma col_ok_push: "col_ok w \<Longrightarrow> col_ok (push s w)"
  by (simp add: col_ok_def push_def buf_def last_line_append)

lemma col_ok_push_newline: "col_ok (push (newline # s) w)"
  by (simp add: col_ok_def push_def buf_def last_line_append)

lemma col_ok_fold: "(\<And>x w. x \<in> set xs \<Longrightarrow> col_ok w \<Longrightarrow> col_ok (f x w)) \<Longrightarrow> col_ok w \<Longrightarrow> col_ok (fold f xs w)"
  by (induction xs arbitrary: w) auto

lemma col_ok_push_reflow: "col_ok w \<Longrightarrow> col_ok (push_reflow s w)"
  by (auto simp: push_reflow_def col_ok_push split: option.splits)

lemma col_ok_writeFlat: "col_ok w \<Longrightarrow> col_ok (writeFlat d w)"
  by (induction d arbitrary: w) (auto intro: col_ok_fold col_ok_push col_ok_push_reflow)

lemma col_ok_write_break: "col_ok w \<Longrightarrow> col_ok (write_break dec w)"
  by (auto simp: write_break_def intro: col_ok_push col_ok_push_newline split: option.splits)

lemma col_ok_writeDoc: "col_ok w \<Longrightarrow> col_ok (writeDoc l w)"
proof (induction l arbitrary: w)
  case (LSplit gs)
  have "col_ok (fold writeDoc ls (write_break dec w))" if "(dec, ls) \<in> set gs" "col_ok w" for dec ls w
    using that LSplit.IH by (intro col_ok_fold col_ok_write_break) fastforce+
  then have "col_ok (fold (\<lambda>(dec, ls) w. fold writeDoc ls (write_break dec w)) gs w)"
    by (intro col_ok_fold LSplit.prems) (metis case_prod_conv surj_pair)
  then show ?case by simp
qed (auto intro: col_ok_fold col_ok_push col_ok_push_reflow col_ok_writeFlat)



end
