(* ===== verification/StreamSplit.thy ===== *)
theory StreamSplit
  imports GoPrelude
begin

text \<open>
  Frames on a byte stream, shared by the JDWP packets and the Content-Length frames: the contract of
  a splitter, as a locale, and the read loop over it.
\<close>

text \<open>
  The read loop: frames are taken off the buffer until none is complete; the loop returns them
  with what is left. The fuel is the number of bytes, one frame per byte at most.
\<close>

fun drain_upto :: "nat \<Rightarrow> ('b list \<Rightarrow> ('b list + 'p \<times> 'b list) option) \<Rightarrow> 'b list \<Rightarrow> ('p list \<times> 'b list) option" where
  "drain_upto 0 split buf = Some ([], buf)"
| "drain_upto (Suc n) split buf =
     (case split buf of
        None \<Rightarrow> None
      | Some (Inl _) \<Rightarrow> Some ([], buf)
      | Some (Inr (p, rest)) \<Rightarrow> map_option (\<lambda>(ps, r). (p # ps, r)) (drain_upto n split rest))"

definition drain :: "('b list \<Rightarrow> ('b list + 'p \<times> 'b list) option) \<Rightarrow> 'b list \<Rightarrow> ('p list \<times> 'b list) option" where
  "drain split buf = drain_upto (length buf) split buf"

fun read_chunks :: "('b list \<Rightarrow> ('b list + 'p \<times> 'b list) option) \<Rightarrow> 'b list \<Rightarrow> 'b list list \<Rightarrow> ('p list \<times> 'b list) option" where
  "read_chunks split buf [] = Some ([], buf)"
| "read_chunks split buf (c # cs) =
     (case drain split (buf @ c) of
        None \<Rightarrow> None
      | Some (ps, rest) \<Rightarrow> map_option (\<lambda>(qs, r). (ps @ qs, r)) (read_chunks split rest cs))"

text \<open>
  What a splitter of a byte stream owes the loop that runs it: a frame it takes off the buffer makes
  the buffer shorter, and bytes that arrive later change nothing about a frame that is complete.
  \<open>None\<close> is a panic.
\<close>

locale stream_splitter =
  fixes split :: "'b list \<Rightarrow> ('b list + 'p \<times> 'b list) option"
  assumes split_shorter: "split buf = Some (Inr (p, rest)) \<Longrightarrow> length rest < length buf"
    and split_append: "split buf = Some (Inr (p, rest)) \<Longrightarrow> split (buf @ later) = Some (Inr (p, rest @ later))"
    and split_panic: "split buf = None \<Longrightarrow> split (buf @ later) = None"
    and split_empty: "split [] = Some (Inl [])"
begin

lemma drain_upto_enough:
  "length buf \<le> n \<Longrightarrow> drain_upto n split buf = drain split buf"
proof (induction n arbitrary: buf rule: less_induct)
  case (less n)
  show ?case
  proof (cases n)
    case 0
    with less.prems show ?thesis by (simp add: drain_def)
  next
    case (Suc m)
    show ?thesis
    proof (cases buf)
      case Nil
      then show ?thesis by (simp add: drain_def Suc split_empty)
    next
      case (Cons b bs)
      have "drain_upto m split rest = drain_upto (length bs) split rest"
        if "split buf = Some (Inr (p, rest))" for p rest
      proof -
        have "length rest \<le> length bs" using split_shorter [OF that] Cons by simp
        moreover have "length bs \<le> m" using less.prems Cons Suc by simp
        ultimately show ?thesis using less.IH [of m rest] less.IH [of "length bs" rest] Suc less.prems Cons by simp
      qed
      then show ?thesis by (simp add: drain_def Suc Cons split: option.splits sum.splits)
    qed
  qed
qed

lemma drain_step:
  "drain split buf = (case split buf of
      None \<Rightarrow> None
    | Some (Inl _) \<Rightarrow> Some ([], buf)
    | Some (Inr (p, rest)) \<Rightarrow> map_option (\<lambda>(ps, r). (p # ps, r)) (drain split rest))"
proof (cases buf)
  case Nil
  then show ?thesis by (simp add: drain_def split_empty)
next
  case (Cons b bs)
  have "drain_upto (length bs) split rest = drain split rest" if "split buf = Some (Inr (p, rest))" for p rest
    using split_shorter [OF that] Cons by (intro drain_upto_enough) simp
  then show ?thesis by (simp add: drain_def Cons split: option.splits sum.splits)
qed

lemma drain_append:
  "drain split (buf @ c) =
     (case drain split buf of
        None \<Rightarrow> None
      | Some (ps, rest) \<Rightarrow> map_option (\<lambda>(qs, r). (ps @ qs, r)) (drain split (rest @ c)))"
proof (induction buf rule: length_induct)
  case (1 buf)
  show ?case
  proof (cases "split buf")
    case None
    then show ?thesis by (simp add: drain_step [of buf] drain_step [of "buf @ c"] split_panic)
  next
    case (Some res)
    show ?thesis
    proof (cases res)
      case (Inl b)
      with Some have "drain split buf = Some ([], buf)" by (subst drain_step) simp
      then show ?thesis by (cases "drain split (buf @ c)") auto
    next
      case (Inr f)
      then obtain p rest where f: "split buf = Some (Inr (p, rest))" using Some by (cases f) auto
      have step: "drain split buf = map_option (\<lambda>(ps, r). (p # ps, r)) (drain split rest)"
        by (subst drain_step) (simp add: f)
      have "drain split (buf @ c) = map_option (\<lambda>(ps, r). (p # ps, r)) (drain split (rest @ c))"
        by (subst drain_step) (simp add: split_append [OF f])
      also have "drain split (rest @ c) = (case drain split rest of None \<Rightarrow> None
        | Some (ps, r) \<Rightarrow> map_option (\<lambda>(qs, r). (ps @ qs, r)) (drain split (r @ c)))"
        using 1 split_shorter [OF f] by blast
      finally show ?thesis
        unfolding step by (cases "drain split rest") (auto simp: option.map_comp comp_def split_def)
    qed
  qed
qed

text \<open>However the stream is cut into chunks, the loop finds the frames of the whole stream.\<close>

lemma read_chunks_concat:
  "drain split buf = Some ([], buf) \<Longrightarrow> read_chunks split buf cs = drain split (buf @ concat cs)"
proof (induction cs arbitrary: buf)
  case (Cons c cs)
  have whole: "drain split (buf @ concat (c # cs)) = (case drain split (buf @ c) of None \<Rightarrow> None
      | Some (ps, rest) \<Rightarrow> map_option (\<lambda>(qs, r). (ps @ qs, r)) (drain split (rest @ concat cs)))"
    using drain_append [of "buf @ c" "concat cs"] by simp
  have "drain split rest = Some ([], rest)" if "drain split (buf @ c) = Some (ps, rest)" for ps rest
  proof -
    from that have "map_option (\<lambda>(qs, r). (ps @ qs, r)) (drain split rest) = Some (ps, rest)"
      using drain_append [of "buf @ c" "[]"] by simp
    then show ?thesis by auto
  qed
  then show ?case unfolding whole using Cons.IH by (auto split: option.splits)
qed simp

lemma drain_frames:
  assumes "\<And>p rest. p \<in> set ps \<Longrightarrow> split (enc p @ rest) = Some (Inr (dec p, rest))"
  shows "drain split (concat (map enc ps)) = Some (map dec ps, [])"
  using assms
proof (induction ps)
  case Nil
  then show ?case by (subst drain_step) (simp add: split_empty)
next
  case (Cons p ps)
  then show ?case by (subst drain_step) simp
qed

end

end
