(* ===== verification/JdwpCodec.thy ===== *)
theory JdwpCodec
  imports StreamSplit "HOL-Library.Monad_Syntax"
begin

unbundle bit_operations_syntax

text \<open>
  The JDWP byte codecs and packets: \<open>togo/internal/jdwp/idcodec.go\<close> and \<open>protocol.go\<close>. A writer
  method is the list of bytes it appends. A \<open>Reader\<close> over a Go slice is a pair: the bytes up to the
  slice's length that are still unread, and the bytes behind them up to its capacity, which a slice
  expression may reach (\<open>Bytes\<close> and \<open>String\<close>) and an index may not. A panic is \<open>None\<close>.
\<close>

section \<open>Big-endian fields\<close>

fun be_put :: "nat \<Rightarrow> 'a::len word \<Rightarrow> bytes" where
  "be_put 0 v = []"
| "be_put (Suc n) v = be_put n (drop_bit 8 v) @ [ucast v]"

type_synonym reader = "bytes \<times> bytes"

definition rU1 :: "reader \<Rightarrow> (byte \<times> reader) option" where
  "rU1 r = (case fst r of [] \<Rightarrow> None | b # bs \<Rightarrow> Some (b, (bs, snd r)))"

fun be_get :: "nat \<Rightarrow> 'a::len word \<Rightarrow> reader \<Rightarrow> ('a word \<times> reader) option" where
  "be_get 0 acc r = Some (acc, r)"
| "be_get (Suc n) acc r = do { (b, r') \<leftarrow> rU1 r; be_get n (push_bit 8 acc OR ucast b) r' }"

definition wU2 :: "16 word \<Rightarrow> bytes" where "wU2 = be_put 2"
definition wU4 :: "32 word \<Rightarrow> bytes" where "wU4 = be_put 4"
definition wID :: "64 word \<Rightarrow> nat \<Rightarrow> bytes" where "wID v n = be_put n v"
definition wU8 :: "64 word \<Rightarrow> bytes" where "wU8 v = wID v 8"
definition wI4 :: "32 word \<Rightarrow> bytes" where "wI4 = wU4"
definition wBool :: "bool \<Rightarrow> bytes" where "wBool b = [if b then 1 else 0]"
definition wString :: "bytes \<Rightarrow> bytes" where "wString s = wU4 (of_nat (length s)) @ s"

definition rU2 :: "reader \<Rightarrow> (16 word \<times> reader) option" where "rU2 = be_get 2 0"
definition rU4 :: "reader \<Rightarrow> (32 word \<times> reader) option" where "rU4 = be_get 4 0"
definition rID :: "nat \<Rightarrow> reader \<Rightarrow> (64 word \<times> reader) option" where "rID n = be_get n 0"
definition rU8 :: "reader \<Rightarrow> (64 word \<times> reader) option" where "rU8 = rID 8"
definition rI4 :: "reader \<Rightarrow> (32 word \<times> reader) option" where "rI4 = rU4"
definition rBool :: "reader \<Rightarrow> (bool \<times> reader) option" where
  "rBool r = map_option (\<lambda>(b, r'). (b \<noteq> 0, r')) (rU1 r)"

definition rBytes :: "nat \<Rightarrow> reader \<Rightarrow> (bytes \<times> reader) option" where
  "rBytes n r =
     (let rest = fst r; spare = snd r
      in if n \<le> length rest then Some (take n rest, (drop n rest, spare))
         else if n \<le> length rest + length spare
           then Some (rest @ take (n - length rest) spare, ([], drop (n - length rest) spare))
         else None)"

definition rString :: "reader \<Rightarrow> (bytes \<times> reader) option" where
  "rString r = do { (n, r') \<leftarrow> rU4 r; rBytes (unat n) r' }"

record IDSizes =
  sz_field :: nat
  sz_method :: nat
  sz_object :: nat
  sz_reftype :: nat
  sz_frame :: nat

definition DefaultIDSizes :: IDSizes where
  "DefaultIDSizes = \<lparr>sz_field = 8, sz_method = 8, sz_object = 8, sz_reftype = 8, sz_frame = 8\<rparr>"

section \<open>Packets\<close>

definition HeaderLen :: nat where "HeaderLen = 11"
definition FlagReply :: byte where "FlagReply = 0x80"

text \<open>The command and event constants of the protocol.\<close>

abbreviation CSVirtualMachine :: "byte" where "CSVirtualMachine \<equiv> 1"
abbreviation CSReferenceType :: "byte" where "CSReferenceType \<equiv> 2"
abbreviation CSClassType :: "byte" where "CSClassType \<equiv> 3"
abbreviation CSMethod :: "byte" where "CSMethod \<equiv> 6"
abbreviation CSObjectReference :: "byte" where "CSObjectReference \<equiv> 9"
abbreviation CSStringReference :: "byte" where "CSStringReference \<equiv> 10"
abbreviation CSThreadReference :: "byte" where "CSThreadReference \<equiv> 11"
abbreviation CSArrayReference :: "byte" where "CSArrayReference \<equiv> 13"
abbreviation CSEventRequest :: "byte" where "CSEventRequest \<equiv> 15"
abbreviation CSStackFrame :: "byte" where "CSStackFrame \<equiv> 16"
abbreviation CSEvent :: "byte" where "CSEvent \<equiv> 64"
abbreviation VMVersion :: "byte" where "VMVersion \<equiv> 1"
abbreviation VMClassesBySignature :: "byte" where "VMClassesBySignature \<equiv> 2"
abbreviation VMAllClasses :: "byte" where "VMAllClasses \<equiv> 3"
abbreviation VMAllThreads :: "byte" where "VMAllThreads \<equiv> 4"
abbreviation VMDispose :: "byte" where "VMDispose \<equiv> 6"
abbreviation VMIDSizes :: "byte" where "VMIDSizes \<equiv> 7"
abbreviation VMSuspend :: "byte" where "VMSuspend \<equiv> 8"
abbreviation VMResume :: "byte" where "VMResume \<equiv> 9"
abbreviation VMExit :: "byte" where "VMExit \<equiv> 10"
abbreviation VMCreateString :: "byte" where "VMCreateString \<equiv> 11"
abbreviation RTSignature :: "byte" where "RTSignature \<equiv> 1"
abbreviation RTFields :: "byte" where "RTFields \<equiv> 4"
abbreviation RTMethods :: "byte" where "RTMethods \<equiv> 5"
abbreviation RTSourceFile :: "byte" where "RTSourceFile \<equiv> 7"
abbreviation MLineTable :: "byte" where "MLineTable \<equiv> 1"
abbreviation MVariableTable :: "byte" where "MVariableTable \<equiv> 2"
abbreviation ORReferenceType :: "byte" where "ORReferenceType \<equiv> 1"
abbreviation ORGetValues :: "byte" where "ORGetValues \<equiv> 2"
abbreviation ORInvokeMethod :: "byte" where "ORInvokeMethod \<equiv> 6"
abbreviation SRValue :: "byte" where "SRValue \<equiv> 1"
abbreviation TRName :: "byte" where "TRName \<equiv> 1"
abbreviation TRSuspend :: "byte" where "TRSuspend \<equiv> 2"
abbreviation TRResume :: "byte" where "TRResume \<equiv> 3"
abbreviation TRStatus :: "byte" where "TRStatus \<equiv> 4"
abbreviation TRFrames :: "byte" where "TRFrames \<equiv> 6"
abbreviation TRFrameCount :: "byte" where "TRFrameCount \<equiv> 7"
abbreviation ARLength :: "byte" where "ARLength \<equiv> 1"
abbreviation ARGetValues :: "byte" where "ARGetValues \<equiv> 2"
abbreviation ERSet :: "byte" where "ERSet \<equiv> 1"
abbreviation ERClear :: "byte" where "ERClear \<equiv> 2"
abbreviation SFGetValues :: "byte" where "SFGetValues \<equiv> 1"
abbreviation EVComposite :: "byte" where "EVComposite \<equiv> 100"
abbreviation EKSingleStep :: "byte" where "EKSingleStep \<equiv> 1"
abbreviation EKBreakpoint :: "byte" where "EKBreakpoint \<equiv> 2"
abbreviation EKThreadStart :: "byte" where "EKThreadStart \<equiv> 6"
abbreviation EKThreadDeath :: "byte" where "EKThreadDeath \<equiv> 7"
abbreviation EKClassPrepare :: "byte" where "EKClassPrepare \<equiv> 8"
abbreviation EKVMStart :: "byte" where "EKVMStart \<equiv> 90"
abbreviation EKVMDeath :: "byte" where "EKVMDeath \<equiv> 99"
abbreviation SuspendNone :: "byte" where "SuspendNone \<equiv> 0"
abbreviation SuspendEventThread :: "byte" where "SuspendEventThread \<equiv> 1"
abbreviation SuspendAll :: "byte" where "SuspendAll \<equiv> 2"
abbreviation TypeTagClass :: "byte" where "TypeTagClass \<equiv> 1"
abbreviation TypeTagInterface :: "byte" where "TypeTagInterface \<equiv> 2"
abbreviation TypeTagArray :: "byte" where "TypeTagArray \<equiv> 3"
abbreviation ModCount :: "byte" where "ModCount \<equiv> 1"
abbreviation ModClassMatch :: "byte" where "ModClassMatch \<equiv> 5"
abbreviation ModLocationOnly :: "byte" where "ModLocationOnly \<equiv> 7"
abbreviation ModStep :: "byte" where "ModStep \<equiv> 10"
abbreviation StepSizeMin :: "32 word" where "StepSizeMin \<equiv> 0"
abbreviation StepSizeLine :: "32 word" where "StepSizeLine \<equiv> 1"
abbreviation StepDepthIn :: "32 word" where "StepDepthIn \<equiv> 0"
abbreviation StepDepthOut :: "32 word" where "StepDepthOut \<equiv> 2"
abbreviation StepDepthOver :: "32 word" where "StepDepthOver \<equiv> 1"
abbreviation TagArray :: "byte" where "TagArray \<equiv> 91"
abbreviation TagByte :: "byte" where "TagByte \<equiv> 66"
abbreviation TagChar :: "byte" where "TagChar \<equiv> 67"
abbreviation TagObject :: "byte" where "TagObject \<equiv> 76"
abbreviation TagFloat :: "byte" where "TagFloat \<equiv> 70"
abbreviation TagDouble :: "byte" where "TagDouble \<equiv> 68"
abbreviation TagInt :: "byte" where "TagInt \<equiv> 73"
abbreviation TagLong :: "byte" where "TagLong \<equiv> 74"
abbreviation TagShort :: "byte" where "TagShort \<equiv> 83"
abbreviation TagVoid :: "byte" where "TagVoid \<equiv> 86"
abbreviation TagBoolean :: "byte" where "TagBoolean \<equiv> 90"
abbreviation TagString :: "byte" where "TagString \<equiv> 115"
abbreviation TagThread :: "byte" where "TagThread \<equiv> 116"

record Packet =
  IsReply :: bool
  packet_id :: "32 word"
  CommandSet :: byte
  Command :: byte
  ErrorCode :: "16 word"
  Data :: bytes

definition EncodeCommandPacket :: "32 word \<Rightarrow> byte \<Rightarrow> byte \<Rightarrow> bytes \<Rightarrow> bytes" where
  "EncodeCommandPacket i st cmd data =
     wU4 (of_nat (HeaderLen + length data)) @ wU4 i @ [0, st, cmd] @ data"

text \<open>
  \<open>DecodePacket\<close>: \<open>b[HeaderLen:]\<close> panics on fewer than eleven bytes; with eleven every other
  access is in range.
\<close>

definition DecodePacket :: "bytes \<Rightarrow> Packet option" where
  "DecodePacket b =
     (if length b < HeaderLen then None
      else do {
        (i, _) \<leftarrow> rU4 (drop 4 b, []);
        (code, _) \<leftarrow> rU2 (drop 9 b, []);
        Some (if (b ! 8) AND FlagReply \<noteq> 0
              then \<lparr>IsReply = True, packet_id = i, CommandSet = 0, Command = 0, ErrorCode = code, Data = drop HeaderLen b\<rparr>
              else \<lparr>IsReply = False, packet_id = i, CommandSet = b ! 9, Command = b ! 10, ErrorCode = 0, Data = drop HeaderLen b\<rparr>)
      })"

text \<open>
  \<open>TryReadPacket\<close>: \<open>Inl buf\<close> when a full packet has not arrived, \<open>Inr\<close> with the packet and the
  remainder; \<open>None\<close> when decoding panics.
\<close>

definition TryReadPacket :: "bytes \<Rightarrow> (bytes + Packet \<times> bytes) option" where
  "TryReadPacket buf =
     (if length buf < HeaderLen then Some (Inl buf)
      else do {
        (n, _) \<leftarrow> rU4 (buf, []);
        if length buf < unat n then Some (Inl buf)
        else do { p \<leftarrow> DecodePacket (take (unat n) buf); Some (Inr (p, drop (unat n) buf)) }
      })"

section \<open>Codecs\<close>

text \<open>
  What a field's encoder and decoder owe each other: on the values the format can carry, reading
  gives the value back and leaves what follows. Lists of fields inherit it.
\<close>

fun get_many :: "(reader \<Rightarrow> ('a \<times> reader) option) \<Rightarrow> nat \<Rightarrow> reader \<Rightarrow> ('a list \<times> reader) option" where
  "get_many get 0 r = Some ([], r)"
| "get_many get (Suc n) r = do { (x, r1) \<leftarrow> get r; (xs, r2) \<leftarrow> get_many get n r1; Some (x # xs, r2) }"

locale codec =
  fixes put :: "'a \<Rightarrow> bytes" and get :: "reader \<Rightarrow> ('a \<times> reader) option" and ok :: "'a \<Rightarrow> bool"
  assumes get_put: "ok x \<Longrightarrow> get (put x @ rest, spare) = Some (x, (rest, spare))"
begin

lemma get_many_put:
  "list_all ok xs \<Longrightarrow> get_many get (length xs) (concat (map put xs) @ rest, spare) = Some (xs, (rest, spare))"
  by (induction xs) (simp_all add: get_put)

lemma put_inj:
  assumes "ok x" and "ok y" and "put x @ r = put y @ s"
  shows "x = y \<and> r = s"
proof -
  have "get (put x @ r, []) = Some (x, (r, []))" using assms(1) by (rule get_put)
  moreover have "get (put x @ r, []) = Some (y, (s, []))"
    unfolding assms(3) using assms(2) by (rule get_put)
  ultimately show ?thesis by simp
qed

end

lemma be_get_last:
  "be_get (Suc n) acc r = do { (x, r1) \<leftarrow> be_get n acc r; (b, r2) \<leftarrow> rU1 r1; Some (push_bit 8 x OR ucast b, r2) }"
proof (induction n arbitrary: acc r)
  case 0
  show ?case by (cases "rU1 r") auto
next
  case (Suc n)
  show ?case
  proof (cases "rU1 r")
    case (Some p)
    then obtain b r' where p: "rU1 r = Some (b, r')" by (cases p) auto
    have "be_get (Suc (Suc n)) acc r = be_get (Suc n) (push_bit 8 acc OR ucast b) r'"
      by (subst be_get.simps(2)) (simp only: p Option.bind.simps prod.case)
    also have "\<dots> = do { (x, r1) \<leftarrow> be_get n (push_bit 8 acc OR ucast b) r'; (b, r2) \<leftarrow> rU1 r1; Some (push_bit 8 x OR ucast b, r2) }"
      by (rule Suc.IH)
    also have "be_get n (push_bit 8 acc OR ucast b) r' = be_get (Suc n) acc r"
      by (simp add: p)
    finally show ?thesis .
  qed simp
qed

lemma be_get_put:
  fixes v acc :: "'a::len word"
  shows "be_get n acc (be_put n v @ rest, spare) = Some (push_bit (8 * n) acc OR take_bit (8 * n) v, (rest, spare))"
proof (induction n arbitrary: v rest)
  case (Suc n)
  have "push_bit 8 (push_bit (8 * n) acc OR take_bit (8 * n) (drop_bit 8 v)) OR ucast (ucast v :: byte)
      = push_bit (8 * Suc n) acc OR take_bit (8 * Suc n) v"
    by (rule bit_eqI) (auto simp: bit_simps)
  then show ?case
    unfolding be_get_last be_put.simps append_assoc Suc.IH by (simp add: rU1_def)
qed simp

lemma take_bit_whole: "LENGTH('a::len) \<le> k \<Longrightarrow> take_bit k (v :: 'a word) = v"
  by (rule bit_eqI) (auto simp: bit_simps dest: bit_imp_le_length)

lemma length_be_put [simp]: "length (be_put n v) = n"
  by (induction n arbitrary: v) auto

text \<open>The fields of the protocol are codecs; an id of \<open>size\<close> bytes carries the values below \<open>256 ^ size\<close>.\<close>

definition fits_id :: "nat \<Rightarrow> 64 word \<Rightarrow> bool" where
  "fits_id n v \<longleftrightarrow> take_bit (8 * n) v = v"

definition fits_string :: "bytes \<Rightarrow> bool" where
  "fits_string s \<longleftrightarrow> length s < 2 ^ 32"

interpretation u1: codec "\<lambda>b. [b]" rU1 "\<lambda>_. True"
  by unfold_locales (simp add: rU1_def)

interpretation u2: codec wU2 rU2 "\<lambda>_. True"
  by unfold_locales (simp add: wU2_def rU2_def be_get_put take_bit_whole)

interpretation u4: codec wU4 rU4 "\<lambda>_. True"
  by unfold_locales (simp add: wU4_def rU4_def be_get_put take_bit_whole)

interpretation i4: codec wI4 rI4 "\<lambda>_. True"
  unfolding wI4_def rI4_def by (rule u4.codec_axioms)

interpretation ident: codec "\<lambda>v. wID v n" "rID n" "fits_id n" for n
  by unfold_locales (simp add: wID_def rID_def be_get_put fits_id_def)

interpretation u8: codec wU8 rU8 "\<lambda>_. True"
  by unfold_locales (simp add: wU8_def rU8_def wID_def rID_def be_get_put take_bit_whole)

interpretation bool: codec wBool rBool "\<lambda>_. True"
  by unfold_locales (simp add: wBool_def rBool_def rU1_def)

lemma unat_of_nat_length: "k < 2 ^ 32 \<Longrightarrow> unat (of_nat k :: 32 word) = k"
  by (simp add: unat_of_nat take_bit_nat_eq_self)

interpretation str: codec wString rString fits_string
  by unfold_locales (simp add: wString_def rString_def u4.get_put fits_string_def unat_of_nat_length rBytes_def)

section \<open>Packets on a stream\<close>

lemma rU4_append: "rU4 (buf, []) = Some (n, r) \<Longrightarrow> \<exists>r'. rU4 (buf @ later, []) = Some (n, r')"
proof -
  have step: "\<exists>r'. be_get k acc (b @ later, []) = Some (n, r')"
    if "be_get k acc (b, []) = Some (n, r)" for k b r and acc n :: "32 word"
    using that
  proof (induction k arbitrary: acc b)
    case (Suc k)
    then show ?case by (cases b) (auto simp: rU1_def)
  qed simp
  assume "rU4 (buf, []) = Some (n, r)"
  then show ?thesis unfolding rU4_def by (rule step)
qed

lemma rU4_enough: "4 \<le> length buf \<Longrightarrow> \<exists>n r. rU4 (buf, []) = Some (n, r)"
proof -
  have "\<exists>n r. be_get k acc (b, []) = Some (n, r)" if "k \<le> length b" for k b and acc :: "32 word"
    using that
  proof (induction k arbitrary: acc b)
    case (Suc k)
    then show ?case by (cases b) (auto simp: rU1_def)
  qed simp
  then show "4 \<le> length buf \<Longrightarrow> ?thesis" unfolding rU4_def .
qed

lemma rU2_enough: "2 \<le> length buf \<Longrightarrow> \<exists>n r. rU2 (buf, []) = Some (n, r)"
  by (cases buf; cases "tl buf") (auto simp: rU2_def rU1_def numeral_2_eq_2)

lemma DecodePacket_total: "DecodePacket b = None \<longleftrightarrow> length b < HeaderLen"
proof (cases "length b < HeaderLen")
  case False
  then have "4 \<le> length (drop 4 b)" "2 \<le> length (drop 9 b)" by (simp_all add: HeaderLen_def)
  from rU4_enough [OF this(1)] rU2_enough [OF this(2)]
  obtain i r c s where "rU4 (drop 4 b, []) = Some (i, r)" "rU2 (drop 9 b, []) = Some (c, s)" by blast
  with False show ?thesis by (cases r; cases s) (simp add: DecodePacket_def)
qed (simp add: DecodePacket_def)

interpretation jdwp: stream_splitter TryReadPacket
proof
  fix buf :: bytes and later :: bytes and p rest
  show "TryReadPacket [] = Some (Inl [])" by (simp add: TryReadPacket_def HeaderLen_def)
  show "length rest < length buf" if split: "TryReadPacket buf = Some (Inr (p, rest))"
  proof -
    from split obtain n r where "rU4 (buf, []) = Some (n, r)" "rest = drop (unat n) buf"
      "DecodePacket (take (unat n) buf) \<noteq> None" "unat n \<le> length buf"
      by (auto simp: TryReadPacket_def split: if_splits Option.bind_splits)
    then show ?thesis by (simp add: DecodePacket_total HeaderLen_def)
  qed
  show "TryReadPacket (buf @ later) = Some (Inr (p, rest @ later))" if split: "TryReadPacket buf = Some (Inr (p, rest))"
  proof -
    from split obtain n r where n: "rU4 (buf, []) = Some (n, r)" "rest = drop (unat n) buf"
      "DecodePacket (take (unat n) buf) = Some p" "unat n \<le> length buf" "\<not> length buf < HeaderLen"
      by (auto simp: TryReadPacket_def split: if_splits Option.bind_splits)
    with rU4_append [OF n(1), of later] show ?thesis by (auto simp: TryReadPacket_def)
  qed
  show "TryReadPacket (buf @ later) = None" if split: "TryReadPacket buf = None"
  proof -
    from split rU4_enough [of buf] obtain n r where n: "rU4 (buf, []) = Some (n, r)"
      "DecodePacket (take (unat n) buf) = None" "unat n \<le> length buf" "\<not> length buf < HeaderLen"
      by (auto simp: TryReadPacket_def HeaderLen_def split: if_splits Option.bind_splits)
    with rU4_append [OF n(1), of later] show ?thesis by (auto simp: TryReadPacket_def)
  qed
qed

text \<open>A command packet put on the stream comes off it whole, with whatever follows left in place.\<close>

definition command_packet :: "32 word \<times> byte \<times> byte \<times> bytes \<Rightarrow> Packet" where
  "command_packet = (\<lambda>(i, st, cmd, body). \<lparr>IsReply = False, packet_id = i, CommandSet = st, Command = cmd, ErrorCode = 0, Data = body\<rparr>)"

definition encode_command :: "32 word \<times> byte \<times> byte \<times> bytes \<Rightarrow> bytes" where
  "encode_command = (\<lambda>(i, st, cmd, body). EncodeCommandPacket i st cmd body)"

definition command_fits :: "32 word \<times> byte \<times> byte \<times> bytes \<Rightarrow> bool" where
  "command_fits = (\<lambda>(i, st, cmd, body). HeaderLen + length body < 2 ^ 32)"

lemma TryReadPacket_encode:
  assumes "command_fits c"
  shows "TryReadPacket (encode_command c @ rest) = Some (Inr (command_packet c, rest))"
proof -
  obtain i st cmd body where c: "c = (i, st, cmd, body)" by (cases c)
  define n4 where "n4 = (of_nat (HeaderLen + length body) :: 32 word)"
  let ?n = n4
  let ?e = "EncodeCommandPacket i st cmd body"
  have e: "?e = wU4 n4 @ wU4 i @ [0, st, cmd] @ body" by (simp add: EncodeCommandPacket_def n4_def)
  have n: "unat ?n = HeaderLen + length body"
    unfolding n4_def using assms by (intro unat_of_nat_length) (simp add: c command_fits_def)
  have len: "length ?e = HeaderLen + length body" "length (wU4 i) = 4" "length (wU4 ?n) = 4"
    by (simp_all add: e HeaderLen_def wU4_def)
  have read_n: "rU4 (?e @ rest, []) = Some (?n, ((wU4 i @ [0, st, cmd] @ body) @ rest, []))"
    using u4.get_put [of ?n "(wU4 i @ [0, st, cmd] @ body) @ rest" "[]"] by (simp add: e)
  have drops: "drop 4 ?e = wU4 i @ [0, st, cmd] @ body" "?e ! 8 = 0" "?e ! 9 = st" "?e ! 10 = cmd" "drop HeaderLen ?e = body"
    unfolding e using len(2,3) by (simp_all add: HeaderLen_def nth_append)
  have read_i: "rU4 (drop 4 ?e, []) = Some (i, ([0, st, cmd] @ body, []))"
    unfolding drops(1) u4.get_put [OF TrueI] ..
  obtain code r where read_code: "rU2 (drop 9 ?e, []) = Some (code, r)"
    using rU2_enough [of "drop 9 ?e"] len(1) by (auto simp: HeaderLen_def)
  have "DecodePacket ?e = Some (command_packet c)"
    using len(1) drops(2-5) read_code
    by (cases r) (simp add: DecodePacket_def read_i command_packet_def c FlagReply_def)
  moreover have "take (unat ?n) (?e @ rest) = ?e" "drop (unat ?n) (?e @ rest) = rest" using n len(1) by simp_all
  ultimately show ?thesis
    using len(1) n by (simp add: TryReadPacket_def read_n c encode_command_def)
qed

text \<open>
  C14. However the transport cuts the byte stream into reads, the client's read loop finds exactly
  the command packets that were written, in order, with their ids, commands and bodies, and keeps
  no byte behind.
\<close>

theorem jdwp_stream_roundtrip:
  assumes "list_all command_fits cs" and "concat chunks = concat (map encode_command cs)"
  shows "read_chunks TryReadPacket [] chunks = Some (map command_packet cs, [])"
proof -
  have "drain TryReadPacket [] = Some ([], [])" by (subst jdwp.drain_step) (simp add: TryReadPacket_def HeaderLen_def)
  then have "read_chunks TryReadPacket [] chunks = drain TryReadPacket (concat (map encode_command cs))"
    using jdwp.read_chunks_concat [of "[]" chunks] assms(2) by simp
  also have "\<dots> = Some (map command_packet cs, [])"
    using assms(1) by (intro jdwp.drain_frames) (simp add: list_all_iff TryReadPacket_encode)
  finally show ?thesis .
qed

theorem jdwp_stream_roundtrip_witness:
  "read_chunks TryReadPacket [] [[0, 0, 0], [12, 0, 0, 0, 7, 0, 1], [9, 5, 0, 0, 0, 11, 0, 0, 0, 8, 0, 1], [3]]
   = Some (map command_packet [(7, 1, 9, [5]), (8, 1, 3, [])], [])"
proof -
  have "list_all command_fits [(7, 1, 9, [5]), (8, 1, 3, [])]"
    by (simp add: command_fits_def HeaderLen_def)
  moreover have "concat [[0, 0, 0], [12, 0, 0, 0, 7, 0, 1], [9, 5, 0, 0, 0, 11, 0, 0, 0, 8, 0, 1], [3]]
      = concat (map encode_command [(7, 1, 9, [5]), (8, 1, 3, [])])"
    by code_simp
  ultimately show ?thesis by (rule jdwp_stream_roundtrip)
qed

end
