(* ===== verification/JdwpCommands.thy ===== *)
theory JdwpCommands
  imports JdwpCodec
begin

text \<open>
  The typed commands and the event decoder of the JDWP client: \<open>togo/internal/jdwp/commands.go\<close>
  and \<open>events.go\<close>. A command of the code builds a body, sends it and decodes the reply; here it is
  a request (command set, command, body) and a function on the reply's bytes, \<open>None\<close> where the
  reader panics. Ids are 64-bit words, 32-bit fields are words that \<open>sint\<close> reads as \<open>int32\<close>. A
  float value is named by its IEEE bits.
\<close>

section \<open>Embedded structures\<close>

record Location =
  loc_tag :: byte
  loc_class :: "64 word"
  loc_method :: "64 word"
  loc_index :: "64 word"

definition no_location :: Location where
  "no_location = \<lparr>loc_tag = 0, loc_class = 0, loc_method = 0, loc_index = 0\<rparr>"

record Frame =
  frame_id :: "64 word"
  frame_location :: Location

record MethodInfo =
  m_id :: "64 word"
  m_name :: bytes
  m_signature :: bytes
  m_modBits :: "32 word"

record LineTableEntry =
  LineCodeIndex :: "64 word"
  LineNumber :: "32 word"

record LineTable =
  lt_start :: "64 word"
  lt_end :: "64 word"
  lt_lines :: "LineTableEntry list"

record ClassInfo =
  ci_tag :: byte
  ci_type :: "64 word"
  ci_status :: "32 word"

record VariableSlot =
  vs_code :: "64 word"
  vs_name :: bytes
  vs_signature :: bytes
  vs_length :: "32 word"
  vs_slot :: "32 word"

datatype float_bits = NoFloat | Float32 "32 word" | Float64 "64 word"

record Value =
  val_tag :: byte
  val_object :: bool
  val_objectID :: "64 word"
  val_int :: "64 word"
  val_float :: float_bits
  val_bool :: bool

definition value0 :: "byte \<Rightarrow> Value" where
  "value0 tag = \<lparr>val_tag = tag, val_object = False, val_objectID = 0, val_int = 0, val_float = NoFloat, val_bool = False\<rparr>"

definition writeLocation :: "IDSizes \<Rightarrow> Location \<Rightarrow> bytes" where
  "writeLocation s loc =
     [loc_tag loc] @ wID (loc_class loc) (sz_reftype s) @ wID (loc_method loc) (sz_method s) @ wU8 (loc_index loc)"

definition readLocation :: "IDSizes \<Rightarrow> reader \<Rightarrow> (Location \<times> reader) option" where
  "readLocation s r = do {
     (tag, r) \<leftarrow> rU1 r;
     (class, r) \<leftarrow> rID (sz_reftype s) r;
     (meth, r) \<leftarrow> rID (sz_method s) r;
     (index, r) \<leftarrow> rU8 r;
     Some (\<lparr>loc_tag = tag, loc_class = class, loc_method = meth, loc_index = index\<rparr>, r) }"

definition isObjectTag :: "byte \<Rightarrow> bool" where
  "isObjectTag tag \<longleftrightarrow> tag = TagArray \<or> tag = TagObject \<or> tag = TagString \<or> tag = TagThread"

definition read_object :: "byte \<Rightarrow> IDSizes \<Rightarrow> reader \<Rightarrow> (Value \<times> reader) option" where
  "read_object tag s r = do {
     (i, r) \<leftarrow> rID (sz_object s) r;
     Some ((value0 tag)\<lparr>val_object := True, val_objectID := i\<rparr>, r) }"

text \<open>\<open>ReadValue\<close>: the tag, then the field it implies, sign-extended to 64 bits where it is signed.\<close>

definition ReadValue :: "IDSizes \<Rightarrow> reader \<Rightarrow> (Value \<times> reader) option" where
  "ReadValue s r = do {
     (tag, r) \<leftarrow> rU1 r;
     if isObjectTag tag then read_object tag s r
     else if tag = TagBoolean then do { (b, r) \<leftarrow> rBool r; Some ((value0 tag)\<lparr>val_bool := b\<rparr>, r) }
     else if tag = TagByte then do { (b, r) \<leftarrow> rU1 r; Some ((value0 tag)\<lparr>val_int := scast b\<rparr>, r) }
     else if tag = TagChar then do { (c, r) \<leftarrow> rU2 r; Some ((value0 tag)\<lparr>val_int := ucast c\<rparr>, r) }
     else if tag = TagShort then do { (c, r) \<leftarrow> rU2 r; Some ((value0 tag)\<lparr>val_int := scast c\<rparr>, r) }
     else if tag = TagInt then do { (i, r) \<leftarrow> rI4 r; Some ((value0 tag)\<lparr>val_int := scast i\<rparr>, r) }
     else if tag = TagLong then do { (l, r) \<leftarrow> rU8 r; Some ((value0 tag)\<lparr>val_int := l\<rparr>, r) }
     else if tag = TagFloat then do { (f, r) \<leftarrow> rU4 r; Some ((value0 tag)\<lparr>val_float := Float32 f\<rparr>, r) }
     else if tag = TagDouble then do { (d, r) \<leftarrow> rU8 r; Some ((value0 tag)\<lparr>val_float := Float64 d\<rparr>, r) }
     else if tag = TagVoid then Some (value0 tag, r)
     else read_object tag s r }"

section \<open>Commands\<close>

type_synonym request = "byte \<times> byte \<times> bytes"

definition VMResumeCmd :: request where "VMResumeCmd = (CSVirtualMachine, VMResume, [])"
definition VMSuspendCmd :: request where "VMSuspendCmd = (CSVirtualMachine, VMSuspend, [])"
definition VMDisposeCmd :: request where "VMDisposeCmd = (CSVirtualMachine, VMDispose, [])"
definition VMExitCmd :: "32 word \<Rightarrow> request" where "VMExitCmd code = (CSVirtualMachine, VMExit, wI4 code)"

definition AllThreads :: request where "AllThreads = (CSVirtualMachine, VMAllThreads, [])"

definition AllThreads_reply :: "IDSizes \<Rightarrow> reader \<Rightarrow> (64 word) list option" where
  "AllThreads_reply s body = do {
     (n, r) \<leftarrow> rU4 body;
     (ids, r) \<leftarrow> get_many (rID (sz_object s)) (unat n) r;
     Some ids }"

definition ClassesBySignature :: "bytes \<Rightarrow> request" where
  "ClassesBySignature signature = (CSVirtualMachine, VMClassesBySignature, wString signature)"

definition read_ClassInfo :: "IDSizes \<Rightarrow> reader \<Rightarrow> (ClassInfo \<times> reader) option" where
  "read_ClassInfo s r = do {
     (tag, r) \<leftarrow> rU1 r;
     (i, r) \<leftarrow> rID (sz_reftype s) r;
     (st, r) \<leftarrow> rI4 r;
     Some (\<lparr>ci_tag = tag, ci_type = i, ci_status = st\<rparr>, r) }"

definition ClassesBySignature_reply :: "IDSizes \<Rightarrow> reader \<Rightarrow> ClassInfo list option" where
  "ClassesBySignature_reply s body = do {
     (n, r) \<leftarrow> rU4 body;
     (cs, r) \<leftarrow> get_many (read_ClassInfo s) (unat n) r;
     Some cs }"

definition ThreadName :: "IDSizes \<Rightarrow> 64 word \<Rightarrow> request" where
  "ThreadName s thread = (CSThreadReference, TRName, wID thread (sz_object s))"

definition string_reply :: "reader \<Rightarrow> bytes option" where
  "string_reply body = map_option fst (rString body)"

definition ThreadFrames :: "IDSizes \<Rightarrow> 64 word \<Rightarrow> 32 word \<Rightarrow> 32 word \<Rightarrow> request" where
  "ThreadFrames s thread start len = (CSThreadReference, TRFrames, wID thread (sz_object s) @ wI4 start @ wI4 len)"

definition read_Frame :: "IDSizes \<Rightarrow> reader \<Rightarrow> (Frame \<times> reader) option" where
  "read_Frame s r = do {
     (i, r) \<leftarrow> rID (sz_frame s) r;
     (loc, r) \<leftarrow> readLocation s r;
     Some (\<lparr>frame_id = i, frame_location = loc\<rparr>, r) }"

definition ThreadFrames_reply :: "IDSizes \<Rightarrow> reader \<Rightarrow> Frame list option" where
  "ThreadFrames_reply s body = do {
     (n, r) \<leftarrow> rU4 body;
     (fs, r) \<leftarrow> get_many (read_Frame s) (unat n) r;
     Some fs }"

definition ReferenceTypeSignature :: "IDSizes \<Rightarrow> 64 word \<Rightarrow> request" where
  "ReferenceTypeSignature s class = (CSReferenceType, RTSignature, wID class (sz_reftype s))"

definition ReferenceTypeMethods :: "IDSizes \<Rightarrow> 64 word \<Rightarrow> request" where
  "ReferenceTypeMethods s class = (CSReferenceType, RTMethods, wID class (sz_reftype s))"

definition read_MethodInfo :: "IDSizes \<Rightarrow> reader \<Rightarrow> (MethodInfo \<times> reader) option" where
  "read_MethodInfo s r = do {
     (i, r) \<leftarrow> rID (sz_method s) r;
     (name, r) \<leftarrow> rString r;
     (sig, r) \<leftarrow> rString r;
     (mods, r) \<leftarrow> rI4 r;
     Some (\<lparr>m_id = i, m_name = name, m_signature = sig, m_modBits = mods\<rparr>, r) }"

definition ReferenceTypeMethods_reply :: "IDSizes \<Rightarrow> reader \<Rightarrow> MethodInfo list option" where
  "ReferenceTypeMethods_reply s body = do {
     (n, r) \<leftarrow> rU4 body;
     (ms, r) \<leftarrow> get_many (read_MethodInfo s) (unat n) r;
     Some ms }"

definition MethodVariableTable :: "IDSizes \<Rightarrow> 64 word \<Rightarrow> 64 word \<Rightarrow> request" where
  "MethodVariableTable s class meth = (CSMethod, MVariableTable, wID class (sz_reftype s) @ wID meth (sz_method s))"

definition read_VariableSlot :: "reader \<Rightarrow> (VariableSlot \<times> reader) option" where
  "read_VariableSlot r = do {
     (code, r) \<leftarrow> rU8 r;
     (name, r) \<leftarrow> rString r;
     (sig, r) \<leftarrow> rString r;
     (len, r) \<leftarrow> rI4 r;
     (slot, r) \<leftarrow> rI4 r;
     Some (\<lparr>vs_code = code, vs_name = name, vs_signature = sig, vs_length = len, vs_slot = slot\<rparr>, r) }"

definition MethodVariableTable_reply :: "reader \<Rightarrow> VariableSlot list option" where
  "MethodVariableTable_reply body = do {
     (argCnt, r) \<leftarrow> rU4 body;
     (n, r) \<leftarrow> rU4 r;
     (vs, r) \<leftarrow> get_many read_VariableSlot (unat n) r;
     Some vs }"

definition MethodLineTableCmd :: "IDSizes \<Rightarrow> 64 word \<Rightarrow> 64 word \<Rightarrow> request" where
  "MethodLineTableCmd s class meth = (CSMethod, MLineTable, wID class (sz_reftype s) @ wID meth (sz_method s))"

definition read_LineTableEntry :: "reader \<Rightarrow> (LineTableEntry \<times> reader) option" where
  "read_LineTableEntry r = do {
     (code, r) \<leftarrow> rU8 r;
     (line, r) \<leftarrow> rI4 r;
     Some (\<lparr>LineCodeIndex = code, LineNumber = line\<rparr>, r) }"

definition MethodLineTable_reply :: "reader \<Rightarrow> LineTable option" where
  "MethodLineTable_reply body = do {
     (st, r) \<leftarrow> rU8 body;
     (en, r) \<leftarrow> rU8 r;
     (n, r) \<leftarrow> rU4 r;
     (ls, r) \<leftarrow> get_many read_LineTableEntry (unat n) r;
     Some \<lparr>lt_start = st, lt_end = en, lt_lines = ls\<rparr> }"

record Modifier =
  mod_kind :: byte
  mod_count :: "32 word"
  mod_pattern :: bytes
  mod_location :: Location
  mod_thread :: "64 word"
  mod_stepSize :: "32 word"
  mod_stepDepth :: "32 word"

definition writeModifier :: "IDSizes \<Rightarrow> Modifier \<Rightarrow> bytes" where
  "writeModifier s m =
     mod_kind m #
     (if mod_kind m = ModCount then wI4 (mod_count m)
      else if mod_kind m = ModClassMatch then wString (mod_pattern m)
      else if mod_kind m = ModLocationOnly then writeLocation s (mod_location m)
      else if mod_kind m = ModStep then wID (mod_thread m) (sz_object s) @ wI4 (mod_stepSize m) @ wI4 (mod_stepDepth m)
      else [])"

definition EventRequestSet :: "IDSizes \<Rightarrow> byte \<Rightarrow> byte \<Rightarrow> Modifier list \<Rightarrow> request" where
  "EventRequestSet s kind policy modifiers =
     (CSEventRequest, ERSet, [kind, policy] @ wI4 (of_nat (length modifiers)) @ concat (map (writeModifier s) modifiers))"

definition EventRequestSet_reply :: "reader \<Rightarrow> (32 word) option" where
  "EventRequestSet_reply body = map_option fst (rI4 body)"

definition EventRequestClear :: "byte \<Rightarrow> 32 word \<Rightarrow> request" where
  "EventRequestClear kind requestID = (CSEventRequest, ERClear, [kind] @ wI4 requestID)"

definition StackFrameGetValues :: "IDSizes \<Rightarrow> 64 word \<Rightarrow> 64 word \<Rightarrow> (32 word \<times> byte) list \<Rightarrow> request" where
  "StackFrameGetValues s thread frame slots =
     (CSStackFrame, SFGetValues, wID thread (sz_object s) @ wID frame (sz_frame s) @ wI4 (of_nat (length slots))
       @ concat (map (\<lambda>(slot, sig). wI4 slot @ [sig]) slots))"

definition StackFrameGetValues_reply :: "IDSizes \<Rightarrow> reader \<Rightarrow> Value list option" where
  "StackFrameGetValues_reply s body = do {
     (n, r) \<leftarrow> rU4 body;
     (vs, r) \<leftarrow> get_many (ReadValue s) (unat n) r;
     Some vs }"

definition StringValue :: "IDSizes \<Rightarrow> 64 word \<Rightarrow> request" where
  "StringValue s i = (CSStringReference, SRValue, wID i (sz_object s))"

definition negotiateIDSizes_reply :: "reader \<Rightarrow> IDSizes option" where
  "negotiateIDSizes_reply body = do {
     (f, r) \<leftarrow> rU4 body;
     (m, r) \<leftarrow> rU4 r;
     (ob, r) \<leftarrow> rU4 r;
     (t, r) \<leftarrow> rU4 r;
     (fr, r) \<leftarrow> rU4 r;
     Some \<lparr>sz_field = unat f, sz_method = unat m, sz_object = unat ob, sz_reftype = unat t, sz_frame = unat fr\<rparr> }"

section \<open>Events\<close>

record Event =
  ev_kind :: byte
  ev_request :: "32 word"
  ev_thread :: "64 word"
  ev_location :: Location
  ev_refTag :: byte
  ev_type :: "64 word"
  ev_signature :: bytes
  ev_status :: "32 word"

definition event0 :: "byte \<Rightarrow> Event" where
  "event0 kind = \<lparr>ev_kind = kind, ev_request = 0, ev_thread = 0, ev_location = no_location, ev_refTag = 0,
     ev_type = 0, ev_signature = [], ev_status = 0\<rparr>"

record Composite =
  SuspendPolicy :: byte
  Events :: "Event list"

text \<open>One sub-event behind its kind; \<open>Some (None, r)\<close> for a kind the decoder does not know.\<close>

definition read_event :: "IDSizes \<Rightarrow> byte \<Rightarrow> reader \<Rightarrow> (Event option \<times> reader) option" where
  "read_event s kind r =
     (if kind \<in> {EKVMStart, EKThreadStart, EKThreadDeath} then do {
        (q, r) \<leftarrow> rI4 r; (t, r) \<leftarrow> rID (sz_object s) r;
        Some (Some ((event0 kind)\<lparr>ev_request := q, ev_thread := t\<rparr>), r) }
      else if kind = EKVMDeath then do {
        (q, r) \<leftarrow> rI4 r;
        Some (Some ((event0 kind)\<lparr>ev_request := q\<rparr>), r) }
      else if kind \<in> {EKBreakpoint, EKSingleStep} then do {
        (q, r) \<leftarrow> rI4 r; (t, r) \<leftarrow> rID (sz_object s) r; (loc, r) \<leftarrow> readLocation s r;
        Some (Some ((event0 kind)\<lparr>ev_request := q, ev_thread := t, ev_location := loc\<rparr>), r) }
      else if kind = EKClassPrepare then do {
        (q, r) \<leftarrow> rI4 r; (t, r) \<leftarrow> rID (sz_object s) r; (tag, r) \<leftarrow> rU1 r;
        (ty, r) \<leftarrow> rID (sz_reftype s) r; (sig, r) \<leftarrow> rString r; (st, r) \<leftarrow> rI4 r;
        Some (Some ((event0 kind)\<lparr>ev_request := q, ev_thread := t, ev_refTag := tag, ev_type := ty,
            ev_signature := sig, ev_status := st\<rparr>), r) }
      else Some (None, r))"

fun read_events :: "IDSizes \<Rightarrow> nat \<Rightarrow> reader \<Rightarrow> Event list option" where
  "read_events s 0 r = Some []"
| "read_events s (Suc n) r = do {
     (kind, r) \<leftarrow> rU1 r;
     (e, r) \<leftarrow> read_event s kind r;
     (case e of None \<Rightarrow> Some [] | Some ev \<Rightarrow> map_option ((#) ev) (read_events s n r)) }"

definition DecodeComposite :: "reader \<Rightarrow> IDSizes \<Rightarrow> Composite option" where
  "DecodeComposite body s = do {
     (policy, r) \<leftarrow> rU1 body;
     (n, r) \<leftarrow> rU4 r;
     evs \<leftarrow> read_events s (unat n) r;
     Some \<lparr>SuspendPolicy = policy, Events = evs\<rparr> }"

end
