(* ===== verification/JdwpCorrect.thy ===== *)
theory JdwpCorrect
  imports JdwpCommands
begin

text \<open>
  The decoders of the JDWP client read what the protocol's layouts put: every embedded structure is
  a \<open>codec\<close>, so the list replies follow from the locale. The layouts the code only reads are
  written out here field by field.
\<close>

lemma rU1_Cons [codec_simps]: "rU1 (b # rest, spare) = Some (b, (rest, spare))"
  by (simp add: rU1_def)

lemmas field_gets [codec_simps] =
  u2.get_put u4.get_put i4.get_put u8.get_put bool.get_put ident.get_put str.get_put

section \<open>Layouts\<close>

definition location_ok :: "IDSizes \<Rightarrow> Location \<Rightarrow> bool" where
  "location_ok s loc \<longleftrightarrow> fits_id (sz_reftype s) (loc_class loc) \<and> fits_id (sz_method s) (loc_method loc)"

interpretation loc: codec "writeLocation s" "readLocation s" "location_ok s" for s
  by unfold_locales (simp add: writeLocation_def readLocation_def location_ok_def codec_simps)

definition put_ClassInfo :: "IDSizes \<Rightarrow> ClassInfo \<Rightarrow> bytes" where
  "put_ClassInfo s c = [ci_tag c] @ wID (ci_type c) (sz_reftype s) @ wI4 (ci_status c)"

definition put_Frame :: "IDSizes \<Rightarrow> Frame \<Rightarrow> bytes" where
  "put_Frame s f = wID (frame_id f) (sz_frame s) @ writeLocation s (frame_location f)"

definition put_MethodInfo :: "IDSizes \<Rightarrow> MethodInfo \<Rightarrow> bytes" where
  "put_MethodInfo s m = wID (m_id m) (sz_method s) @ wString (m_name m) @ wString (m_signature m) @ wI4 (m_modBits m)"

definition put_VariableSlot :: "VariableSlot \<Rightarrow> bytes" where
  "put_VariableSlot v = wU8 (vs_code v) @ wString (vs_name v) @ wString (vs_signature v) @ wI4 (vs_length v) @ wI4 (vs_slot v)"

definition put_LineTableEntry :: "LineTableEntry \<Rightarrow> bytes" where
  "put_LineTableEntry l = wU8 (LineCodeIndex l) @ wI4 (LineNumber l)"

interpretation cls: codec "put_ClassInfo s" "read_ClassInfo s" "\<lambda>c. fits_id (sz_reftype s) (ci_type c)" for s
  by unfold_locales (simp add: put_ClassInfo_def read_ClassInfo_def codec_simps)

interpretation frame: codec "put_Frame s" "read_Frame s"
    "\<lambda>f. fits_id (sz_frame s) (frame_id f) \<and> location_ok s (frame_location f)" for s
  by unfold_locales (simp add: put_Frame_def read_Frame_def codec_simps loc.get_put)

interpretation meth: codec "put_MethodInfo s" "read_MethodInfo s"
    "\<lambda>m. fits_id (sz_method s) (m_id m) \<and> fits_string (m_name m) \<and> fits_string (m_signature m)" for s
  by unfold_locales (simp add: put_MethodInfo_def read_MethodInfo_def codec_simps)

interpretation var: codec put_VariableSlot read_VariableSlot
    "\<lambda>v. fits_string (vs_name v) \<and> fits_string (vs_signature v)"
  by unfold_locales (simp add: put_VariableSlot_def read_VariableSlot_def codec_simps)

interpretation line: codec put_LineTableEntry read_LineTableEntry "\<lambda>_. True"
  by unfold_locales (simp add: put_LineTableEntry_def read_LineTableEntry_def codec_simps)

text \<open>Tagged values: the canonical value of each tag and the bytes that carry it.\<close>

definition put_Value :: "IDSizes \<Rightarrow> Value \<Rightarrow> bytes" where
  "put_Value s v =
     val_tag v #
     (if val_tag v = 90 then wBool (val_bool v)
      else if val_tag v = 66 then [ucast (val_int v)]
      else if val_tag v \<in> {67, 83} then wU2 (ucast (val_int v))
      else if val_tag v = 73 then wI4 (ucast (val_int v))
      else if val_tag v = 74 then wU8 (val_int v)
      else if val_tag v = 70 then (case val_float v of Float32 f \<Rightarrow> wU4 f | _ \<Rightarrow> [])
      else if val_tag v = 68 then (case val_float v of Float64 d \<Rightarrow> wU8 d | _ \<Rightarrow> [])
      else if val_tag v = 86 then []
      else wID (val_objectID v) (sz_object s))"

definition value_ok :: "IDSizes \<Rightarrow> Value \<Rightarrow> bool" where
  "value_ok s v \<longleftrightarrow>
     (let t = val_tag v
      in if t = 90 then v = (value0 t)\<lparr>val_bool := val_bool v\<rparr>
         else if t = 66 then v = (value0 t)\<lparr>val_int := scast (ucast (val_int v) :: byte)\<rparr>
         else if t = 67 then v = (value0 t)\<lparr>val_int := ucast (ucast (val_int v) :: 16 word)\<rparr>
         else if t = 83 then v = (value0 t)\<lparr>val_int := scast (ucast (val_int v) :: 16 word)\<rparr>
         else if t = 73 then v = (value0 t)\<lparr>val_int := scast (ucast (val_int v) :: 32 word)\<rparr>
         else if t = 74 then v = (value0 t)\<lparr>val_int := val_int v\<rparr>
         else if t = 70 then (\<exists>f. v = (value0 t)\<lparr>val_float := Float32 f\<rparr>)
         else if t = 68 then (\<exists>d. v = (value0 t)\<lparr>val_float := Float64 d\<rparr>)
         else if t = 86 then v = value0 t
         else v = (value0 t)\<lparr>val_object := True, val_objectID := val_objectID v\<rparr> \<and> fits_id (sz_object s) (val_objectID v))"

lemma value0_simps [simp]:
  "val_tag (value0 t) = t" "val_object (value0 t) = False" "val_objectID (value0 t) = 0"
  "val_int (value0 t) = 0" "val_float (value0 t) = NoFloat" "val_bool (value0 t) = False"
  by (simp_all add: value0_def)

lemma ReadValue_put:
  assumes "value_ok s v"
  shows "ReadValue s (put_Value s v @ rest, spare) = Some (v, (rest, spare))"
proof -
  define t where "t = val_tag v"
  have [simp]: "val_tag v = t" by (simp add: t_def)
  consider "t = 90" | "t = 66" | "t = 67" | "t = 83" | "t = 73" | "t = 74" | "t = 70" | "t = 68" | "t = 86"
    | "t \<notin> {90, 66, 67, 83, 73, 74, 70, 68, 86}" by blast
  then show ?thesis
  proof cases
    case 10
    then have "v = (value0 t)\<lparr>val_object := True, val_objectID := val_objectID v\<rparr>" "fits_id (sz_object s) (val_objectID v)"
      using assms by (simp_all add: value_ok_def Let_def)
    with 10 show ?thesis
      by (simp add: ReadValue_def put_Value_def codec_simps read_object_def)
  qed (use assms in \<open>auto simp: value_ok_def Let_def ReadValue_def put_Value_def isObjectTag_def codec_simps split: float_bits.splits\<close>)
qed

interpretation val: codec "put_Value s" "ReadValue s" "value_ok s" for s
  by unfold_locales (rule ReadValue_put)

section \<open>Replies\<close>

text \<open>A counted list: a 32-bit count and the elements.\<close>

definition put_list :: "('a \<Rightarrow> bytes) \<Rightarrow> 'a list \<Rightarrow> bytes" where
  "put_list put xs = wU4 (of_nat (length xs)) @ concat (map put xs)"

definition counts :: "'a list \<Rightarrow> bool" where
  "counts xs \<longleftrightarrow> length xs < 2 ^ 32"

lemma rU4_put_list:
  "counts xs \<Longrightarrow> \<exists>n. rU4 (put_list put xs @ rest, spare) = Some (n, (concat (map put xs) @ rest, spare)) \<and> unat n = length xs"
  by (simp add: put_list_def counts_def codec_simps unat_of_nat_length)

text \<open>
  C31. The list replies are decoded exactly: for every negotiated id width, a reply that lays out
  threads, frames, methods or tagged values whose ids fit their widths is decoded to exactly that
  list, whatever bytes follow the reply in the packet or in the buffer behind it. Tagged values keep
  their sign: bytes, shorts and ints are sign-extended to 64 bits, chars are not.
\<close>

theorem jdwp_replies_roundtrip:
  assumes "counts ids" "list_all (fits_id (sz_object s)) ids"
    and "counts frames" "list_all (\<lambda>f. fits_id (sz_frame s) (frame_id f) \<and> location_ok s (frame_location f)) frames"
    and "counts methods" "list_all (\<lambda>m. fits_id (sz_method s) (m_id m) \<and> fits_string (m_name m) \<and> fits_string (m_signature m)) methods"
    and "counts values" "list_all (value_ok s) values"
  shows "AllThreads_reply s (put_list (\<lambda>v. wID v (sz_object s)) ids @ rest, spare) = Some ids
    \<and> ThreadFrames_reply s (put_list (put_Frame s) frames @ rest, spare) = Some frames
    \<and> ReferenceTypeMethods_reply s (put_list (put_MethodInfo s) methods @ rest, spare) = Some methods
    \<and> StackFrameGetValues_reply s (put_list (put_Value s) values @ rest, spare) = Some values"
proof (intro conjI)
  show "AllThreads_reply s (put_list (\<lambda>v. wID v (sz_object s)) ids @ rest, spare) = Some ids"
    using rU4_put_list [OF assms(1), of "\<lambda>v. wID v (sz_object s)" rest spare] ident.get_many_put [OF assms(2)]
    by (auto simp: AllThreads_reply_def)
  show "ThreadFrames_reply s (put_list (put_Frame s) frames @ rest, spare) = Some frames"
    using rU4_put_list [OF assms(3), of "put_Frame s" rest spare] frame.get_many_put [OF assms(4)]
    by (auto simp: ThreadFrames_reply_def)
  show "ReferenceTypeMethods_reply s (put_list (put_MethodInfo s) methods @ rest, spare) = Some methods"
    using rU4_put_list [OF assms(5), of "put_MethodInfo s" rest spare] meth.get_many_put [OF assms(6)]
    by (auto simp: ReferenceTypeMethods_reply_def)
  show "StackFrameGetValues_reply s (put_list (put_Value s) values @ rest, spare) = Some values"
    using rU4_put_list [OF assms(7), of "put_Value s" rest spare] val.get_many_put [OF assms(8)]
    by (auto simp: StackFrameGetValues_reply_def)
qed

theorem jdwp_replies_roundtrip_witness:
  "AllThreads_reply DefaultIDSizes ([0, 0, 0, 1, 0, 0, 0, 0, 0, 0, 1, 2, 9], []) = Some [258]
   \<and> StackFrameGetValues_reply DefaultIDSizes ([0, 0, 0, 2, 73, 255, 255, 255, 254, 90, 1, 9], []) =
       Some [(value0 73)\<lparr>val_int := -2\<rparr>, (value0 90)\<lparr>val_bool := True\<rparr>]"
proof -
  let ?vs = "[(value0 73)\<lparr>val_int := -2\<rparr>, (value0 90)\<lparr>val_bool := True\<rparr>]"
  have ok: "list_all (fits_id (sz_object DefaultIDSizes)) [258]" "list_all (value_ok DefaultIDSizes) ?vs"
    by (code_simp, simp add: value_ok_def)
  have "put_list (\<lambda>v. wID v (sz_object DefaultIDSizes)) [258] @ [9] = [0, 0, 0, 1, 0, 0, 0, 0, 0, 0, 1, 2, 9]"
    "put_list (put_Value DefaultIDSizes) ?vs @ [9] = [0, 0, 0, 2, 73, 255, 255, 255, 254, 90, 1, 9]"
    by code_simp+
  with jdwp_replies_roundtrip [of "[258]" DefaultIDSizes "[]" "[]" ?vs "[9]" "[]"] ok show ?thesis
    by (simp add: counts_def)
qed

section \<open>Events\<close>

definition known_kind :: "byte \<Rightarrow> bool" where
  "known_kind k \<longleftrightarrow> k \<in> {90, 6, 7, 99, 2, 1, 8}"

definition put_Event :: "IDSizes \<Rightarrow> Event \<Rightarrow> bytes" where
  "put_Event s e =
     ev_kind e # wI4 (ev_request e)
     @ (if ev_kind e = 99 then [] else wID (ev_thread e) (sz_object s))
     @ (if ev_kind e \<in> {2, 1} then writeLocation s (ev_location e)
        else if ev_kind e = 8
          then ev_refTag e # wID (ev_type e) (sz_reftype s) @ wString (ev_signature e) @ wI4 (ev_status e)
        else [])"

text \<open>An event of a known kind with nothing in the fields its kind does not have.\<close>

definition event_ok :: "IDSizes \<Rightarrow> Event \<Rightarrow> bool" where
  "event_ok s e \<longleftrightarrow> known_kind (ev_kind e)
     \<and> (if ev_kind e = 99 then ev_thread e = 0 else fits_id (sz_object s) (ev_thread e))
     \<and> (if ev_kind e \<in> {2, 1} then location_ok s (ev_location e) else ev_location e = no_location)
     \<and> (if ev_kind e = 8 then fits_id (sz_reftype s) (ev_type e) \<and> fits_string (ev_signature e)
        else ev_refTag e = 0 \<and> ev_type e = 0 \<and> ev_signature e = [] \<and> ev_status e = 0)"

lemma event0_simps [simp]:
  "ev_kind (event0 k) = k" "ev_request (event0 k) = 0" "ev_thread (event0 k) = 0" "ev_location (event0 k) = no_location"
  "ev_refTag (event0 k) = 0" "ev_type (event0 k) = 0" "ev_signature (event0 k) = []" "ev_status (event0 k) = 0"
  by (simp_all add: event0_def)

lemma read_event_put:
  assumes "event_ok s e"
  shows "read_event s (ev_kind e) (tl (put_Event s e) @ rest, spare) = Some (Some e, (rest, spare))"
proof -
  obtain k q t loc tag ty sig st where e: "e = \<lparr>ev_kind = k, ev_request = q, ev_thread = t, ev_location = loc,
      ev_refTag = tag, ev_type = ty, ev_signature = sig, ev_status = st\<rparr>"
    by (cases e) blast
  from assms consider "k = 90" | "k = 6" | "k = 7" | "k = 99" | "k = 2" | "k = 1" | "k = 8"
    by (auto simp: e event_ok_def known_kind_def)
  then show ?thesis
    by cases (use assms in \<open>simp_all add: e read_event_def put_Event_def event_ok_def codec_simps loc.get_put event0_def\<close>)
qed

lemma read_events_put:
  assumes "list_all (event_ok s) evs"
    and "n = length evs \<or> (n > length evs \<and> (\<exists>k junk. rest = k # junk \<and> \<not> known_kind k))"
  shows "read_events s n (concat (map (put_Event s) evs) @ rest, spare) = Some evs"
  using assms
proof (induction evs arbitrary: n)
  case Nil
  then show ?case
    by (cases n) (auto simp: codec_simps read_event_def known_kind_def)
next
  case (Cons e evs)
  then obtain m where m: "n = Suc m" "m = length evs \<or> (m > length evs \<and> (\<exists>k junk. rest = k # junk \<and> \<not> known_kind k))"
    by (cases n) auto
  have put: "put_Event s e = ev_kind e # tl (put_Event s e)" by (simp add: put_Event_def)
  show ?case
    using Cons.prems Cons.IH [OF _ m(2)] read_event_put [of s e "concat (map (put_Event s) evs) @ rest" spare]
    by (simp add: m(1) codec_simps) (subst put, simp add: codec_simps)
qed

text \<open>
  C30. An event packet is decoded completely: every sub-event of a known kind, laid out with the
  negotiated id widths, comes back in order with exactly its fields; and when the count announces
  more, the scan stops at the first kind it does not know and keeps what it has.
\<close>

theorem DecodeComposite_events:
  assumes "list_all (event_ok s) evs" and "n < 2 ^ 32"
    and "n = length evs \<or> (n > length evs \<and> (\<exists>k junk. rest = k # junk \<and> \<not> known_kind k))"
  shows "DecodeComposite (policy # wU4 (of_nat n) @ concat (map (put_Event s) evs) @ rest, spare) s
    = Some \<lparr>SuspendPolicy = policy, Events = evs\<rparr>"
  using read_events_put [OF assms(1,3), of spare] unat_of_nat_length [OF assms(2)]
  by (simp add: DecodeComposite_def codec_simps)

theorem DecodeComposite_events_witness:
  "DecodeComposite ([2, 0, 0, 0, 2, 99, 0, 0, 0, 5, 200], []) DefaultIDSizes
     = Some \<lparr>SuspendPolicy = 2, Events = [(event0 99)\<lparr>ev_request := 5\<rparr>]\<rparr>"
proof -
  let ?e = "(event0 99)\<lparr>ev_request := 5\<rparr>"
  have "list_all (event_ok DefaultIDSizes) [?e]" by (simp add: event_ok_def known_kind_def)
  moreover have "(2::nat) = length [?e] \<or> (2 > length [?e] \<and> (\<exists>k junk. [200] = k # junk \<and> \<not> known_kind k))"
    by (simp add: known_kind_def)
  moreover have body: "2 # wU4 (of_nat 2) @ concat (map (put_Event DefaultIDSizes) [?e]) @ [200]
      = [2, 0, 0, 0, 2, 99, 0, 0, 0, 5, 200]" by code_simp
  ultimately show ?thesis
    using DecodeComposite_events [of DefaultIDSizes "[?e]" 2 "[200]" 2 "[]", unfolded body] by simp
qed

text \<open>
  A packet whose length field is below the header length makes the client panic: the field is
  compared with the buffered length only, and the eleven header bytes are then read from the
  shorter slice.
\<close>

theorem jdwp_short_length_panics:
  assumes "HeaderLen \<le> length buf" and "rU4 (buf, []) = Some (n, r)" and "unat n < HeaderLen"
  shows "TryReadPacket buf = None"
proof -
  have "DecodePacket (take (unat n) buf) = None" using assms(3) by (simp add: DecodePacket_total)
  with assms show ?thesis by (simp add: TryReadPacket_def)
qed

theorem jdwp_short_length_panics_witness:
  "TryReadPacket [0, 0, 0, 0, 0, 0, 0, 0, 0, 0, 0] = None"
proof -
  have "rU4 ([0, 0, 0, 0, 0, 0, 0, 0, 0, 0, 0], []) = Some (0, ([0, 0, 0, 0, 0, 0, 0], []))" by code_simp
  then show ?thesis by (intro jdwp_short_length_panics [of _ 0]) (simp_all add: HeaderLen_def)
qed

end
