(* ===== verification/JdwpClient.thy ===== *)
theory JdwpClient
  imports JdwpCorrect
begin

text \<open>
  The JDWP connection (\<open>togo/internal/jdwp/client.go\<close>) as a transition system. Any number of
  goroutines call \<open>Send\<close>; the read goroutine handles packets and, at the end, the failure of the
  connection. Each step is a section under the mutex or an operation on the connection or on a
  reply channel. A call is a number; its channel has room for one reply (\<open>make(chan reply, 1)\<close>).
  \<open>issued\<close> and \<open>handled\<close> record the history.
\<close>

datatype reply = ReplyData bytes | ReplyError "16 word" | ConnError string

datatype phase = Idle | Writing "32 word" | Waiting "32 word" | Returned reply

record client =
  nextID :: "32 word"
  pending :: "32 word \<Rightarrow> nat option"
  closed :: bool
  closeErr :: string
  onEvent :: bool
  phase_of :: "nat \<Rightarrow> phase"
  chan :: "nat \<Rightarrow> reply option"
  sent :: "bytes list"
  seen :: "bytes list"
  issued :: "(nat \<times> 32 word) list"
  handled :: "Packet list"

definition attached :: client where
  "attached = \<lparr>nextID = 1, pending = Map.empty, closed = False, closeErr = [], onEvent = False,
     phase_of = (\<lambda>_. Idle), chan = Map.empty, sent = [], seen = [], issued = [], handled = []\<rparr>"

text \<open>The first section of \<open>Send\<close>: the close check, the id and the pending entry.\<close>

definition send_begin :: "nat \<Rightarrow> client \<Rightarrow> client" where
  "send_begin c st =
     (if closed st then st\<lparr>phase_of := (phase_of st)(c := Returned (ConnError (closeErr st)))\<rparr>
      else st\<lparr>nextID := nextID st + 1, pending := (pending st)(nextID st \<mapsto> c),
              phase_of := (phase_of st)(c := Writing (nextID st)), chan := (chan st)(c := None),
              issued := issued st @ [(c, nextID st)]\<rparr>)"

definition send_write :: "nat \<Rightarrow> 32 word \<Rightarrow> byte \<Rightarrow> byte \<Rightarrow> bytes \<Rightarrow> client \<Rightarrow> client" where
  "send_write c i cs cmd data st =
     st\<lparr>phase_of := (phase_of st)(c := Waiting i), sent := sent st @ [EncodeCommandPacket i cs cmd data]\<rparr>"

definition send_write_failed :: "nat \<Rightarrow> 32 word \<Rightarrow> string \<Rightarrow> client \<Rightarrow> client" where
  "send_write_failed c i err st =
     st\<lparr>pending := (pending st)(i := None), phase_of := (phase_of st)(c := Returned (ConnError err))\<rparr>"

definition send_receive :: "nat \<Rightarrow> reply \<Rightarrow> client \<Rightarrow> client" where
  "send_receive c r st = st\<lparr>phase_of := (phase_of st)(c := Returned r), chan := (chan st)(c := None)\<rparr>"

text \<open>\<open>handle\<close>: a reply goes to the channel pending under its id, a composite event to the callback.\<close>

definition reply_of :: "Packet \<Rightarrow> reply" where
  "reply_of p = (if ErrorCode p \<noteq> 0 then ReplyError (ErrorCode p) else ReplyData (Data p))"

definition handle_packet :: "Packet \<Rightarrow> client \<Rightarrow> client" where
  "handle_packet p st0 =
     (let st = st0\<lparr>handled := handled st0 @ [p]\<rparr>
      in if IsReply p then
           (case pending st (packet_id p) of
              None \<Rightarrow> st
            | Some c \<Rightarrow> st\<lparr>pending := (pending st)(packet_id p := None), chan := (chan st)(c \<mapsto> reply_of p)\<rparr>)
         else if CommandSet p = CSEvent \<and> Command p = EVComposite \<and> onEvent st then st\<lparr>seen := seen st @ [Data p]\<rparr>
         else st)"

text \<open>\<open>fail\<close>: the connection is closed once, and every pending call gets the error.\<close>

definition fail_conn :: "string \<Rightarrow> client \<Rightarrow> client" where
  "fail_conn err st =
     (if closed st then st
      else st\<lparr>closed := True, closeErr := err, pending := Map.empty,
              chan := (\<lambda>c. if c \<in> ran (pending st) then Some (ConnError err) else chan st c)\<rparr>)"

inductive step :: "client \<Rightarrow> client \<Rightarrow> bool" where
  begin_call: "phase_of st c = Idle \<Longrightarrow> step st (send_begin c st)"
| write_call: "phase_of st c = Writing i \<Longrightarrow> step st (send_write c i cs cmd data st)"
| write_fails: "phase_of st c = Writing i \<Longrightarrow> step st (send_write_failed c i err st)"
| receive_reply: "phase_of st c = Waiting i \<Longrightarrow> chan st c = Some r \<Longrightarrow> step st (send_receive c r st)"
| handle_in: "\<not> closed st \<Longrightarrow> step st (handle_packet p st)"
| conn_fails: "\<not> closed st \<Longrightarrow> step st (fail_conn err st)"
| register: "step st (st\<lparr>onEvent := True\<rparr>)"

inductive reachable :: "client \<Rightarrow> bool" where
  reachable_start: "reachable attached"
| reachable_step: "reachable st \<Longrightarrow> step st st' \<Longrightarrow> reachable st'"

inductive_simps reachable_attached: "reachable attached"

section \<open>The invariant\<close>

text \<open>The id a call got, and the reply it may see.\<close>

definition answers :: "client \<Rightarrow> nat \<Rightarrow> reply \<Rightarrow> bool" where
  "answers st c r \<longleftrightarrow>
     (case r of
        ConnError e \<Rightarrow> True
      | _ \<Rightarrow> \<exists>p i. p \<in> set (handled st) \<and> IsReply p \<and> (c, i) \<in> set (issued st) \<and> packet_id p = i \<and> reply_of p = r)"

definition in_flight :: "client \<Rightarrow> nat \<Rightarrow> 32 word \<Rightarrow> bool" where
  "in_flight st c i \<longleftrightarrow> phase_of st c = Writing i \<or> phase_of st c = Waiting i"

definition ids_ok :: "client \<Rightarrow> bool" where
  "ids_ok st \<longleftrightarrow> distinct (map fst (issued st))
     \<and> map snd (issued st) = map (\<lambda>k. of_nat (Suc k)) [0..<length (issued st)]
     \<and> nextID st = of_nat (Suc (length (issued st)))"

definition calls_ok :: "client \<Rightarrow> bool" where
  "calls_ok st \<longleftrightarrow>
     (\<forall>i c. pending st i = Some c \<longrightarrow> in_flight st c i \<and> chan st c = None)
     \<and> (\<forall>c i. in_flight st c i \<longrightarrow> (c, i) \<in> set (issued st))
     \<and> (\<forall>c. phase_of st c = Idle \<longrightarrow> c \<notin> fst ` set (issued st))
     \<and> (\<forall>c r. chan st c = Some r \<longrightarrow> answers st c r)
     \<and> (\<forall>c r. phase_of st c = Returned r \<longrightarrow> answers st c r)
     \<and> (closed st \<longrightarrow> pending st = Map.empty)"

text \<open>Every call in flight is still pending under its id, or its reply is in its channel.\<close>

definition none_lost :: "client \<Rightarrow> bool" where
  "none_lost st \<longleftrightarrow> (\<forall>c i. in_flight st c i \<longrightarrow> pending st i = Some c \<or> chan st c \<noteq> None)"

lemma in_flight_unique: "in_flight st c i \<Longrightarrow> in_flight st c j \<Longrightarrow> i = j"
  by (auto simp: in_flight_def)

lemma reachable_ids: "reachable st \<Longrightarrow> ids_ok st \<and> (\<forall>c. phase_of st c = Idle \<longrightarrow> c \<notin> fst ` set (issued st))"
proof (induction rule: reachable.induct)
  case reachable_start
  then show ?case by (simp add: ids_ok_def attached_def)
next
  case (reachable_step st st')
  from reachable_step.hyps(2) show ?case
  proof (cases rule: step.cases)
    case (begin_call c)
    with reachable_step.IH show ?thesis
      by (auto simp: send_begin_def ids_ok_def)
  next
    case (handle_in p)
    with reachable_step.IH show ?thesis
      by (auto simp: handle_packet_def Let_def ids_ok_def split: option.splits)
  qed (use reachable_step.IH in \<open>auto simp: send_write_def send_write_failed_def send_receive_def fail_conn_def ids_ok_def split: if_splits\<close>)
qed

lemma answers_mono:
  "answers st c r \<Longrightarrow> set (handled st) \<subseteq> set (handled st') \<Longrightarrow> set (issued st) \<subseteq> set (issued st') \<Longrightarrow> answers st' c r"
  unfolding answers_def by (cases r) (simp_all, blast+)

lemma calls_okD:
  assumes "calls_ok st"
  shows "pending st i = Some c \<Longrightarrow> in_flight st c i" "pending st i = Some c \<Longrightarrow> chan st c = None"
    "in_flight st c i \<Longrightarrow> (c, i) \<in> set (issued st)" "phase_of st c = Idle \<Longrightarrow> c \<notin> fst ` set (issued st)"
    "chan st c = Some r \<Longrightarrow> answers st c r" "phase_of st c = Returned r \<Longrightarrow> answers st c r"
    "closed st \<Longrightarrow> pending st = Map.empty"
  using assms unfolding calls_ok_def by blast+

lemma calls_okI:
  assumes "\<And>i c. pending st i = Some c \<Longrightarrow> in_flight st c i"
    and "\<And>i c. pending st i = Some c \<Longrightarrow> chan st c = None"
    and "\<And>c i. in_flight st c i \<Longrightarrow> (c, i) \<in> set (issued st)"
    and "\<And>c. phase_of st c = Idle \<Longrightarrow> c \<notin> fst ` set (issued st)"
    and "\<And>c r. chan st c = Some r \<Longrightarrow> answers st c r"
    and "\<And>c r. phase_of st c = Returned r \<Longrightarrow> answers st c r"
    and "closed st \<Longrightarrow> pending st = Map.empty"
  shows "calls_ok st"
  using assms unfolding calls_ok_def by blast

lemma calls_ok_begin:
  assumes inv: "calls_ok st" and idle: "phase_of st c = Idle"
  shows "calls_ok (send_begin c st)"
proof -
  have other: "in_flight st d i \<Longrightarrow> d \<noteq> c" for d i using idle by (auto simp: in_flight_def)
  have ans: "answers st d r \<Longrightarrow> answers (send_begin c st) d r" for d r
    by (rule answers_mono) (auto simp: send_begin_def)
  have err: "answers st' d (ConnError e)" for st' d e by (simp add: answers_def)
  show ?thesis
  proof (cases "closed st")
    case True
    show ?thesis
    proof (rule calls_okI)
      fix d r assume "chan (send_begin c st) d = Some r"
      with True show "answers (send_begin c st) d r" by (intro ans calls_okD(5) [OF inv]) (simp add: send_begin_def)
    next
      fix d r assume "phase_of (send_begin c st) d = Returned r"
      then have r: "((phase_of st)(c := Returned (ConnError (closeErr st)))) d = Returned r"
        using True by (simp add: send_begin_def)
      show "answers (send_begin c st) d r"
      proof (cases "d = c")
        case True
        with r have "r = ConnError (closeErr st)" by simp
        then show ?thesis using err by (simp only:)
      next
        case False
        with r have "phase_of st d = Returned r" by simp
        then show ?thesis by (rule ans [OF calls_okD(6) [OF inv]])
      qed
    qed (use True calls_okD [OF inv] other in \<open>auto simp: send_begin_def in_flight_def split: if_splits\<close>)
  next
    case False
    show ?thesis
    proof (rule calls_okI)
      fix d r assume "chan (send_begin c st) d = Some r"
      with False show "answers (send_begin c st) d r"
        by (intro ans calls_okD(5) [OF inv]) (auto simp: send_begin_def split: if_splits)
    next
      fix d r assume "phase_of (send_begin c st) d = Returned r"
      with False show "answers (send_begin c st) d r"
        by (intro ans calls_okD(6) [OF inv]) (auto simp: send_begin_def split: if_splits)
    next
      fix i d assume "pending (send_begin c st) i = Some d"
      with False show "in_flight (send_begin c st) d i"
        using calls_okD(1) [OF inv] other by (fastforce simp: send_begin_def in_flight_def split: if_splits)
    next
      fix i d assume "in_flight (send_begin c st) d i"
      with False show "(d, i) \<in> set (issued (send_begin c st))"
        using calls_okD(3) [OF inv] by (auto simp: send_begin_def in_flight_def split: if_splits)
    qed (use False calls_okD [OF inv] in \<open>auto simp: send_begin_def split: if_splits\<close>)
  qed
qed

text \<open>A step that touches neither the history nor the replies keeps what was answered.\<close>

lemma calls_ok_write:
  assumes inv: "calls_ok st" and ph: "phase_of st c = Writing i"
  shows "calls_ok (send_write c i cs cmd data st)"
proof (rule calls_okI)
  have fl: "in_flight (send_write c i cs cmd data st) d j \<longleftrightarrow> in_flight st d j" for d j
    using ph by (auto simp: in_flight_def send_write_def)
  have ans: "answers (send_write c i cs cmd data st) d r \<longleftrightarrow> answers st d r" for d r
    by (simp add: answers_def send_write_def cong: reply.case_cong)
  let ?st = "send_write c i cs cmd data st"
  show "pending ?st j = Some d \<Longrightarrow> in_flight ?st d j" for j d
    using calls_okD(1) [OF inv] by (simp add: fl) (simp add: send_write_def)
  show "in_flight ?st d j \<Longrightarrow> (d, j) \<in> set (issued ?st)" for d j
    using calls_okD(3) [OF inv] by (simp add: fl) (simp add: send_write_def)
  show "chan ?st d = Some r \<Longrightarrow> answers ?st d r" for d r
    using calls_okD(5) [OF inv] by (simp add: ans) (simp add: send_write_def)
  show "phase_of ?st d = Returned r \<Longrightarrow> answers ?st d r" for d r
    using calls_okD(6) [OF inv] by (simp add: ans) (simp add: send_write_def split: if_splits)
qed (use calls_okD [OF inv] in \<open>auto simp: send_write_def split: if_splits\<close>)

lemma calls_ok_write_failed:
  assumes inv: "calls_ok st" and ph: "phase_of st c = Writing i"
  shows "calls_ok (send_write_failed c i err st)"
proof (rule calls_okI)
  let ?st = "send_write_failed c i err st"
  have mine: "in_flight st c j \<Longrightarrow> j = i" for j using ph by (auto simp: in_flight_def)
  have fl: "in_flight ?st d j \<longleftrightarrow> in_flight st d j \<and> d \<noteq> c" for d j
    by (auto simp: in_flight_def send_write_failed_def)
  have ans: "answers ?st d r \<longleftrightarrow> answers st d r" for d r
    by (simp add: answers_def send_write_failed_def cong: reply.case_cong)
  show "pending ?st j = Some d \<Longrightarrow> in_flight ?st d j" for j d
    using calls_okD(1) [OF inv, of j d] mine [of j] by (auto simp: fl) (auto simp: send_write_failed_def split: if_splits)
  show "in_flight ?st d j \<Longrightarrow> (d, j) \<in> set (issued ?st)" for d j
    using calls_okD(3) [OF inv] by (simp add: fl) (simp add: send_write_failed_def)
  show "chan ?st d = Some r \<Longrightarrow> answers ?st d r" for d r
    using calls_okD(5) [OF inv] by (simp add: ans) (simp add: send_write_failed_def)
  show "phase_of ?st d = Returned r \<Longrightarrow> answers ?st d r" for d r
    using calls_okD(6) [OF inv] unfolding ans
    by (auto simp: send_write_failed_def answers_def split: if_splits)
qed (use calls_okD [OF inv] in \<open>auto simp: send_write_failed_def split: if_splits\<close>)

lemma calls_ok_receive:
  assumes inv: "calls_ok st" and ph: "phase_of st c = Waiting i" and ch: "chan st c = Some r"
  shows "calls_ok (send_receive c r st)"
proof (rule calls_okI)
  let ?st = "send_receive c r st"
  have fl: "in_flight ?st d j \<longleftrightarrow> in_flight st d j \<and> d \<noteq> c" for d j
    by (auto simp: in_flight_def send_receive_def)
  have ans: "answers ?st d q \<longleftrightarrow> answers st d q" for d q
    by (simp add: answers_def send_receive_def cong: reply.case_cong)
  show "pending ?st j = Some d \<Longrightarrow> in_flight ?st d j" for j d
    using calls_okD(1,2) [OF inv, of j d] ch by (auto simp: fl) (auto simp: send_receive_def)
  show "in_flight ?st d j \<Longrightarrow> (d, j) \<in> set (issued ?st)" for d j
    using calls_okD(3) [OF inv] by (simp add: fl) (simp add: send_receive_def)
  show "chan ?st d = Some q \<Longrightarrow> answers ?st d q" for d q
    using calls_okD(5) [OF inv] by (simp add: ans) (simp add: send_receive_def split: if_splits)
  show "phase_of ?st d = Returned q \<Longrightarrow> answers ?st d q" for d q
    using calls_okD(6) [OF inv] calls_okD(5) [OF inv ch] unfolding ans
    by (auto simp: send_receive_def split: if_splits)
qed (use calls_okD [OF inv] in \<open>auto simp: send_receive_def split: if_splits\<close>)

lemma calls_ok_handle:
  assumes inv: "calls_ok st" and op: "\<not> closed st"
  shows "calls_ok (handle_packet p st)"
proof -
  let ?st = "handle_packet p st"
  have same: "phase_of ?st = phase_of st" "issued ?st = issued st" "closed ?st = closed st" "p \<in> set (handled ?st)"
    by (auto simp: handle_packet_def Let_def split: option.splits)
  have pend: "pending ?st = (if IsReply p then (pending st)(packet_id p := None) else pending st)"
    by (auto simp: handle_packet_def Let_def fun_upd_idem split: option.splits)
  have ch: "chan ?st d = (if IsReply p \<and> pending st (packet_id p) = Some d then Some (reply_of p) else chan st d)" for d
    by (auto simp: handle_packet_def Let_def split: option.splits)
  have fl: "in_flight ?st d j \<longleftrightarrow> in_flight st d j" for d j by (simp add: in_flight_def same)
  have ans: "answers st d r \<Longrightarrow> answers ?st d r" for d r
    by (rule answers_mono) (auto simp: handle_packet_def Let_def split: option.splits)
  show ?thesis
  proof (rule calls_okI)
    fix j d assume pj: "pending ?st j = Some d"
    then have "pending st j = Some d" by (auto simp: pend split: if_splits)
    then show "in_flight ?st d j" using calls_okD(1) [OF inv] by (simp add: fl)
  next
    fix j d assume pj: "pending ?st j = Some d"
    then have j: "pending st j = Some d" "IsReply p \<longrightarrow> j \<noteq> packet_id p" by (auto simp: pend split: if_splits)
    have "\<not> (IsReply p \<and> pending st (packet_id p) = Some d)"
      using j calls_okD(1) [OF inv] in_flight_unique by blast
    with j(1) show "chan ?st d = None" using calls_okD(2) [OF inv] by (auto simp: ch)
  next
    fix d r assume c: "chan ?st d = Some r"
    show "answers ?st d r"
    proof (cases "IsReply p \<and> pending st (packet_id p) = Some d")
      case True
      then have "(d, packet_id p) \<in> set (issued ?st)"
        using calls_okD(3) [OF inv calls_okD(1) [OF inv]] by (simp add: same)
      with True c same(4) show ?thesis by (auto simp: ch answers_def split: reply.splits)
    next
      case False
      with c show ?thesis by (intro ans calls_okD(5) [OF inv]) (simp add: ch)
    qed
  next
    fix d r assume "phase_of ?st d = Returned r"
    then show "answers ?st d r" by (intro ans calls_okD(6) [OF inv]) (simp add: same)
  qed (use op calls_okD(3,4) [OF inv] in \<open>simp_all add: fl same\<close>)
qed

lemma calls_ok_fail:
  assumes inv: "calls_ok st" and op: "\<not> closed st"
  shows "calls_ok (fail_conn err st)"
proof (rule calls_okI)
  let ?st = "fail_conn err st"
  have fl: "in_flight ?st d j \<longleftrightarrow> in_flight st d j" for d j by (simp add: in_flight_def fail_conn_def)
  have ans: "answers st d r \<Longrightarrow> answers ?st d r" for d r
    by (rule answers_mono) (auto simp: fail_conn_def)
  show "in_flight ?st d j \<Longrightarrow> (d, j) \<in> set (issued ?st)" for d j
    using calls_okD(3) [OF inv] by (simp add: fl) (simp add: fail_conn_def)
  show "answers ?st d r" if "chan ?st d = Some r" for d r
  proof (cases "d \<in> ran (pending st)")
    case True
    with that op show ?thesis by (auto simp: fail_conn_def answers_def)
  next
    case False
    with that op show ?thesis by (intro ans calls_okD(5) [OF inv]) (simp add: fail_conn_def)
  qed
  show "phase_of ?st d = Returned r \<Longrightarrow> answers ?st d r" for d r
    using calls_okD(6) [OF inv] by (intro ans) (simp add: fail_conn_def split: if_splits)
qed (use op calls_okD(4) [OF inv] in \<open>simp_all add: fail_conn_def\<close>)

lemma calls_ok_reachable: "reachable st \<Longrightarrow> calls_ok st"
proof (induction rule: reachable.induct)
  case reachable_start
  show ?case by (rule calls_okI) (simp_all add: attached_def in_flight_def)
next
  case (reachable_step st st')
  note inv = reachable_step.IH
  from reachable_step.hyps(2) show ?case
  proof (cases rule: step.cases)
    case register
    show ?thesis
      unfolding register
      by (rule calls_okI) (use calls_okD [OF inv] in \<open>simp_all add: in_flight_def answers_def cong: reply.case_cong\<close>)
  qed (auto intro: inv calls_ok_begin calls_ok_write calls_ok_write_failed calls_ok_receive calls_ok_handle calls_ok_fail)
qed

section \<open>No call is lost\<close>

lemma ids_ok_nth:
  assumes "ids_ok st" and "(c, i) \<in> set (issued st)"
  shows "\<exists>k < length (issued st). issued st ! k = (c, i) \<and> i = of_nat (Suc k)"
proof -
  from assms(2) obtain k where k: "k < length (issued st)" "issued st ! k = (c, i)"
    by (auto simp: in_set_conv_nth)
  have "map snd (issued st) ! k = map (\<lambda>k. of_nat (Suc k)) [0..<length (issued st)] ! k"
    using assms(1) unfolding ids_ok_def by (metis (no_types, lifting))
  also have "\<dots> = of_nat (Suc k)" using k(1) by (simp del: of_nat_Suc)
  finally have "i = of_nat (Suc k)" using k by simp
  with k show ?thesis by blast
qed

lemma of_nat_32_inj: "j < 2 ^ 32 \<Longrightarrow> k < 2 ^ 32 \<Longrightarrow> (of_nat (Suc j) :: 32 word) = of_nat (Suc k) \<Longrightarrow> j = k"
proof -
  assume bounds: "j < 2 ^ 32" "k < 2 ^ 32" and "(of_nat (Suc j) :: 32 word) = of_nat (Suc k)"
  then have "(of_nat j :: 32 word) = of_nat k" by simp
  then have "unat (of_nat j :: 32 word) = unat (of_nat k :: 32 word)" by simp
  then show "j = k" using bounds by (simp add: unat_of_nat_length)
qed

lemma ids_fresh:
  assumes "ids_ok st" and "length (issued st) < 2 ^ 32" and "(c, i) \<in> set (issued st)"
  shows "i \<noteq> nextID st"
proof
  assume "i = nextID st"
  from ids_ok_nth [OF assms(1,3)] obtain k where k: "k < length (issued st)" "i = of_nat (Suc k)" by blast
  have "nextID st = of_nat (Suc (length (issued st)))" using assms(1) unfolding ids_ok_def by blast
  with k(2) \<open>i = nextID st\<close> have "(of_nat (Suc k) :: 32 word) = of_nat (Suc (length (issued st)))" by (simp only:)
  from of_nat_32_inj [OF _ assms(2) this] k(1) assms(2) show False by simp
qed

lemma ids_inj:
  assumes "ids_ok st" and "length (issued st) \<le> 2 ^ 32" and "(c, i) \<in> set (issued st)" and "(d, i) \<in> set (issued st)"
  shows "c = d"
proof -
  from ids_ok_nth [OF assms(1,3)] obtain k where k: "k < length (issued st)" "issued st ! k = (c, i)" "i = of_nat (Suc k)" by blast
  from ids_ok_nth [OF assms(1,4)] obtain j where j: "j < length (issued st)" "issued st ! j = (d, i)" "i = of_nat (Suc j)" by blast
  have "(of_nat (Suc j) :: 32 word) = of_nat (Suc k)" using j(3) k(3) by (simp only:)
  from of_nat_32_inj [OF _ _ this] j(1) k(1) assms(2) have "j = k" by simp
  with j(2) k(2) show ?thesis by simp
qed

lemma none_lostD: "none_lost st \<Longrightarrow> in_flight st c i \<Longrightarrow> pending st i = Some c \<or> chan st c \<noteq> None"
  by (simp add: none_lost_def)

lemma none_lost_begin:
  assumes lost: "none_lost st" and ids: "ids_ok st" and inv: "calls_ok st" and idle: "phase_of st c = Idle"
    and bound: "length (issued (send_begin c st)) \<le> 2 ^ 32"
  shows "none_lost (send_begin c st)"
  unfolding none_lost_def
proof (intro allI impI)
  fix d i assume fl: "in_flight (send_begin c st) d i"
  show "pending (send_begin c st) i = Some d \<or> chan (send_begin c st) d \<noteq> None"
  proof (cases "closed st \<or> d \<noteq> c")
    case True
    then have fl': "in_flight st d i" "d \<noteq> c" using fl by (auto simp: in_flight_def send_begin_def split: if_splits)
    have "i \<noteq> nextID st" if "\<not> closed st"
      using that bound by (intro ids_fresh [OF ids _ calls_okD(3) [OF inv fl'(1)]]) (simp add: send_begin_def)
    with none_lostD [OF lost fl'(1)] fl'(2) show ?thesis by (auto simp: send_begin_def)
  next
    case False
    with fl have "i = nextID st" by (simp add: in_flight_def send_begin_def)
    with False show ?thesis by (simp add: send_begin_def)
  qed
qed

lemma none_lost_step:
  assumes lost: "none_lost st" and ids: "ids_ok st" and inv: "calls_ok st" and st': "step st st'"
    and bound: "length (issued st') \<le> 2 ^ 32"
  shows "none_lost st'"
  using st'
proof (cases rule: step.cases)
  case (begin_call c)
  with none_lost_begin [OF lost ids inv] bound show ?thesis by simp
next
  case (write_fails c i err)
  have "pending st' j = Some d \<or> chan st' d \<noteq> None" if fl: "in_flight st' d j" for d j
  proof -
    have d: "d \<noteq> c" "in_flight st d j" using fl by (auto simp: write_fails(1) in_flight_def send_write_failed_def split: if_splits)
    have "in_flight st c i" using write_fails(2) by (simp add: in_flight_def)
    then have "j \<noteq> i" using ids_inj [OF ids _ calls_okD(3) [OF inv d(2)], of c] calls_okD(3) [OF inv, of c i] d(1) bound
      by (auto simp: write_fails(1) send_write_failed_def)
    with none_lostD [OF lost d(2)] show ?thesis by (simp add: write_fails(1) send_write_failed_def)
  qed
  then show ?thesis by (simp add: none_lost_def)
next
  case (handle_in p)
  have "pending st' j = Some d \<or> chan st' d \<noteq> None" if fl: "in_flight st' d j" for d j
  proof -
    have "in_flight st d j"
      using fl by (auto simp: handle_in(1) in_flight_def handle_packet_def Let_def split: option.splits if_splits)
    from none_lostD [OF lost this] show ?thesis
      by (auto simp: handle_in(1) handle_packet_def Let_def split: option.splits)
  qed
  then show ?thesis by (simp add: none_lost_def)
next
  case (conn_fails err)
  have "pending st' j = Some d \<or> chan st' d \<noteq> None" if fl: "in_flight st' d j" for d j
  proof -
    have "in_flight st d j" using fl by (simp add: conn_fails(1) in_flight_def fail_conn_def split: if_splits)
    from none_lostD [OF lost this] show ?thesis
      using conn_fails(2) by (auto simp: conn_fails(1) fail_conn_def ranI)
  qed
  then show ?thesis by (simp add: none_lost_def)
qed (use lost in \<open>auto simp: none_lost_def in_flight_def send_write_def send_receive_def split: if_splits\<close>)

lemma issued_grows: "step st st' \<Longrightarrow> length (issued st) \<le> length (issued st')"
  by (induction rule: step.induct)
    (auto simp: send_begin_def send_write_def send_write_failed_def send_receive_def handle_packet_def fail_conn_def Let_def
      split: option.splits)

lemma none_lost_reachable: "reachable st \<Longrightarrow> length (issued st) \<le> 2 ^ 32 \<Longrightarrow> none_lost st"
proof (induction rule: reachable.induct)
  case reachable_start
  show ?case by (simp add: none_lost_def attached_def in_flight_def)
next
  case (reachable_step st st')
  have "none_lost st"
    using reachable_step.IH reachable_step.prems issued_grows [OF reachable_step.hyps(2)] by linarith
  then show ?case
    using reachable_ids [OF reachable_step.hyps(1), THEN conjunct1] calls_ok_reachable [OF reachable_step.hyps(1)]
      reachable_step.hyps(2) reachable_step.prems by (rule none_lost_step)
qed

section \<open>Properties\<close>

text \<open>
  C13. Under every interleaving of calls, replies, events and failures, a call returns data or a JDWP
  error only from a reply packet that carries the id the call was given, with that packet's body or
  error code; and the channel of a pending call is empty, so the read loop never blocks on it.
\<close>

theorem jdwp_replies_match:
  assumes "reachable st"
  shows "(\<forall>c r. phase_of st c = Returned r \<longrightarrow> answers st c r) \<and> (\<forall>i c. pending st i = Some c \<longrightarrow> chan st c = None)"
  using calls_okD(2,6) [OF calls_ok_reachable [OF assms]] by blast

text \<open>A call that is answered, one whose write fails, and a reply nobody waits for.\<close>

definition demo_reply :: Packet where
  "demo_reply = \<lparr>IsReply = True, packet_id = 1, CommandSet = 0, Command = 0, ErrorCode = 0, Data = [5]\<rparr>"

definition demo_client :: client where
  "demo_client = send_receive 7 (ReplyData [5]) (handle_packet demo_reply (send_write_failed 8 2 ''broken''
     (send_write 7 1 1 7 [] (send_begin 8 (send_begin 7 attached)))))"

lemma reachable_demo: "reachable demo_client"
proof -
  have "reachable (send_begin 7 attached)" by (intro reachable_step [OF reachable_start] begin_call) (simp add: attached_def)
  then have "reachable (send_begin 8 (send_begin 7 attached))"
    by (rule reachable_step) (intro begin_call, simp add: send_begin_def attached_def)
  then have "reachable (send_write 7 1 1 7 [] (send_begin 8 (send_begin 7 attached)))"
    by (rule reachable_step) (intro write_call, simp add: send_begin_def attached_def)
  then have "reachable (send_write_failed 8 2 ''broken'' (send_write 7 1 1 7 [] (send_begin 8 (send_begin 7 attached))))"
    by (rule reachable_step) (intro write_fails, simp add: send_begin_def attached_def send_write_def)
  then have "reachable (handle_packet demo_reply (send_write_failed 8 2 ''broken''
      (send_write 7 1 1 7 [] (send_begin 8 (send_begin 7 attached)))))"
    by (rule reachable_step) (intro handle_in, simp add: send_begin_def attached_def send_write_def send_write_failed_def)
  then show ?thesis unfolding demo_client_def
    by (rule reachable_step) (rule receive_reply [where i = 1], simp_all add: send_begin_def attached_def send_write_def
        send_write_failed_def handle_packet_def demo_reply_def reply_of_def)
qed

theorem jdwp_replies_match_witness:
  "phase_of demo_client 7 = Returned (ReplyData [5]) \<and> answers demo_client 7 (ReplyData [5])"
proof -
  have "phase_of demo_client 7 = Returned (ReplyData [5])" by (simp add: demo_client_def send_receive_def)
  with jdwp_replies_match [OF reachable_demo] show ?thesis by blast
qed



end
