(* ===== verification/Framing.thy ===== *)
theory Framing
  imports StreamSplit
begin

text \<open>
  The Content-Length framing of the language server and the debug adapter:
  \<open>togo/internal/wire/wire.go\<close>. The stream is the list of the bytes still to come, after which
  reads give \<open>io.EOF\<close>; a read returns its result and what is left. Allocating the body buffer is
  taken to succeed.
\<close>

datatype ioerr = EOF | UnexpectedEOF

text \<open>\<open>r.ReadString('\n')\<close>: the line with its newline, or \<open>io.EOF\<close>.\<close>

definition ReadString :: "string \<Rightarrow> (string \<times> string) option" where
  "ReadString s = (case index_where ((=) LF) s of None \<Rightarrow> None | Some i \<Rightarrow> Some (take (Suc i) s, drop (Suc i) s))"

definition cut_at :: "char \<Rightarrow> string \<Rightarrow> (string \<times> string) option" where
  "cut_at c s = (case index_where ((=) c) s of None \<Rightarrow> None | Some i \<Rightarrow> Some (take i s, drop (Suc i) s))"

text \<open>\<open>strconv.Atoi\<close>: an optional sign and decimal digits, within 64 bits.\<close>

definition atoi :: "string \<Rightarrow> int option" where
  "atoi s =
     (let neg = prefix ''-'' s;
          ds = (if prefix ''-'' s \<or> prefix ''+'' s then tl s else s);
          v = (if neg then - int (parse_nat ds) else int (parse_nat ds))
      in if ds \<noteq> [] \<and> list_all is_digit ds \<and> - (2 ^ 63) \<le> v \<and> v < 2 ^ 63 then Some v else None)"

text \<open>One header line's effect on \<open>length\<close>.\<close>

definition header_length :: "string \<Rightarrow> int \<Rightarrow> int" where
  "header_length line len =
     (case cut_at CHR '':'' line of
        None \<Rightarrow> len
      | Some (name, val) \<Rightarrow>
          if to_lower (trim_space name) = ''content-length''
          then (case atoi (trim_space val) of None \<Rightarrow> len | Some n \<Rightarrow> n) else len)"

definition trim_crlf :: "string \<Rightarrow> string" where
  "trim_crlf = trim_right (\<lambda>c. c = CR \<or> c = LF)"

lemma index_where_less: "index_where p s = Some i \<Longrightarrow> i < length s"
  using index_where_SomeD by blast

text \<open>The inner loop: header lines up to a blank one.\<close>

function read_headers :: "int \<Rightarrow> string \<Rightarrow> (int \<times> string) option" where
  "read_headers len s =
     (case ReadString s of
        None \<Rightarrow> None
      | Some (line, rest) \<Rightarrow>
          (if trim_crlf line = [] then Some (len, rest)
           else read_headers (header_length (trim_crlf line) len) rest))"
  by pat_completeness auto
termination
  by (relation "measure (\<lambda>(_, s). length s)")
    (auto simp: ReadString_def dest!: index_where_less split: option.splits)

declare read_headers.simps [simp del]

lemma ReadString_Some:
  assumes "ReadString s = Some (line, rest)"
  shows "s = line @ rest" and "length rest < length s"
  using assms by (auto simp: ReadString_def dest!: index_where_less split: option.splits)

lemma read_headers_shorter: "read_headers len s = Some (n, rest) \<Longrightarrow> length rest < length s"
proof (induction len s arbitrary: n rest rule: read_headers.induct)
  case (1 len s)
  from 1(2) obtain line r where r: "ReadString s = Some (line, r)"
    "if trim_crlf line = [] then (n, rest) = (len, r) else read_headers (header_length (trim_crlf line) len) r = Some (n, rest)"
    by (subst (asm) read_headers.simps) (auto split: option.splits if_splits)
  show ?case
  proof (cases "trim_crlf line = []")
    case True
    with r ReadString_Some(2) [OF r(1)] show ?thesis by simp
  next
    case False
    with r have "length rest < length r" using 1(1) [OF r(1) refl False] by simp
    with ReadString_Some(2) [OF r(1)] show ?thesis by simp
  qed
qed

text \<open>\<open>Framer.Read\<close>.\<close>

function Read :: "string \<Rightarrow> (ioerr + string) \<times> string" where
  "Read s =
     (case read_headers (-1) s of
        None \<Rightarrow> (Inl EOF, [])
      | Some (len, rest) \<Rightarrow>
          (if len < 0 then Read rest
           else if nat len \<le> length rest then (Inr (take (nat len) rest), drop (nat len) rest)
           else (Inl (if rest = [] then EOF else UnexpectedEOF), [])))"
  by pat_completeness auto
termination
  by (relation "measure length") (auto dest: read_headers_shorter)

declare Read.simps [simp del]

definition Write :: "string \<Rightarrow> string" where
  "Write body = ''Content-Length: '' @ show_nat (length body) @ [CR, LF, CR, LF] @ body"

section \<open>Frames on the stream\<close>

lemma ReadString_append: "ReadString s = Some (line, rest) \<Longrightarrow> ReadString (s @ t) = Some (line, rest @ t)"
proof -
  have idx: "index_where p s = Some i \<Longrightarrow> index_where p (s @ t) = Some i" for p :: "char \<Rightarrow> bool" and i
    by (induction s arbitrary: i) (auto split: if_splits)
  assume "ReadString s = Some (line, rest)"
  then obtain i where "index_where ((=) LF) s = Some i" "line = take (Suc i) s" "rest = drop (Suc i) s"
    by (auto simp: ReadString_def split: option.splits)
  with idx index_where_less [of "(=) LF" s i] show ?thesis by (simp add: ReadString_def)
qed

lemma read_headers_append: "read_headers len s = Some (n, rest) \<Longrightarrow> read_headers len (s @ t) = Some (n, rest @ t)"
proof (induction len s arbitrary: n rest rule: read_headers.induct)
  case (1 len s)
  from 1(2) obtain line r where r: "ReadString s = Some (line, r)"
    "if trim_crlf line = [] then (n, rest) = (len, r) else read_headers (header_length (trim_crlf line) len) r = Some (n, rest)"
    by (subst (asm) read_headers.simps) (auto split: option.splits if_splits)
  show ?case
  proof (cases "trim_crlf line = []")
    case True
    with r ReadString_append [OF r(1), of t] show ?thesis by (subst read_headers.simps) simp
  next
    case False
    with r have "read_headers (header_length (trim_crlf line) len) (r @ t) = Some (n, rest @ t)"
      using 1(1) [OF r(1) refl False] by simp
    with False ReadString_append [OF r(1), of t] show ?thesis by (subst read_headers.simps) simp
  qed
qed

lemma Read_append: "Read s = (Inr body, rest) \<Longrightarrow> Read (s @ t) = (Inr body, rest @ t)"
proof (induction s rule: Read.induct)
  case (1 s)
  from 1(2) obtain len r where r: "read_headers (-1) s = Some (len, r)"
    by (subst (asm) Read.simps) (auto split: option.splits)
  from read_headers_append [OF this, of t] have rt: "read_headers (-1) (s @ t) = Some (len, r @ t)" .
  show ?case
  proof (cases "len < 0")
    case True
    with 1(2) r have "Read r = (Inr body, rest)" by (subst (asm) Read.simps) simp
    from 1(1) [OF r refl True this] True rt show ?thesis by (subst Read.simps) simp
  next
    case False
    with 1(2) r have "nat len \<le> length r" "body = take (nat len) r" "rest = drop (nat len) r"
      by (auto simp: Read.simps [of s] split: if_splits)
    with False rt show ?thesis by (subst Read.simps) simp
  qed
qed

lemma Read_shorter: "Read s = (Inr body, rest) \<Longrightarrow> length rest < length s"
proof (induction s rule: Read.induct)
  case (1 s)
  from 1(2) obtain len r where r: "read_headers (-1) s = Some (len, r)"
    by (subst (asm) Read.simps) (auto split: option.splits)
  have lr: "length r < length s" by (rule read_headers_shorter [OF r])
  show ?case
  proof (cases "len < 0")
    case True
    with 1(2) r have "Read r = (Inr body, rest)" by (subst (asm) Read.simps) simp
    from 1(1) [OF r refl True this] lr show ?thesis by simp
  next
    case False
    with 1(2) r have "rest = drop (nat len) r" by (auto simp: Read.simps [of s] split: if_splits)
    with lr show ?thesis by simp
  qed
qed

text \<open>A blocking read seen from the bytes that have arrived: no frame yet, or one and what follows.\<close>

definition wire_split :: "string \<Rightarrow> (string + string \<times> string) option" where
  "wire_split s = (case Read s of (Inr body, rest) \<Rightarrow> Some (Inr (body, rest)) | (Inl e, rest) \<Rightarrow> Some (Inl s))"

lemma wire_split_Some: "wire_split s = Some (Inr (body, rest)) \<longleftrightarrow> Read s = (Inr body, rest)"
  by (auto simp: wire_split_def split: prod.splits sum.splits)

interpretation wire: stream_splitter wire_split
proof
  show "wire_split [] = Some (Inl [])"
    by (simp add: wire_split_def Read.simps [of "[]"] read_headers.simps [of _ "[]"] ReadString_def)
  show "wire_split buf = Some (Inr (p, rest)) \<Longrightarrow> length rest < length buf" for buf p rest
    by (simp add: wire_split_Some Read_shorter)
  show "wire_split buf = Some (Inr (p, rest)) \<Longrightarrow> wire_split (buf @ later) = Some (Inr (p, rest @ later))" for buf p rest later
    by (simp add: wire_split_Some Read_append)
  show "wire_split buf = None \<Longrightarrow> wire_split (buf @ later) = None" for buf later
    by (simp add: wire_split_def split: prod.splits sum.splits)
qed

text \<open>Header blocks: lines without line breaks, each ended by CR LF, and a blank line.\<close>

definition header_line :: "string \<Rightarrow> bool" where
  "header_line h \<longleftrightarrow> h \<noteq> [] \<and> LF \<notin> set h \<and> last h \<noteq> CR"

definition header_block :: "string list \<Rightarrow> string" where
  "header_block hs = concat (map (\<lambda>h. h @ [CR, LF]) hs) @ [CR, LF]"

lemma CR_LF [simp]: "CR \<noteq> LF" "LF \<noteq> CR"
  by (simp_all add: CR_def LF_def)

lemma ReadString_line: "LF \<notin> set h \<Longrightarrow> ReadString (h @ CR # LF # s) = Some (h @ [CR, LF], s)"
proof -
  assume h: "LF \<notin> set h"
  have "index_where ((=) LF) ((h @ [CR]) @ LF # s) = Some (length (h @ [CR]))"
    using h by (subst index_where_append) auto
  then show ?thesis by (simp add: ReadString_def)
qed

lemma trim_crlf_line: "header_line h \<or> h = [] \<Longrightarrow> trim_crlf (h @ [CR, LF]) = h"
proof -
  have "trim_crlf (h @ [CR, LF]) = trim_crlf h"
    unfolding trim_crlf_def by (rule trim_right_append_in) auto
  moreover assume "header_line h \<or> h = []"
  then have "h = [] \<or> last h \<notin> {CR, LF}" by (metis header_line_def insertE last_in_set singletonD)
  then have "trim_crlf h = h" unfolding trim_crlf_def by (intro trim_right_id) auto
  ultimately show ?thesis by simp
qed

lemma read_headers_block:
  "list_all header_line hs \<Longrightarrow> read_headers len (header_block hs @ s) = Some (fold header_length hs len, s)"
proof (induction hs arbitrary: len)
  case Nil
  show ?case
    by (subst read_headers.simps)
      (simp add: header_block_def ReadString_line [of "[]", simplified] trim_crlf_line [of "[]", simplified])
next
  case (Cons h hs)
  then have h: "header_line h" "h \<noteq> []" by (auto simp: header_line_def)
  have "header_block (h # hs) @ s = h @ CR # LF # (header_block hs @ s)" by (simp add: header_block_def)
  moreover have "read_headers len (h @ CR # LF # (header_block hs @ s)) = read_headers (header_length h len) (header_block hs @ s)"
    using h by (subst read_headers.simps) (simp add: ReadString_line trim_crlf_line header_line_def)
  ultimately show ?case using Cons by simp
qed

text \<open>The block \<open>Write\<close> sends, and blocks without a usable length.\<close>

definition noise :: "string list \<Rightarrow> bool" where
  "noise hs \<longleftrightarrow> list_all header_line hs \<and> fold header_length hs (-1) < 0"

lemma atoi_show_nat: "n < 2 ^ 63 \<Longrightarrow> atoi (show_nat n) = Some (int n)"
proof -
  assume n: "n < 2 ^ 63"
  obtain c cs where c: "show_nat n = c # cs" by (metis neq_Nil_conv show_nat_nonempty)
  then have "is_digit c" using show_nat_digits [of c n] by simp
  then have "c \<noteq> CHR ''-''" "c \<noteq> CHR ''+''" by (auto simp: is_digit_def less_eq_char_def)
  with c have "\<not> prefix ''-'' (show_nat n)" "\<not> prefix ''+'' (show_nat n)" by auto
  moreover have "list_all is_digit (show_nat n)" by (auto simp: list_all_iff dest: show_nat_digits)
  ultimately show ?thesis using n by (simp add: atoi_def Let_def parse_show_nat)
qed

lemma length_header:
  assumes "n < 2 ^ 63"
  shows "header_line (''Content-Length: '' @ show_nat n)"
    and "header_length (''Content-Length: '' @ show_nat n) len = int n"
proof -
  have digits: "is_digit c" if "c \<in> set (show_nat n)" for c using that by (rule show_nat_digits)
  have last: "is_digit (last (show_nat n))" by (rule digits) (simp add: show_nat_nonempty)
  then have "last (show_nat n) \<noteq> CR" by (auto simp: is_digit_def less_eq_char_def CR_def)
  moreover have "LF \<notin> set (show_nat n)" using digits [of LF] by (auto simp: is_digit_def less_eq_char_def LF_def)
  ultimately show "header_line (''Content-Length: '' @ show_nat n)"
    using show_nat_nonempty [of n] by (auto simp: header_line_def LF_def)
  have "trim_space (CHR '' '' # show_nat n) = show_nat n"
    using trim_space_no_space [of "show_nat n"] digits is_digit_not_space
    by (simp add: trim_space_def is_space_def)
  moreover have name: "to_lower (trim_space ''Content-Length'') = ''content-length''" by code_simp
  ultimately show "header_length (''Content-Length: '' @ show_nat n) len = int n"
    using atoi_show_nat [OF assms]
    by (simp add: header_length_def cut_at_def name)
qed

lemma Read_noise: "noise hs \<Longrightarrow> Read (header_block hs @ s) = Read s"
  by (subst Read.simps) (simp add: noise_def read_headers_block)

lemma Read_Write:
  assumes "length body < 2 ^ 63"
  shows "Read (Write body @ s) = (Inr body, s)"
proof -
  let ?h = "''Content-Length: '' @ show_nat (length body)"
  have "Write body @ s = header_block [?h] @ body @ s" by (simp add: Write_def header_block_def)
  moreover have "read_headers (-1) (header_block [?h] @ body @ s) = Some (int (length body), body @ s)"
    using length_header [OF assms] by (subst read_headers_block) simp_all
  ultimately show ?thesis by (subst Read.simps) simp
qed

definition frame_bytes :: "string list list \<times> string \<Rightarrow> string" where
  "frame_bytes = (\<lambda>(ns, body). concat (map header_block ns) @ Write body)"

lemma Read_frame:
  assumes "list_all noise ns" and "length body < 2 ^ 63"
  shows "Read (frame_bytes (ns, body) @ s) = (Inr body, s)"
  using assms by (induction ns) (simp_all add: frame_bytes_def Read_Write Read_noise)

text \<open>
  C15. The framing is transparent and resynchronises: bodies written with \<open>Write\<close>, each preceded by
  any number of header blocks that carry no valid Content-Length, are read back in order and
  complete, however the transport cuts the bytes into reads.
\<close>

theorem wire_roundtrip:
  assumes "list_all (\<lambda>(ns, body). list_all noise ns \<and> length body < 2 ^ 63) frames"
    and "concat chunks = concat (map frame_bytes frames)"
  shows "read_chunks wire_split [] chunks = Some (map snd frames, [])"
proof -
  have "drain wire_split [] = Some ([], [])"
    by (subst wire.drain_step) (simp add: wire.split_empty)
  then have "read_chunks wire_split [] chunks = drain wire_split (concat (map frame_bytes frames))"
    using wire.read_chunks_concat [of "[]" chunks] assms(2) by simp
  also have "\<dots> = Some (map snd frames, [])"
    using assms(1) by (intro wire.drain_frames) (auto simp: list_all_iff wire_split_Some Read_frame)
  finally show ?thesis .
qed

theorem wire_roundtrip_witness:
  "read_chunks wire_split [] [''Content-Le'', ''ngth: x'' @ [CR, LF, CR], LF # ''Content-Length: 2'' @ [CR, LF, CR, LF], ''{}'']
     = Some ([''{}''], [])"
proof -
  have "list_all (\<lambda>(ns, body). list_all noise ns \<and> length body < 2 ^ 63) [([[''Content-Length: x'']], ''{}'')]"
  proof -
    have "noise [''Content-Length: x'']" by code_simp
    then show ?thesis by simp
  qed
  moreover have "concat [''Content-Le'', ''ngth: x'' @ [CR, LF, CR], LF # ''Content-Length: 2'' @ [CR, LF, CR, LF], ''{}'']
      = concat (map frame_bytes [([[''Content-Length: x'']], ''{}'')])"
    by code_simp
  ultimately show ?thesis using wire_roundtrip by fastforce
qed

end
