(* ===== verification/LineMap.thy ===== *)
theory LineMap
  imports GoUtf8
begin

text \<open>
  Offsets and positions: \<open>togo/internal/compiler/linemap.go\<close>. An offset counts bytes, a column
  counts runes. Offsets and lines are natural numbers here; a negative line is the code's early
  return of 0. A slice or an index out of range would panic in Go; the properties show the ranges
  that keep them inside.
\<close>

record LineAndCharacter =
  Line :: nat
  Character :: nat

text \<open>\<open>ComputeLineStarts\<close>: \<open>pos\<close> is the offset of the rest of the text.\<close>

fun line_starts_from :: "nat \<Rightarrow> string \<Rightarrow> nat list" where
  "line_starts_from pos [] = []"
| "line_starts_from pos (c # s) =
     (if c = CR then
        (if s \<noteq> [] \<and> hd s = LF then (pos + 2) # line_starts_from (pos + 2) (tl s)
         else (pos + 1) # line_starts_from (pos + 1) s)
      else if c = LF then (pos + 1) # line_starts_from (pos + 1) s
      else line_starts_from (pos + 1) s)"

definition ComputeLineStarts :: "string \<Rightarrow> nat list" where
  "ComputeLineStarts s = 0 # line_starts_from 0 s"

text \<open>The binary search of \<open>lineIndexOf\<close>.\<close>

function search_line :: "nat list \<Rightarrow> nat \<Rightarrow> nat \<Rightarrow> nat \<Rightarrow> nat" where
  "search_line starts offset low high =
     (if low < high then
        (let mid = (low + high + 1) div 2
         in if starts ! mid \<le> offset then search_line starts offset mid high
            else search_line starts offset low (mid - 1))
      else low)"
  by pat_completeness auto
termination
  by (relation "measure (\<lambda>(_, _, low, high). high - low)") auto

declare search_line.simps [simp del]

definition lineIndexOf :: "nat list \<Rightarrow> nat \<Rightarrow> nat" where
  "lineIndexOf starts offset = search_line starts offset 0 (length starts - 1)"

definition GetLineAndCharacterOfPosition :: "string \<Rightarrow> nat list \<Rightarrow> nat \<Rightarrow> LineAndCharacter" where
  "GetLineAndCharacterOfPosition s starts offset0 =
     (let offset = min offset0 (length s); line = lineIndexOf starts offset; b = starts ! line
      in \<lparr>Line = line, Character = length (runes (take (offset - b) (drop b s)))\<rparr>)"

fun walk_runes :: "nat \<Rightarrow> string \<Rightarrow> nat \<Rightarrow> nat" where
  "walk_runes 0 s b = b"
| "walk_runes (Suc n) s b = (if b < length s then walk_runes n s (b + snd (decode_rune (drop b s))) else b)"

definition GetPositionOfLineAndCharacter :: "string \<Rightarrow> nat list \<Rightarrow> nat \<Rightarrow> nat \<Rightarrow> nat" where
  "GetPositionOfLineAndCharacter s starts line character =
     (if length starts \<le> line then last starts else walk_runes character s (starts ! line))"

section \<open>The line of an offset\<close>

lemma search_line_correct:
  assumes "sorted starts" and "low \<le> high" and "high < length starts" and "starts ! low \<le> offset"
    and "\<forall>j < length starts. starts ! j \<le> offset \<longrightarrow> j \<le> high"
  shows "search_line starts offset low high < length starts
    \<and> starts ! search_line starts offset low high \<le> offset
    \<and> (\<forall>j < length starts. starts ! j \<le> offset \<longrightarrow> j \<le> search_line starts offset low high)"
  using assms
proof (induction starts offset low high rule: search_line.induct)
  case (1 starts offset low high)
  show ?case
  proof (cases "low < high")
    case True
    let ?mid = "(low + high + 1) div 2"
    have mid: "low < ?mid" "?mid \<le> high" using True by auto
    show ?thesis
    proof (cases "starts ! ?mid \<le> offset")
      case True
      have "search_line starts offset low high = search_line starts offset ?mid high"
        using \<open>low < high\<close> True by (subst search_line.simps) (simp add: Let_def)
      moreover note 1(1) [OF \<open>low < high\<close> refl True 1(3) mid(2) 1(5) True 1(7)]
      ultimately show ?thesis by simp
    next
      case False
      have "j \<le> ?mid - 1" if "j < length starts" "starts ! j \<le> offset" for j
      proof (rule ccontr)
        assume "\<not> j \<le> ?mid - 1"
        then have "?mid \<le> j" using mid by simp
        then have "starts ! ?mid \<le> starts ! j" using 1(3) that(1) by (simp add: sorted_nth_mono)
        with that(2) False show False by simp
      qed
      then have "\<forall>j < length starts. starts ! j \<le> offset \<longrightarrow> j \<le> ?mid - 1" by blast
      moreover have "low \<le> ?mid - 1" "?mid - 1 < length starts" using mid 1(5) by auto
      moreover have "search_line starts offset low high = search_line starts offset low (?mid - 1)"
        using \<open>low < high\<close> False by (subst search_line.simps) (simp add: Let_def)
      moreover note 1(2) [OF \<open>low < high\<close> refl False 1(3) _ _ 1(6)]
      ultimately show ?thesis by simp
    qed
  next
    case False
    then have "search_line starts offset low high = low" by (subst search_line.simps) simp
    with 1 False show ?thesis by simp
  qed
qed

text \<open>The three ways the loop goes on after a byte.\<close>

lemma line_starts_from_Cons:
  obtains "c = CR" "s \<noteq> [] \<and> hd s = LF" "line_starts_from pos (c # s) = (pos + 2) # line_starts_from (pos + 2) (tl s)"
  | "line_starts_from pos (c # s) = (pos + 1) # line_starts_from (pos + 1) s"
      "(c = CR \<and> \<not> (s \<noteq> [] \<and> hd s = LF)) \<or> (c \<noteq> CR \<and> c = LF)"
  | "c \<noteq> CR" "c \<noteq> LF" "line_starts_from pos (c # s) = line_starts_from (pos + 1) s"
proof (cases "c = CR")
  case True
  then show thesis by (cases "s \<noteq> [] \<and> hd s = LF") (rule that(1), simp_all, rule that(2), auto)
next
  case False
  then show thesis by (cases "c = LF") (rule that(2), simp_all, rule that(3), simp_all)
qed

lemma line_starts_from_bounds: "x \<in> set (line_starts_from pos s) \<Longrightarrow> pos < x \<and> x \<le> pos + length s"
proof (induction pos s rule: line_starts_from.induct)
  case (2 pos c s)
  note prems = "2.prems"
  show ?case
  proof (rule line_starts_from_Cons [of c s pos])
    assume c: "c = CR" "s \<noteq> [] \<and> hd s = LF"
      and "line_starts_from pos (c # s) = (pos + 2) # line_starts_from (pos + 2) (tl s)"
    with prems have "x = pos + 2 \<or> x \<in> set (line_starts_from (pos + 2) (tl s))" by (simp only: list.set insert_iff)
    then have "x = pos + 2 \<or> pos + 2 < x \<and> x \<le> pos + 2 + length (tl s)" using "2.IH"(1) [OF c] by metis
    moreover have "length s = Suc (length (tl s))" using c(2) by (cases s) simp_all
    ultimately show ?thesis by (simp only: list.size) linarith
  next
    assume "line_starts_from pos (c # s) = (pos + 1) # line_starts_from (pos + 1) s"
      and c: "(c = CR \<and> \<not> (s \<noteq> [] \<and> hd s = LF)) \<or> (c \<noteq> CR \<and> c = LF)"
    with prems have "x = pos + 1 \<or> x \<in> set (line_starts_from (pos + 1) s)" by (simp only: list.set insert_iff)
    moreover have "x \<in> set (line_starts_from (pos + 1) s) \<Longrightarrow> pos + 1 < x \<and> x \<le> pos + 1 + length s"
      using c "2.IH"(2) "2.IH"(3) by metis
    ultimately show ?thesis by (simp only: list.size) linarith
  next
    assume c: "c \<noteq> CR" "c \<noteq> LF" and "line_starts_from pos (c # s) = line_starts_from (pos + 1) s"
    with prems have "x \<in> set (line_starts_from (pos + 1) s)" by simp
    then have "pos + 1 < x \<and> x \<le> pos + 1 + length s" by (rule "2.IH"(4) [OF c])
    then show ?thesis by simp
  qed
qed simp

lemma line_starts_from_sorted: "sorted_wrt (<) (line_starts_from pos s)"
  by (induction pos s rule: line_starts_from.induct) (auto dest: line_starts_from_bounds)

lemma ComputeLineStarts_sorted: "sorted (ComputeLineStarts s)"
  using line_starts_from_sorted [of 0 s] by (auto simp: ComputeLineStarts_def intro: strict_sorted_imp_sorted)

lemma ComputeLineStarts_bound: "x \<in> set (ComputeLineStarts s) \<Longrightarrow> x \<le> length s"
  using line_starts_from_bounds [of x 0 s] by (auto simp: ComputeLineStarts_def)

lemma lineIndexOf_starts:
  "lineIndexOf (ComputeLineStarts s) offset < length (ComputeLineStarts s)
   \<and> ComputeLineStarts s ! lineIndexOf (ComputeLineStarts s) offset \<le> offset
   \<and> (\<forall>j < length (ComputeLineStarts s). ComputeLineStarts s ! j \<le> offset \<longrightarrow> j \<le> lineIndexOf (ComputeLineStarts s) offset)"
  unfolding lineIndexOf_def
  by (rule search_line_correct [OF ComputeLineStarts_sorted]) (auto simp: ComputeLineStarts_def)

section \<open>Columns\<close>

text \<open>The bytes a rune was decoded from decide it.\<close>

lemma decode_rune_1: "decode_rune (c # t) = (r, 1) \<Longrightarrow> decode_rune [c] = (r, 1)"
  by (cases t; cases "tl t"; cases "tl (tl t)") (simp_all add: Let_def split: if_splits)

lemma decode_rune_2: "decode_rune (c # c1 # t) = (r, n) \<Longrightarrow> n \<le> 2 \<Longrightarrow> decode_rune [c, c1] = (r, n)"
  by (cases t; cases "tl t") (simp_all add: Let_def split: if_splits)

lemma decode_rune_3: "decode_rune (c # c1 # c2 # t) = (r, n) \<Longrightarrow> n \<le> 3 \<Longrightarrow> decode_rune [c, c1, c2] = (r, n)"
  by (cases t) (auto simp: Let_def split: if_splits)

lemma decode_rune_4: "decode_rune (c # c1 # c2 # c3 # t) = decode_rune (c # c1 # c2 # c3 # u)"
  by (simp add: Let_def)

lemma decode_rune_take:
  assumes "snd (decode_rune s) \<le> m"
  shows "decode_rune (take m s) = decode_rune s"
proof (cases "length s \<le> m")
  case False
  obtain r n where d: "decode_rune s = (r, n)" by fastforce
  from False obtain c t where s: "s = c # t" by (cases s) simp_all
  have pos: "0 < n" "n \<le> m" using decode_rune_pos [of c t] d assms by (simp_all add: s del: decode_rune.simps)
  then consider "m = 1" | "m = 2" | "m = 3" | k where "m = Suc (Suc (Suc (Suc k)))"
    by (metis One_nat_def Suc_1 less_le_trans less_numeral_extra(3) not0_implies_Suc numeral_3_eq_3)
  then show ?thesis
  proof cases
    case 1
    with pos have "n = 1" by simp
    then show ?thesis using decode_rune_1 [of c t r] d by (simp add: s 1 del: decode_rune.simps)
  next
    case m: 2
    with False s obtain c1 u where t: "t = c1 # u" by (cases t) simp_all
    then show ?thesis using decode_rune_2 [of c c1 u r n] d pos by (simp add: s m del: decode_rune.simps)
  next
    case m: 3
    with False s obtain c1 c2 u where t: "t = c1 # c2 # u" by (cases t; cases "tl t") simp_all
    then show ?thesis
      using decode_rune_3 [of c c1 c2 u r n] d pos by (simp add: s m numeral_3_eq_3 del: decode_rune.simps)
  next
    case m: 4
    with False s obtain c1 c2 c3 u where t: "t = c1 # c2 # c3 # u"
      by (cases t; cases "tl t"; cases "tl (tl t)") simp_all
    show ?thesis unfolding s t m using decode_rune_4 [of c c1 c2 c3 "take k u" u] by (simp del: decode_rune.simps)
  qed
qed simp

lemma walk_runes_column:
  assumes "n \<le> length (runes (drop b s))" and "b \<le> length s"
  shows "b \<le> walk_runes n s b \<and> walk_runes n s b \<le> length s
    \<and> length (runes (take (walk_runes n s b - b) (drop b s))) = n"
  using assms
proof (induction n arbitrary: b)
  case 0
  then show ?case by (simp add: runes.simps)
next
  case (Suc n)
  from Suc.prems(1) have b: "b < length s" by (cases "b < length s") (simp_all add: runes.simps)
  then obtain c t where rest: "drop b s = c # t" by (cases "drop b s") simp_all
  define k where "k = snd (decode_rune (drop b s))"
  have k: "0 < k" "b + k \<le> length s" using decode_rune_size [of "drop b s"] b by (auto simp: k_def)
  have runes_step: "runes (drop b s) = fst (decode_rune (drop b s)) # runes (drop (b + k) s)"
    unfolding rest by (subst runes.simps) (simp add: k_def rest [symmetric] add.commute del: decode_rune.simps)
  define e where "e = walk_runes n s (b + k)"
  have e: "b + k \<le> e" "e \<le> length s" "length (runes (take (e - (b + k)) (drop (b + k) s))) = n"
    using Suc.IH [of "b + k"] Suc.prems(1) k(2) runes_step by (simp_all add: e_def)
  have walk: "walk_runes (Suc n) s b = e" using b by (simp add: e_def k_def)
  define p where "p = take (e - b) (drop b s)"
  have p: "p = c # take (e - b - 1) t" using e(1) k(1) by (simp add: p_def rest take_Cons')
  have "decode_rune p = decode_rune (drop b s)"
    unfolding p_def by (rule decode_rune_take) (use e(1) in \<open>simp add: k_def [symmetric]\<close>)
  then have "runes p = fst (decode_rune (drop b s)) # runes (drop k p)"
    unfolding p by (subst runes.simps) (simp add: k_def del: decode_rune.simps)
  moreover have "drop k p = take (e - (b + k)) (drop (b + k) s)"
    by (simp add: p_def drop_take add.commute diff_diff_add)
  ultimately have "length (runes p) = Suc n" using e(3) by simp
  with walk e k(1) show ?case by (simp add: p_def)
qed

lemma lineIndexOf_unique:
  assumes "line < length (ComputeLineStarts s)" and "ComputeLineStarts s ! line \<le> offset"
    and "Suc line < length (ComputeLineStarts s) \<Longrightarrow> offset < ComputeLineStarts s ! Suc line"
  shows "lineIndexOf (ComputeLineStarts s) offset = line"
proof -
  let ?i = "lineIndexOf (ComputeLineStarts s) offset"
  note found = lineIndexOf_starts [of s offset]
  have "line \<le> ?i" using found assms(1,2) by blast
  moreover have "\<not> line < ?i"
  proof
    assume "line < ?i"
    then have "ComputeLineStarts s ! Suc line \<le> ComputeLineStarts s ! ?i"
      using found by (intro sorted_nth_mono [OF ComputeLineStarts_sorted]) simp_all
    with found assms(3) \<open>line < ?i\<close> show False by linarith
  qed
  ultimately show ?thesis by simp
qed

section \<open>Properties\<close>

text \<open>
  The binary search is the linear count: the line of an offset is the number of line starts at
  or before it, less one; the index is one of the table, for every text and every offset.
\<close>

theorem lineIndexOf_counts:
  "lineIndexOf (ComputeLineStarts s) offset + 1 = length (filter (\<lambda>x. x \<le> offset) (ComputeLineStarts s))
   \<and> lineIndexOf (ComputeLineStarts s) offset < length (ComputeLineStarts s)"
proof -
  let ?ls = "ComputeLineStarts s" and ?i = "lineIndexOf (ComputeLineStarts s) offset"
  note found = lineIndexOf_starts [of s offset]
  have "{j. j < length ?ls \<and> ?ls ! j \<le> offset} = {..?i}"
  proof (rule set_eqI)
    fix j
    have "j \<le> ?i \<Longrightarrow> ?ls ! j \<le> ?ls ! ?i"
      using found by (intro sorted_nth_mono [OF ComputeLineStarts_sorted]) simp_all
    with found show "j \<in> {j. j < length ?ls \<and> ?ls ! j \<le> offset} \<longleftrightarrow> j \<in> {..?i}"
      by (auto intro: le_less_trans order_trans)
  qed
  then have "length (filter (\<lambda>x. x \<le> offset) ?ls) = ?i + 1" by (simp add: length_filter_conv_card)
  with found show ?thesis by simp
qed

text \<open>
  Positions survive the way to an offset and back: a column that lies on its line (no further
  right than the text has runes, and before the next line) gives an offset inside the text whose
  line and column are the ones asked for, multi-byte and ill-formed UTF-8 included.
\<close>

theorem position_roundtrip:
  fixes s :: string and line character :: nat
  defines "starts \<equiv> ComputeLineStarts s"
  defines "offset \<equiv> GetPositionOfLineAndCharacter s starts line character"
  assumes "line < length starts" and "character \<le> length (runes (drop (starts ! line) s))"
    and "Suc line < length starts \<longrightarrow> offset < starts ! Suc line"
  shows "offset \<le> length s
    \<and> GetLineAndCharacterOfPosition s starts offset = \<lparr>Line = line, Character = character\<rparr>"
proof -
  have "starts ! line \<le> length s" using assms(3) unfolding starts_def by (intro ComputeLineStarts_bound nth_mem)
  then have walk: "starts ! line \<le> offset" "offset \<le> length s"
      "length (runes (take (offset - starts ! line) (drop (starts ! line) s))) = character"
    using walk_runes_column [OF assms(4)] assms(3) by (simp_all add: offset_def GetPositionOfLineAndCharacter_def)
  have "lineIndexOf starts offset = line"
    unfolding starts_def by (rule lineIndexOf_unique) (use assms(3,5) walk(1) in \<open>simp_all add: starts_def\<close>)
  with walk show ?thesis by (simp add: GetLineAndCharacterOfPosition_def)
qed

text \<open>The witness: two lines, the second with a two-byte rune before the column.\<close>

theorem position_roundtrip_witness:
  "let s = [CHR ''a'', LF, CHR 0xC3, CHR 0xA9, CHR ''b'']; starts = ComputeLineStarts s
   in GetLineAndCharacterOfPosition s starts (GetPositionOfLineAndCharacter s starts 1 1) = \<lparr>Line = 1, Character = 1\<rparr>"
  using position_roundtrip [of 1 "[CHR ''a'', LF, CHR 0xC3, CHR 0xA9, CHR ''b'']" 1]
  by code_simp

end
