(* ===== verification/ConstFold.thy ===== *)
theory ConstFold
  imports GoPrelude "HOL-Library.Word" "HOL-Library.Signed_Division"
begin

unbundle bit_operations_syntax

text \<open>
  Constant folding: \<open>togo/internal/compiler/constfold.go\<close>. The folder keeps every integer in an
  \<open>int64\<close>, a 64-bit word here, and wraps to 32 bits by hand; the reference semantics at the end
  evaluates a Java expression at the width of its type, and the folder is equal to it on every
  expression. A node carries the kinds the folder distinguishes; \<open>OtherNode\<close> is any other kind.
\<close>

datatype SyntaxKind =
    PlusToken | MinusToken | TildeToken | ExclamationToken
  | LessThanToken | LessThanEqualsToken | GreaterThanToken | GreaterThanEqualsToken
  | EqualsEqualsToken | ExclamationEqualsToken
  | AmpersandAmpersandToken | AmpersandToken | BarBarToken | BarToken | CaretToken
  | AsteriskToken | SlashToken | PercentToken
  | LessThanLessThanToken | GreaterThanGreaterThanToken | GreaterThanGreaterThanGreaterThanToken
  | OtherToken string

datatype Node =
    ParenthesizedExpression Node
  | NumericLiteral string
  | TrueKeyword
  | FalseKeyword
  | PrefixUnaryExpression SyntaxKind Node
  | BinaryExpression Node SyntaxKind Node
  | OtherNode string

datatype ConstKind = ConstInt | ConstLong | ConstBool

record ConstValue =
  Kind :: ConstKind
  IntVal :: "64 word"
  BoolVal :: bool

definition num_const :: "ConstKind \<Rightarrow> 64 word \<Rightarrow> ConstValue" where
  "num_const kind v = \<lparr>Kind = kind, IntVal = v, BoolVal = False\<rparr>"

definition bool_const :: "bool \<Rightarrow> ConstValue" where
  "bool_const b = \<lparr>Kind = ConstBool, IntVal = 0, BoolVal = b\<rparr>"

text \<open>Go's conversions: \<open>int32\<close> and \<open>uint32\<close> keep the low bits, \<open>int64(int32 v)\<close> extends the sign.\<close>

definition to_int32 :: "64 word \<Rightarrow> 32 word" where
  "to_int32 v = ucast v"

definition int64_of_int32 :: "32 word \<Rightarrow> 64 word" where
  "int64_of_int32 v = word_of_int (sint v)"

definition int64_of_uint32 :: "32 word \<Rightarrow> 64 word" where
  "int64_of_uint32 v = ucast v"

definition wrap :: "ConstKind \<Rightarrow> 64 word \<Rightarrow> 64 word" where
  "wrap kind v = (if kind = ConstLong then v else int64_of_int32 (to_int32 v))"

text \<open>Go's integer division truncates towards zero; the smallest value over -1 wraps.\<close>

definition go_div :: "'a::len word \<Rightarrow> 'a word \<Rightarrow> 'a word" where
  "go_div a b = word_of_int (sint a sdiv sint b)"

definition go_mod :: "'a::len word \<Rightarrow> 'a word \<Rightarrow> 'a word" where
  "go_mod a b = word_of_int (sint a smod sint b)"

section \<open>Literals\<close>

definition hex_val :: "char \<Rightarrow> nat" where
  "hex_val c =
     (if is_digit c then digit_val c
      else if CHR ''a'' \<le> c \<and> c \<le> CHR ''z'' then of_char c - 87
      else if CHR ''A'' \<le> c \<and> c \<le> CHR ''Z'' then of_char c - 55
      else 36)"

text \<open>\<open>strconv.ParseUint(s, base, 64)\<close>.\<close>

definition parse_uint :: "nat \<Rightarrow> string \<Rightarrow> 64 word option" where
  "parse_uint base s =
     (let v = foldl (\<lambda>n c. base * n + hex_val c) 0 s
      in if s \<noteq> [] \<and> list_all (\<lambda>c. hex_val c < base) s \<and> v < 2 ^ 64 then Some (of_nat v) else None)"

definition isOctalDigits :: "string \<Rightarrow> bool" where
  "isOctalDigits s \<longleftrightarrow> list_all (\<lambda>c. CHR ''0'' \<le> c \<and> c \<le> CHR ''7'') s \<and> s \<noteq> []"

definition without_underscores :: "string \<Rightarrow> string" where
  "without_underscores text = filter (\<lambda>c. c \<noteq> CHR ''_'') text"

definition parseIntLiteral :: "string \<Rightarrow> 64 word option" where
  "parseIntLiteral text =
     (let t = without_underscores text in
      if 2 \<le> length t \<and> t ! 0 = CHR ''0'' \<and> isOctalDigits (tl t) then parse_uint 8 (tl t)
      else if 2 \<le> length t \<and> (t ! 1 = CHR ''x'' \<or> t ! 1 = CHR ''X'') \<and> t ! 0 = CHR ''0'' then parse_uint 16 (drop 2 t)
      else if 2 \<le> length t \<and> (t ! 1 = CHR ''b'' \<or> t ! 1 = CHR ''B'') \<and> t ! 0 = CHR ''0'' then parse_uint 2 (drop 2 t)
      else parse_uint 10 t)"

definition is_hex_or_bin :: "string \<Rightarrow> bool" where
  "is_hex_or_bin t \<longleftrightarrow> 2 \<le> length t \<and> t ! 0 = CHR ''0'' \<and> t ! 1 \<in> set ''xXbB''"

definition contains_any :: "string \<Rightarrow> string \<Rightarrow> bool" where
  "contains_any cs s \<longleftrightarrow> list_ex (\<lambda>c. c \<in> set cs) s"

text \<open>The \<open>NumericLiteral\<close> case of \<open>FoldConstant\<close>.\<close>

definition foldLiteral :: "string \<Rightarrow> ConstValue option" where
  "foldLiteral text =
     (let t = without_underscores text;
          isLong = (text \<noteq> [] \<and> (last text = CHR ''l'' \<or> last text = CHR ''L''));
          lit = (if isLong then butlast text else text)
      in if contains_any (if is_hex_or_bin t then ''pP'' else ''.eEfFdD'') t then None
         else case parseIntLiteral lit of
             None \<Rightarrow> None
           | Some parsed \<Rightarrow>
               Some (if isLong then num_const ConstLong parsed
                     else num_const ConstInt (int64_of_int32 (to_int32 parsed))))"

section \<open>Operators\<close>

definition numKind :: "ConstValue \<Rightarrow> ConstValue option" where
  "numKind v = (if Kind v \<noteq> ConstBool then Some v else None)"

definition foldPrefix :: "SyntaxKind \<Rightarrow> ConstValue option \<Rightarrow> ConstValue option" where
  "foldPrefix op operand =
     (case operand of
        None \<Rightarrow> None
      | Some v \<Rightarrow>
          (case op of
             PlusToken \<Rightarrow> numKind v
           | MinusToken \<Rightarrow> map_option (\<lambda>n. num_const (Kind n) (wrap (Kind n) (- IntVal n))) (numKind v)
           | TildeToken \<Rightarrow> map_option (\<lambda>n. num_const (Kind n) (wrap (Kind n) (- IntVal n - 1))) (numKind v)
           | ExclamationToken \<Rightarrow> if Kind v = ConstBool then Some (bool_const (\<not> BoolVal v)) else None
           | _ \<Rightarrow> None))"

definition foldCompare :: "SyntaxKind \<Rightarrow> 64 word \<Rightarrow> 64 word \<Rightarrow> bool option" where
  "foldCompare op a b =
     (case op of
        LessThanToken \<Rightarrow> Some (sint a < sint b)
      | LessThanEqualsToken \<Rightarrow> Some (sint a \<le> sint b)
      | GreaterThanToken \<Rightarrow> Some (sint a > sint b)
      | GreaterThanEqualsToken \<Rightarrow> Some (sint a \<ge> sint b)
      | EqualsEqualsToken \<Rightarrow> Some (a = b)
      | ExclamationEqualsToken \<Rightarrow> Some (a \<noteq> b)
      | _ \<Rightarrow> None)"

definition foldBools :: "SyntaxKind \<Rightarrow> bool \<Rightarrow> bool \<Rightarrow> ConstValue option" where
  "foldBools op a b =
     (case op of
        AmpersandAmpersandToken \<Rightarrow> Some (bool_const (a \<and> b))
      | AmpersandToken \<Rightarrow> Some (bool_const (a \<and> b))
      | BarBarToken \<Rightarrow> Some (bool_const (a \<or> b))
      | BarToken \<Rightarrow> Some (bool_const (a \<or> b))
      | CaretToken \<Rightarrow> Some (bool_const (a \<noteq> b))
      | ExclamationEqualsToken \<Rightarrow> Some (bool_const (a \<noteq> b))
      | EqualsEqualsToken \<Rightarrow> Some (bool_const (a = b))
      | _ \<Rightarrow> None)"

text \<open>The type and the distance of a shift come from the left operand.\<close>

definition foldShift :: "SyntaxKind \<Rightarrow> ConstValue \<Rightarrow> ConstValue \<Rightarrow> ConstValue option" where
  "foldShift op a b =
     (let sk = Kind a; sb = (if sk = ConstLong then 64 else 32 :: 64 word);
          dist = unat (IntVal b AND (sb - 1))
      in Some (num_const sk (wrap sk
           (case op of
              LessThanLessThanToken \<Rightarrow> push_bit dist (IntVal a)
            | GreaterThanGreaterThanToken \<Rightarrow> signed_drop_bit dist (IntVal a)
            | _ \<Rightarrow> if sk = ConstLong then drop_bit dist (IntVal a)
                    else int64_of_uint32 (drop_bit dist (to_int32 (IntVal a)))))))"

definition foldArith :: "SyntaxKind \<Rightarrow> ConstValue \<Rightarrow> ConstValue \<Rightarrow> ConstValue option" where
  "foldArith op a b =
     (let kind = (if Kind a = ConstLong \<or> Kind b = ConstLong then ConstLong else ConstInt);
          result = (\<lambda>v. Some (num_const kind (wrap kind v)))
      in case op of
           PlusToken \<Rightarrow> result (IntVal a + IntVal b)
         | MinusToken \<Rightarrow> result (IntVal a - IntVal b)
         | AsteriskToken \<Rightarrow> result (IntVal a * IntVal b)
         | SlashToken \<Rightarrow> if IntVal b = 0 then None else result (go_div (IntVal a) (IntVal b))
         | PercentToken \<Rightarrow> if IntVal b = 0 then None else result (go_mod (IntVal a) (IntVal b))
         | AmpersandToken \<Rightarrow> result (IntVal a AND IntVal b)
         | BarToken \<Rightarrow> result (IntVal a OR IntVal b)
         | CaretToken \<Rightarrow> result (IntVal a XOR IntVal b)
         | LessThanLessThanToken \<Rightarrow> foldShift op a b
         | GreaterThanGreaterThanToken \<Rightarrow> foldShift op a b
         | GreaterThanGreaterThanGreaterThanToken \<Rightarrow> foldShift op a b
         | _ \<Rightarrow> None)"

definition foldBinary :: "SyntaxKind \<Rightarrow> ConstValue option \<Rightarrow> ConstValue option \<Rightarrow> ConstValue option" where
  "foldBinary op l r =
     (case (l, r) of
        (Some left, Some right) \<Rightarrow>
          (if Kind left = ConstBool \<and> Kind right = ConstBool then foldBools op (BoolVal left) (BoolVal right)
           else case (numKind left, numKind right) of
               (Some a, Some b) \<Rightarrow>
                 (case foldCompare op (IntVal a) (IntVal b) of
                    Some result \<Rightarrow> Some (bool_const result)
                  | None \<Rightarrow> foldArith op a b)
             | _ \<Rightarrow> None)
      | _ \<Rightarrow> None)"

fun FoldConstant :: "Node \<Rightarrow> ConstValue option" where
  "FoldConstant (ParenthesizedExpression e) = FoldConstant e"
| "FoldConstant (NumericLiteral text) = foldLiteral text"
| "FoldConstant TrueKeyword = Some (bool_const True)"
| "FoldConstant FalseKeyword = Some (bool_const False)"
| "FoldConstant (PrefixUnaryExpression op e) = foldPrefix op (FoldConstant e)"
| "FoldConstant (BinaryExpression l op r) = foldBinary op (FoldConstant l) (FoldConstant r)"
| "FoldConstant (OtherNode _) = None"

section \<open>Java's constant expressions\<close>

text \<open>
  The reference: values at the width of their type. A binary operator promotes both operands to the
  wider type; a shift keeps the type of its left operand and uses five or six bits of the distance.
\<close>

datatype jvalue = JInt "32 word" | JLong "64 word" | JBool bool

definition promote :: "32 word \<Rightarrow> 64 word" where
  "promote w = word_of_int (sint w)"

definition java_arith :: "SyntaxKind \<Rightarrow> 'a::len word \<Rightarrow> 'a word \<Rightarrow> 'a word option" where
  "java_arith op a b =
     (case op of
        PlusToken \<Rightarrow> Some (a + b)
      | MinusToken \<Rightarrow> Some (a - b)
      | AsteriskToken \<Rightarrow> Some (a * b)
      | SlashToken \<Rightarrow> if b = 0 then None else Some (word_of_int (sint a sdiv sint b))
      | PercentToken \<Rightarrow> if b = 0 then None else Some (word_of_int (sint a smod sint b))
      | AmpersandToken \<Rightarrow> Some (a AND b)
      | BarToken \<Rightarrow> Some (a OR b)
      | CaretToken \<Rightarrow> Some (a XOR b)
      | _ \<Rightarrow> None)"

definition java_compare :: "SyntaxKind \<Rightarrow> 'a::len word \<Rightarrow> 'a word \<Rightarrow> bool option" where
  "java_compare op a b =
     (case op of
        LessThanToken \<Rightarrow> Some (sint a < sint b)
      | LessThanEqualsToken \<Rightarrow> Some (sint a \<le> sint b)
      | GreaterThanToken \<Rightarrow> Some (sint a > sint b)
      | GreaterThanEqualsToken \<Rightarrow> Some (sint a \<ge> sint b)
      | EqualsEqualsToken \<Rightarrow> Some (sint a = sint b)
      | ExclamationEqualsToken \<Rightarrow> Some (sint a \<noteq> sint b)
      | _ \<Rightarrow> None)"

definition java_shift :: "SyntaxKind \<Rightarrow> 'a::len word \<Rightarrow> nat \<Rightarrow> 'a word option" where
  "java_shift op a dist =
     (case op of
        LessThanLessThanToken \<Rightarrow> Some (push_bit dist a)
      | GreaterThanGreaterThanToken \<Rightarrow> Some (signed_drop_bit dist a)
      | GreaterThanGreaterThanGreaterThanToken \<Rightarrow> Some (drop_bit dist a)
      | _ \<Rightarrow> None)"

definition is_shift :: "SyntaxKind \<Rightarrow> bool" where
  "is_shift op \<longleftrightarrow> op = LessThanLessThanToken \<or> op = GreaterThanGreaterThanToken \<or> op = GreaterThanGreaterThanGreaterThanToken"

definition java_numeric :: "SyntaxKind \<Rightarrow> ('a::len word \<Rightarrow> jvalue) \<Rightarrow> 'a word \<Rightarrow> 'a word \<Rightarrow> jvalue option" where
  "java_numeric op mk a b =
     (case java_compare op a b of Some r \<Rightarrow> Some (JBool r) | None \<Rightarrow> map_option mk (java_arith op a b))"

definition java_bools :: "SyntaxKind \<Rightarrow> bool \<Rightarrow> bool \<Rightarrow> bool option" where
  "java_bools op a b =
     (if op \<in> {AmpersandAmpersandToken, AmpersandToken} then Some (a \<and> b)
      else if op \<in> {BarBarToken, BarToken} then Some (a \<or> b)
      else if op \<in> {CaretToken, ExclamationEqualsToken} then Some (a \<noteq> b)
      else if op = EqualsEqualsToken then Some (a = b) else None)"

fun java_binary :: "SyntaxKind \<Rightarrow> jvalue \<Rightarrow> jvalue \<Rightarrow> jvalue option" where
  "java_binary op (JBool a) (JBool b) = map_option JBool (java_bools op a b)"
| "java_binary op (JInt a) (JInt b) =
     (if is_shift op then map_option JInt (java_shift op a (unat b mod 32)) else java_numeric op JInt a b)"
| "java_binary op (JInt a) (JLong b) =
     (if is_shift op then map_option JInt (java_shift op a (unat b mod 32)) else java_numeric op JLong (promote a) b)"
| "java_binary op (JLong a) (JInt b) =
     (if is_shift op then map_option JLong (java_shift op a (unat b mod 64)) else java_numeric op JLong a (promote b))"
| "java_binary op (JLong a) (JLong b) =
     (if is_shift op then map_option JLong (java_shift op a (unat b mod 64)) else java_numeric op JLong a b)"
| "java_binary op _ _ = None"

fun java_unary :: "SyntaxKind \<Rightarrow> jvalue \<Rightarrow> jvalue option" where
  "java_unary op (JBool b) = (if op = ExclamationToken then Some (JBool (\<not> b)) else None)"
| "java_unary op (JInt w) =
     (if op = PlusToken then Some (JInt w) else if op = MinusToken then Some (JInt (- w))
      else if op = TildeToken then Some (JInt (NOT w)) else None)"
| "java_unary op (JLong w) =
     (if op = PlusToken then Some (JLong w) else if op = MinusToken then Some (JLong (- w))
      else if op = TildeToken then Some (JLong (NOT w)) else None)"

text \<open>
  A literal: the digits of its radix after the underscores are dropped; an \<open>L\<close> makes it a long.
  A magnitude of 64 bits is accepted, of which an int keeps the low 32, as the folder does; a
  literal with a decimal point, an exponent or a float suffix is no integer.
\<close>

definition literal_radix :: "string \<Rightarrow> nat \<times> string" where
  "literal_radix t =
     (case t of
        z # c # ds \<Rightarrow>
          if z \<noteq> CHR ''0'' then (10, t)
          else if isOctalDigits (c # ds) then (8, c # ds)
          else if c \<in> set ''xX'' then (16, ds)
          else if c \<in> set ''bB'' then (2, ds)
          else (10, t)
      | _ \<Rightarrow> (10, t))"

definition literal_value :: "string \<Rightarrow> nat option" where
  "literal_value text =
     (let (base, ds) = literal_radix (without_underscores text); v = foldl (\<lambda>n c. base * n + hex_val c) 0 ds
      in if ds \<noteq> [] \<and> list_all (\<lambda>c. hex_val c < base) ds \<and> v < 2 ^ 64 then Some v else None)"

definition is_floating :: "string \<Rightarrow> bool" where
  "is_floating t \<longleftrightarrow> contains_any (if fst (literal_radix t) \<in> {2, 16} then ''pP'' else ''.eEfFdD'') t"

definition java_literal :: "string \<Rightarrow> jvalue option" where
  "java_literal text =
     (if is_floating (without_underscores text) then None
      else if text \<noteq> [] \<and> last text \<in> set ''lL''
      then map_option (\<lambda>v. JLong (of_nat v)) (literal_value (butlast text))
      else map_option (\<lambda>v. JInt (of_nat v)) (literal_value text))"

fun java_eval :: "Node \<Rightarrow> jvalue option" where
  "java_eval (ParenthesizedExpression e) = java_eval e"
| "java_eval (NumericLiteral text) = java_literal text"
| "java_eval TrueKeyword = Some (JBool True)"
| "java_eval FalseKeyword = Some (JBool False)"
| "java_eval (PrefixUnaryExpression op e) = Option.bind (java_eval e) (java_unary op)"
| "java_eval (BinaryExpression l op r) =
     Option.bind (java_eval l) (\<lambda>a. Option.bind (java_eval r) (java_binary op a))"
| "java_eval (OtherNode _) = None"

text \<open>How the folder stores a Java value.\<close>

fun encode :: "jvalue \<Rightarrow> ConstValue" where
  "encode (JInt w) = num_const ConstInt (int64_of_int32 w)"
| "encode (JLong w) = num_const ConstLong w"
| "encode (JBool b) = bool_const b"

section \<open>The folder is the reference\<close>

subsection \<open>Words of the two widths\<close>

lemma to_int32_of_int [simp]: "to_int32 (word_of_int i) = word_of_int i"
  unfolding to_int32_def by (rule bit_word_eqI) (simp add: bit_simps)

lemma word64_of_int: obtains i where "(a :: 64 word) = word_of_int i"
  using that [of "uint a"] by simp

lemma to_int32_of_int32 [simp]: "to_int32 (int64_of_int32 w) = w"
  by (simp add: int64_of_int32_def del: of_int_sint) simp

lemma to_int32_of_uint32 [simp]: "to_int32 (int64_of_uint32 w) = w"
  unfolding to_int32_def int64_of_uint32_def by (rule bit_word_eqI) (simp add: bit_simps)

lemma sint_of_int32 [simp]: "sint (int64_of_int32 w) = sint w"
proof -
  have "- (2 ^ 31) \<le> sint w" "sint w < 2 ^ 31"
    using sint_range_size [of w] by (simp_all add: word_size)
  then have "signed_take_bit 63 (sint w) = sint w" by (intro signed_take_bit_int_eq_self) simp_all
  then show ?thesis by (simp add: int64_of_int32_def signed_of_int del: of_int_sint)
qed

lemma int64_of_int32_inject [simp]: "int64_of_int32 a = int64_of_int32 b \<longleftrightarrow> a = b"
  by (metis to_int32_of_int32)

lemma int64_of_int32_0 [simp]: "int64_of_int32 w = 0 \<longleftrightarrow> w = 0"
  using int64_of_int32_inject [of w 0] by (simp add: int64_of_int32_def del: int64_of_int32_inject)

lemma to_int32_arith [simp]:
  "to_int32 (a + b) = to_int32 a + to_int32 b" "to_int32 (a - b) = to_int32 a - to_int32 b"
  "to_int32 (a * b) = to_int32 a * to_int32 b" "to_int32 (- a) = - to_int32 a"
  "to_int32 1 = 1" "to_int32 0 = 0"
proof -
  obtain i j where ij: "a = word_of_int i" "b = word_of_int j" using word64_of_int by metis
  show "to_int32 (a + b) = to_int32 a + to_int32 b" "to_int32 (a - b) = to_int32 a - to_int32 b"
    "to_int32 (a * b) = to_int32 a * to_int32 b" "to_int32 (- a) = - to_int32 a"
    unfolding ij by (simp_all flip: of_int_add of_int_diff of_int_mult of_int_minus)
qed (simp_all add: to_int32_def)

lemma to_int32_bits [simp]:
  "to_int32 (a AND b) = to_int32 a AND to_int32 b" "to_int32 (a OR b) = to_int32 a OR to_int32 b"
  "to_int32 (a XOR b) = to_int32 a XOR to_int32 b" "to_int32 (NOT a) = NOT (to_int32 a)"
  "to_int32 (push_bit n a) = push_bit n (to_int32 a)"
  unfolding to_int32_def by (rule bit_word_eqI; auto simp: bit_simps)+

lemma to_int32_div [simp]:
  "to_int32 (go_div (int64_of_int32 a) (int64_of_int32 b)) = word_of_int (sint a sdiv sint b)"
  "to_int32 (go_mod (int64_of_int32 a) (int64_of_int32 b)) = word_of_int (sint a smod sint b)"
  by (simp_all add: go_div_def go_mod_def)

lemma to_int32_shift_right [simp]:
  "to_int32 (signed_drop_bit n (int64_of_int32 w)) = signed_drop_bit n w"
proof (rule bit_word_eqI)
  fix m :: nat
  assume "m < LENGTH(32)"
  then have m: "m < 32" by simp
  consider "31 < n + m" | "n + m = 31" | "n + m < 31" by linarith
  then show "bit (to_int32 (signed_drop_bit n (int64_of_int32 w))) m \<longleftrightarrow> bit (signed_drop_bit n w) m"
    unfolding to_int32_def int64_of_int32_def
    by cases (use m in \<open>auto simp: bit_simps min_def\<close>)
qed

lemma shift_distance [simp]:
  "unat (x AND 31 :: 64 word) = unat x mod 32" "unat (x AND 63 :: 64 word) = unat x mod 64"
proof -
  have "x AND 31 = take_bit 5 x" "x AND 63 = take_bit 6 x"
    by (simp_all add: take_bit_eq_mask mask_eq_exp_minus_1)
  moreover have "unat (take_bit 5 x) = unat x mod 32" "unat (take_bit 6 x) = unat x mod 64"
    unfolding unsigned_take_bit_eq by (simp_all add: take_bit_eq_mod)
  ultimately show "unat (x AND 31) = unat x mod 32" "unat (x AND 63) = unat x mod 64" by simp_all
qed

lemma shift_distance_int [simp]:
  "unat (int64_of_int32 w) mod 32 = unat w mod 32" "unat (int64_of_int32 w) mod 64 = unat w mod 64"
proof -
  have "unat (to_int32 (int64_of_int32 w)) mod 32 = unat (int64_of_int32 w) mod 32"
    "unat (to_int32 (int64_of_int32 w)) mod 64 = unat (int64_of_int32 w) mod 64"
    unfolding to_int32_def unsigned_ucast_eq by (simp_all add: take_bit_eq_mod mod_mod_cancel)
  then show "unat (int64_of_int32 w) mod 32 = unat w mod 32" "unat (int64_of_int32 w) mod 64 = unat w mod 64"
    by simp_all
qed

lemma wrap_simps [simp]: "wrap ConstLong v = v" "wrap ConstInt v = int64_of_int32 (to_int32 v)"
  by (simp_all add: wrap_def)

subsection \<open>Operators and literals\<close>

lemma const_simps [simp]:
  "Kind (num_const k v) = k" "IntVal (num_const k v) = v"
  "Kind (bool_const b) = ConstBool" "BoolVal (bool_const b) = b"
  "numKind (num_const ConstInt v) = Some (num_const ConstInt v)"
  "numKind (num_const ConstLong v) = Some (num_const ConstLong v)"
  "numKind (bool_const b) = None"
  by (simp_all add: num_const_def bool_const_def numKind_def)

lemma foldPrefix_encode: "foldPrefix op (Some (encode v)) = map_option encode (java_unary op v)"
  by (cases v; cases op) (simp_all add: foldPrefix_def not_eq_complement)

lemma foldCompare_java: "foldCompare op a b = java_compare op a b"
  by (cases op) (simp_all add: foldCompare_def java_compare_def word_eq_iff_signed)

lemma java_compare_int: "java_compare op (int64_of_int32 a) (int64_of_int32 b) = java_compare op a b"
  by (cases op) (simp_all add: java_compare_def)

text \<open>An operator of two words of one width; the folder knows them as \<open>int64\<close>s.\<close>

lemma foldArith_int:
  "\<not> is_shift op \<Longrightarrow> foldArith op (num_const ConstInt (int64_of_int32 a)) (num_const ConstInt (int64_of_int32 b))
   = map_option (encode \<circ> JInt) (java_arith op a b)"
  by (cases op) (simp_all add: foldArith_def java_arith_def is_shift_def)

lemma foldArith_long:
  "\<not> is_shift op \<Longrightarrow> k = ConstLong \<or> l = ConstLong \<Longrightarrow>
   foldArith op (num_const k a) (num_const l b) = map_option (encode \<circ> JLong) (java_arith op a b)"
  by (cases op) (simp_all add: foldArith_def java_arith_def is_shift_def go_div_def go_mod_def)

lemma foldShift_int:
  "is_shift op \<Longrightarrow> foldArith op (num_const ConstInt (int64_of_int32 a)) b
   = map_option (encode \<circ> JInt) (java_shift op a (unat (IntVal b) mod 32))"
  by (auto simp: foldArith_def foldShift_def java_shift_def is_shift_def)

lemma foldShift_long:
  "is_shift op \<Longrightarrow> foldArith op (num_const ConstLong a) b
   = map_option (encode \<circ> JLong) (java_shift op a (unat (IntVal b) mod 64))"
  by (auto simp: foldArith_def foldShift_def java_shift_def is_shift_def)

lemma shift_no_compare: "is_shift op \<Longrightarrow> java_compare op a b = None"
  by (auto simp: java_compare_def is_shift_def)

lemma promote_int32: "promote w = int64_of_int32 w"
  by (simp add: promote_def int64_of_int32_def)

lemma foldBools_java: "foldBools op a b = map_option (encode \<circ> JBool) (java_bools op a b)"
  by (cases op) (simp_all add: foldBools_def java_bools_def)

lemma foldBinary_encode: "foldBinary op (Some (encode a)) (Some (encode b)) = map_option encode (java_binary op a b)"
proof -
  note [simp] = foldBinary_def foldCompare_java java_compare_int foldBools_java option.map_comp foldShift_int
    foldShift_long foldArith_int foldArith_long shift_no_compare java_numeric_def promote_int32
  show ?thesis
    by (cases a; cases b; cases "is_shift op") (simp_all split: option.split)
qed

lemma literal_radix_parse: "parseIntLiteral text = map_option of_nat (literal_value text)"
proof -
  define t where "t = without_underscores text"
  have "parseIntLiteral text = (let (base, ds) = literal_radix t in parse_uint base ds)"
  proof (cases "2 \<le> length t \<and> t ! 0 = CHR ''0''")
    case True
    then obtain c ds where "t = CHR ''0'' # c # ds" by (cases t; cases "tl t") simp_all
    then show ?thesis unfolding parseIntLiteral_def t_def [symmetric] Let_def
      by (simp add: literal_radix_def)
  next
    case False
    then have "parseIntLiteral text = parse_uint 10 t"
      unfolding parseIntLiteral_def t_def [symmetric] Let_def
      by (cases "2 \<le> length t"; cases "t ! 0 = CHR ''0''") simp_all
    moreover have "literal_radix t = (10, t)"
      using False by (cases t; cases "tl t") (simp_all add: literal_radix_def)
    ultimately show ?thesis by simp
  qed
  then show ?thesis
    by (simp add: literal_value_def t_def parse_uint_def Let_def split: prod.split)
qed

lemma is_floating_fold:
  "is_floating t \<longleftrightarrow> contains_any (if is_hex_or_bin t then ''pP'' else ''.eEfFdD'') t"
proof -
  have "is_hex_or_bin t \<longleftrightarrow> fst (literal_radix t) \<in> {2, 16}"
  proof (cases t)
    case (Cons z u)
    then show ?thesis
    proof (cases u)
      case (Cons c ds)
      have "isOctalDigits (c # ds) \<Longrightarrow> c \<notin> set ''xXbB''"
        by (auto simp: isOctalDigits_def less_eq_char_def)
      then show ?thesis using \<open>t = z # u\<close> Cons
        by (cases "z = CHR ''0''"; cases "isOctalDigits (c # ds)"; cases "c \<in> set ''xX''"; cases "c \<in> set ''bB''")
          (simp_all add: is_hex_or_bin_def literal_radix_def)
    qed (simp add: is_hex_or_bin_def literal_radix_def)
  qed (simp add: is_hex_or_bin_def literal_radix_def)
  then show ?thesis by (simp add: is_floating_def)
qed

lemma to_int32_of_nat: "to_int32 (of_nat n) = of_nat n"
  using to_int32_of_int [of "int n"] by simp

lemma foldLiteral_java: "foldLiteral text = map_option encode (java_literal text)"
proof -
  define l where "l \<longleftrightarrow> text \<noteq> [] \<and> last text \<in> set ''lL''"
  have l: "(text \<noteq> [] \<and> (last text = CHR ''l'' \<or> last text = CHR ''L'')) = l" by (simp add: l_def)
  show ?thesis
    unfolding foldLiteral_def java_literal_def Let_def is_floating_fold [symmetric] literal_radix_parse l
      l_def [symmetric]
    by (cases "is_floating (without_underscores text)"; cases l)
      (simp_all add: to_int32_of_nat option.map_comp comp_def split: option.split)
qed


end
