(* ===== verification/ClassPool.thy ===== *)
theory ClassPool
  imports GoUtf8 "HOL-Library.Monad_Syntax"
begin

text \<open>
  The class file writer's buffer and constant pool: \<open>togo/internal/compiler/bytebuffer.go\<close>,
  \<open>constantpool.go\<close> and \<open>assembleClassFile\<close> of \<open>bytecode.go\<close>. A buffer is the string of its
  bytes, a buffer method the bytes it appends. An operation of the pool gives the index and the pool
  after it; \<open>None\<close> is the panic of a full pool. A float or a double is named by its IEEE bits.
\<close>

section \<open>The byte buffer\<close>

definition u1 :: "int \<Rightarrow> string" where
  "u1 v = [char_of (v mod 256)]"

definition u2 :: "int \<Rightarrow> string" where
  "u2 v = [char_of ((v div 256) mod 256), char_of (v mod 256)]"

definition u4 :: "int \<Rightarrow> string" where
  "u4 v = [char_of ((v div 2 ^ 24) mod 256), char_of ((v div 2 ^ 16) mod 256),
           char_of ((v div 2 ^ 8) mod 256), char_of (v mod 256)]"

text \<open>\<open>utf16.Encode\<close>.\<close>

definition utf16_encode1 :: "int \<Rightarrow> int list" where
  "utf16_encode1 r =
     (if (0 \<le> r \<and> r < 0xD800) \<or> (0xE000 \<le> r \<and> r < 0x10000) then [r]
      else if 0x10000 \<le> r \<and> r \<le> 0x10FFFF
      then [0xD800 + (r - 0x10000) div 1024 mod 1024, 0xDC00 + (r - 0x10000) mod 1024]
      else [rune_error])"

definition utf16_encode :: "int list \<Rightarrow> int list" where
  "utf16_encode rs = concat (map utf16_encode1 rs)"

text \<open>Modified UTF-8: the bytes of a code unit; the masks are remainders of non-negative numbers.\<close>

definition mutf8_unit :: "int \<Rightarrow> string" where
  "mutf8_unit c =
     (if 1 \<le> c \<and> c \<le> 0x7F then [char_of c]
      else if c \<le> 0x7FF then [char_of (0xC0 + c div 64), char_of (0x80 + c mod 64)]
      else [char_of (0xE0 + c div 4096), char_of (0x80 + (c div 64) mod 64), char_of (0x80 + c mod 64)])"

definition utf8 :: "string \<Rightarrow> string" where
  "utf8 s = concat (map mutf8_unit (utf16_encode (runes s)))"

definition utf8Length :: "string \<Rightarrow> nat" where
  "utf8Length s =
     sum_list (map (\<lambda>c. if 1 \<le> c \<and> c \<le> 0x7F then 1 else if c \<le> 0x7FF then 2 else 3)
       (utf16_encode (runes s)))"

text \<open>Back-patching a reserved field; a position outside the buffer panics.\<close>

definition patchU2 :: "string \<Rightarrow> nat \<Rightarrow> int \<Rightarrow> string option" where
  "patchU2 b pos v = (if pos + 1 < length b then Some (take pos b @ u2 v @ drop (pos + 2) b) else None)"

definition patchU4 :: "string \<Rightarrow> nat \<Rightarrow> int \<Rightarrow> string option" where
  "patchU4 b pos v = (if pos + 3 < length b then Some (take pos b @ u4 v @ drop (pos + 4) b) else None)"

section \<open>The constant pool\<close>

type_synonym cpIndex = nat

record bootstrapEntry =
  handle :: cpIndex
  bsm_args :: "cpIndex list"

record constantPool =
  entries :: string
  cp_count :: nat
  cache :: "string \<Rightarrow> cpIndex option"
  bootstraps :: "bootstrapEntry list"
  referencedClasses :: "string list"

definition newConstantPool :: constantPool where
  "newConstantPool = \<lparr>entries = [], cp_count = 0, cache = Map.empty, bootstraps = [], referencedClasses = []\<rparr>"

type_synonym 'a pool_op = "constantPool \<Rightarrow> ('a \<times> constantPool) option"

definition constantUtf8 :: int where "constantUtf8 = 1"
definition constantInteger :: int where "constantInteger = 3"
definition constantFloat :: int where "constantFloat = 4"
definition constantLong :: int where "constantLong = 5"
definition constantDouble :: int where "constantDouble = 6"
definition constantClass :: int where "constantClass = 7"
definition constantString :: int where "constantString = 8"
definition constantFieldref :: int where "constantFieldref = 9"
definition constantMethodref :: int where "constantMethodref = 10"
definition constantInterfaceMethodref :: int where "constantInterfaceMethodref = 11"
definition constantNameAndType :: int where "constantNameAndType = 12"
definition constantMethodHandle :: int where "constantMethodHandle = 15"
definition constantMethodType :: int where "constantMethodType = 16"
definition constantInvokeDynamic :: int where "constantInvokeDynamic = 18"

definition refInvokeVirtual :: nat where "refInvokeVirtual = 5"
definition refInvokeStatic :: nat where "refInvokeStatic = 6"

text \<open>The entry is written and counted before the pool's size is checked; the panic drops it all.\<close>

definition intern :: "string \<Rightarrow> string \<Rightarrow> bool \<Rightarrow> cpIndex pool_op" where
  "intern key written wide cp =
     (case cache cp key of
        Some existing \<Rightarrow> Some (existing, cp)
      | None \<Rightarrow>
          (let index = cp_count cp + 1; total = (if wide then index + 1 else index)
           in if int total > 0xFFFE then None
              else Some (index, cp\<lparr>entries := entries cp @ written, cp_count := total,
                                   cache := (cache cp)(key \<mapsto> index)\<rparr>)))"

definition cp_utf8 :: "string \<Rightarrow> cpIndex pool_op" where
  "cp_utf8 val = intern (''u:'' @ val) (u1 constantUtf8 @ u2 (int (utf8Length val)) @ utf8 val) False"

definition classInfo :: "string \<Rightarrow> cpIndex pool_op" where
  "classInfo name cp =
     (let cp = (if cache cp (''c:'' @ name) = None
                then cp\<lparr>referencedClasses := referencedClasses cp @ [name]\<rparr> else cp)
      in do {
        (nameIndex, cp) \<leftarrow> cp_utf8 name cp;
        intern (''c:'' @ name) (u1 constantClass @ u2 (int nameIndex)) False cp
      })"

definition nameAndType :: "string \<Rightarrow> string \<Rightarrow> cpIndex pool_op" where
  "nameAndType name desc cp = do {
     (nameIndex, cp) \<leftarrow> cp_utf8 name cp;
     (descIndex, cp) \<leftarrow> cp_utf8 desc cp;
     intern (''nt:'' @ name @ '':'' @ desc)
       (u1 constantNameAndType @ u2 (int nameIndex) @ u2 (int descIndex)) False cp
   }"

text \<open>\<open>methodref\<close>, \<open>interfaceMethodref\<close> and \<open>fieldref\<close> differ in the key's prefix and the tag.\<close>

definition member_ref :: "string \<Rightarrow> int \<Rightarrow> string \<Rightarrow> string \<Rightarrow> string \<Rightarrow> cpIndex pool_op" where
  "member_ref pre tag internalClass name desc cp = do {
     (classIndex, cp) \<leftarrow> classInfo internalClass cp;
     (ntIndex, cp) \<leftarrow> nameAndType name desc cp;
     intern (pre @ internalClass @ '':'' @ name @ '':'' @ desc)
       (u1 tag @ u2 (int classIndex) @ u2 (int ntIndex)) False cp
   }"

definition methodref :: "string \<Rightarrow> string \<Rightarrow> string \<Rightarrow> cpIndex pool_op" where
  "methodref = member_ref ''m:'' constantMethodref"

definition interfaceMethodref :: "string \<Rightarrow> string \<Rightarrow> string \<Rightarrow> cpIndex pool_op" where
  "interfaceMethodref = member_ref ''im:'' constantInterfaceMethodref"

definition fieldref :: "string \<Rightarrow> string \<Rightarrow> string \<Rightarrow> cpIndex pool_op" where
  "fieldref = member_ref ''f:'' constantFieldref"

definition stringConst :: "string \<Rightarrow> cpIndex pool_op" where
  "stringConst val cp = do {
     (utf8Index, cp) \<leftarrow> cp_utf8 val cp;
     intern (''s:'' @ val) (u1 constantString @ u2 (int utf8Index)) False cp
   }"

definition cp_integer :: "int \<Rightarrow> cpIndex pool_op" where
  "cp_integer val = intern (''i:'' @ show_int val) (u1 constantInteger @ u4 val) False"

definition cp_long :: "int \<Rightarrow> cpIndex pool_op" where
  "cp_long val = intern (''l:'' @ show_int val)
     (u1 constantLong @ u4 ((val mod 2 ^ 64) div 2 ^ 32) @ u4 (val mod 2 ^ 32)) True"

definition cp_float :: "nat \<Rightarrow> cpIndex pool_op" where
  "cp_float bits = intern (''f:'' @ show_nat bits) (u1 constantFloat @ u4 (int bits)) False"

definition cp_double :: "nat \<Rightarrow> cpIndex pool_op" where
  "cp_double bits =
     (let hi = bits div 2 ^ 32; lo = bits mod 2 ^ 32
      in intern (''d:'' @ show_nat hi @ '':'' @ show_nat lo) (u1 constantDouble @ u4 (int hi) @ u4 (int lo)) True)"

definition methodHandle :: "nat \<Rightarrow> cpIndex \<Rightarrow> cpIndex pool_op" where
  "methodHandle referenceKind referenceIndex =
     intern (''mh:'' @ show_nat referenceKind @ '':'' @ show_nat referenceIndex)
       (u1 constantMethodHandle @ u1 (int referenceKind) @ u2 (int referenceIndex)) False"

definition methodType :: "string \<Rightarrow> cpIndex pool_op" where
  "methodType desc cp = do {
     (descIndex, cp) \<leftarrow> cp_utf8 desc cp;
     intern (''mt:'' @ desc) (u1 constantMethodType @ u2 (int descIndex)) False cp
   }"

section \<open>Dynamic call sites\<close>

text \<open>
  Registering a bootstrap method and interning the call site that names it: the tail the three
  \<open>invokeDynamic\<close> methods share. \<open>keyTail\<close> is what their keys put after the bootstrap's index.
\<close>

definition invokeDynamic :: "bootstrapEntry \<Rightarrow> string \<Rightarrow> string \<Rightarrow> string \<Rightarrow> cpIndex pool_op" where
  "invokeDynamic bsm name desc keyTail cp =
     (let bootstrapIndex = length (bootstraps cp)
      in do {
        (nt, cp) \<leftarrow> nameAndType name desc (cp\<lparr>bootstraps := bootstraps cp @ [bsm]\<rparr>);
        intern (''indy:'' @ show_nat bootstrapIndex @ '':'' @ keyTail)
          (u1 constantInvokeDynamic @ u2 (int bootstrapIndex) @ u2 (int nt)) False cp
      })"

definition makeConcat :: string where "makeConcat = ''makeConcatWithConstants''"
definition stringConcatFactory :: string where "stringConcatFactory = ''java/lang/invoke/StringConcatFactory''"
definition lambdaMetafactory :: string where "lambdaMetafactory = ''java/lang/invoke/LambdaMetafactory''"

definition makeConcatBsmDescriptor :: string where
  "makeConcatBsmDescriptor = ''(Ljava/lang/invoke/MethodHandles$Lookup;Ljava/lang/String;Ljava/lang/invoke/MethodType;Ljava/lang/String;[Ljava/lang/Object;)Ljava/lang/invoke/CallSite;''"

definition lambdaMetafactoryBsmDescriptor :: string where
  "lambdaMetafactoryBsmDescriptor = ''(Ljava/lang/invoke/MethodHandles$Lookup;Ljava/lang/String;Ljava/lang/invoke/MethodType;Ljava/lang/invoke/MethodType;Ljava/lang/invoke/MethodHandle;Ljava/lang/invoke/MethodType;)Ljava/lang/invoke/CallSite;''"

definition objectMethodsBsmDescriptor :: string where
  "objectMethodsBsmDescriptor = ''(Ljava/lang/invoke/MethodHandles$Lookup;Ljava/lang/String;Ljava/lang/invoke/TypeDescriptor;Ljava/lang/Class;Ljava/lang/String;[Ljava/lang/invoke/MethodHandle;)Ljava/lang/Object;''"

definition invokeDynamicConcat :: "string \<Rightarrow> string \<Rightarrow> cpIndex pool_op" where
  "invokeDynamicConcat recipe dynamicArgsDescriptor cp = do {
     (m, cp) \<leftarrow> methodref stringConcatFactory makeConcat makeConcatBsmDescriptor cp;
     (h, cp) \<leftarrow> methodHandle refInvokeStatic m cp;
     (recipeIndex, cp) \<leftarrow> stringConst recipe cp;
     invokeDynamic \<lparr>handle = h, bsm_args = [recipeIndex]\<rparr> makeConcat
       (''('' @ dynamicArgsDescriptor @ '')Ljava/lang/String;'') dynamicArgsDescriptor cp
   }"

record recordGetter =
  getter_name :: string
  getter_desc :: string

fun getter_handles :: "string \<Rightarrow> recordGetter list \<Rightarrow> cpIndex list pool_op" where
  "getter_handles owner [] cp = Some ([], cp)"
| "getter_handles owner (g # gs) cp = do {
     (m, cp) \<leftarrow> methodref owner (getter_name g) (getter_desc g) cp;
     (h, cp) \<leftarrow> methodHandle refInvokeVirtual m cp;
     (hs, cp) \<leftarrow> getter_handles owner gs cp;
     Some (h # hs, cp)
   }"

definition invokeDynamicObjectMethod ::
  "string \<Rightarrow> string \<Rightarrow> string \<Rightarrow> string \<Rightarrow> recordGetter list \<Rightarrow> cpIndex pool_op" where
  "invokeDynamicObjectMethod methodName desc recordInternal names getters cp = do {
     (m, cp) \<leftarrow> methodref ''java/lang/runtime/ObjectMethods'' ''bootstrap'' objectMethodsBsmDescriptor cp;
     (h, cp) \<leftarrow> methodHandle refInvokeStatic m cp;
     (c, cp) \<leftarrow> classInfo recordInternal cp;
     (s, cp) \<leftarrow> stringConst names cp;
     (hs, cp) \<leftarrow> getter_handles recordInternal getters cp;
     invokeDynamic \<lparr>handle = h, bsm_args = c # s # hs\<rparr> methodName desc (methodName @ '':'' @ desc) cp
   }"

definition impl_ref :: "bool \<Rightarrow> string \<Rightarrow> string \<Rightarrow> string \<Rightarrow> cpIndex pool_op" where
  "impl_ref implIsInterface implOwner implName implDescriptor =
     (if implName \<noteq> ''<init>'' \<and> implIsInterface then interfaceMethodref implOwner implName implDescriptor
      else methodref implOwner implName implDescriptor)"

definition invokeDynamicLambda ::
  "string \<Rightarrow> string \<Rightarrow> string \<Rightarrow> nat \<Rightarrow> string \<Rightarrow> string \<Rightarrow> string \<Rightarrow> string \<Rightarrow> bool \<Rightarrow> cpIndex pool_op" where
  "invokeDynamicLambda samName indyDescriptor samErased implRefKind implOwner implName implDescriptor
     instantiated implIsInterface cp = do {
     (m, cp) \<leftarrow> methodref lambdaMetafactory ''metafactory'' lambdaMetafactoryBsmDescriptor cp;
     (h, cp) \<leftarrow> methodHandle refInvokeStatic m cp;
     (implRef, cp) \<leftarrow> impl_ref implIsInterface implOwner implName implDescriptor cp;
     (implHandle, cp) \<leftarrow> methodHandle implRefKind implRef cp;
     (t1, cp) \<leftarrow> methodType samErased cp;
     (t2, cp) \<leftarrow> methodType instantiated cp;
     invokeDynamic \<lparr>handle = h, bsm_args = [t1, implHandle, t2]\<rparr> samName indyDescriptor
       (samName @ '':'' @ indyDescriptor) cp
   }"

definition bootstrapMethodsBody :: "constantPool \<Rightarrow> string" where
  "bootstrapMethodsBody cp =
     u2 (int (length (bootstraps cp)))
     @ concat (map (\<lambda>bm. u2 (int (handle bm)) @ u2 (int (length (bsm_args bm)))
         @ concat (map (\<lambda>a. u2 (int a)) (bsm_args bm))) (bootstraps cp))"

definition writeInto :: "constantPool \<Rightarrow> string" where
  "writeInto cp = u2 (int (cp_count cp) + 1) @ entries cp"

section \<open>The class file\<close>

definition classMagic :: int where "classMagic = 0xCAFEBABE"
definition minorVersion :: int where "minorVersion = 0"
definition majorVersion :: int where "majorVersion = 65"

definition assembleClassFile ::
  "constantPool \<Rightarrow> int \<Rightarrow> cpIndex \<Rightarrow> cpIndex \<Rightarrow> cpIndex list \<Rightarrow> string \<Rightarrow> nat \<Rightarrow> string \<Rightarrow> nat \<Rightarrow> string \<Rightarrow> nat \<Rightarrow> string" where
  "assembleClassFile cp accessFlags thisClassIndex superClassIndex interfaceIndices
     fieldBytes fieldCount methods methodCount attributes attributeCount =
     u4 classMagic @ u2 minorVersion @ u2 majorVersion @ writeInto cp @ u2 accessFlags
     @ u2 (int thisClassIndex) @ u2 (int superClassIndex) @ u2 (int (length interfaceIndices))
     @ concat (map (\<lambda>i. u2 (int i)) interfaceIndices)
     @ u2 (int fieldCount) @ fieldBytes @ u2 (int methodCount) @ methods
     @ u2 (int attributeCount) @ attributes"

end
