(* ===== verification/PoolCorrect.thy ===== *)
theory PoolCorrect
  imports ClassPool
begin

text \<open>
  What the constant pool promises. \<open>info\<close> is an entry of the pool, \<open>sym\<close> the constant an operation
  asks for; the pool's cache maps the string key of a constant to the index of its entry.
\<close>

section \<open>Entries and slots\<close>

datatype info =
    IUtf8 string
  | IInteger int
  | IFloat nat
  | ILong int
  | IDouble nat
  | IClass nat
  | IString nat
  | IRef int nat nat
  | INameAndType nat nat
  | IMethodHandle nat nat
  | IMethodType nat
  | IInvokeDynamic nat nat

fun info_bytes :: "info \<Rightarrow> string" where
  "info_bytes (IUtf8 v) = u1 constantUtf8 @ u2 (int (utf8Length v)) @ utf8 v"
| "info_bytes (IInteger v) = u1 constantInteger @ u4 v"
| "info_bytes (IFloat bits) = u1 constantFloat @ u4 (int bits)"
| "info_bytes (ILong v) = u1 constantLong @ u4 ((v mod 2 ^ 64) div 2 ^ 32) @ u4 (v mod 2 ^ 32)"
| "info_bytes (IDouble bits) = u1 constantDouble @ u4 (int (bits div 2 ^ 32)) @ u4 (int (bits mod 2 ^ 32))"
| "info_bytes (IClass n) = u1 constantClass @ u2 (int n)"
| "info_bytes (IString n) = u1 constantString @ u2 (int n)"
| "info_bytes (IRef tag c nt) = u1 tag @ u2 (int c) @ u2 (int nt)"
| "info_bytes (INameAndType n d) = u1 constantNameAndType @ u2 (int n) @ u2 (int d)"
| "info_bytes (IMethodHandle k r) = u1 constantMethodHandle @ u1 (int k) @ u2 (int r)"
| "info_bytes (IMethodType d) = u1 constantMethodType @ u2 (int d)"
| "info_bytes (IInvokeDynamic b nt) = u1 constantInvokeDynamic @ u2 (int b) @ u2 (int nt)"

fun info_wide :: "info \<Rightarrow> bool" where
  "info_wide (ILong _) = True"
| "info_wide (IDouble _) = True"
| "info_wide _ = False"

text \<open>A long or a double leaves the slot after it empty; slots are counted from 1.\<close>

fun slots :: "info list \<Rightarrow> info option list" where
  "slots [] = []"
| "slots (i # is) = (if info_wide i then [Some i, None] else [Some i]) @ slots is"

definition info_at :: "info list \<Rightarrow> nat \<Rightarrow> info option" where
  "info_at infos i = (if 1 \<le> i \<and> i \<le> length (slots infos) then slots infos ! (i - 1) else None)"

lemma slots_append [simp]: "slots (xs @ ys) = slots xs @ slots ys"
  by (induction xs) auto

lemma info_at_append: "info_at xs i = Some v \<Longrightarrow> info_at (xs @ ys) i = Some v"
  by (auto simp: info_at_def nth_append split: if_splits)

lemma info_at_new: "info_at (xs @ [v]) (length (slots xs) + 1) = Some v"
  by (auto simp: info_at_def nth_append)

lemma info_at_snoc: "info_at (xs @ [v]) i = Some w \<Longrightarrow> info_at xs i = Some w \<or> (i = length (slots xs) + 1 \<and> w = v)"
  by (cases "i - 1 - length (slots xs)") (auto simp: info_at_def nth_append nth_Cons' split: if_splits)

lemma info_at_bounds: "info_at xs i = Some v \<Longrightarrow> 1 \<le> i \<and> i \<le> length (slots xs)"
  by (simp add: info_at_def split: if_splits)

section \<open>Constants and their keys\<close>

datatype sym =
    SUtf8 string
  | SClass string
  | SNameAndType string string
  | SMethodref string string string
  | SInterfaceMethodref string string string
  | SFieldref string string string
  | SString string
  | SInteger int
  | SLong int
  | SFloat nat
  | SDouble nat
  | SMethodHandle nat nat
  | SMethodType string
  | SConcatSite nat string
  | SNamedSite nat string string

fun key_of :: "sym \<Rightarrow> string" where
  "key_of (SUtf8 v) = ''u:'' @ v"
| "key_of (SClass n) = ''c:'' @ n"
| "key_of (SNameAndType n d) = ''nt:'' @ n @ '':'' @ d"
| "key_of (SMethodref c n d) = ''m:'' @ c @ '':'' @ n @ '':'' @ d"
| "key_of (SInterfaceMethodref c n d) = ''im:'' @ c @ '':'' @ n @ '':'' @ d"
| "key_of (SFieldref c n d) = ''f:'' @ c @ '':'' @ n @ '':'' @ d"
| "key_of (SString v) = ''s:'' @ v"
| "key_of (SInteger v) = ''i:'' @ show_int v"
| "key_of (SLong v) = ''l:'' @ show_int v"
| "key_of (SFloat bits) = ''f:'' @ show_nat bits"
| "key_of (SDouble bits) = ''d:'' @ show_nat (bits div 2 ^ 32) @ '':'' @ show_nat (bits mod 2 ^ 32)"
| "key_of (SMethodHandle k r) = ''mh:'' @ show_nat k @ '':'' @ show_nat r"
| "key_of (SMethodType d) = ''mt:'' @ d"
| "key_of (SConcatSite b d) = ''indy:'' @ show_nat b @ '':'' @ d"
| "key_of (SNamedSite b n d) = ''indy:'' @ show_nat b @ '':'' @ n @ '':'' @ d"

abbreviation colon_free :: "string \<Rightarrow> bool" where
  "colon_free s \<equiv> CHR '':'' \<notin> set s"

text \<open>The parts of a key before its last one hold no colon: Java names and descriptors have none.\<close>

fun wf_sym :: "sym \<Rightarrow> bool" where
  "wf_sym (SNameAndType n d) = colon_free n"
| "wf_sym (SMethodref c n d) = (colon_free c \<and> colon_free n)"
| "wf_sym (SInterfaceMethodref c n d) = (colon_free c \<and> colon_free n)"
| "wf_sym (SFieldref c n d) = (colon_free c \<and> colon_free n)"
| "wf_sym (SConcatSite b d) = colon_free d"
| "wf_sym (SNamedSite b n d) = colon_free n"
| "wf_sym _ = True"

lemma colon_cancel:
  "colon_free a \<Longrightarrow> colon_free b \<Longrightarrow> a @ CHR '':'' # x = b @ CHR '':'' # y \<longleftrightarrow> a = b \<and> x = y"
proof (induction a arbitrary: b)
  case Nil
  then show ?case by (cases b) auto
next
  case (Cons c a)
  then show ?case by (cases b) auto
qed

lemma colon_free_show [simp]: "colon_free (show_nat n)"
proof
  assume "CHR '':'' \<in> set (show_nat n)"
  then have "is_digit CHR '':''" by (rule show_nat_digits)
  then show False by (simp add: is_digit_def less_eq_char_def)
qed

lemma show_nat_inject [simp]: "show_nat a = show_nat b \<longleftrightarrow> a = b"
  by (metis parse_show_nat)

lemma show_nat_no_sign: "show_nat n \<noteq> CHR ''-'' # s"
proof
  assume "show_nat n = CHR ''-'' # s"
  then have "is_digit CHR ''-''" using show_nat_digits [of "CHR ''-''" n] by simp
  then show False by (simp add: is_digit_def less_eq_char_def)
qed

lemma show_int_inject [simp]: "show_int a = show_int b \<longleftrightarrow> a = b"
  using show_nat_no_sign [of "nat a"] show_nat_no_sign [of "nat b"] show_nat_no_sign [of "nat a", THEN not_sym]
  by (auto simp: show_int_def split: if_splits dest: sym)

lemma colon_not_in_show: "show_nat n \<noteq> a @ CHR '':'' # b"
  using colon_free_show [of n] by (metis in_set_conv_decomp)

lemma div_mod_inject: "a div n = b div n \<Longrightarrow> a mod n = b mod n \<Longrightarrow> a = (b :: nat)"
  by (metis div_mult_mod_eq)

lemma key_of_inject:
  assumes "wf_sym s" and "wf_sym t" and "key_of s = key_of t"
  shows "s = t"
proof -
  note [simp] = colon_cancel colon_not_in_show colon_not_in_show [THEN not_sym]
  from assms show ?thesis
    by (cases s; cases t; simp) (auto dest: div_mod_inject)
qed

text \<open>The entry of a constant, given where the cache has the constants it refers to.\<close>

fun info_of :: "(string \<Rightarrow> nat option) \<Rightarrow> sym \<Rightarrow> info option" where
  "info_of c (SUtf8 v) = Some (IUtf8 v)"
| "info_of c (SClass n) = map_option IClass (c (key_of (SUtf8 n)))"
| "info_of c (SNameAndType n d) =
     do { i \<leftarrow> c (key_of (SUtf8 n)); j \<leftarrow> c (key_of (SUtf8 d)); Some (INameAndType i j) }"
| "info_of c (SMethodref cl n d) =
     do { i \<leftarrow> c (key_of (SClass cl)); j \<leftarrow> c (key_of (SNameAndType n d)); Some (IRef constantMethodref i j) }"
| "info_of c (SInterfaceMethodref cl n d) =
     do { i \<leftarrow> c (key_of (SClass cl)); j \<leftarrow> c (key_of (SNameAndType n d)); Some (IRef constantInterfaceMethodref i j) }"
| "info_of c (SFieldref cl n d) =
     do { i \<leftarrow> c (key_of (SClass cl)); j \<leftarrow> c (key_of (SNameAndType n d)); Some (IRef constantFieldref i j) }"
| "info_of c (SString v) = map_option IString (c (key_of (SUtf8 v)))"
| "info_of c (SInteger v) = Some (IInteger v)"
| "info_of c (SLong v) = Some (ILong v)"
| "info_of c (SFloat bits) = Some (IFloat bits)"
| "info_of c (SDouble bits) = Some (IDouble bits)"
| "info_of c (SMethodHandle k r) = Some (IMethodHandle k r)"
| "info_of c (SMethodType d) = map_option IMethodType (c (key_of (SUtf8 d)))"
| "info_of c (SConcatSite b d) =
     map_option (IInvokeDynamic b) (c (key_of (SNameAndType makeConcat (''('' @ d @ '')Ljava/lang/String;''))))"
| "info_of c (SNamedSite b n d) = map_option (IInvokeDynamic b) (c (key_of (SNameAndType n d)))"

lemma map_leD: "m \<subseteq>\<^sub>m m' \<Longrightarrow> m k = Some v \<Longrightarrow> m' k = Some v"
  by (metis map_le_def domI)

lemma info_of_mono: "c \<subseteq>\<^sub>m c' \<Longrightarrow> info_of c s = Some v \<Longrightarrow> info_of c' s = Some v"
proof -
  assume le: "c \<subseteq>\<^sub>m c'"
  have get: "c k = Some i \<Longrightarrow> c' k = Some i" for k i using map_leD [OF le] .
  assume "info_of c s = Some v"
  then show ?thesis by (cases s) (auto simp: bind_eq_Some_conv dest!: get simp del: key_of.simps)
qed

section \<open>The invariant\<close>

definition pool_inv :: "constantPool \<Rightarrow> info list \<Rightarrow> bool" where
  "pool_inv cp infos \<longleftrightarrow>
     entries cp = concat (map info_bytes infos)
     \<and> cp_count cp = length (slots infos) \<and> cp_count cp \<le> 0xFFFE
     \<and> (\<forall>key i. cache cp key = Some i \<longrightarrow>
          (\<exists>s v. wf_sym s \<and> key = key_of s \<and> info_of (cache cp) s = Some v \<and> info_at infos i = Some v))
     \<and> (\<forall>i v. info_at infos i = Some v \<longrightarrow> (\<exists>key. cache cp key = Some i))
     \<and> inj_on (cache cp) (dom (cache cp))"

definition pool_ok :: "constantPool \<Rightarrow> bool" where
  "pool_ok cp \<longleftrightarrow> (\<exists>infos. pool_inv cp infos)"

text \<open>A later pool: the cache and the bootstrap methods only grow.\<close>

definition pool_le :: "constantPool \<Rightarrow> constantPool \<Rightarrow> bool" where
  "pool_le cp cp' \<longleftrightarrow> cache cp \<subseteq>\<^sub>m cache cp' \<and> prefix (bootstraps cp) (bootstraps cp')"

lemma pool_le_refl [simp]: "pool_le cp cp"
  by (simp add: pool_le_def)

lemma pool_le_trans: "pool_le a b \<Longrightarrow> pool_le b c \<Longrightarrow> pool_le a c"
  by (auto simp: pool_le_def intro: map_le_trans)

lemma pool_le_cache: "pool_le cp cp' \<Longrightarrow> cache cp k = Some i \<Longrightarrow> cache cp' k = Some i"
  by (auto simp: pool_le_def dest: map_leD)

lemma newConstantPool_ok: "pool_ok newConstantPool"
  unfolding pool_ok_def
  by (rule exI [of _ "[]"]) (simp add: pool_inv_def newConstantPool_def info_at_def)

lemma pool_inv_entry:
  assumes "pool_inv cp infos" and "cache cp (key_of s) = Some i" and "wf_sym s"
  shows "info_of (cache cp) s = info_at infos i \<and> info_at infos i \<noteq> None"
proof -
  from assms obtain t v where "wf_sym t" "key_of s = key_of t" "info_of (cache cp) t = Some v" "info_at infos i = Some v"
    unfolding pool_inv_def by meson
  with key_of_inject [OF assms(3), of t] show ?thesis by simp
qed

lemma pool_inv_below: "pool_inv cp infos \<Longrightarrow> cache cp key = Some i \<Longrightarrow> i \<le> cp_count cp"
  unfolding pool_inv_def by (metis info_at_bounds)

text \<open>The one step of every operation.\<close>

lemma intern_ok:
  assumes ok: "pool_ok cp" and s: "wf_sym s" "info_of (cache cp) s = Some v"
    and op: "intern (key_of s) (info_bytes v) (info_wide v) cp = Some (i, cp')"
  shows "pool_ok cp' \<and> pool_le cp cp' \<and> cache cp' (key_of s) = Some i"
proof (cases "cache cp (key_of s)")
  case (Some j)
  with op ok show ?thesis by (simp add: intern_def)
next
  case None
  from ok obtain infos where inv: "pool_inv cp infos" by (auto simp: pool_ok_def)
  have i: "i = length (slots infos) + 1" and bound: "length (slots (infos @ [v])) \<le> 0xFFFE"
    and cp': "cp' = cp\<lparr>entries := entries cp @ info_bytes v, cp_count := length (slots (infos @ [v])),
                       cache := (cache cp)(key_of s \<mapsto> i)\<rparr>"
    using op None inv by (simp_all add: intern_def Let_def pool_inv_def split: if_splits)
  have le: "cache cp \<subseteq>\<^sub>m cache cp'" using None by (auto simp: cp' map_le_def)
  have "pool_inv cp' (infos @ [v])"
    unfolding pool_inv_def
  proof (intro conjI allI impI)
    show "entries cp' = concat (map info_bytes (infos @ [v]))" using inv by (simp add: cp' pool_inv_def)
    show "cp_count cp' = length (slots (infos @ [v]))" by (simp add: cp')
    show "cp_count cp' \<le> 0xFFFE" using bound by (simp add: cp')
  next
    fix key j assume key: "cache cp' key = Some j"
    show "\<exists>t w. wf_sym t \<and> key = key_of t \<and> info_of (cache cp') t = Some w \<and> info_at (infos @ [v]) j = Some w"
    proof (cases "key = key_of s")
      case True
      with key have "j = i" by (simp add: cp')
      with True s info_of_mono [OF le s(2)] i show ?thesis by (metis info_at_new)
    next
      case False
      with key have "cache cp key = Some j" by (simp add: cp')
      with inv obtain t w where "wf_sym t" "key = key_of t" "info_of (cache cp) t = Some w" "info_at infos j = Some w"
        unfolding pool_inv_def by meson
      with info_of_mono [OF le] info_at_append show ?thesis by blast
    qed
  next
    fix j w assume "info_at (infos @ [v]) j = Some w"
    then consider "info_at infos j = Some w" | "j = i" using info_at_snoc i by blast
    then show "\<exists>key. cache cp' key = Some j"
    proof cases
      case 1
      with inv obtain key where "cache cp key = Some j" unfolding pool_inv_def by blast
      with map_leD [OF le] show ?thesis by blast
    next
      case 2
      then show ?thesis by (auto simp: cp')
    qed
  next
    have "Some i \<notin> ran_opt" if "ran_opt = cache cp ` dom (cache cp)" for ran_opt
      using that pool_inv_below [OF inv] inv i by (fastforce simp: pool_inv_def)
    then show "inj_on (cache cp') (dom (cache cp'))"
      using inv None unfolding cp' pool_inv_def by (auto simp: inj_on_def domI dest: sym)
  qed
  with le show ?thesis by (auto simp: pool_ok_def pool_le_def cp')
qed

section \<open>The operations\<close>

text \<open>\<open>adds s f\<close>: what \<open>f\<close> owes its caller, that the index it returns is the one of \<open>s\<close>.\<close>

definition adds :: "sym \<Rightarrow> cpIndex pool_op \<Rightarrow> bool" where
  "adds s f \<longleftrightarrow> (\<forall>cp i cp'. pool_ok cp \<longrightarrow> f cp = Some (i, cp') \<longrightarrow>
     pool_ok cp' \<and> pool_le cp cp' \<and> cache cp' (key_of s) = Some i)"

lemma addsD:
  "adds s f \<Longrightarrow> f cp = Some (i, cp') \<Longrightarrow> pool_ok cp \<Longrightarrow> pool_ok cp' \<and> pool_le cp cp' \<and> cache cp' (key_of s) = Some i"
  unfolding adds_def by blast

text \<open>A constant without parts, with one part and with two parts.\<close>

lemma adds_leaf:
  assumes "wf_sym s" and "\<And>c. info_of c s = Some v" and "key = key_of s"
    and "bytes = info_bytes v" and "wide = info_wide v"
  shows "adds s (intern key bytes wide)"
  unfolding adds_def assms(3-5) by (intro allI impI) (rule intern_ok [OF _ assms(1,2)])

lemma adds_one:
  assumes "wf_sym s" and "adds a f" and key: "key = key_of s"
    and info: "\<And>c i. c (key_of a) = Some i \<Longrightarrow> info_of c s = Some (v i)"
    and bytes: "\<And>i. bytes i = info_bytes (v i)" and wide: "\<And>i. wide = info_wide (v i)"
  shows "adds s (\<lambda>cp. do { (i, cp) \<leftarrow> f cp; intern key (bytes i) wide cp })"
  unfolding adds_def key
proof (intro allI impI)
  fix cp j cp'
  assume ok: "pool_ok cp" and "do { (i, cp) \<leftarrow> f cp; intern (key_of s) (bytes i) wide cp } = Some (j, cp')"
  then obtain i cp1 where f: "f cp = Some (i, cp1)" and g: "intern (key_of s) (bytes i) wide cp1 = Some (j, cp')"
    by (auto simp: bind_eq_Some_conv)
  note one = addsD [OF assms(2) f ok]
  with g have "pool_ok cp' \<and> pool_le cp1 cp' \<and> cache cp' (key_of s) = Some j"
    unfolding bytes wide [of i] by (intro intern_ok [OF _ assms(1)]) (auto intro: info)
  with one show "pool_ok cp' \<and> pool_le cp cp' \<and> cache cp' (key_of s) = Some j"
    by (blast intro: pool_le_trans)
qed

lemma adds_two:
  assumes "wf_sym s" and "adds a f" and "adds b g" and key: "key = key_of s"
    and info: "\<And>c i j. c (key_of a) = Some i \<Longrightarrow> c (key_of b) = Some j \<Longrightarrow> info_of c s = Some (v i j)"
    and bytes: "\<And>i j. bytes i j = info_bytes (v i j)" and wide: "\<And>i j. wide = info_wide (v i j)"
  shows "adds s (\<lambda>cp. do { (i, cp) \<leftarrow> f cp; (j, cp) \<leftarrow> g cp; intern key (bytes i j) wide cp })"
  unfolding adds_def key
proof (intro allI impI)
  fix cp k cp'
  assume ok: "pool_ok cp"
    and "do { (i, cp) \<leftarrow> f cp; (j, cp) \<leftarrow> g cp; intern (key_of s) (bytes i j) wide cp } = Some (k, cp')"
  then obtain i cp1 j cp2 where f: "f cp = Some (i, cp1)" and g: "g cp1 = Some (j, cp2)"
    and h: "intern (key_of s) (bytes i j) wide cp2 = Some (k, cp')"
    by (auto simp: bind_eq_Some_conv)
  note one = addsD [OF assms(2) f ok]
  then have two: "pool_ok cp2 \<and> pool_le cp1 cp2 \<and> cache cp2 (key_of b) = Some j"
    by (intro addsD [OF assms(3) g]) simp
  with one have "cache cp2 (key_of a) = Some i" by (blast intro: pool_le_cache)
  with h two have "pool_ok cp' \<and> pool_le cp2 cp' \<and> cache cp' (key_of s) = Some k"
    unfolding bytes wide [of i j] by (intro intern_ok [OF _ assms(1)]) (auto intro: info)
  with one two show "pool_ok cp' \<and> pool_le cp cp' \<and> cache cp' (key_of s) = Some k"
    by (blast intro: pool_le_trans)
qed

lemma utf8_adds: "adds (SUtf8 v) (cp_utf8 v)"
  unfolding cp_utf8_def by (rule adds_leaf [of _ "IUtf8 v"]) simp_all

lemma pool_ok_referenced [simp]: "pool_ok (cp\<lparr>referencedClasses := r\<rparr>) = pool_ok cp"
  by (simp add: pool_ok_def pool_inv_def)

lemma pool_ok_bootstraps [simp]: "pool_ok (cp\<lparr>bootstraps := r\<rparr>) = pool_ok cp"
  by (simp add: pool_ok_def pool_inv_def)

lemma adds_referenced:
  assumes "adds s f"
  shows "adds s (\<lambda>cp. f (if b cp then cp\<lparr>referencedClasses := r cp\<rparr> else cp))"
  unfolding adds_def
proof (intro allI impI)
  fix cp i cp'
  let ?cp = "if b cp then cp\<lparr>referencedClasses := r cp\<rparr> else cp"
  assume "pool_ok cp" and "f ?cp = Some (i, cp')"
  then have "pool_ok cp' \<and> pool_le ?cp cp' \<and> cache cp' (key_of s) = Some i"
    by (intro addsD [OF assms]) simp_all
  then show "pool_ok cp' \<and> pool_le cp cp' \<and> cache cp' (key_of s) = Some i"
    by (simp add: pool_le_def split: if_splits)
qed

lemma classInfo_adds: "adds (SClass n) (classInfo n)"
  unfolding classInfo_def Let_def
  by (rule adds_referenced, rule adds_one [OF _ utf8_adds [of n], where v = IClass]) simp_all

lemma nameAndType_adds: "colon_free n \<Longrightarrow> adds (SNameAndType n d) (nameAndType n d)"
  unfolding nameAndType_def
  by (rule adds_two [OF _ utf8_adds [of n] utf8_adds [of d], where v = INameAndType]) simp_all

lemma member_ref_adds:
  assumes "colon_free n" and "wf_sym s" and "key_of s = pre @ c @ '':'' @ n @ '':'' @ d"
    and "\<And>m i j. m (key_of (SClass c)) = Some i \<Longrightarrow> m (key_of (SNameAndType n d)) = Some j \<Longrightarrow> info_of m s = Some (IRef tag i j)"
  shows "adds s (member_ref pre tag c n d)"
  unfolding member_ref_def
  by (rule adds_two [OF assms(2) classInfo_adds [of c] nameAndType_adds [OF assms(1), of d], where v = "IRef tag"])
    (simp_all add: assms(3,4) del: key_of.simps)

lemma methodref_adds: "colon_free c \<Longrightarrow> colon_free n \<Longrightarrow> adds (SMethodref c n d) (methodref c n d)"
  unfolding methodref_def by (rule member_ref_adds) simp_all

lemma interfaceMethodref_adds:
  "colon_free c \<Longrightarrow> colon_free n \<Longrightarrow> adds (SInterfaceMethodref c n d) (interfaceMethodref c n d)"
  unfolding interfaceMethodref_def by (rule member_ref_adds) simp_all

lemma fieldref_adds: "colon_free c \<Longrightarrow> colon_free n \<Longrightarrow> adds (SFieldref c n d) (fieldref c n d)"
  unfolding fieldref_def by (rule member_ref_adds) simp_all

lemma stringConst_adds: "adds (SString v) (stringConst v)"
  unfolding stringConst_def by (rule adds_one [OF _ utf8_adds [of v], where v = IString]) simp_all

lemma integer_adds: "adds (SInteger v) (cp_integer v)"
  unfolding cp_integer_def by (rule adds_leaf [of _ "IInteger v"]) simp_all

lemma long_adds: "adds (SLong v) (cp_long v)"
  unfolding cp_long_def by (rule adds_leaf [of _ "ILong v"]) simp_all

lemma float_adds: "adds (SFloat v) (cp_float v)"
  unfolding cp_float_def by (rule adds_leaf [of _ "IFloat v"]) simp_all

lemma double_adds: "adds (SDouble v) (cp_double v)"
  unfolding cp_double_def Let_def by (rule adds_leaf [of _ "IDouble v"]) simp_all

lemma methodHandle_adds: "adds (SMethodHandle k r) (methodHandle k r)"
  unfolding methodHandle_def by (rule adds_leaf [of _ "IMethodHandle k r"]) simp_all

lemma methodType_adds: "adds (SMethodType d) (methodType d)"
  unfolding methodType_def by (rule adds_one [OF _ utf8_adds [of d], where v = IMethodType]) simp_all

end
