(* ===== verification/PoolSites.thy ===== *)
theory PoolSites
  imports PoolCorrect
begin

text \<open>
  Reading the pool's entries as constants, the call sites with their bootstrap methods, and the
  properties of a whole run of pool operations.
\<close>

section \<open>The constant an index denotes\<close>

definition is_utf8 :: "info list \<Rightarrow> string \<Rightarrow> nat \<Rightarrow> bool" where
  "is_utf8 infos v i \<longleftrightarrow> info_at infos i = Some (IUtf8 v)"

definition is_class :: "info list \<Rightarrow> string \<Rightarrow> nat \<Rightarrow> bool" where
  "is_class infos n i \<longleftrightarrow> (case info_at infos i of Some (IClass j) \<Rightarrow> is_utf8 infos n j | _ \<Rightarrow> False)"

definition is_nameAndType :: "info list \<Rightarrow> string \<Rightarrow> string \<Rightarrow> nat \<Rightarrow> bool" where
  "is_nameAndType infos n d i \<longleftrightarrow>
     (case info_at infos i of Some (INameAndType j k) \<Rightarrow> is_utf8 infos n j \<and> is_utf8 infos d k | _ \<Rightarrow> False)"

definition is_ref :: "info list \<Rightarrow> int \<Rightarrow> string \<Rightarrow> string \<Rightarrow> string \<Rightarrow> nat \<Rightarrow> bool" where
  "is_ref infos tag c n d i \<longleftrightarrow>
     (case info_at infos i of
        Some (IRef t j k) \<Rightarrow> t = tag \<and> is_class infos c j \<and> is_nameAndType infos n d k | _ \<Rightarrow> False)"

fun denotes :: "info list \<Rightarrow> nat \<Rightarrow> sym \<Rightarrow> bool" where
  "denotes infos i (SUtf8 v) = is_utf8 infos v i"
| "denotes infos i (SClass n) = is_class infos n i"
| "denotes infos i (SNameAndType n d) = is_nameAndType infos n d i"
| "denotes infos i (SMethodref c n d) = is_ref infos constantMethodref c n d i"
| "denotes infos i (SInterfaceMethodref c n d) = is_ref infos constantInterfaceMethodref c n d i"
| "denotes infos i (SFieldref c n d) = is_ref infos constantFieldref c n d i"
| "denotes infos i (SString v) = (case info_at infos i of Some (IString j) \<Rightarrow> is_utf8 infos v j | _ \<Rightarrow> False)"
| "denotes infos i (SMethodType v) = (case info_at infos i of Some (IMethodType j) \<Rightarrow> is_utf8 infos v j | _ \<Rightarrow> False)"
| "denotes infos i (SInteger v) = (info_at infos i = Some (IInteger v))"
| "denotes infos i (SLong v) = (info_at infos i = Some (ILong v))"
| "denotes infos i (SFloat v) = (info_at infos i = Some (IFloat v))"
| "denotes infos i (SDouble v) = (info_at infos i = Some (IDouble v))"
| "denotes infos i (SMethodHandle k r) = (info_at infos i = Some (IMethodHandle k r))"
| "denotes infos i (SConcatSite b d) =
     (case info_at infos i of
        Some (IInvokeDynamic b' j) \<Rightarrow> b' = b \<and> is_nameAndType infos makeConcat (''('' @ d @ '')Ljava/lang/String;'') j
      | _ \<Rightarrow> False)"
| "denotes infos i (SNamedSite b n d) =
     (case info_at infos i of Some (IInvokeDynamic b' j) \<Rightarrow> b' = b \<and> is_nameAndType infos n d j | _ \<Rightarrow> False)"

lemma pool_inv_parts:
  assumes inv: "pool_inv cp infos"
  shows "cache cp (key_of (SUtf8 v)) = Some i \<Longrightarrow> is_utf8 infos v i"
    and "cache cp (key_of (SClass v)) = Some i \<Longrightarrow> is_class infos v i"
    and "cache cp (key_of (SNameAndType n d)) = Some i \<Longrightarrow> colon_free n \<Longrightarrow> is_nameAndType infos n d i"
proof -
  show utf8: "is_utf8 infos v i" if "cache cp (key_of (SUtf8 v)) = Some i" for v i
    using pool_inv_entry [OF inv that] by (simp add: is_utf8_def)
  show "is_class infos v i" if "cache cp (key_of (SClass v)) = Some i"
    using pool_inv_entry [OF inv that] utf8 [of v] by (auto simp: is_class_def)
  show "is_nameAndType infos n d i" if "cache cp (key_of (SNameAndType n d)) = Some i" "colon_free n"
    using pool_inv_entry [OF inv that(1)] that(2) utf8 [of n] utf8 [of d]
    by (auto simp: is_nameAndType_def bind_eq_Some_conv)
qed

lemma pool_inv_denotes:
  assumes inv: "pool_inv cp infos" and "cache cp (key_of s) = Some i" and "wf_sym s"
  shows "denotes infos i s"
proof -
  note entry = pool_inv_entry [OF assms]
  note parts = pool_inv_parts [OF inv]
  have concat: "colon_free makeConcat" by (simp add: makeConcat_def)
  have "\<exists>v. info_of (cache cp) s = Some v" using entry by simp
  then show ?thesis
    using entry assms(2,3)
    by (cases s)
      (auto simp: is_ref_def bind_eq_Some_conv split: option.splits intro!: concat parts simp del: key_of.simps)
qed

section \<open>Call sites and bootstrap methods\<close>

text \<open>A step of the pool that gives a value: what holds of the value in every later pool.\<close>

definition gives :: "'a pool_op \<Rightarrow> (constantPool \<Rightarrow> 'a \<Rightarrow> bool) \<Rightarrow> bool" where
  "gives f P \<longleftrightarrow> (\<forall>cp x cp' later. pool_ok cp \<longrightarrow> f cp = Some (x, cp') \<longrightarrow>
     pool_ok cp' \<and> pool_le cp cp' \<and> (pool_le cp' later \<longrightarrow> P later x))"

definition has :: "constantPool \<Rightarrow> sym \<Rightarrow> nat \<Rightarrow> bool" where
  "has cp s i \<longleftrightarrow> wf_sym s \<and> cache cp (key_of s) = Some i"

lemma gives_adds: "adds s f \<Longrightarrow> wf_sym s \<Longrightarrow> gives f (\<lambda>cp i. has cp s i)"
  unfolding adds_def gives_def has_def by (blast intro: pool_le_cache)

lemma gives_bind:
  assumes f: "gives f P" and g: "\<And>x. gives (g x) (Q x)"
  shows "gives (\<lambda>cp. do { (x, cp) \<leftarrow> f cp; g x cp }) (\<lambda>cp y. \<exists>x. P cp x \<and> Q x cp y)"
  unfolding gives_def
proof (intro allI impI)
  fix cp y cp' later
  assume ok: "pool_ok cp" and "do { (x, cp) \<leftarrow> f cp; g x cp } = Some (y, cp')"
  then obtain x cp1 where x: "f cp = Some (x, cp1)" and y: "g x cp1 = Some (y, cp')"
    by (auto simp: bind_eq_Some_conv)
  have one: "pool_ok cp1" "pool_le cp cp1" "\<And>l. pool_le cp1 l \<Longrightarrow> P l x"
    using f ok x unfolding gives_def by blast+
  have two: "pool_ok cp'" "pool_le cp1 cp'" "\<And>l. pool_le cp' l \<Longrightarrow> Q x l y"
    using g [of x] one(1) y unfolding gives_def by blast+
  show "pool_ok cp' \<and> pool_le cp cp' \<and> (pool_le cp' later \<longrightarrow> (\<exists>x. P later x \<and> Q x later y))"
    using one two by (blast intro: pool_le_trans)
qed

lemma gives_return: "gives (\<lambda>cp. Some (x, cp)) (\<lambda>_ y. y = x)"
  by (simp add: gives_def)

lemma gives_mono: "gives f P \<Longrightarrow> (\<And>cp x. P cp x \<Longrightarrow> Q cp x) \<Longrightarrow> gives f Q"
  unfolding gives_def by blast

text \<open>The call site of the bootstrap method that is registered with it.\<close>

definition site :: "(nat \<Rightarrow> sym) \<Rightarrow> bootstrapEntry \<Rightarrow> (sym \<Rightarrow> nat \<Rightarrow> bool) \<Rightarrow> bootstrapEntry list \<Rightarrow> nat \<Rightarrow> bool" where
  "site s bsm H bs i \<longleftrightarrow> (\<exists>b < length bs. bs ! b = bsm \<and> H (s b) i)"

lemma invokeDynamic_gives:
  assumes "colon_free name" and "\<And>b. wf_sym (s b)" and "\<And>b. key_of (s b) = ''indy:'' @ show_nat b @ '':'' @ keyTail"
    and "\<And>c b i. c (key_of (SNameAndType name desc)) = Some i \<Longrightarrow> info_of c (s b) = Some (IInvokeDynamic b i)"
  shows "gives (invokeDynamic bsm name desc keyTail) (\<lambda>cp. site s bsm (has cp) (bootstraps cp))"
  unfolding gives_def
proof (intro allI impI)
  fix cp :: constantPool and i cp' later
  let ?b = "length (bootstraps cp)" and ?cp = "cp\<lparr>bootstraps := bootstraps cp @ [bsm]\<rparr>"
  assume ok: "pool_ok cp" and op: "invokeDynamic bsm name desc keyTail cp = Some (i, cp')"
  have "adds (s ?b) (\<lambda>cp. do { (nt, cp) \<leftarrow> nameAndType name desc cp;
      intern (''indy:'' @ show_nat ?b @ '':'' @ keyTail) (u1 constantInvokeDynamic @ u2 (int ?b) @ u2 (int nt)) False cp })"
    by (rule adds_one [OF assms(2) nameAndType_adds [OF assms(1), of desc], where v = "IInvokeDynamic ?b"])
      (simp_all add: assms(3,4) del: key_of.simps)
  from addsD [OF this] op ok
  have res: "pool_ok cp'" "pool_le ?cp cp'" "cache cp' (key_of (s ?b)) = Some i"
    by (simp_all add: invokeDynamic_def Let_def)
  have "site s bsm (has later) (bootstraps later) i" if "pool_le cp' later"
  proof -
    have "prefix (bootstraps cp @ [bsm]) (bootstraps later)"
      using res(2) that by (auto simp: pool_le_def intro: prefix_order.trans)
    then have "?b < length (bootstraps later) \<and> bootstraps later ! ?b = bsm"
      by (auto simp: prefix_def nth_append)
    with res(3) that assms(2) show ?thesis by (auto simp: site_def has_def intro: pool_le_cache)
  qed
  with res show "pool_ok cp' \<and> pool_le cp cp' \<and> (pool_le cp' later \<longrightarrow> site s bsm (has later) (bootstraps later) i)"
    by (auto simp: pool_le_def prefix_def)
qed

text \<open>A method handle on a member reference; \<open>H s i\<close> says that the index \<open>i\<close> is one of \<open>s\<close>.\<close>

definition handle_on :: "nat \<Rightarrow> sym \<Rightarrow> (sym \<Rightarrow> nat \<Rightarrow> bool) \<Rightarrow> nat \<Rightarrow> bool" where
  "handle_on k s H h \<longleftrightarrow> (\<exists>m. H s m \<and> H (SMethodHandle k m) h)"

lemma handle_onI: "H s m \<Longrightarrow> H (SMethodHandle k m) h \<Longrightarrow> handle_on k s H h"
  by (auto simp: handle_on_def)

lemma methodref_gives: "colon_free c \<Longrightarrow> colon_free n \<Longrightarrow> gives (methodref c n d) (\<lambda>cp i. has cp (SMethodref c n d) i)"
  by (intro gives_adds methodref_adds) simp_all

lemma methodHandle_gives: "gives (methodHandle k r) (\<lambda>cp i. has cp (SMethodHandle k r) i)"
  by (intro gives_adds methodHandle_adds) simp

lemma constant_gives:
  "gives (classInfo n) (\<lambda>cp i. has cp (SClass n) i)"
  "gives (stringConst v) (\<lambda>cp i. has cp (SString v) i)"
  "gives (methodType d) (\<lambda>cp i. has cp (SMethodType d) i)"
  by (intro gives_adds classInfo_adds stringConst_adds methodType_adds; simp)+

lemma library_names [simp]:
  "colon_free stringConcatFactory" "colon_free makeConcat" "colon_free lambdaMetafactory"
  by (simp_all add: stringConcatFactory_def makeConcat_def lambdaMetafactory_def)

definition concat_site :: "string \<Rightarrow> string \<Rightarrow> (sym \<Rightarrow> nat \<Rightarrow> bool) \<Rightarrow> bootstrapEntry list \<Rightarrow> nat \<Rightarrow> bool" where
  "concat_site recipe dyn H bs i \<longleftrightarrow>
     (\<exists>h r. handle_on refInvokeStatic (SMethodref stringConcatFactory makeConcat makeConcatBsmDescriptor) H h
        \<and> H (SString recipe) r \<and> site (\<lambda>b. SConcatSite b dyn) \<lparr>handle = h, bsm_args = [r]\<rparr> H bs i)"

definition object_site :: "string \<Rightarrow> string \<Rightarrow> string \<Rightarrow> string \<Rightarrow> recordGetter list \<Rightarrow> (sym \<Rightarrow> nat \<Rightarrow> bool) \<Rightarrow> bootstrapEntry list \<Rightarrow> nat \<Rightarrow> bool" where
  "object_site methodName desc owner names getters H bs i \<longleftrightarrow>
     (\<exists>h c s hs. handle_on refInvokeStatic
          (SMethodref ''java/lang/runtime/ObjectMethods'' ''bootstrap'' objectMethodsBsmDescriptor) H h
        \<and> H (SClass owner) c \<and> H (SString names) s
        \<and> list_all2 (\<lambda>g. handle_on refInvokeVirtual (SMethodref owner (getter_name g) (getter_desc g)) H) getters hs
        \<and> site (\<lambda>b. SNamedSite b methodName desc) \<lparr>handle = h, bsm_args = c # s # hs\<rparr> H bs i)"

definition impl_sym :: "bool \<Rightarrow> string \<Rightarrow> string \<Rightarrow> string \<Rightarrow> sym" where
  "impl_sym isInterface owner name desc =
     (if name \<noteq> ''<init>'' \<and> isInterface then SInterfaceMethodref owner name desc else SMethodref owner name desc)"

definition lambda_site ::
  "string \<Rightarrow> string \<Rightarrow> string \<Rightarrow> nat \<Rightarrow> sym \<Rightarrow> string \<Rightarrow> (sym \<Rightarrow> nat \<Rightarrow> bool) \<Rightarrow> bootstrapEntry list \<Rightarrow> nat \<Rightarrow> bool" where
  "lambda_site samName indyDesc samErased kind impl inst H bs i \<longleftrightarrow>
     (\<exists>h k t1 t2. handle_on refInvokeStatic
          (SMethodref lambdaMetafactory ''metafactory'' lambdaMetafactoryBsmDescriptor) H h
        \<and> handle_on kind impl H k \<and> H (SMethodType samErased) t1 \<and> H (SMethodType inst) t2
        \<and> site (\<lambda>b. SNamedSite b samName indyDesc) \<lparr>handle = h, bsm_args = [t1, k, t2]\<rparr> H bs i)"

lemma concat_site_gives:
  "colon_free dyn \<Longrightarrow> gives (invokeDynamic bsm makeConcat (''('' @ dyn @ '')Ljava/lang/String;'') dyn) (\<lambda>cp. site (\<lambda>b. SConcatSite b dyn) bsm (has cp) (bootstraps cp))"
  by (rule invokeDynamic_gives) simp_all

lemma named_site_gives:
  "colon_free name \<Longrightarrow> gives (invokeDynamic bsm name desc (name @ '':'' @ desc)) (\<lambda>cp. site (\<lambda>b. SNamedSite b name desc) bsm (has cp) (bootstraps cp))"
  by (rule invokeDynamic_gives) simp_all

lemma invokeDynamicConcat_gives:
  assumes "colon_free dyn"
  shows "gives (invokeDynamicConcat recipe dyn) (\<lambda>cp. concat_site recipe dyn (has cp) (bootstraps cp))"
  unfolding invokeDynamicConcat_def
  by (rule gives_mono [OF gives_bind [OF methodref_gives gives_bind [OF methodHandle_gives
        gives_bind [OF constant_gives(2) concat_site_gives [OF assms]]]]])
    (auto simp: concat_site_def handle_on_def)

lemma impl_ref_gives:
  "colon_free owner \<Longrightarrow> colon_free name \<Longrightarrow> gives (impl_ref isInterface owner name desc) (\<lambda>cp i. has cp (impl_sym isInterface owner name desc) i)"
  unfolding impl_ref_def impl_sym_def by (auto intro!: gives_adds methodref_adds interfaceMethodref_adds)

lemma invokeDynamicLambda_gives:
  assumes "colon_free samName" and "colon_free owner" and "colon_free name"
  shows "gives (invokeDynamicLambda samName indyDesc samErased kind owner name desc inst isInterface)
    (\<lambda>cp. lambda_site samName indyDesc samErased kind (impl_sym isInterface owner name desc) inst (has cp) (bootstraps cp))"
  unfolding invokeDynamicLambda_def
  by (rule gives_mono [OF gives_bind [OF methodref_gives gives_bind [OF methodHandle_gives
        gives_bind [OF impl_ref_gives [OF assms(2,3)] gives_bind [OF methodHandle_gives
        gives_bind [OF constant_gives(3) gives_bind [OF constant_gives(3) named_site_gives [OF assms(1)]]]]]]]])
    (auto simp: lambda_site_def handle_on_def)

lemma getter_handles_gives:
  "colon_free owner \<Longrightarrow> \<forall>g \<in> set gs. colon_free (getter_name g) \<Longrightarrow>
   gives (getter_handles owner gs)
     (\<lambda>cp hs. list_all2 (\<lambda>g. handle_on refInvokeVirtual (SMethodref owner (getter_name g) (getter_desc g)) (has cp)) gs hs)"
proof (induction gs)
  case Nil
  show ?case by (simp add: gives_def)
next
  case (Cons g gs)
  then have "gives (getter_handles owner gs)
     (\<lambda>cp hs. list_all2 (\<lambda>g. handle_on refInvokeVirtual (SMethodref owner (getter_name g) (getter_desc g)) (has cp)) gs hs)"
    by simp
  then show ?case unfolding getter_handles.simps using Cons.prems
    by (intro gives_mono [OF gives_bind [OF methodref_gives gives_bind [OF methodHandle_gives gives_bind [OF _ gives_return]]]])
      (auto intro: handle_onI)
qed

lemma invokeDynamicObjectMethod_gives:
  assumes "colon_free methodName" and "colon_free owner" and "\<forall>g \<in> set gs. colon_free (getter_name g)"
  shows "gives (invokeDynamicObjectMethod methodName desc owner names gs) (\<lambda>cp. object_site methodName desc owner names gs (has cp) (bootstraps cp))"
  unfolding invokeDynamicObjectMethod_def
  by (rule gives_mono [OF gives_bind [OF methodref_gives gives_bind [OF methodHandle_gives
        gives_bind [OF constant_gives(1) gives_bind [OF constant_gives(2)
        gives_bind [OF getter_handles_gives [OF assms(2,3)] named_site_gives [OF assms(1)]]]]]]])
    (auto simp: object_site_def handle_on_def)

section \<open>The contract of an interning operation\<close>

text \<open>
  What the emitter relies on: an operation returns the index of its constant, and in a pool that has
  the constant it returns that index and changes nothing.
\<close>

locale interning =
  fixes f :: "'k \<Rightarrow> cpIndex pool_op" and symbol :: "'k \<Rightarrow> sym" and ok :: "'k \<Rightarrow> bool"
  assumes op_adds: "ok k \<Longrightarrow> adds (symbol k) (f k)"
    and op_wf: "ok k \<Longrightarrow> wf_sym (symbol k)"
    and op_cached: "ok k \<Longrightarrow> pool_ok cp \<Longrightarrow> cache cp (key_of (symbol k)) = Some i \<Longrightarrow> f k cp = Some (i, cp)"
begin

lemma again:
  assumes "ok k" and "pool_ok cp" and "f k cp = Some (i, cp1)" and "pool_ok cp2" and "pool_le cp1 cp2"
  shows "f k cp2 = Some (i, cp2)"
proof -
  have "cache cp1 (key_of (symbol k)) = Some i" using addsD [OF op_adds [OF assms(1)] assms(3,2)] by simp
  then show ?thesis by (rule op_cached [OF assms(1,4) pool_le_cache [OF assms(5)]])
qed

lemma different:
  assumes "ok k" "ok l" and "pool_ok cp" "f k cp = Some (i, cp1)" and "pool_ok cp2" "pool_le cp1 cp2"
    and "f l cp2 = Some (j, cp3)" and "symbol k \<noteq> symbol l"
  shows "i \<noteq> j"
proof
  assume ij: "i = j"
  note k = addsD [OF op_adds [OF assms(1)] assms(4,3)]
  note l = addsD [OF op_adds [OF assms(2)] assms(7,5)]
  have "cache cp3 (key_of (symbol k)) = Some i" using k l assms(6) by (blast intro: pool_le_cache)
  moreover have "cache cp3 (key_of (symbol l)) = Some i" using l ij by simp
  moreover have "inj_on (cache cp3) (dom (cache cp3))" using l by (auto simp: pool_ok_def pool_inv_def)
  ultimately have "key_of (symbol k) = key_of (symbol l)" by (metis domI inj_onD)
  with assms(8) key_of_inject [OF op_wf op_wf, OF assms(1,2)] show False by simp
qed

end

lemma intern_cached: "cache cp key = Some i \<Longrightarrow> intern key b w cp = Some (i, cp)"
  by (simp add: intern_def)

lemma cached_parts:
  assumes "pool_ok cp" and "cache cp (key_of s) = Some i" and "wf_sym s"
  shows "\<exists>v. info_of (cache cp) s = Some v"
proof -
  from assms(1) obtain infos where "pool_inv cp infos" by (auto simp: pool_ok_def)
  from pool_inv_entry [OF this assms(2,3)] show ?thesis by auto
qed

lemma utf8_cached: "cache cp (key_of (SUtf8 v)) = Some i \<Longrightarrow> cp_utf8 v cp = Some (i, cp)"
  by (simp add: cp_utf8_def intern_cached)

lemma classInfo_cached:
  assumes "pool_ok cp" and "cache cp (key_of (SClass n)) = Some i"
  shows "classInfo n cp = Some (i, cp)"
  using cached_parts [OF assms] assms(2) utf8_cached [of cp n]
  by (auto simp: classInfo_def intern_cached)

lemma nameAndType_cached:
  assumes "pool_ok cp" and "cache cp (key_of (SNameAndType n d)) = Some i" and "colon_free n"
  shows "nameAndType n d cp = Some (i, cp)"
  using cached_parts [OF assms(1,2)] assms(2,3) utf8_cached [of cp n] utf8_cached [of cp d]
  by (auto simp: nameAndType_def intern_cached bind_eq_Some_conv)

lemma member_ref_cached:
  assumes "pool_ok cp" and "cache cp (pre @ c @ '':'' @ n @ '':'' @ d) = Some i" and "colon_free n"
    and "cache cp (key_of (SClass c)) = Some j" and "cache cp (key_of (SNameAndType n d)) = Some k"
  shows "member_ref pre tag c n d cp = Some (i, cp)"
  using classInfo_cached [OF assms(1,4)] nameAndType_cached [OF assms(1,5,3)] assms(2)
  by (simp add: member_ref_def intern_cached)

section \<open>A run of pool operations\<close>

datatype request =
    RUtf8 string | RClass string | RNameAndType string string
  | RMethodref string string string | RInterfaceMethodref string string string | RFieldref string string string
  | RString string | RInteger int | RLong int | RFloat nat | RDouble nat
  | RMethodHandle nat nat | RMethodType string
  | RConcat string string
  | RObjectMethod string string string string "recordGetter list"
  | RLambda string string string nat string string string string bool

fun perform :: "request \<Rightarrow> cpIndex pool_op" where
  "perform (RUtf8 v) = cp_utf8 v"
| "perform (RClass n) = classInfo n"
| "perform (RNameAndType n d) = nameAndType n d"
| "perform (RMethodref c n d) = methodref c n d"
| "perform (RInterfaceMethodref c n d) = interfaceMethodref c n d"
| "perform (RFieldref c n d) = fieldref c n d"
| "perform (RString v) = stringConst v"
| "perform (RInteger v) = cp_integer v"
| "perform (RLong v) = cp_long v"
| "perform (RFloat v) = cp_float v"
| "perform (RDouble v) = cp_double v"
| "perform (RMethodHandle k r) = methodHandle k r"
| "perform (RMethodType d) = methodType d"
| "perform (RConcat recipe dyn) = invokeDynamicConcat recipe dyn"
| "perform (RObjectMethod m d owner names gs) = invokeDynamicObjectMethod m d owner names gs"
| "perform (RLambda sam indy erased kind owner name desc inst isInterface) =
     invokeDynamicLambda sam indy erased kind owner name desc inst isInterface"

fun perform_all :: "request list \<Rightarrow> cpIndex list pool_op" where
  "perform_all [] cp = Some ([], cp)"
| "perform_all (r # rs) cp = do {
     (i, cp) \<leftarrow> perform r cp;
     (is, cp) \<leftarrow> perform_all rs cp;
     Some (i # is, cp)
   }"

text \<open>The names of a request hold no colon.\<close>

fun request_ok :: "request \<Rightarrow> bool" where
  "request_ok (RNameAndType n d) = colon_free n"
| "request_ok (RMethodref c n d) = (colon_free c \<and> colon_free n)"
| "request_ok (RInterfaceMethodref c n d) = (colon_free c \<and> colon_free n)"
| "request_ok (RFieldref c n d) = (colon_free c \<and> colon_free n)"
| "request_ok (RConcat recipe dyn) = colon_free dyn"
| "request_ok (RObjectMethod m d owner names gs) =
     (colon_free m \<and> colon_free owner \<and> list_all (\<lambda>g. colon_free (getter_name g)) gs)"
| "request_ok (RLambda sam indy erased kind owner name desc inst isInterface) =
     (colon_free sam \<and> colon_free owner \<and> colon_free name)"
| "request_ok _ = True"

text \<open>What the index of a request means, where \<open>H s i\<close> says that \<open>i\<close> is an index of \<open>s\<close>.\<close>

fun met :: "(sym \<Rightarrow> nat \<Rightarrow> bool) \<Rightarrow> bootstrapEntry list \<Rightarrow> request \<Rightarrow> nat \<Rightarrow> bool" where
  "met H bs (RUtf8 v) i = H (SUtf8 v) i"
| "met H bs (RClass n) i = H (SClass n) i"
| "met H bs (RNameAndType n d) i = H (SNameAndType n d) i"
| "met H bs (RMethodref c n d) i = H (SMethodref c n d) i"
| "met H bs (RInterfaceMethodref c n d) i = H (SInterfaceMethodref c n d) i"
| "met H bs (RFieldref c n d) i = H (SFieldref c n d) i"
| "met H bs (RString v) i = H (SString v) i"
| "met H bs (RInteger v) i = H (SInteger v) i"
| "met H bs (RLong v) i = H (SLong v) i"
| "met H bs (RFloat v) i = H (SFloat v) i"
| "met H bs (RDouble v) i = H (SDouble v) i"
| "met H bs (RMethodHandle k r) i = H (SMethodHandle k r) i"
| "met H bs (RMethodType d) i = H (SMethodType d) i"
| "met H bs (RConcat recipe dyn) i = concat_site recipe dyn H bs i"
| "met H bs (RObjectMethod m d owner names gs) i = object_site m d owner names gs H bs i"
| "met H bs (RLambda sam indy erased kind owner name desc inst isInterface) i =
     lambda_site sam indy erased kind (impl_sym isInterface owner name desc) inst H bs i"

text \<open>The requests that are one constant; the others make a new call site each time.\<close>

fun sym_of :: "request \<Rightarrow> sym option" where
  "sym_of (RUtf8 v) = Some (SUtf8 v)"
| "sym_of (RClass n) = Some (SClass n)"
| "sym_of (RNameAndType n d) = Some (SNameAndType n d)"
| "sym_of (RMethodref c n d) = Some (SMethodref c n d)"
| "sym_of (RInterfaceMethodref c n d) = Some (SInterfaceMethodref c n d)"
| "sym_of (RFieldref c n d) = Some (SFieldref c n d)"
| "sym_of (RString v) = Some (SString v)"
| "sym_of (RInteger v) = Some (SInteger v)"
| "sym_of (RLong v) = Some (SLong v)"
| "sym_of (RFloat v) = Some (SFloat v)"
| "sym_of (RDouble v) = Some (SDouble v)"
| "sym_of (RMethodHandle k r) = Some (SMethodHandle k r)"
| "sym_of (RMethodType d) = Some (SMethodType d)"
| "sym_of _ = None"

lemma sym_of_adds: "request_ok r \<Longrightarrow> sym_of r = Some s \<Longrightarrow> adds s (perform r) \<and> wf_sym s"
  by (cases r)
    (auto intro: utf8_adds classInfo_adds nameAndType_adds methodref_adds interfaceMethodref_adds fieldref_adds
      stringConst_adds integer_adds long_adds float_adds double_adds methodHandle_adds methodType_adds)

lemma met_sym: "sym_of r = Some s \<Longrightarrow> met H bs r i = H s i"
  by (cases r) auto

lemma perform_gives: "request_ok r \<Longrightarrow> gives (perform r) (\<lambda>cp. met (has cp) (bootstraps cp) r)"
proof (cases "sym_of r")
  case (Some s)
  assume "request_ok r"
  with Some have "adds s (perform r)" "wf_sym s" using sym_of_adds by blast+
  then have "gives (perform r) (\<lambda>cp i. has cp s i)" by (rule gives_adds)
  then show ?thesis by (rule gives_mono) (simp add: met_sym [OF Some])
next
  case None
  assume "request_ok r"
  with None show ?thesis
    by (cases r)
      (auto simp: list_all_iff intro!: gives_mono [OF invokeDynamicConcat_gives]
        gives_mono [OF invokeDynamicObjectMethod_gives] gives_mono [OF invokeDynamicLambda_gives])
qed

lemma perform_all_gives:
  "list_all request_ok rs \<Longrightarrow> gives (perform_all rs) (\<lambda>cp. list_all2 (met (has cp) (bootstraps cp)) rs)"
proof (induction rs)
  case Nil
  show ?case by (simp add: gives_def)
next
  case (Cons r rs)
  then have r: "request_ok r" and rs: "gives (perform_all rs) (\<lambda>cp. list_all2 (met (has cp) (bootstraps cp)) rs)"
    by simp_all
  show ?case unfolding perform_all.simps
    by (rule gives_mono [OF gives_bind [OF perform_gives [OF r] gives_bind [OF rs gives_return]]]) auto
qed

lemma handle_on_mono: "handle_on k s H h \<Longrightarrow> H \<le> H' \<Longrightarrow> handle_on k s H' h"
  by (auto simp: handle_on_def le_fun_def)

lemma site_mono: "site s b H bs i \<Longrightarrow> H \<le> H' \<Longrightarrow> site s b H' bs i"
  by (auto simp: site_def le_fun_def)

lemma handles_mono:
  "list_all2 (\<lambda>g. handle_on k (s g) H) gs hs \<Longrightarrow> H \<le> H' \<Longrightarrow> list_all2 (\<lambda>g. handle_on k (s g) H') gs hs"
  by (erule list_all2_mono) (rule handle_on_mono)

lemma sym_mono: "H s i \<Longrightarrow> H \<le> H' \<Longrightarrow> H' s i"
  by (auto simp: le_fun_def)

lemma concat_site_mono:
  assumes "concat_site r d H bs i" and le: "H \<le> H'"
  shows "concat_site r d H' bs i"
proof -
  from assms(1) obtain h k where "handle_on refInvokeStatic (SMethodref stringConcatFactory makeConcat makeConcatBsmDescriptor) H h"
    "H (SString r) k" "site (\<lambda>b. SConcatSite b d) \<lparr>handle = h, bsm_args = [k]\<rparr> H bs i"
    unfolding concat_site_def by (elim exE conjE)
  then show ?thesis unfolding concat_site_def
    by (intro exI conjI) (rule handle_on_mono [OF _ le] sym_mono [OF _ le] site_mono [OF _ le], assumption)+
qed

lemma object_site_mono:
  assumes "object_site m d ow n gs H bs i" and le: "H \<le> H'"
  shows "object_site m d ow n gs H' bs i"
proof -
  from assms(1) obtain h c s hs where "handle_on refInvokeStatic
      (SMethodref ''java/lang/runtime/ObjectMethods'' ''bootstrap'' objectMethodsBsmDescriptor) H h"
    "H (SClass ow) c" "H (SString n) s"
    "list_all2 (\<lambda>g. handle_on refInvokeVirtual (SMethodref ow (getter_name g) (getter_desc g)) H) gs hs"
    "site (\<lambda>b. SNamedSite b m d) \<lparr>handle = h, bsm_args = c # s # hs\<rparr> H bs i"
    unfolding object_site_def by (elim exE conjE)
  then show ?thesis unfolding object_site_def
    by (intro exI conjI)
      (rule handle_on_mono [OF _ le] sym_mono [OF _ le] handles_mono [OF _ le] site_mono [OF _ le], assumption)+
qed

lemma lambda_site_mono:
  assumes "lambda_site m d e k impl inst H bs i" and le: "H \<le> H'"
  shows "lambda_site m d e k impl inst H' bs i"
proof -
  from assms(1) obtain h j t1 t2 where "handle_on refInvokeStatic
      (SMethodref lambdaMetafactory ''metafactory'' lambdaMetafactoryBsmDescriptor) H h"
    "handle_on k impl H j" "H (SMethodType e) t1" "H (SMethodType inst) t2"
    "site (\<lambda>b. SNamedSite b m d) \<lparr>handle = h, bsm_args = [t1, j, t2]\<rparr> H bs i"
    unfolding lambda_site_def by (elim exE conjE)
  then show ?thesis unfolding lambda_site_def
    by (intro exI conjI) (rule handle_on_mono [OF _ le] sym_mono [OF _ le] site_mono [OF _ le], assumption)+
qed

lemma met_mono:
  assumes le: "H \<le> H'" and met: "met H bs r i"
  shows "met H' bs r i"
proof (cases "sym_of r")
  case (Some s)
  with met met_sym [OF Some] sym_mono [OF _ le] show ?thesis by simp
next
  case None
  with met show ?thesis
    by (cases r) (simp_all add: concat_site_mono [OF _ le] object_site_mono [OF _ le] lambda_site_mono [OF _ le])
qed

fun is_site :: "info \<Rightarrow> bool" where
  "is_site (IInvokeDynamic _ _) = True"
| "is_site _ = False"

lemma info_of_inject:
  assumes "inj_on c (dom c)" and "info_of c s = Some v" and "info_of c t = Some v" and "wf_sym s" "wf_sym t"
    and "\<not> is_site v"
  shows "s = t"
proof -
  have key: "wf_sym a \<Longrightarrow> wf_sym b \<Longrightarrow> c (key_of a) = Some i \<Longrightarrow> c (key_of b) = Some i \<Longrightarrow> a = b" for a b i
    using key_of_inject [of a b] assms(1) by (metis domI inj_onD)
  have u: "c (key_of (SUtf8 a)) = Some i \<Longrightarrow> c (key_of (SUtf8 b)) = Some i \<Longrightarrow> a = b" for a b i
    using key [of "SUtf8 a" "SUtf8 b" i] by simp
  have cl: "c (key_of (SClass a)) = Some i \<Longrightarrow> c (key_of (SClass b)) = Some i \<Longrightarrow> a = b" for a b i
    using key [of "SClass a" "SClass b" i] by simp
  have nt: "c (key_of (SNameAndType a d)) = Some i \<Longrightarrow> c (key_of (SNameAndType b e)) = Some i \<Longrightarrow>
      colon_free a \<Longrightarrow> colon_free b \<Longrightarrow> a = b \<and> d = e" for a b d e i
    using key [of "SNameAndType a d" "SNameAndType b e" i] by simp
  show ?thesis
    using assms(2-6)
    by (cases s; cases t)
      (auto simp: bind_eq_Some_conv constantMethodref_def constantInterfaceMethodref_def constantFieldref_def
        simp del: key_of.simps,
        (erule (1) u cl | erule (3) nt [THEN conjunct1] nt [THEN conjunct2])+)
qed

definition simple_request :: "request \<Rightarrow> bool" where
  "simple_request r \<longleftrightarrow> request_ok r \<and> sym_of r \<noteq> None"

lemma perform_cached:
  assumes "simple_request r" and ok: "pool_ok cp" and key: "cache cp (key_of (the (sym_of r))) = Some i"
  shows "perform r cp = Some (i, cp)"
proof -
  obtain s where s: "sym_of r = Some s" "wf_sym s" "cache cp (key_of s) = Some i"
    using assms sym_of_adds by (auto simp: simple_request_def)
  then obtain v where v: "info_of (cache cp) s = Some v" using cached_parts [OF ok s(3,2)] by blast
  note [simp] = methodref_def interfaceMethodref_def fieldref_def cp_integer_def cp_long_def cp_float_def
    cp_double_def methodHandle_def Let_def
  show ?thesis
  proof (cases s)
    case (SMethodref c n d)
    with s v show ?thesis using member_ref_cached [OF ok, of "''m:''" c n d i]
      by (cases r) (auto simp: bind_eq_Some_conv)
  next
    case (SInterfaceMethodref c n d)
    with s v show ?thesis using member_ref_cached [OF ok, of "''im:''" c n d i]
      by (cases r) (auto simp: bind_eq_Some_conv)
  next
    case (SFieldref c n d)
    with s v show ?thesis using member_ref_cached [OF ok, of "''f:''" c n d i]
      by (cases r) (auto simp: bind_eq_Some_conv)
  next
    case (SString x)
    with s v utf8_cached [of cp x] show ?thesis
      by (cases r) (auto simp: stringConst_def intern_cached)
  next
    case (SMethodType x)
    with s v utf8_cached [of cp x] show ?thesis
      by (cases r) (auto simp: methodType_def intern_cached)
  qed (use s ok in \<open>cases r; auto simp: intern_cached intro: utf8_cached classInfo_cached nameAndType_cached\<close>)+
qed

interpretation pool: interning perform "\<lambda>r. the (sym_of r)" simple_request
proof
  fix r cp i
  show "simple_request r \<Longrightarrow> adds (the (sym_of r)) (perform r)"
    and "simple_request r \<Longrightarrow> wf_sym (the (sym_of r))"
    using sym_of_adds by (auto simp: simple_request_def)
  show "simple_request r \<Longrightarrow> pool_ok cp \<Longrightarrow> cache cp (key_of (the (sym_of r))) = Some i \<Longrightarrow> perform r cp = Some (i, cp)"
    by (rule perform_cached)
qed

lemma perform_all_ok:
  assumes "list_all request_ok rs" and "perform_all rs cp = Some (is, cp')" and "pool_ok cp"
  shows "pool_ok cp'" and "pool_le cp cp'" and "list_all2 (met (has cp') (bootstraps cp')) rs is"
  using perform_all_gives [OF assms(1)] assms(2,3) unfolding gives_def by (blast intro: pool_le_refl)+

lemma pool_inv_shared:
  assumes inv: "pool_inv cp infos" and i: "info_at infos i = Some v" and j: "info_at infos j = Some v" and "\<not> is_site v"
  shows "i = j"
proof -
  have entry: "\<exists>s. wf_sym s \<and> cache cp (key_of s) = Some k \<and> info_of (cache cp) s = Some v"
    if at: "info_at infos k = Some v" for k
  proof -
    from inv at obtain key where key: "cache cp key = Some k" unfolding pool_inv_def by blast
    with inv obtain s w where "wf_sym s" "key = key_of s" "info_of (cache cp) s = Some w" "info_at infos k = Some w"
      unfolding pool_inv_def by meson
    with at key show ?thesis by auto
  qed
  from entry [OF i] entry [OF j] obtain s t where s: "wf_sym s" "cache cp (key_of s) = Some i" "info_of (cache cp) s = Some v"
    and t: "wf_sym t" "cache cp (key_of t) = Some j" "info_of (cache cp) t = Some v" by blast
  have "inj_on (cache cp) (dom (cache cp))" using inv by (simp add: pool_inv_def)
  from info_of_inject [OF this s(3) t(3) s(1) t(1) assms(4)] s(2) t(2) show ?thesis by simp
qed

section \<open>Properties\<close>


text \<open>
  A constant is entered once: asked for again after any other operations, the pool returns the
  index of the first time and is not changed; two different constants never share an index.
\<close>

theorem pool_interns_once:
  assumes "list_all request_ok before" and "perform_all before newConstantPool = Some (is, cp)"
    and "simple_request r" and "perform r cp = Some (i, cp1)"
    and "list_all request_ok between" and "perform_all between cp1 = Some (js, cp2)"
  shows "perform r cp2 = Some (i, cp2)
    \<and> (\<forall>q j cp3. simple_request q \<and> perform q cp2 = Some (j, cp3) \<and> sym_of q \<noteq> sym_of r \<longrightarrow> i \<noteq> j)"
proof (intro conjI allI impI; (elim conjE)?)
  note ok = perform_all_ok(1) [OF assms(1,2) newConstantPool_ok]
  have ok1: "pool_ok cp1" using addsD [OF pool.op_adds [OF assms(3)] assms(4) ok] by simp
  note later = perform_all_ok(1,2) [OF assms(5,6) ok1]
  show "perform r cp2 = Some (i, cp2)" by (rule pool.again [OF assms(3) ok assms(4) later])
  fix q j cp3
  assume q: "simple_request q" "perform q cp2 = Some (j, cp3)" "sym_of q \<noteq> sym_of r"
  then have "the (sym_of r) \<noteq> the (sym_of q)" using assms(3) by (auto simp: simple_request_def)
  then show "i \<noteq> j" by (rule pool.different [OF assms(3) q(1) ok assms(4) later q(2)])
qed

text \<open>The witnesses: a method reference, a string, a long and the method reference again.\<close>

lemma run_result: "map_option fst (perform_all rs cp) = Some is \<Longrightarrow> \<exists>cp'. perform_all rs cp = Some (is, cp')"
  by auto


theorem pool_interns_once_witness:
  "\<exists>cp1 cp2. perform (RClass ''A'') newConstantPool = Some (2, cp1)
    \<and> perform_all [RString ''B'', RUtf8 ''A''] cp1 = Some ([4, 1], cp2)
    \<and> perform (RClass ''A'') cp2 = Some (2, cp2)"
proof -
  have "map_option fst (perform_all [RClass ''A'', RString ''B'', RUtf8 ''A''] newConstantPool) = Some [2, 4, 1]"
    by code_simp
  then obtain cp1 cp2 where run: "perform (RClass ''A'') newConstantPool = Some (2, cp1)"
      "perform_all [RString ''B'', RUtf8 ''A''] cp1 = Some ([4, 1], cp2)"
    by (auto simp: bind_eq_Some_conv simp del: perform.simps)
  have "simple_request (RClass ''A'')" "list_all request_ok [RString ''B'', RUtf8 ''A'']" by code_simp+
  from pool_interns_once [OF _ _ this(1) run(1) this(2) run(2), of "[]" "[]"] run show ?thesis by auto
qed

end
