(* ===== verification/ClassRead.thy ===== *)
theory ClassRead
  imports GoUtf8
begin

text \<open>
  Reading a class file: \<open>parseClassFile\<close> of \<open>togo/internal/compiler/classfile_reader.go\<close>. The reader's
  closures share the bytes and the offset \<open>at\<close>; here a reader is a function of both. \<open>Panic\<close> is an
  index or a slice out of range, \<open>Bad\<close> the error \<open>errClassFile\<close>.
\<close>

datatype 'a outcome = Panic | Bad | Done 'a nat

type_synonym 'a reader = "string \<Rightarrow> nat \<Rightarrow> 'a outcome"

definition rbind :: "'a reader \<Rightarrow> ('a \<Rightarrow> 'b reader) \<Rightarrow> 'b reader" where
  "rbind p f b at = (case p b at of Panic \<Rightarrow> Panic | Bad \<Rightarrow> Bad | Done x at' \<Rightarrow> f x b at')"

definition rret :: "'a \<Rightarrow> 'a reader" where
  "rret x b at = Done x at"

definition rbad :: "'a reader" where
  "rbad b at = Bad"

text \<open>\<open>if !avail(n) { return bad() }\<close>, and \<open>at += n\<close>.\<close>

definition avail :: "nat \<Rightarrow> 'a reader \<Rightarrow> 'a reader" where
  "avail n p b at = (if at + n \<le> length b then p b at else Bad)"

definition rskip :: "nat \<Rightarrow> 'a reader \<Rightarrow> 'a reader" where
  "rskip n p b at = p b (at + n)"

definition byte_val :: "char \<Rightarrow> nat" where
  "byte_val c = of_char c"

definition be :: "string \<Rightarrow> nat" where
  "be s = foldl (\<lambda>n c. 256 * n + byte_val c) 0 s"

definition r_uint :: "nat \<Rightarrow> nat reader" where
  "r_uint n b at = (if at + n \<le> length b then Done (be (take n (drop at b))) (at + n) else Panic)"

definition r_u1 :: "nat reader" where "r_u1 = r_uint 1"
definition r_u2 :: "nat reader" where "r_u2 = r_uint 2"
definition r_u4 :: "nat reader" where "r_u4 = r_uint 4"

definition r_slice :: "nat \<Rightarrow> string reader" where
  "r_slice n b at = (if at + n \<le> length b then Done (take n (drop at b)) (at + n) else Panic)"

section \<open>The constant pool\<close>

text \<open>
  The loop over the pool: the texts of the Utf8 slots and the name index of the Class slots (0 is
  absent), both by slot.
\<close>

function pool_loop :: "nat \<Rightarrow> nat \<Rightarrow> string list \<Rightarrow> nat list \<Rightarrow> (string list \<times> nat list) reader" where
  "pool_loop poolCount i texts classNameIndex =
     (if i < poolCount then
        avail 1 (rbind r_u1 (\<lambda>tag.
          if tag = 1 then
            avail 2 (rbind r_u2 (\<lambda>len.
              avail len (rbind (r_slice len) (\<lambda>s.
                pool_loop poolCount (i + 1) (texts[i := s]) classNameIndex))))
          else if tag = 7 then
            avail 2 (rbind r_u2 (\<lambda>n. pool_loop poolCount (i + 1) texts (classNameIndex[i := n])))
          else if tag = 8 \<or> tag = 16 \<or> tag = 19 \<or> tag = 20 then
            rskip 2 (pool_loop poolCount (i + 1) texts classNameIndex)
          else if tag = 15 then
            rskip 3 (pool_loop poolCount (i + 1) texts classNameIndex)
          else if tag = 3 \<or> tag = 4 \<or> tag = 9 \<or> tag = 10 \<or> tag = 11 \<or> tag = 12 \<or> tag = 17 \<or> tag = 18 then
            rskip 4 (pool_loop poolCount (i + 1) texts classNameIndex)
          else if tag = 5 \<or> tag = 6 then
            rskip 8 (pool_loop poolCount (i + 2) texts classNameIndex)
          else rbad))
      else rret (texts, classNameIndex))"
  by pat_completeness auto
termination
  by (relation "measure (\<lambda>(n, i, _, _). n - i)") auto

declare pool_loop.simps [simp del]

type_synonym pool_tables = "string list \<times> nat list"

definition utf8At :: "pool_tables \<Rightarrow> nat \<Rightarrow> string" where
  "utf8At tables index = (if index = 0 \<or> length (fst tables) \<le> index then [] else fst tables ! index)"

definition className :: "pool_tables \<Rightarrow> nat \<Rightarrow> string" where
  "className tables index =
     (if index = 0 \<or> length (snd tables) \<le> index then []
      else let ni = snd tables ! index in if ni = 0 \<or> length (fst tables) \<le> ni then [] else fst tables ! ni)"

section \<open>Members and attributes\<close>

record memberInfo =
  m_flags :: nat
  m_name :: string
  m_descriptor :: string
  m_signature :: string

record class_info =
  ci_flags :: nat
  ci_name :: string
  superName :: string
  interfaces :: "string list"
  class_fields :: "memberInfo list"
  class_methods :: "memberInfo list"
  ci_signature :: string

text \<open>A \<open>Signature\<close> attribute names its text; every attribute body is skipped.\<close>

definition SignatureName :: string where "SignatureName = ''Signature''"

definition peek_signature :: "pool_tables \<Rightarrow> string \<Rightarrow> nat \<Rightarrow> string \<Rightarrow> string reader" where
  "peek_signature tables attrName len sig b at =
     Done (if attrName = SignatureName \<and> len = 2 \<and> at + 2 \<le> length b
           then utf8At tables (be (take 2 (drop at b))) else sig) at"

fun read_attribute_loop :: "pool_tables \<Rightarrow> nat \<Rightarrow> string \<Rightarrow> string reader" where
  "read_attribute_loop tables 0 sig = rret sig"
| "read_attribute_loop tables (Suc n) sig =
     avail 6 (rbind r_u2 (\<lambda>nameIndex. rbind r_u4 (\<lambda>len.
       rbind (peek_signature tables (utf8At tables nameIndex) len sig) (\<lambda>sig'.
         rskip len (avail 0 (read_attribute_loop tables n sig'))))))"

definition readAttributes :: "pool_tables \<Rightarrow> string reader" where
  "readAttributes tables = avail 2 (rbind r_u2 (\<lambda>count. read_attribute_loop tables count []))"

fun read_member_loop :: "pool_tables \<Rightarrow> nat \<Rightarrow> memberInfo list reader" where
  "read_member_loop tables 0 = rret []"
| "read_member_loop tables (Suc n) =
     avail 6 (rbind r_u2 (\<lambda>flags. rbind r_u2 (\<lambda>nameIndex. rbind r_u2 (\<lambda>descIndex.
       rbind (readAttributes tables) (\<lambda>sig.
         rbind (read_member_loop tables n) (\<lambda>ms.
           rret (\<lparr>m_flags = flags, m_name = utf8At tables nameIndex,
                  m_descriptor = utf8At tables descIndex, m_signature = sig\<rparr> # ms)))))))"

definition readMembers :: "pool_tables \<Rightarrow> memberInfo list reader" where
  "readMembers tables = avail 2 (rbind r_u2 (read_member_loop tables))"

fun read_interface_loop :: "pool_tables \<Rightarrow> nat \<Rightarrow> string list reader" where
  "read_interface_loop tables 0 = rret []"
| "read_interface_loop tables (Suc n) =
     avail 2 (rbind r_u2 (\<lambda>index. rbind (read_interface_loop tables n) (\<lambda>ns.
       rret (if className tables index = [] then ns else className tables index # ns))))"

definition readPool :: "pool_tables reader" where
  "readPool = avail 2 (rbind r_u2 (\<lambda>poolCount.
     pool_loop poolCount 1 (replicate poolCount []) (replicate poolCount 0)))"

definition readHeader :: "unit reader" where
  "readHeader = avail 4 (rbind r_u4 (\<lambda>magic. if magic = 0xCAFEBABE then rskip 4 (rret ()) else rbad))"

text \<open>What follows the pool.\<close>

definition readBody :: "pool_tables \<Rightarrow> class_info reader" where
  "readBody tables = avail 6 (rbind r_u2 (\<lambda>flags. rbind r_u2 (\<lambda>thisIndex.
     if className tables thisIndex = [] then rbad
     else rbind r_u2 (\<lambda>superIndex. avail 2 (rbind r_u2 (\<lambda>interfaceCount.
       rbind (read_interface_loop tables interfaceCount) (\<lambda>is.
       rbind (readMembers tables) (\<lambda>fs.
       rbind (readMembers tables) (\<lambda>ms.
       rbind (readAttributes tables) (\<lambda>sig.
         rret \<lparr>ci_flags = flags, ci_name = className tables thisIndex,
               superName = (if superIndex \<noteq> 0 then className tables superIndex else []),
               interfaces = is, class_fields = fs, class_methods = ms, ci_signature = sig\<rparr>))))))))))"

definition parseClassFile :: "string \<Rightarrow> class_info outcome" where
  "parseClassFile b = rbind readHeader (\<lambda>_. rbind readPool readBody) b 0"

section \<open>No panic\<close>

text \<open>\<open>safe n p\<close>: \<open>p\<close> does not panic where \<open>n\<close> more bytes are available.\<close>

definition safe :: "nat \<Rightarrow> 'a reader \<Rightarrow> bool" where
  "safe n p \<longleftrightarrow> (\<forall>b at. at + n \<le> length b \<or> n = 0 \<longrightarrow> p b at \<noteq> Panic)"

lemma safe_rret [intro!]: "safe n (rret x)" and safe_rbad [intro!]: "safe n rbad"
  by (simp_all add: safe_def rret_def rbad_def)

lemma safe_avail [intro!]: "safe n p \<Longrightarrow> safe m (avail n p)"
  by (simp add: safe_def avail_def)

lemma safe_rskip [intro!]: "safe 0 p \<Longrightarrow> safe n (rskip k p)"
  by (simp add: safe_def rskip_def)

lemma safe_uint: "k \<le> n \<Longrightarrow> 0 < k \<Longrightarrow> (\<And>x. safe (n - k) (f x)) \<Longrightarrow> safe n (rbind (r_uint k) f)"
  by (simp add: safe_def rbind_def r_uint_def)

lemma safe_slice: "(\<And>x. safe 0 (f x)) \<Longrightarrow> safe m (avail n (rbind (r_slice n) f))"
  by (simp add: safe_def rbind_def r_slice_def avail_def)

lemma safe_bind: "safe n p \<Longrightarrow> (\<And>x. safe 0 (f x)) \<Longrightarrow> safe n (rbind p f)"
  by (auto simp: safe_def rbind_def split: outcome.split)

lemma safe_0: "safe 0 p \<Longrightarrow> safe n p"
  by (simp add: safe_def)

lemma safe_if: "(c \<Longrightarrow> safe n p) \<Longrightarrow> (\<not> c \<Longrightarrow> safe n q) \<Longrightarrow> safe n (if c then p else q)"
  by simp

lemmas safe_rules = safe_rret safe_rbad safe_avail safe_rskip safe_uint safe_if

lemma safe_pool_loop: "safe m (pool_loop n i us cs)"
proof (induction "n - i" arbitrary: m i us cs rule: less_induct)
  case less
  show ?case
  proof (cases "i < n")
    case True
    then have IH: "safe k (pool_loop n (i + 1) us' cs')" "safe k (pool_loop n (i + 2) us' cs')" for k us' cs'
      by (intro less; simp)+
    from True show ?thesis
      by (subst pool_loop.simps, unfold r_u1_def r_u2_def) (simp only: if_True, (rule safe_slice safe_rules IH | simp; fail)+)
  qed (subst pool_loop.simps, simp add: safe_rret)
qed

lemma safe_peek [intro!]: "safe n (peek_signature tables a l s)"
  by (simp add: safe_def peek_signature_def)

lemma safe_attribute_loop: "safe m (read_attribute_loop tables n sig)"
proof (induction n arbitrary: sig m)
  case (Suc n)
  show ?case unfolding read_attribute_loop.simps r_u2_def r_u4_def
    by (intro safe_rules safe_bind [OF safe_peek] Suc.IH) simp_all
qed (simp add: safe_rret)

lemma safe_readAttributes: "safe m (readAttributes tables)"
  unfolding readAttributes_def r_u2_def by (intro safe_rules safe_attribute_loop) simp_all

lemma safe_member_loop: "safe m (read_member_loop tables n)"
proof (induction n arbitrary: m)
  case (Suc n)
  show ?case unfolding read_member_loop.simps r_u2_def
    by (intro safe_rules safe_bind [OF safe_readAttributes] safe_bind [OF Suc.IH]) simp_all
qed (simp add: safe_rret)

lemma safe_readMembers: "safe m (readMembers tables)"
  unfolding readMembers_def r_u2_def by (intro safe_avail safe_uint safe_member_loop) simp_all

lemma safe_interface_loop: "safe m (read_interface_loop tables n)"
proof (induction n arbitrary: m)
  case (Suc n)
  show ?case unfolding read_interface_loop.simps r_u2_def
    by (intro safe_rules safe_bind [OF Suc.IH]) simp_all
qed (simp add: safe_rret)


end
