(* ===== verification/ClassRoundtrip.thy ===== *)
theory ClassRoundtrip
  imports PoolSites ClassRead
begin

text \<open>
  The class file reader against the writer: the constant pool and the members written by
  \<open>assembleClassFile\<close> are read back by \<open>parseClassFile\<close>.
\<close>

section \<open>Reading what was written\<close>

definition reads :: "'a reader \<Rightarrow> string \<Rightarrow> 'a \<Rightarrow> bool" where
  "reads p s x \<longleftrightarrow> (\<forall>pre post. p (pre @ s @ post) (length pre) = Done x (length pre + length s))"

lemma reads_bind: "reads p s x \<Longrightarrow> reads (f x) t y \<Longrightarrow> reads (rbind p f) (s @ t) y"
  unfolding reads_def
proof (intro allI)
  fix pre post
  assume p: "\<forall>pre post. p (pre @ s @ post) (length pre) = Done x (length pre + length s)"
    and f: "\<forall>pre post. f x (pre @ t @ post) (length pre) = Done y (length pre + length t)"
  from p have "p (pre @ (s @ t) @ post) (length pre) = Done x (length pre + length s)" by simp
  moreover from f have "f x ((pre @ s) @ t @ post) (length (pre @ s)) = Done y (length (pre @ s) + length t)" by blast
  ultimately show "rbind p f (pre @ (s @ t) @ post) (length pre) = Done y (length pre + length (s @ t))"
    by (simp add: rbind_def)
qed

lemma reads_bind0: "reads p [] x \<Longrightarrow> reads (f x) t y \<Longrightarrow> reads (rbind p f) t y"
  using reads_bind [of p "[]" x f t y] by simp

lemma reads_avail: "reads p s y \<Longrightarrow> n \<le> length s \<Longrightarrow> reads (avail n p) s y"
  by (simp add: reads_def avail_def)

lemma reads_skip: "reads p t y \<Longrightarrow> length s = k \<Longrightarrow> reads (rskip k p) (s @ t) y"
  unfolding reads_def rskip_def
  by (metis append.assoc length_append)

lemma reads_skip2: "reads p t y \<Longrightarrow> length a + length c = k \<Longrightarrow> reads (rskip k p) (a @ c @ t) y"
  using reads_skip [of p t y "a @ c" k] by simp

lemma reads_ret: "reads (rret x) [] x"
  by (simp add: reads_def rret_def)

lemma byte_val_char_of: "byte_val (char_of (v :: int)) = nat (v mod 256)"
proof -
  have "of_char (char_of v) = nat (of_char (char_of v))" by (rule nat_of_char [symmetric])
  then show ?thesis unfolding byte_val_def by (metis of_char_of)
qed

lemma be_u1: "be (u1 v) = nat (v mod 256)"
  by (simp add: be_def u1_def byte_val_char_of)

lemma be_u2: "be (u2 v) = nat (v mod 65536)"
proof -
  have "v mod 65536 = 256 * ((v div 256) mod 256) + v mod 256"
    using zmod_zmult2_eq [of 256 v 256] by simp
  then show ?thesis by (simp add: be_def u2_def byte_val_char_of nat_add_distrib nat_mult_distrib)
qed

lemma be_append_u2: "be (s @ u2 v) = 65536 * be s + nat (v mod 65536)"
  using be_u2 [of v] by (simp add: be_def u2_def)

lemma u4_split: "u4 v = u2 (v div 65536) @ u2 v"
proof -
  have "v div 65536 div 256 = v div 16777216" using zdiv_zmult2_eq [of 256 v 65536] by simp
  then show ?thesis by (simp add: u4_def u2_def)
qed

lemma be_u4: "be (u4 v) = nat (v mod 2 ^ 32)"
proof -
  have "v mod 4294967296 = 65536 * ((v div 65536) mod 65536) + v mod 65536"
    using zmod_zmult2_eq [of 65536 v 65536] by simp
  then show ?thesis by (simp add: u4_split be_append_u2 be_u2 nat_add_distrib nat_mult_distrib)
qed

lemma length_u [simp]: "length (u1 v) = 1" "length (u2 v) = 2" "length (u4 v) = 4"
  by (simp_all add: u1_def u2_def u4_def)

lemma reads_uint: "length s = n \<Longrightarrow> be s = x \<Longrightarrow> reads (r_uint n) s x"
  by (simp add: reads_def r_uint_def)

lemma reads_u1: "nat (v mod 256) = x \<Longrightarrow> reads r_u1 (u1 v) x"
  unfolding r_u1_def by (rule reads_uint) (simp_all add: be_u1)

lemma reads_u2: "nat (v mod 65536) = x \<Longrightarrow> reads r_u2 (u2 v) x"
  unfolding r_u2_def by (rule reads_uint) (simp_all add: be_u2)

lemma reads_u2_nat: "n < 65536 \<Longrightarrow> reads r_u2 (u2 (int n)) n"
  by (rule reads_u2) (simp add: nat_mod_distrib)

lemma reads_u4: "nat (v mod 2 ^ 32) = x \<Longrightarrow> reads r_u4 (u4 v) x"
  unfolding r_u4_def by (rule reads_uint) (simp_all add: be_u4)

lemma reads_slice: "length s = n \<Longrightarrow> reads (r_slice n) s s"
  by (simp add: reads_def r_slice_def)

section \<open>The pool\<close>

definition utf8_table :: "info list \<Rightarrow> nat \<Rightarrow> string list" where
  "utf8_table infos n = map (\<lambda>i. case info_at infos i of Some (IUtf8 v) \<Rightarrow> utf8 v | _ \<Rightarrow> []) [0..<n]"

definition class_table :: "info list \<Rightarrow> nat \<Rightarrow> nat list" where
  "class_table infos n = map (\<lambda>i. case info_at infos i of Some (IClass j) \<Rightarrow> j | _ \<Rightarrow> 0) [0..<n]"

text \<open>The entries a class file can hold as they are: a text under 64 KiB, indices of 16 bits.\<close>

fun info_ok :: "info \<Rightarrow> bool" where
  "info_ok (IUtf8 v) = (utf8Length v < 65536)"
| "info_ok (IClass j) = (j < 65536)"
| "info_ok (IRef tag _ _) = (tag \<in> {constantFieldref, constantMethodref, constantInterfaceMethodref})"
| "info_ok _ = True"

lemma utf8_length: "length (utf8 v) = utf8Length v"
proof -
  have "length (concat (map mutf8_unit cs)) =
      sum_list (map (\<lambda>c. if 1 \<le> c \<and> c \<le> 0x7F then 1 else if c \<le> 0x7FF then 2 else 3) cs)" for cs
    by (induction cs) (auto simp: mutf8_unit_def)
  then show ?thesis by (simp add: utf8_def utf8Length_def)
qed

lemma info_at_0 [simp]: "info_at infos 0 = None"
  by (simp add: info_at_def)

lemma info_at_snoc_eq:
  "info_at (infos @ [v]) i = (if i = length (slots infos) + 1 then Some v else info_at infos i)"
proof (cases "i \<le> length (slots infos)")
  case True
  then show ?thesis by (auto simp: info_at_def nth_append)
next
  case False
  then show ?thesis by (cases "i - Suc (length (slots infos))") (auto simp: info_at_def nth_append nth_Cons')
qed

lemma tables_snoc:
  assumes "n = length (slots infos) + 1" and "n < m"
  shows "utf8_table (infos @ [v]) m = (case v of IUtf8 s \<Rightarrow> (utf8_table infos m)[n := utf8 s] | _ \<Rightarrow> utf8_table infos m)"
    and "class_table (infos @ [v]) m = (case v of IClass j \<Rightarrow> (class_table infos m)[n := j] | _ \<Rightarrow> class_table infos m)"
proof -
  have none: "info_at infos n = None" using assms(1) by (simp add: info_at_def)
  show "utf8_table (infos @ [v]) m = (case v of IUtf8 s \<Rightarrow> (utf8_table infos m)[n := utf8 s] | _ \<Rightarrow> utf8_table infos m)"
    by (rule nth_equalityI)
      (use assms none in \<open>auto simp: utf8_table_def info_at_snoc_eq nth_list_update split: info.split\<close>)
  show "class_table (infos @ [v]) m = (case v of IClass j \<Rightarrow> (class_table infos m)[n := j] | _ \<Rightarrow> class_table infos m)"
    by (rule nth_equalityI)
      (use assms none in \<open>auto simp: class_table_def info_at_snoc_eq nth_list_update split: info.split\<close>)
qed

lemma reads_pool_loop:
  "list_all info_ok todo \<Longrightarrow> m = length (slots (seen @ todo)) + 1 \<Longrightarrow>
   reads (pool_loop m (length (slots seen) + 1) (utf8_table seen m) (class_table seen m))
     (concat (map info_bytes todo)) (utf8_table (seen @ todo) m, class_table (seen @ todo) m)"
proof (induction todo arbitrary: seen)
  case Nil
  then show ?case by (subst pool_loop.simps) (simp add: reads_ret)
next
  case (Cons v todo)
  let ?n = "length (slots seen) + 1"
  have n: "?n < m" using Cons.prems by simp
  note tables = tables_snoc [OF refl n, of v]
  have IH: "reads (pool_loop m (length (slots (seen @ [v])) + 1) (utf8_table (seen @ [v]) m) (class_table (seen @ [v]) m))
      (concat (map info_bytes todo)) (utf8_table (seen @ v # todo) m, class_table (seen @ v # todo) m)"
    using Cons.IH [of "seen @ [v]"] Cons.prems by simp
  note tags = constantUtf8_def constantInteger_def constantFloat_def constantLong_def constantDouble_def
    constantClass_def constantString_def constantFieldref_def constantMethodref_def
    constantInterfaceMethodref_def constantNameAndType_def constantMethodHandle_def
    constantMethodType_def constantInvokeDynamic_def
  have tag: "reads r_u1 (u1 k) (nat k)" if "0 \<le> k" "k < 256" for k
    by (rule reads_u1) (use that in simp)
  have step: "reads (pool_loop m ?n us cs) (u1 k @ s) R"
    if "reads (F (nat k)) s R" "0 \<le> k" "k < 256"
      "pool_loop m ?n us cs = avail 1 (rbind r_u1 F)" for F us cs k s R
    unfolding that(4) by (intro reads_avail reads_bind [OF tag]) (use that in simp_all)
  note unfold_loop = pool_loop.simps [of m ?n, unfolded if_P [OF n]]
  note read = reads_avail reads_bind [OF reads_u2_nat] reads_bind [OF reads_slice] reads_skip
  have ok: "info_ok v" using Cons.prems(1) by simp
  show ?case
  proof (cases v)
    case (IUtf8 s)
    have "reads (pool_loop m (?n + 1) ((utf8_table seen m)[?n := utf8 s]) (class_table seen m))
        (concat (map info_bytes todo)) (utf8_table (seen @ v # todo) m, class_table (seen @ v # todo) m)"
      using IH [unfolded tables] IUtf8 by simp
    then have "reads (avail 2 (rbind r_u2 (\<lambda>len. avail len (rbind (r_slice len) (\<lambda>s.
          pool_loop m (?n + 1) ((utf8_table seen m)[?n := s]) (class_table seen m))))))
        (u2 (int (utf8Length s)) @ utf8 s @ concat (map info_bytes todo))
        (utf8_table (seen @ v # todo) m, class_table (seen @ v # todo) m)"
      using ok IUtf8 by (intro read) (simp_all add: utf8_length)
    then show ?thesis unfolding IUtf8 list.map concat.simps info_bytes.simps append_assoc
      by (intro step [OF _ _ _ unfold_loop]) (simp_all add: tags)
  next
    case (IClass j)
    show ?thesis unfolding IClass list.map concat.simps info_bytes.simps append_assoc
      by (rule step [OF _ _ _ unfold_loop]) (use IH [unfolded tables] IClass ok in \<open>simp_all add: tags read\<close>)
  next
    case (IInteger x)
    show ?thesis unfolding IInteger list.map concat.simps info_bytes.simps append_assoc
      by (rule step [OF _ _ _ unfold_loop]) (use IH [unfolded tables] IInteger in \<open>simp_all add: tags reads_skip reads_skip2\<close>)
  next
    case (IFloat x)
    show ?thesis unfolding IFloat list.map concat.simps info_bytes.simps append_assoc
      by (rule step [OF _ _ _ unfold_loop]) (use IH [unfolded tables] IFloat in \<open>simp_all add: tags reads_skip reads_skip2\<close>)
  next
    case (ILong x)
    show ?thesis unfolding ILong list.map concat.simps info_bytes.simps append_assoc
      by (rule step [OF _ _ _ unfold_loop]) (use IH [unfolded tables] ILong in \<open>simp_all add: tags reads_skip reads_skip2\<close>)
  next
    case (IDouble x)
    show ?thesis unfolding IDouble list.map concat.simps info_bytes.simps append_assoc
      by (rule step [OF _ _ _ unfold_loop]) (use IH [unfolded tables] IDouble in \<open>simp_all add: tags reads_skip reads_skip2\<close>)
  next
    case (IString x)
    show ?thesis unfolding IString list.map concat.simps info_bytes.simps append_assoc
      by (rule step [OF _ _ _ unfold_loop]) (use IH [unfolded tables] IString in \<open>simp_all add: tags reads_skip reads_skip2\<close>)
  next
    case (INameAndType x y)
    show ?thesis unfolding INameAndType list.map concat.simps info_bytes.simps append_assoc
      by (rule step [OF _ _ _ unfold_loop]) (use IH [unfolded tables] INameAndType in \<open>simp_all add: tags reads_skip reads_skip2\<close>)
  next
    case (IMethodHandle x y)
    show ?thesis unfolding IMethodHandle list.map concat.simps info_bytes.simps append_assoc
      by (rule step [OF _ _ _ unfold_loop]) (use IH [unfolded tables] IMethodHandle in \<open>simp_all add: tags reads_skip reads_skip2\<close>)
  next
    case (IMethodType x)
    show ?thesis unfolding IMethodType list.map concat.simps info_bytes.simps append_assoc
      by (rule step [OF _ _ _ unfold_loop]) (use IH [unfolded tables] IMethodType in \<open>simp_all add: tags reads_skip reads_skip2\<close>)
  next
    case (IInvokeDynamic x y)
    show ?thesis unfolding IInvokeDynamic list.map concat.simps info_bytes.simps append_assoc
      by (rule step [OF _ _ _ unfold_loop]) (use IH [unfolded tables] IInvokeDynamic in \<open>simp_all add: tags reads_skip reads_skip2\<close>)
  next
    case (IRef tag x y)
    with ok consider "tag = 9" | "tag = 10" | "tag = 11" by (auto simp: tags)
    then show ?thesis unfolding IRef list.map concat.simps info_bytes.simps append_assoc
      by cases (rule step [OF _ _ _ unfold_loop]; use IH [unfolded tables] IRef in \<open>simp add: reads_skip2\<close>)+
  qed
qed

section \<open>Members and attributes\<close>

text \<open>
  What the emitter writes for a member: the indices of its name and descriptor and its attributes.
  \<open>writeSignatureAttribute\<close> makes the \<open>Signature\<close> attribute; every other one is the index of its
  name and a body.
\<close>

datatype attribute_part =
    SignatureAttr nat nat string
  | OtherAttr nat string string

record member_part =
  part_flags :: nat
  part_name :: string
  part_nameIndex :: nat
  part_desc :: string
  part_descIndex :: nat
  part_attrs :: "attribute_part list"

definition writeSignatureAttribute :: "nat \<Rightarrow> nat \<Rightarrow> string" where
  "writeSignatureAttribute nameIndex index = u2 (int nameIndex) @ u4 2 @ u2 (int index)"

fun attribute_bytes :: "attribute_part \<Rightarrow> string" where
  "attribute_bytes (SignatureAttr n i _) = writeSignatureAttribute n i"
| "attribute_bytes (OtherAttr n _ body) = u2 (int n) @ u4 (int (length body)) @ body"

definition member_bytes :: "member_part \<Rightarrow> string" where
  "member_bytes m = u2 (int (part_flags m)) @ u2 (int (part_nameIndex m)) @ u2 (int (part_descIndex m))
     @ u2 (int (length (part_attrs m))) @ concat (map attribute_bytes (part_attrs m))"

text \<open>\<open>G v i\<close> says that \<open>i\<close> is the index of the text \<open>v\<close>.\<close>

fun attribute_ok :: "(string \<Rightarrow> nat \<Rightarrow> bool) \<Rightarrow> attribute_part \<Rightarrow> bool" where
  "attribute_ok G (SignatureAttr n i s) = (G SignatureName n \<and> G s i)"
| "attribute_ok G (OtherAttr n name body) = (G name n \<and> utf8 name \<noteq> SignatureName \<and> length body < 2 ^ 32)"

text \<open>The text of the last \<open>Signature\<close> attribute, as modified UTF-8.\<close>

fun signature_of :: "attribute_part list \<Rightarrow> string \<Rightarrow> string" where
  "signature_of [] sig = sig"
| "signature_of (SignatureAttr _ _ s # as) sig = signature_of as (utf8 s)"
| "signature_of (OtherAttr _ _ _ # as) sig = signature_of as sig"

definition text_at :: "pool_tables \<Rightarrow> string \<Rightarrow> nat \<Rightarrow> bool" where
  "text_at tables v i \<longleftrightarrow> i < 65536 \<and> utf8At tables i = utf8 v"

lemma text_atD: "text_at tables v i \<Longrightarrow> i < 65536 \<and> utf8At tables i = utf8 v"
  by (simp add: text_at_def)

lemma utf8_Signature: "utf8 SignatureName = SignatureName"
  by code_simp

lemma reads_attribute:
  assumes tail: "reads (avail 0 (read_attribute_loop tables k sig')) s R"
    and "n < 65536" "length body < 2 ^ 32"
    and sig': "sig' = (if utf8At tables n = SignatureName \<and> length body = 2 then utf8At tables (be body) else sig)"
  shows "reads (read_attribute_loop tables (Suc k) sig) (u2 (int n) @ u4 (int (length body)) @ body @ s) R"
proof -
  have "reads (rskip (length body) (avail 0 (read_attribute_loop tables k sig'))) (body @ s) R"
    by (intro reads_skip tail) simp
  moreover have "peek_signature tables (utf8At tables n) (length body) sig (pre @ body @ rest) (length pre)
      = Done sig' (length pre)" for pre rest
  proof -
    have "length body = 2 \<Longrightarrow> be (take 2 (drop (length pre) (pre @ body @ rest))) = be body" by simp
    then show ?thesis unfolding peek_signature_def sig' outcome.inject
      by (cases "utf8At tables n = SignatureName"; cases "length body = 2") simp_all
  qed
  ultimately have "reads (rbind (peek_signature tables (utf8At tables n) (length body) sig) (\<lambda>sig'.
         rskip (length body) (avail 0 (read_attribute_loop tables k sig')))) (body @ s) R"
    by (simp add: reads_def rbind_def)
  then show ?thesis
    unfolding read_attribute_loop.simps
    by (intro reads_avail reads_bind [OF reads_u2_nat] reads_bind [OF reads_u4])
      (use assms(2,3) in \<open>simp_all add: nat_mod_distrib\<close>)
qed

lemma reads_attribute_loop:
  "list_all (attribute_ok (text_at tables)) as \<Longrightarrow>
   reads (read_attribute_loop tables (length as) sig) (concat (map attribute_bytes as)) (signature_of as sig)"
proof (induction as sig rule: signature_of.induct)
  case (1 sig)
  then show ?case by (simp add: reads_ret)
next
  case (2 n i s as sig)
  then have "reads (read_attribute_loop tables (length as) (utf8 s)) (concat (map attribute_bytes as)) (signature_of as (utf8 s))"
    by simp
  then have tail: "reads (avail 0 (read_attribute_loop tables (length as) (utf8 s))) (concat (map attribute_bytes as)) (signature_of as (utf8 s))"
    by (rule reads_avail) simp
  have idx: "n < 65536" "utf8At tables n = SignatureName" "i < 65536" "utf8At tables i = utf8 s"
    using "2.prems" by (simp_all add: text_at_def utf8_Signature)
  have "be (u2 (int i)) = i" using idx(3) by (simp add: be_u2 nat_mod_distrib)
  then have "utf8 s = (if utf8At tables n = SignatureName \<and> length (u2 (int i)) = 2 then utf8At tables (be (u2 (int i))) else sig)"
    by (simp only: idx length_u simp_thms if_True)
  from reads_attribute [OF tail idx(1) _ this]
  have "reads (read_attribute_loop tables (Suc (length as)) sig)
      (u2 (int n) @ u4 (int (length (u2 (int i)))) @ u2 (int i) @ concat (map attribute_bytes as)) (signature_of as (utf8 s))"
    by simp
  then show ?case
    by (simp only: writeSignatureAttribute_def length_u of_nat_numeral attribute_bytes.simps signature_of.simps
        list.map concat.simps append_assoc list.size add_Suc_right add_0_right)
next
  case (3 n name body as sig)
  then have "reads (read_attribute_loop tables (length as) sig) (concat (map attribute_bytes as)) (signature_of as sig)"
    by simp
  then have tail: "reads (avail 0 (read_attribute_loop tables (length as) sig)) (concat (map attribute_bytes as)) (signature_of as sig)"
    by (rule reads_avail) simp
  have idx: "n < 65536" "utf8At tables n \<noteq> SignatureName" "length body < 2 ^ 32"
    using "3.prems" by (simp_all add: text_at_def)
  then have "sig = (if utf8At tables n = SignatureName \<and> length body = 2 then utf8At tables (be body) else sig)" by simp
  from reads_attribute [OF tail idx(1,3) this] show ?case by simp
qed

lemma reads_attributes:
  "list_all (attribute_ok (text_at tables)) as \<Longrightarrow> length as < 65536 \<Longrightarrow>
   reads (readAttributes tables) (u2 (int (length as)) @ concat (map attribute_bytes as)) (signature_of as [])"
  unfolding readAttributes_def
  by (intro reads_avail reads_bind [OF reads_u2_nat] reads_attribute_loop) simp_all

definition member_ok :: "(string \<Rightarrow> nat \<Rightarrow> bool) \<Rightarrow> member_part \<Rightarrow> bool" where
  "member_ok G m \<longleftrightarrow> part_flags m < 65536 \<and> G (part_name m) (part_nameIndex m) \<and> G (part_desc m) (part_descIndex m)
     \<and> length (part_attrs m) < 65536 \<and> list_all (attribute_ok G) (part_attrs m)"

definition member_of :: "member_part \<Rightarrow> memberInfo" where
  "member_of m = \<lparr>m_flags = part_flags m, m_name = utf8 (part_name m), m_descriptor = utf8 (part_desc m),
     m_signature = signature_of (part_attrs m) []\<rparr>"

lemma reads_member_loop:
  "list_all (member_ok (text_at tables)) ms \<Longrightarrow>
   reads (read_member_loop tables (length ms)) (concat (map member_bytes ms)) (map (member_of) ms)"
proof (induction ms)
  case Nil
  then show ?case by (simp add: reads_ret)
next
  case (Cons m ms)
  have m: "part_flags m < 65536" "part_nameIndex m < 65536" "part_descIndex m < 65536"
      "utf8At tables (part_nameIndex m) = utf8 (part_name m)" "utf8At tables (part_descIndex m) = utf8 (part_desc m)"
      "length (part_attrs m) < 65536" "list_all (attribute_ok (text_at tables)) (part_attrs m)"
    using Cons.prems by (auto simp: member_ok_def dest: text_atD)
  have IH: "reads (read_member_loop tables (length ms)) (concat (map member_bytes ms)) (map (member_of) ms)"
    by (rule Cons.IH) (use Cons.prems in simp)
  have tail: "reads (rbind (read_member_loop tables (length ms)) (\<lambda>ms'. rret (member_of m # ms')))
      (concat (map member_bytes ms)) (map (member_of) (m # ms))"
    using reads_bind [OF IH reads_ret] by simp
  note attrs = reads_attributes [OF m(7,6)]
  have "reads (avail 6 (rbind r_u2 (\<lambda>flags. rbind r_u2 (\<lambda>nameIndex. rbind r_u2 (\<lambda>descIndex.
       rbind (readAttributes tables) (\<lambda>sig. rbind (read_member_loop tables (length ms)) (\<lambda>ms'.
           rret (\<lparr>m_flags = flags, m_name = utf8At tables nameIndex,
                  m_descriptor = utf8At tables descIndex, m_signature = sig\<rparr> # ms'))))))))
     (u2 (int (part_flags m)) @ u2 (int (part_nameIndex m)) @ u2 (int (part_descIndex m))
       @ (u2 (int (length (part_attrs m))) @ concat (map attribute_bytes (part_attrs m))) @ concat (map member_bytes ms))
     (map (member_of) (m # ms))"
    by (intro reads_avail reads_bind [OF reads_u2_nat] reads_bind [OF attrs])
      (use m tail in \<open>simp_all add: member_of_def\<close>)
  then show ?case
    by (simp only: list.map concat.simps member_bytes_def [of m] append_assoc list.size add_Suc_right add_0_right
        read_member_loop.simps)
qed

lemma reads_members:
  "list_all (member_ok (text_at tables)) ms \<Longrightarrow> length ms < 65536 \<Longrightarrow>
   reads (readMembers tables) (u2 (int (length ms)) @ concat (map member_bytes ms)) (map (member_of) ms)"
  unfolding readMembers_def
  by (intro reads_avail reads_bind [OF reads_u2_nat] reads_member_loop) simp_all

lemma reads_interface_loop:
  "list_all (\<lambda>i. i < 65536) is \<Longrightarrow>
   reads (read_interface_loop tables (length is)) (concat (map (\<lambda>i. u2 (int i)) is))
     (filter (\<lambda>n. n \<noteq> []) (map (className tables) is))"
proof (induction "is")
  case Nil
  then show ?case by (simp add: reads_ret)
next
  case (Cons i "is")
  have IH: "reads (read_interface_loop tables (length is)) (concat (map (\<lambda>i. u2 (int i)) is))
     (filter (\<lambda>n. n \<noteq> []) (map (className tables) is))"
    by (rule Cons.IH) (use Cons.prems in simp)
  have "reads (rbind (read_interface_loop tables (length is)) (\<lambda>ns.
       rret (if className tables i = [] then ns else className tables i # ns)))
     (concat (map (\<lambda>i. u2 (int i)) is)) (filter (\<lambda>n. n \<noteq> []) (map (className tables) (i # is)))"
    using reads_bind [OF IH reads_ret [of "if className tables i = [] then _ else className tables i # _"]]
    by (cases "className tables i = []") simp_all
  then show ?case using Cons.prems unfolding length_Cons read_interface_loop.simps list.map concat.simps
    by (intro reads_avail reads_bind [OF reads_u2_nat]) simp_all
qed

section \<open>The file\<close>

lemma info_at_mem: "v \<in> set infos \<Longrightarrow> \<exists>i. info_at infos i = Some v"
proof (induction infos rule: rev_induct)
  case (snoc w infos)
  show ?case
  proof (cases "v = w")
    case True
    then show ?thesis using info_at_new [of infos w] by blast
  next
    case False
    with snoc obtain i where "info_at infos i = Some v" by auto
    from info_at_append [OF this] show ?thesis by blast
  qed
qed simp

text \<open>Every text of the pool fits the 16-bit length of a Utf8 entry.\<close>

definition pool_short :: "constantPool \<Rightarrow> bool" where
  "pool_short cp \<longleftrightarrow> (\<forall>v. cache cp (key_of (SUtf8 v)) \<noteq> None \<longrightarrow> utf8Length v < 65536)"

lemma pool_inv_info_ok:
  assumes inv: "pool_inv cp infos" and "pool_short cp"
  shows "list_all info_ok infos"
proof (unfold list_all_iff, rule ballI)
  fix v assume "v \<in> set infos"
  then obtain i where i: "info_at infos i = Some v" using info_at_mem by blast
  with inv obtain key where key: "cache cp key = Some i" unfolding pool_inv_def by blast
  with inv i obtain s where s: "key = key_of s" "info_of (cache cp) s = Some v"
    unfolding pool_inv_def by (metis option.inject)
  have small: "cache cp k = Some j \<Longrightarrow> j < 65536" for k j
    using pool_inv_below [OF inv, of k j] inv by (simp add: pool_inv_def)
  show "info_ok v"
  proof (cases s)
    case (SUtf8 x)
    with assms(2) key s show ?thesis by (auto simp: pool_short_def simp del: key_of.simps)
  qed (use s in \<open>auto simp: bind_eq_Some_conv dest: small simp del: key_of.simps\<close>)
qed

lemma tables_empty: "utf8_table [] m = replicate m []" "class_table [] m = replicate m 0"
  by (auto simp: utf8_table_def class_table_def info_at_def map_replicate_const intro!: nth_equalityI)

lemma reads_pool:
  assumes inv: "pool_inv cp infos" and short: "pool_short cp"
  shows "reads readPool (writeInto cp) (utf8_table infos (cp_count cp + 1), class_table infos (cp_count cp + 1))"
proof -
  have count: "cp_count cp = length (slots infos)" "cp_count cp + 1 < 65536" "entries cp = concat (map info_bytes infos)"
    using inv by (simp_all add: pool_inv_def)
  have "reads (pool_loop (cp_count cp + 1) (length (slots []) + 1) (utf8_table [] (cp_count cp + 1)) (class_table [] (cp_count cp + 1)))
      (entries cp) (utf8_table ([] @ infos) (cp_count cp + 1), class_table ([] @ infos) (cp_count cp + 1))"
    unfolding count(3) by (rule reads_pool_loop [OF pool_inv_info_ok [OF assms]]) (simp add: count(1))
  then have loop: "reads (pool_loop (cp_count cp + 1) 1 (replicate (cp_count cp + 1) []) (replicate (cp_count cp + 1) 0))
      (entries cp) (utf8_table infos (cp_count cp + 1), class_table infos (cp_count cp + 1))"
    by (simp add: tables_empty)
  have "int (cp_count cp) + 1 = int (cp_count cp + 1)" by simp
  then show ?thesis unfolding readPool_def writeInto_def
    by (simp only: ) (intro reads_avail reads_bind [OF reads_u2_nat] loop; use count in simp)
qed

lemma reads_header: "reads readHeader (u4 classMagic @ u2 minorVersion @ u2 majorVersion) ()"
proof -
  have magic: "nat (classMagic mod 2 ^ 32) = 0xCAFEBABE" by (simp add: classMagic_def)
  have "reads (if 0xCAFEBABE = (0xCAFEBABE :: nat) then rskip 4 (rret ()) else rbad) (u2 minorVersion @ u2 majorVersion) ()"
    using reads_skip2 [OF reads_ret, of "u2 minorVersion" "u2 majorVersion" 4 "()"] by simp
  from reads_avail [OF reads_bind [OF reads_u4 [OF magic], of "\<lambda>magic. if magic = 0xCAFEBABE then rskip 4 (rret ()) else rbad", OF this]]
  show ?thesis unfolding readHeader_def by simp
qed

lemma tables_at:
  assumes inv: "pool_inv cp infos"
  defines "tables \<equiv> (utf8_table infos (cp_count cp + 1), class_table infos (cp_count cp + 1))"
  shows "has cp (SUtf8 v) i \<Longrightarrow> text_at tables v i"
    and "has cp (SClass v) i \<Longrightarrow> className tables i = utf8 v \<and> i < 65536"
proof -
  have at: "0 < i \<and> i < cp_count cp + 1 \<and> i < 65536" if "info_at infos i = Some w" for i w
    using info_at_bounds [OF that] inv by (simp add: pool_inv_def)
  have utf8: "text_at tables v i" if "is_utf8 infos v i" for v i
    using at [OF that [unfolded is_utf8_def]] that
    by (simp add: text_at_def utf8At_def tables_def utf8_table_def is_utf8_def del: upt_Suc)
  show "text_at tables v i" if "has cp (SUtf8 v) i"
    using pool_inv_parts(1) [OF inv] that by (auto simp: has_def intro: utf8 simp del: key_of.simps)
  show "className tables i = utf8 v \<and> i < 65536" if "has cp (SClass v) i"
  proof -
    have "is_class infos v i" using pool_inv_parts(2) [OF inv] that by (simp add: has_def del: key_of.simps)
    then obtain j where j: "info_at infos i = Some (IClass j)" "is_utf8 infos v j"
      by (auto simp: is_class_def split: option.splits info.splits)
    note bounds = at [OF j(1)] at [OF j(2) [unfolded is_utf8_def]]
    have "snd tables ! i = j" using bounds j(1) by (simp add: tables_def class_table_def del: upt_Suc)
    moreover have "className tables i = utf8At tables (snd tables ! i)"
      using bounds by (simp add: className_def utf8At_def Let_def tables_def class_table_def)
    ultimately show ?thesis using utf8 [OF j(2)] bounds by (simp add: text_at_def)
  qed
qed

lemma attribute_ok_mono: "(\<And>v i. G v i \<Longrightarrow> G' v i) \<Longrightarrow> attribute_ok G a \<Longrightarrow> attribute_ok G' a"
  by (cases a) auto

lemma member_ok_mono: "(\<And>v i. G v i \<Longrightarrow> G' v i) \<Longrightarrow> member_ok G m \<Longrightarrow> member_ok G' m"
  by (auto simp: member_ok_def list_all_iff intro: attribute_ok_mono)

lemma requested_has:
  "list_all2 (met (has cp) bs) rs is \<Longrightarrow> (r, i) \<in> set (zip rs is) \<Longrightarrow> met (has cp) bs r i"
  by (auto simp: list_all2_iff)

text \<open>The parts of a class file whose indices came from the requests \<open>rs\<close>.\<close>

definition text_index :: "request list \<Rightarrow> nat list \<Rightarrow> string \<Rightarrow> nat \<Rightarrow> bool" where
  "text_index rs is v i \<longleftrightarrow> (RUtf8 v, i) \<in> set (zip rs is)"

definition class_index :: "request list \<Rightarrow> nat list \<Rightarrow> string \<Rightarrow> nat \<Rightarrow> bool" where
  "class_index rs is n i \<longleftrightarrow> (RClass n, i) \<in> set (zip rs is)"


text \<open>A pool of less than 64 KiB has only short texts.\<close>

lemma small_pool_short:
  assumes "pool_ok cp" and "length (entries cp) < 65536"
  shows "pool_short cp"
  unfolding pool_short_def
proof (intro allI impI)
  fix v
  assume "cache cp (key_of (SUtf8 v)) \<noteq> None"
  then obtain i where i: "cache cp (key_of (SUtf8 v)) = Some i" by blast
  from assms(1) obtain infos where inv: "pool_inv cp infos" by (auto simp: pool_ok_def)
  have "Some x \<in> set (slots xs) \<Longrightarrow> x \<in> set xs" for xs x
    by (induction xs) (auto split: if_splits)
  then have mem: "info_at xs i = Some x \<Longrightarrow> x \<in> set xs" for xs x
    unfolding info_at_def by (metis One_nat_def diff_less less_le_trans less_one nth_mem option.distinct(1) zero_less_one order_less_le_trans)
  have "IUtf8 v \<in> set infos" using pool_inv_parts(1) [OF inv i] by (auto simp: is_utf8_def intro: mem)
  then obtain xs ys where "infos = xs @ IUtf8 v # ys" by (meson in_set_conv_decomp)
  then have "length (utf8 v) \<le> length (entries cp)" using inv by (simp add: pool_inv_def)
  with assms(2) show "utf8Length v < 65536" by (simp add: utf8_length)
qed


text \<open>
  C35. The 16-bit length of a Utf8 entry is not checked: a text of 64 KiB or more is entered with its
  length modulo 65536 and no error, and the length read back is not the number of bytes that follow.
\<close>

theorem cp_utf8_length_wraps:
  assumes "cache cp (''u:'' @ v) = None" and "cp_utf8 v cp = Some (i, cp')" and "65536 \<le> utf8Length v"
  shows "\<exists>field. entries cp' = entries cp @ u1 constantUtf8 @ field @ utf8 v \<and> length field = 2
    \<and> be field = utf8Length v mod 65536 \<and> be field < length (utf8 v)"
proof -
  have "entries cp' = entries cp @ u1 constantUtf8 @ u2 (int (utf8Length v)) @ utf8 v"
    using assms(1,2) by (auto simp: cp_utf8_def intern_def Let_def split: if_splits)
  moreover have "be (u2 (int (utf8Length v))) = utf8Length v mod 65536"
    by (simp add: be_u2 nat_mod_distrib)
  moreover have "utf8Length v mod 65536 < 65536" by simp
  then have "utf8Length v mod 65536 < length (utf8 v)" unfolding utf8_length using assms(3) by (rule less_le_trans)
  ultimately show ?thesis by (intro exI [of _ "u2 (int (utf8Length v))"]) simp
qed

lemma utf8_ascii:
  assumes "ascii v" and "\<forall>c \<in> set v. byte_of c \<noteq> 0"
  shows "utf8 v = v"
proof -
  have "utf16_encode (map byte_of v) = map byte_of v \<and> concat (map mutf8_unit (map byte_of v)) = v"
    using assms
  proof (induction v)
    case (Cons c v)
    have "0 \<le> byte_of c" by (cases c) simp
    with Cons.prems have "1 \<le> byte_of c" "byte_of c \<le> 127" by auto
    with Cons show ?case by (simp add: utf16_encode_def utf16_encode1_def mutf8_unit_def)
  qed (simp add: utf16_encode_def)
  then show ?thesis using runes_ascii [OF assms(1)] by (simp add: utf8_def)
qed

theorem cp_utf8_length_wraps_witness:
  "\<exists>i cp field. cp_utf8 (replicate 65536 CHR ''a'') newConstantPool = Some (i, cp)
    \<and> entries cp = u1 constantUtf8 @ field @ replicate 65536 CHR ''a'' \<and> be field = 0"
proof -
  define v where "v = replicate 65536 CHR ''a''"
  have v: "ascii v" "\<forall>c \<in> set v. byte_of c \<noteq> 0" "length v = 65536"
    by (auto simp: v_def ascii_def list_all_iff)
  have same: "utf8 v = v" by (rule utf8_ascii [OF v(1,2)])
  then have len: "utf8Length v = 65536" using utf8_length [of v] v(3) same by simp
  have fresh: "cache newConstantPool (''u:'' @ v) = None" by (simp add: newConstantPool_def)
  then obtain i cp where op: "cp_utf8 v newConstantPool = Some (i, cp)"
    by (auto simp: cp_utf8_def intern_def newConstantPool_def)
  from cp_utf8_length_wraps [OF fresh op] len same show ?thesis
    unfolding v_def [symmetric] using op by (auto simp: newConstantPool_def)
qed

end
