(* ===== verification/ClassStub.thy ===== *)
theory ClassStub
  imports ClassRead
begin

unbundle bit_operations_syntax

text \<open>
  Java stub sources from class files: descriptors, generic signatures and \<open>buildStubs\<close> of
  \<open>togo/internal/compiler/classfile_reader.go\<close>. A scan position is the text that is left: \<open>peek\<close> and
  \<open>take\<close> give 0 past the end, where every position behaves alike, and a slice is only taken at a
  position inside the text.
\<close>

section \<open>Descriptors\<close>

definition NUL :: char where "NUL = CHR 0x00"

definition primitives :: "(char \<times> string) list" where
  "primitives =
     [(CHR ''B'', ''byte''), (CHR ''C'', ''char''), (CHR ''D'', ''double''), (CHR ''F'', ''float''),
      (CHR ''I'', ''int''), (CHR ''J'', ''long''), (CHR ''S'', ''short''), (CHR ''Z'', ''boolean''), (CHR ''V'', ''void'')]"

definition primitiveName :: "char \<Rightarrow> string option" where
  "primitiveName c = map_of primitives c"

definition peek :: "string \<Rightarrow> char" where
  "peek s = (case s of [] \<Rightarrow> NUL | c # _ \<Rightarrow> c)"

definition dots :: "string \<Rightarrow> string" where
  "dots s = map (\<lambda>c. if c = CHR ''/'' \<or> c = CHR ''$'' then CHR ''.'' else c) s"

definition slashes_to_dots :: "string \<Rightarrow> string" where
  "slashes_to_dots s = map (\<lambda>c. if c = CHR ''/'' then CHR ''.'' else c) s"

definition brackets :: "nat \<Rightarrow> string" where
  "brackets n = concat (replicate n ''[]'')"

text \<open>\<open>typeAt\<close>: the source of the type at the position and the position behind it.\<close>

definition typeAt :: "string \<Rightarrow> string \<times> string" where
  "typeAt descriptor =
     (let arrays = length (takeWhile (\<lambda>c. c = CHR ''['') descriptor);
          s = dropWhile (\<lambda>c. c = CHR ''['') descriptor
      in if peek s = CHR ''L'' then
           (case index_where (\<lambda>c. c = CHR '';'') s of
              None \<Rightarrow> (dots (tl s) @ brackets arrays, [])
            | Some i \<Rightarrow> (dots (tl (take i s)) @ brackets arrays, drop (i + 1) s))
         else ((case primitiveName (peek s) of Some p \<Rightarrow> p | None \<Rightarrow> ''java.lang.Object'') @ brackets arrays, tl s))"

lemma typeAt_shorter: "s \<noteq> [] \<Longrightarrow> length (snd (typeAt s)) < length s"
proof -
  assume s: "s \<noteq> []"
  define r where "r = dropWhile (\<lambda>c. c = CHR ''['') s"
  have r: "length r \<le> length s" unfolding r_def by (rule length_dropWhile_le)
  have tl: "length (tl r) < length s" using r s by (cases r) simp_all
  show ?thesis
  proof (cases "peek r = CHR ''L''")
    case True
    show ?thesis
    proof (cases "index_where (\<lambda>c. c = CHR '';'') r")
      case None
      with True s show ?thesis unfolding typeAt_def Let_def r_def [symmetric] by simp
    next
      case (Some i)
      then have "length (drop (i + 1) r) < length s" using r s by (cases r) (simp_all add: less_Suc_eq_le)
      with True Some show ?thesis unfolding typeAt_def Let_def r_def [symmetric] by simp
    qed
  next
    case False
    with tl show ?thesis unfolding typeAt_def Let_def r_def [symmetric] by simp
  qed
qed

function method_params :: "string \<Rightarrow> string list \<times> string" where
  "method_params s =
     (if s \<noteq> [] \<and> peek s \<noteq> CHR '')'' then
        (let (txt, rest) = typeAt s; (ps, r) = method_params rest in (txt # ps, r))
      else ([], s))"
  by pat_completeness auto
termination
  by (relation "measure length") (simp_all, metis snd_conv typeAt_shorter)

declare method_params.simps [simp del]

definition methodTypes :: "string \<Rightarrow> string list \<times> string" where
  "methodTypes descriptor =
     (let (params, r) = method_params (tl descriptor) in (params, fst (typeAt (tl r))))"

section \<open>Generic signatures\<close>

definition class_end :: "char \<Rightarrow> bool" where
  "class_end c \<longleftrightarrow> c = CHR '';'' \<or> c = NUL"

definition is_dot :: "char \<Rightarrow> bool" where
  "is_dot c \<longleftrightarrow> c = CHR ''/'' \<or> c = CHR ''$'' \<or> c = CHR ''.''"

text \<open>
  \<open>referenceType\<close>, \<open>javaType\<close>, the loop over a class type and the loop over type arguments, which
  also takes the closing \<open>>\<close>. Each gives its result and the text that is left.
\<close>

function (sequential, domintros)
  referenceType :: "string \<Rightarrow> string \<times> string"
  and javaType :: "string \<Rightarrow> string \<times> string"
  and class_type :: "string \<Rightarrow> string \<times> string"
  and type_args :: "string \<Rightarrow> string list \<times> string"
where
  "referenceType s =
     (if peek s = CHR ''T'' then
        (case index_where (\<lambda>c. c = CHR '';'') (tl s) of
           None \<Rightarrow> (tl s, []) | Some i \<Rightarrow> (take i (tl s), drop (i + 1) (tl s)))
      else if peek s = CHR ''['' then (let (t, r) = javaType (tl s) in (t @ ''[]'', r))
      else class_type (tl s))"
| "javaType s = (case primitiveName (peek s) of Some p \<Rightarrow> (p, tl s) | None \<Rightarrow> referenceType s)"
| "class_type s =
     (if s = [] \<or> class_end (hd s) then ([], tl s)
      else if is_dot (hd s) then (let (out, r) = class_type (tl s) in (CHR ''.'' # out, r))
      else if hd s = CHR ''<'' then
        (let (args, r) = type_args (tl s); (out, r') = class_type r
         in (''<'' @ join_with '', '' args @ ''>'' @ out, r'))
      else (let (out, r) = class_type (tl s) in (hd s # out, r)))"
| "type_args s =
     (if s = [] \<or> hd s = CHR ''>'' then ([], tl s)
      else if hd s = CHR ''*'' then (let (args, r) = type_args (tl s) in (''?'' # args, r))
      else if hd s = CHR ''+'' then
        (let (t, r) = referenceType (tl s); (args, r') = type_args r in ((''? extends '' @ t) # args, r'))
      else if hd s = CHR ''-'' then
        (let (t, r) = referenceType (tl s); (args, r') = type_args r in ((''? super '' @ t) # args, r'))
      else (let (t, r) = referenceType s; (args, r') = type_args r in (t # args, r')))"
  by pat_completeness auto

lemma signature_shorter:
  "referenceType_javaType_class_type_type_args_dom (Inl (Inl s)) \<Longrightarrow> length (snd (referenceType s)) \<le> length s - 1"
  "referenceType_javaType_class_type_type_args_dom (Inl (Inr s)) \<Longrightarrow> length (snd (javaType s)) \<le> length s - 1"
  "referenceType_javaType_class_type_type_args_dom (Inr (Inl s)) \<Longrightarrow> length (snd (class_type s)) \<le> length s"
  "referenceType_javaType_class_type_type_args_dom (Inr (Inr s)) \<Longrightarrow> length (snd (type_args s)) \<le> length s"
proof (induction s and s and s and s rule: referenceType_javaType_class_type_type_args.pinduct)
  case (1 s)
  then show ?case
    by (simp add: referenceType.psimps split_beta Let_def split: option.split) (auto simp: )
next
  case (2 s)
  then show ?case by (simp add: javaType.psimps split: option.split)
next
  case (3 s)
  note psimp = class_type.psimps [OF "3.hyps"]
  consider (stop) "s = [] \<or> class_end (hd s)" | (dot) "\<not> (s = [] \<or> class_end (hd s))" "is_dot (hd s)"
    | (args) "\<not> (s = [] \<or> class_end (hd s))" "\<not> is_dot (hd s)" "hd s = CHR ''<''"
    | (other) "\<not> (s = [] \<or> class_end (hd s))" "\<not> is_dot (hd s)" "hd s \<noteq> CHR ''<''" by blast
  then show ?case
  proof cases
    case stop
    then show ?thesis unfolding psimp by simp
  next
    case dot
    have "length (snd (class_type s)) = length (snd (class_type (tl s)))" unfolding psimp using dot by (simp add: split_beta)
    with "3.IH"(1) [OF dot] show ?thesis by simp
  next
    case args
    have "length (snd (class_type s)) = length (snd (class_type (snd (type_args (tl s)))))"
      unfolding psimp using args by (simp add: split_beta Let_def)
    with "3.IH"(2) [OF args] "3.IH"(3) [OF args refl prod.collapse] show ?thesis by simp
  next
    case other
    have "length (snd (class_type s)) = length (snd (class_type (tl s)))" unfolding psimp using other by (simp add: split_beta)
    with "3.IH"(4) [OF other] show ?thesis by simp
  qed
next
  case (4 s)
  note psimp = type_args.psimps [OF "4.hyps"]
  have "s \<noteq> [] \<Longrightarrow> 0 < length s" by simp
  consider (stop) "s = [] \<or> hd s = CHR ''>''" | (any) "\<not> (s = [] \<or> hd s = CHR ''>'')" "hd s = CHR ''*''"
    | (plus) "\<not> (s = [] \<or> hd s = CHR ''>'')" "hd s \<noteq> CHR ''*''" "hd s = CHR ''+''"
    | (minus) "\<not> (s = [] \<or> hd s = CHR ''>'')" "hd s \<noteq> CHR ''*''" "hd s \<noteq> CHR ''+''" "hd s = CHR ''-''"
    | (other) "\<not> (s = [] \<or> hd s = CHR ''>'')" "hd s \<noteq> CHR ''*''" "hd s \<noteq> CHR ''+''" "hd s \<noteq> CHR ''-''" by blast
  then show ?case
  proof cases
    case stop
    then show ?thesis unfolding psimp by simp
  next
    case any
    have "length (snd (type_args s)) = length (snd (type_args (tl s)))" unfolding psimp using any by (simp add: split_beta)
    with "4.IH"(1) [OF any] show ?thesis by simp
  next
    case plus
    have "length (snd (type_args s)) = length (snd (type_args (snd (referenceType (tl s)))))"
      unfolding psimp using plus by (simp add: split_beta Let_def)
    with "4.IH"(2) [OF plus] "4.IH"(3) [OF plus refl prod.collapse] show ?thesis by simp
  next
    case minus
    have "length (snd (type_args s)) = length (snd (type_args (snd (referenceType (tl s)))))"
      unfolding psimp using minus by (simp add: split_beta Let_def)
    with "4.IH"(4) [OF minus] "4.IH"(5) [OF minus refl prod.collapse] show ?thesis by simp
  next
    case other
    have "length (snd (type_args s)) = length (snd (type_args (snd (referenceType s))))"
      unfolding psimp using other by (simp add: split_beta Let_def)
    with "4.IH"(6) [OF other] "4.IH"(7) [OF other refl prod.collapse] show ?thesis by simp
  qed
qed

lemma signature_rest:
  "referenceType_javaType_class_type_type_args_dom (Inl (Inl s)) \<Longrightarrow> (x, y) = referenceType s \<Longrightarrow> s \<noteq> [] \<Longrightarrow> length y < length s"
  "referenceType_javaType_class_type_type_args_dom (Inl (Inl (tl s))) \<Longrightarrow> (x, y) = referenceType (tl s) \<Longrightarrow> s \<noteq> [] \<Longrightarrow> length y < length s"
  "referenceType_javaType_class_type_type_args_dom (Inr (Inr (tl s))) \<Longrightarrow> (xs, y) = type_args (tl s) \<Longrightarrow> s \<noteq> [] \<Longrightarrow> length y < length s"
  using signature_shorter(1) [of s] signature_shorter(1) [of "tl s"] signature_shorter(4) [of "tl s"]
  by (cases s; auto dest: sym)+

lemma signature_measure:
  "peek s = CHR ''['' \<Longrightarrow> Suc (3 * (length s - Suc 0)) < 3 * length s"
  "s \<noteq> [] \<Longrightarrow> Suc (Suc (3 * (length s - Suc 0))) < 3 * length s"
  by (cases s; simp add: peek_def NUL_def)+

lemma signature_dom: "All referenceType_javaType_class_type_type_args_dom"
proof (relation "measure (\<lambda>x. case x of Inl (Inl s) \<Rightarrow> 3 * length s + 1 | Inl (Inr s) \<Rightarrow> 3 * length s + 2
    | Inr (Inl s) \<Rightarrow> 3 * length s | Inr (Inr s) \<Rightarrow> 3 * length s + 2)")
qed (auto intro: signature_rest signature_measure)

termination referenceType
  by (rule signature_dom)

declare referenceType.simps [simp del] javaType.simps [simp del] class_type.simps [simp del] type_args.simps [simp del]

lemma signature_total:
  "length (snd (referenceType s)) \<le> length s - 1" "length (snd (javaType s)) \<le> length s - 1"
  "length (snd (class_type s)) \<le> length s" "length (snd (type_args s)) \<le> length s"
proof -
  note dom = signature_dom [THEN spec]
  show "length (snd (referenceType s)) \<le> length s - 1" by (rule signature_shorter(1) [OF dom])
  show "length (snd (javaType s)) \<le> length s - 1" by (rule signature_shorter(2) [OF dom])
  show "length (snd (class_type s)) \<le> length s" by (rule signature_shorter(3) [OF dom])
  show "length (snd (type_args s)) \<le> length s" by (rule signature_shorter(4) [OF dom])
qed

text \<open>The bounds of a type parameter; an empty class bound is skipped.\<close>

function type_bounds :: "string \<Rightarrow> string list \<times> string" where
  "type_bounds s =
     (if peek s = CHR '':'' then
        (if peek (tl s) = CHR '':'' then type_bounds (tl s)
         else (let (b, r) = referenceType (tl s); (bs, r') = type_bounds r in (b # bs, r')))
      else ([], s))"
  by pat_completeness auto
termination
proof (relation "measure length")
  fix s x b r
  assume colon: "peek s = CHR '':''" and x: "x = referenceType (tl s)" "(b, r) = x"
  then have "s \<noteq> []" by (cases s) (simp_all add: peek_def NUL_def)
  moreover have "r = snd (referenceType (tl s))" using x by (metis snd_conv)
  ultimately show "(r, s) \<in> measure length" using signature_total(1) [of "tl s"] by (cases s) auto
next
  fix s
  assume "peek s = CHR '':''"
  then show "(tl s, s) \<in> measure length" by (cases s) (simp_all add: peek_def NUL_def)
qed simp

declare type_bounds.simps [simp del]

lemma type_bounds_shorter: "length (snd (type_bounds s)) \<le> length s"
proof (induction s rule: type_bounds.induct)
  case (1 s)
  show ?case
  proof (cases "peek s = CHR '':''")
    case colon: True
    show ?thesis
    proof (cases "peek (tl s) = CHR '':''")
      case True
      have "type_bounds s = type_bounds (tl s)" using colon True by (subst type_bounds.simps) simp
      with "1.IH"(1) [OF colon True] show ?thesis by simp
    next
      case False
      have "snd (type_bounds s) = snd (type_bounds (snd (referenceType (tl s))))"
        using colon False by (subst type_bounds.simps) (simp add: split_beta Let_def)
      moreover have "length (snd (type_bounds (snd (referenceType (tl s))))) \<le> length (snd (referenceType (tl s)))"
        by (rule "1.IH"(2) [OF colon False refl prod.collapse])
      ultimately show ?thesis using signature_total(1) [of "tl s"] by simp
    qed
  next
    case False
    then show ?thesis by (subst type_bounds.simps) simp
  qed
qed

definition type_parameter :: "string \<Rightarrow> string list \<Rightarrow> string" where
  "type_parameter name bounds =
     (let real = filter (\<lambda>b. b \<noteq> ''java.lang.Object'') bounds
      in if real \<noteq> [] then name @ '' extends '' @ join_with '' & '' real else name)"

text \<open>The loop of \<open>typeParameters\<close>, which also takes the closing \<open>>\<close>.\<close>

function type_params :: "string \<Rightarrow> string list \<times> string" where
  "type_params s =
     (if s = [] \<or> hd s = CHR ''>'' then ([], tl s)
      else case index_where (\<lambda>c. c = CHR '':'') s of
          None \<Rightarrow> ([], tl s)
        | Some colon \<Rightarrow>
            (let (bounds, r) = type_bounds (drop colon s); (ps, r') = type_params r
             in (type_parameter (take colon s) bounds # ps, r')))"
  by pat_completeness auto
termination
proof (relation "measure length")
  fix s colon x bounds r
  assume i: "index_where (\<lambda>c. c = CHR '':'') s = Some colon" and x: "x = type_bounds (drop colon s)" "(bounds, r) = x"
  from index_where_SomeD [OF i] have c: "colon < length s" "s ! colon = CHR '':''" by simp_all
  then have s: "drop colon s = CHR '':'' # drop (Suc colon) s" by (simp add: Cons_nth_drop_Suc [symmetric])
  have r: "r = snd (type_bounds (drop colon s))" using x by (metis snd_conv)
  let ?u = "drop (Suc colon) s"
  have "length r \<le> length ?u"
  proof (cases "peek ?u = CHR '':''")
    case True
    have "type_bounds (drop colon s) = type_bounds ?u" unfolding s using True by (subst type_bounds.simps) (simp add: peek_def)
    then show ?thesis using r type_bounds_shorter [of ?u] by simp
  next
    case False
    have "r = snd (type_bounds (snd (referenceType ?u)))"
      unfolding r s using False by (subst type_bounds.simps) (simp add: peek_def split_beta Let_def)
    then show ?thesis using type_bounds_shorter [of "snd (referenceType ?u)"] signature_total(1) [of ?u] by simp
  qed
  then show "(r, s) \<in> measure length" using c(1) by simp
qed simp

declare type_params.simps [simp del]

definition typeParameters :: "string \<Rightarrow> string \<times> string" where
  "typeParameters s =
     (if peek s \<noteq> CHR ''<'' then ([], s)
      else (let (ps, r) = type_params (tl s) in (''<'' @ join_with '', '' ps @ ''>'', r)))"

record classSignature =
  cs_typeParameters :: string
  cs_superType :: string
  cs_interfaces :: "string list"

function reference_types :: "string \<Rightarrow> string list" where
  "reference_types s = (if s = [] then [] else (let (t, r) = referenceType s in t # reference_types r))"
  by pat_completeness auto
termination
proof (relation "measure length")
  fix s x t r
  assume "s \<noteq> []" "x = referenceType s" "(t, r) = x"
  then show "(r, s) \<in> measure length" using signature_total(1) [of s] by (cases s) (auto dest: sym)
qed simp

declare reference_types.simps [simp del]

definition parseClassSignature :: "string \<Rightarrow> classSignature" where
  "parseClassSignature signature =
     (let (tp, r) = typeParameters signature; (super, r') = referenceType r
      in \<lparr>cs_typeParameters = tp, cs_superType = super, cs_interfaces = reference_types r'\<rparr>)"

record methodSignature =
  ms_typeParameters :: string
  ms_params :: "string list"
  ms_returns :: string

function java_types :: "string \<Rightarrow> string list \<times> string" where
  "java_types s =
     (if s = [] \<or> hd s = CHR '')'' then ([], s)
      else (let (t, r) = javaType s; (ts, r') = java_types r in (t # ts, r')))"
  by pat_completeness auto
termination
proof (relation "measure length")
  fix s x t r
  assume "\<not> (s = [] \<or> hd s = CHR '')'')" "x = javaType s" "(t, r) = x"
  then show "(r, s) \<in> measure length" using signature_total(2) [of s] by (cases s) (auto dest: sym)
qed simp

declare java_types.simps [simp del]

definition parseMethodSignature :: "string \<Rightarrow> methodSignature" where
  "parseMethodSignature signature =
     (let (tp, r) = typeParameters signature; (params, r') = java_types (tl r)
      in \<lparr>ms_typeParameters = tp, ms_params = params, ms_returns = fst (javaType (tl r'))\<rparr>)"

section \<open>Stub sources\<close>

definition accPublic :: nat where "accPublic = 0x0001"
definition accProtected :: nat where "accProtected = 0x0004"
definition accStatic :: nat where "accStatic = 0x0008"
definition accFinal :: nat where "accFinal = 0x0010"
definition accBridge :: nat where "accBridge = 0x0040"
definition accVarargs :: nat where "accVarargs = 0x0080"
definition accInterface :: nat where "accInterface = 0x0200"
definition accAbstract :: nat where "accAbstract = 0x0400"
definition accSynthetic :: nat where "accSynthetic = 0x1000"
definition accAnnotation :: nat where "accAnnotation = 0x2000"
definition accEnum :: nat where "accEnum = 0x4000"

definition defaultReturn :: "string \<Rightarrow> string" where
  "defaultReturn typ =
     (if typ = ''void'' then []
      else if typ = ''boolean'' then '' return false;''
      else if typ \<in> set [''byte'', ''char'', ''short'', ''int'', ''long'', ''float'', ''double''] then '' return 0;''
      else '' return null;'')"

definition visibleMember :: "memberInfo \<Rightarrow> bool" where
  "visibleMember m \<longleftrightarrow> m_flags m AND (accPublic OR accProtected) \<noteq> 0 \<and> m_flags m AND (accSynthetic OR accBridge) = 0"

definition implicitSupers :: "string list" where
  "implicitSupers = [''java.lang.Object'', ''java.lang.Enum'', ''java.lang.Record'']"

definition dollars_to_dots :: "string \<Rightarrow> string" where
  "dollars_to_dots s = map (\<lambda>c. if c = CHR ''$'' then CHR ''.'' else c) s"

definition isInterface :: "class_info \<Rightarrow> bool" where
  "isInterface info \<longleftrightarrow> ci_flags info AND accInterface \<noteq> 0"

definition isEnum :: "class_info \<Rightarrow> bool" where
  "isEnum info \<longleftrightarrow> ci_flags info AND accEnum \<noteq> 0"

text \<open>The superclass, the interfaces and the type parameters, from the signature where there is one.\<close>

definition superSource :: "class_info \<Rightarrow> string" where
  "superSource info =
     (if ci_signature info \<noteq> [] then cs_superType (parseClassSignature (ci_signature info))
      else if superName info \<noteq> [] then slashes_to_dots (superName info)
      else ''java.lang.Object'')"

definition interfaceSources :: "class_info \<Rightarrow> string list" where
  "interfaceSources info =
     (if ci_signature info \<noteq> [] then cs_interfaces (parseClassSignature (ci_signature info))
      else map slashes_to_dots (interfaces info))"

definition classTypeParameters :: "class_info \<Rightarrow> string" where
  "classTypeParameters info =
     (if ci_signature info \<noteq> [] then cs_typeParameters (parseClassSignature (ci_signature info)) else [])"

definition superBase :: "class_info \<Rightarrow> string" where
  "superBase info = takeWhile (\<lambda>c. c \<noteq> CHR ''<'') (superSource info)"

definition headWords :: "class_info \<Rightarrow> string \<Rightarrow> bool \<Rightarrow> string list" where
  "headWords info simpleName nested =
     (let plain = (\<not> isInterface info \<and> \<not> isEnum info);
          names = map dollars_to_dots (interfaceSources info)
      in [''public'']
         @ (if nested then [''static''] else [])
         @ (if plain \<and> ci_flags info AND accAbstract \<noteq> 0 then [''abstract''] else [])
         @ (if plain \<and> ci_flags info AND accFinal \<noteq> 0 then [''final''] else [])
         @ [if isInterface info then ''interface'' else if isEnum info then ''enum'' else ''class'',
            simpleName @ classTypeParameters info]
         @ (if plain \<and> superBase info \<notin> set implicitSupers then [''extends'', superSource info] else [])
         @ (if names \<noteq> [] then [if isInterface info then ''extends'' else ''implements'', join_with '', '' names] else []))"

definition headLine :: "class_info \<Rightarrow> string \<Rightarrow> string \<Rightarrow> bool \<Rightarrow> string" where
  "headLine info simpleName indent nested = indent @ join_with '' '' (headWords info simpleName nested) @ '' {''"

definition enumConstants :: "class_info \<Rightarrow> string list" where
  "enumConstants info =
     map m_name (filter (\<lambda>f. m_flags f AND accEnum \<noteq> 0 \<and> m_descriptor f = ''L'' @ ci_name info @ '';'') (class_fields info))"

definition fieldLine :: "string \<Rightarrow> memberInfo \<Rightarrow> string" where
  "fieldLine indent field =
     (let mods = [if m_flags field AND accProtected \<noteq> 0 then ''protected'' else ''public'']
            @ (if m_flags field AND accStatic \<noteq> 0 then [''static''] else [])
            @ (if m_flags field AND accFinal \<noteq> 0 then [''final''] else []);
          fieldType = (if m_signature field \<noteq> [] then fst (javaType (m_signature field)) else fst (typeAt (m_descriptor field)))
      in indent @ ''  '' @ join_with '' '' mods @ '' '' @ fieldType @ '' '' @ m_name field @ '';'')"

definition fieldLines :: "class_info \<Rightarrow> string \<Rightarrow> string list" where
  "fieldLines info indent =
     map (fieldLine indent)
       (filter (\<lambda>f. visibleMember f \<and> \<not> (isEnum info \<and> m_flags f AND accEnum \<noteq> 0)) (class_fields info))"

text \<open>A parameter \<open>T[]\<close> in the last place of a varargs method is written \<open>T...\<close>.\<close>

definition ends_with :: "string \<Rightarrow> string \<Rightarrow> bool" where
  "ends_with s t \<longleftrightarrow> length t \<le> length s \<and> drop (length s - length t) s = t"

definition paramPart :: "bool \<Rightarrow> nat \<Rightarrow> nat \<Rightarrow> string \<Rightarrow> string" where
  "paramPart isVarargs n i p =
     (if isVarargs \<and> i + 1 = n \<and> ends_with p ''[]'' then take (length p - 2) p @ ''... p'' @ show_nat i
      else p @ '' p'' @ show_nat i)"

definition paramList :: "bool \<Rightarrow> string list \<Rightarrow> string" where
  "paramList isVarargs params =
     join_with '', '' (map (\<lambda>(i, p). paramPart isVarargs (length params) i p) (enumerate 0 params))"

definition methodMods :: "class_info \<Rightarrow> memberInfo \<Rightarrow> string list" where
  "methodMods info m =
     (let isAbstract = (m_flags m AND accAbstract \<noteq> 0); isStatic = (m_flags m AND accStatic \<noteq> 0);
          access = (if m_flags m AND accProtected \<noteq> 0 then ''protected'' else ''public'')
      in if isInterface info then (if isStatic then [''static''] else if \<not> isAbstract then [''default''] else [])
         else [access] @ (if isStatic then [''static''] else []) @ (if isAbstract then [''abstract''] else []))"

definition methodLine :: "class_info \<Rightarrow> string \<Rightarrow> string \<Rightarrow> memberInfo \<Rightarrow> string option" where
  "methodLine info simpleName indent m =
     (let msig = parseMethodSignature (m_signature m);
          (params, returns) = (if m_signature m \<noteq> [] then (ms_params msig, ms_returns msig) else methodTypes (m_descriptor m));
          prefix' = (if m_signature m \<noteq> [] \<and> ms_typeParameters msig \<noteq> [] then ms_typeParameters msig @ '' '' else []);
          ps = paramList (m_flags m AND accVarargs \<noteq> 0) params;
          access = (if m_flags m AND accProtected \<noteq> 0 then ''protected'' else ''public'');
          mods = methodMods info m;
          signature = (if mods \<noteq> [] then join_with '' '' mods @ '' '' else []) @ prefix' @ returns @ '' '' @ m_name m @ ''('' @ ps @ '')''
      in if \<not> visibleMember m \<or> m_name m = ''<clinit>'' then None
         else if isEnum info \<and> (m_name m = ''values'' \<or> m_name m = ''valueOf'') then None
         else if m_name m = ''<init>'' then
           (if isEnum info then None
            else Some (indent @ ''  '' @ access @ '' '' @ prefix' @ simpleName @ ''('' @ ps @ '') {}''))
         else if m_flags m AND accAbstract \<noteq> 0 then Some (indent @ ''  '' @ signature @ '';'')
         else Some (indent @ ''  '' @ signature @ '' {'' @ defaultReturn returns @ '' }''))"

definition methodLines :: "class_info \<Rightarrow> string \<Rightarrow> string \<Rightarrow> string list" where
  "methodLines info simpleName indent = List.map_filter (methodLine info simpleName indent) (class_methods info)"

section \<open>Nesting\<close>

definition after_last :: "char \<Rightarrow> string \<Rightarrow> string" where
  "after_last c s = rev (takeWhile (\<lambda>d. d \<noteq> c) (rev s))"

definition before_last :: "char \<Rightarrow> string \<Rightarrow> string" where
  "before_last c s = take (length s - length (after_last c s) - 1) s"

definition isAnonymousOrLocal :: "string \<Rightarrow> bool" where
  "isAnonymousOrLocal binaryName \<longleftrightarrow>
     list_ex (\<lambda>segment. segment \<noteq> [] \<and> is_digit (hd segment)) (tl (split_at (\<lambda>c. c = CHR ''$'') binaryName))"

definition stubbable :: "class_info \<Rightarrow> bool" where
  "stubbable info \<longleftrightarrow> ci_name info \<noteq> ''module-info'' \<and> ci_flags info AND accAnnotation = 0"

definition is_nested :: "class_info \<Rightarrow> bool" where
  "is_nested c \<longleftrightarrow> CHR ''$'' \<in> set (ci_name c)"

definition nestedOf :: "class_info list \<Rightarrow> string \<Rightarrow> class_info list" where
  "nestedOf classes binaryName =
     filter (\<lambda>c. is_nested c \<and> before_last CHR ''$'' (ci_name c) = binaryName
       \<and> stubbable c \<and> \<not> isAnonymousOrLocal (ci_name c)) classes"

lemma before_last_shorter: "c \<in> set s \<Longrightarrow> length (before_last c s) < length s"
  by (cases s) (auto simp: before_last_def)

lemma nestedOf_longer: "c \<in> set (nestedOf classes n) \<Longrightarrow> length n < length (ci_name c) \<and> c \<in> set classes"
  using before_last_shorter by (auto simp: nestedOf_def is_nested_def)

definition longest_name :: "class_info list \<Rightarrow> nat" where
  "longest_name classes = sum_list (map (\<lambda>c. length (ci_name c)) classes)"

lemma longest_name: "c \<in> set classes \<Longrightarrow> length (ci_name c) \<le> longest_name classes"
  unfolding longest_name_def by (rule member_le_sum_list) auto

function typeDeclLines :: "class_info list \<Rightarrow> class_info \<Rightarrow> string \<Rightarrow> string \<Rightarrow> bool \<Rightarrow> string list" where
  "typeDeclLines classes info simpleName indent nested =
     headLine info simpleName indent nested
     # (if isEnum info then [indent @ ''  '' @ join_with '', '' (enumConstants info) @ '';''] else [])
     @ fieldLines info indent
     @ methodLines info simpleName indent
     @ concat (map (\<lambda>child. [] # typeDeclLines classes child (after_last CHR ''$'' (ci_name child)) (indent @ ''  '') True)
         (nestedOf classes (ci_name info)))
     @ [indent @ ''}'']"
  by pat_completeness auto
termination
proof (relation "measure (\<lambda>(classes, info, _). longest_name classes - length (ci_name info))")
  fix classes :: "class_info list" and info :: class_info and simpleName indent :: string and nested :: bool and child :: class_info
  assume "child \<in> set (nestedOf classes (ci_name info))"
  from nestedOf_longer [OF this] longest_name [of child classes]
  show "((classes, child, after_last CHR ''$'' (ci_name child), indent @ ''  '', True), classes, info, simpleName, indent, nested)
      \<in> measure (\<lambda>(classes, info, _). longest_name classes - length (ci_name info))" by auto
qed simp

declare typeDeclLines.simps [simp del]

record classStub =
  Name :: string
  Source :: string

definition stub_of :: "class_info list \<Rightarrow> class_info \<Rightarrow> classStub" where
  "stub_of classes info =
     (let name = ci_name info; qualified = (CHR ''/'' \<in> set name);
          packageName = (if qualified then slashes_to_dots (before_last CHR ''/'' name) else []);
          simpleName = after_last CHR ''/'' name
      in \<lparr>Name = name,
          Source = join_with [LF]
            ((if packageName \<noteq> [] then [''package '' @ packageName @ '';'', []] else [])
             @ typeDeclLines classes info simpleName [] False @ [[]])\<rparr>)"

definition buildStubs :: "class_info list \<Rightarrow> classStub list" where
  "buildStubs classes = map (stub_of classes) (filter (\<lambda>c. \<not> is_nested c \<and> stubbable c) classes)"

fun outcome_class :: "class_info outcome \<Rightarrow> class_info option" where
  "outcome_class (Done info _) = Some info"
| "outcome_class _ = None"

definition ClassDeclaresMain :: "string \<Rightarrow> bool" where
  "ClassDeclaresMain b =
     (case outcome_class (parseClassFile b) of
        None \<Rightarrow> False
      | Some info \<Rightarrow>
          list_ex (\<lambda>m. m_name m = ''main'' \<and> m_descriptor m = ''([Ljava/lang/String;)V''
            \<and> m_flags m AND (accPublic OR accStatic) = (accPublic OR accStatic)) (class_methods info))"

definition ClassFileToStub :: "string \<Rightarrow> classStub option" where
  "ClassFileToStub b =
     (case outcome_class (parseClassFile b) of
        None \<Rightarrow> None
      | Some info \<Rightarrow>
          (if is_nested info \<or> \<not> stubbable info then None
           else (case buildStubs [info] of [] \<Rightarrow> None | s # _ \<Rightarrow> Some s)))"

definition ClassFilesToStub :: "string list \<Rightarrow> classStub option" where
  "ClassFilesToStub family =
     (case buildStubs (List.map_filter (\<lambda>b. outcome_class (parseClassFile b)) family) of
        [] \<Rightarrow> None | s # _ \<Rightarrow> Some s)"

end
