(* ===== verification/StubCorrect.thy ===== *)
theory StubCorrect
  imports ClassStub
begin

text \<open>
  The stub generator against the JVM's grammar of descriptors and generic signatures, and what the
  stubs show of a family of classes.
\<close>

section \<open>Descriptors\<close>

datatype jtype = JPrim char | JClass string | JArray jtype

fun desc :: "jtype \<Rightarrow> string" where
  "desc (JPrim c) = [c]"
| "desc (JClass n) = ''L'' @ n @ '';''"
| "desc (JArray t) = ''['' @ desc t"

fun src :: "jtype \<Rightarrow> string" where
  "src (JPrim c) = the (primitiveName c)"
| "src (JClass n) = dots n"
| "src (JArray t) = src t @ ''[]''"

fun wf_type :: "jtype \<Rightarrow> bool" where
  "wf_type (JPrim c) = (primitiveName c \<noteq> None)"
| "wf_type (JClass n) = (CHR '';'' \<notin> set n)"
| "wf_type (JArray t) = wf_type t"

lemma brackets_Suc: "brackets (Suc n) = brackets n @ ''[]''"
proof -
  have "replicate (Suc n) ''[]'' = replicate n ''[]'' @ [''[]'']" by (rule replicate_Suc [unfolded replicate_append_same [symmetric]])
  then show ?thesis by (simp add: brackets_def del: replicate_Suc)
qed

lemma typeAt_bracket: "typeAt (CHR ''['' # s) = (fst (typeAt s) @ ''[]'', snd (typeAt s))"
  by (simp add: typeAt_def Let_def brackets_Suc split: option.split)

lemma primitive_char:
  assumes "primitiveName c = Some p"
  shows "c \<notin> {CHR ''L'', CHR ''['', CHR '')'', CHR '';'', CHR ''T''}"
proof -
  have "c \<in> fst ` set primitives"
    using assms unfolding primitiveName_def by (metis domI dom_map_of_conv_image_fst)
  then show ?thesis unfolding primitives_def by auto
qed

lemma typeAt_desc: "wf_type t \<Longrightarrow> typeAt (desc t @ rest) = (src t, rest)"
proof (induction t)
  case (JPrim c)
  then obtain p where p: "primitiveName c = Some p" by auto
  with primitive_char [OF p] show ?case by (simp add: typeAt_def peek_def brackets_def)
next
  case (JClass n)
  then have i: "index_where (\<lambda>c. c = CHR '';'') (CHR ''L'' # n @ CHR '';'' # rest) = Some (Suc (length n))"
    using index_where_append [of n "\<lambda>c. c = CHR '';''" "CHR '';''" rest] by auto
  have s: "desc (JClass n) @ rest = CHR ''L'' # n @ CHR '';'' # rest" by simp
  show ?case unfolding s by (simp add: typeAt_def peek_def brackets_def i del: index_where.simps)
next
  case (JArray t)
  then show ?case by (simp add: typeAt_bracket)
qed

lemma desc_start: "wf_type t \<Longrightarrow> desc t \<noteq> [] \<and> hd (desc t) \<noteq> CHR '')''"
proof (cases t)
  case (JPrim c)
  assume "wf_type t"
  with JPrim obtain p where "primitiveName c = Some p" by auto
  from primitive_char [OF this] JPrim show ?thesis by simp
qed simp_all

lemma method_params_desc:
  "list_all wf_type ts \<Longrightarrow> method_params (concat (map desc ts) @ CHR '')'' # rest) = (map src ts, CHR '')'' # rest)"
proof (induction ts)
  case Nil
  then show ?case by (subst method_params.simps) (simp add: peek_def)
next
  case (Cons t ts)
  then have t: "desc t \<noteq> []" "hd (desc t) \<noteq> CHR '')''" using desc_start by simp_all
  let ?more = "concat (map desc ts) @ CHR '')'' # rest"
  have "peek (desc t @ ?more) \<noteq> CHR '')''" using t by (cases "desc t") (simp_all add: peek_def)
  moreover have "desc t @ ?more \<noteq> []" by simp
  moreover have "typeAt (desc t @ ?more) = (src t, ?more)" by (rule typeAt_desc) (use Cons.prems in simp)
  ultimately have "method_params (desc t @ ?more) = (src t # map src ts, CHR '')'' # rest)"
    using Cons by (subst method_params.simps) simp
  then show ?case by simp
qed

text \<open>
  C33. The stub types of an erased method are those of its descriptor: for every well-formed method
  descriptor, \<open>methodTypes\<close> gives the source of each parameter type, in order, and of the return
  type.
\<close>

theorem methodTypes_descriptor:
  assumes "list_all wf_type params" and "wf_type ret"
  shows "methodTypes (''('' @ concat (map desc params) @ '')'' @ desc ret) = (map src params, src ret)"
  using method_params_desc [OF assms(1), of "desc ret"] typeAt_desc [OF assms(2), of "[]"]
  by (simp add: methodTypes_def)

theorem methodTypes_descriptor_witness:
  "methodTypes ''(I[Ljava/util/Map$Entry;[[J)V'' = ([''int'', ''java.util.Map.Entry[]'', ''long[][]''], ''void'')"
  using methodTypes_descriptor [of "[JPrim CHR ''I'', JArray (JClass ''java/util/Map$Entry''), JArray (JArray (JPrim CHR ''J''))]" "JPrim CHR ''V''"]
  by (simp add: primitiveName_def primitives_def dots_def)

section \<open>Generic signatures\<close>

datatype gtype =
    GVar string
  | GArray gtype
  | GPrimArray char
  | GClass "gpart list"
and gpart = Text char | Args "garg list"
and garg = Any | Ext gtype | Sup gtype | Exact gtype

fun gsig :: "gtype \<Rightarrow> string" and psig :: "gpart \<Rightarrow> string" and asig :: "garg \<Rightarrow> string" where
  "gsig (GVar n) = ''T'' @ n @ '';''"
| "gsig (GArray t) = ''['' @ gsig t"
| "gsig (GPrimArray c) = ''['' @ [c]"
| "gsig (GClass ps) = ''L'' @ concat (map psig ps) @ '';''"
| "psig (Text c) = [c]"
| "psig (Args as) = ''<'' @ concat (map asig as) @ ''>''"
| "asig Any = ''*''"
| "asig (Ext t) = ''+'' @ gsig t"
| "asig (Sup t) = ''-'' @ gsig t"
| "asig (Exact t) = gsig t"

fun gsrc :: "gtype \<Rightarrow> string" and psrc :: "gpart \<Rightarrow> string" and asrc :: "garg \<Rightarrow> string" where
  "gsrc (GVar n) = n"
| "gsrc (GArray t) = gsrc t @ ''[]''"
| "gsrc (GPrimArray c) = the (primitiveName c) @ ''[]''"
| "gsrc (GClass ps) = concat (map psrc ps)"
| "psrc (Text c) = (if is_dot c then ''.'' else [c])"
| "psrc (Args as) = ''<'' @ join_with '', '' (map asrc as) @ ''>''"
| "asrc Any = ''?''"
| "asrc (Ext t) = ''? extends '' @ gsrc t"
| "asrc (Sup t) = ''? super '' @ gsrc t"
| "asrc (Exact t) = gsrc t"

fun wf_gtype :: "gtype \<Rightarrow> bool" and wf_part :: "gpart \<Rightarrow> bool" and wf_arg :: "garg \<Rightarrow> bool" where
  "wf_gtype (GVar n) = (CHR '';'' \<notin> set n)"
| "wf_gtype (GArray t) = wf_gtype t"
| "wf_gtype (GPrimArray c) = (primitiveName c \<noteq> None)"
| "wf_gtype (GClass ps) = list_all wf_part ps"
| "wf_part (Text c) = (\<not> class_end c \<and> c \<noteq> CHR ''<'')"
| "wf_part (Args as) = list_all wf_arg as"
| "wf_arg Any = True"
| "wf_arg (Ext t) = wf_gtype t"
| "wf_arg (Sup t) = wf_gtype t"
| "wf_arg (Exact t) = wf_gtype t"

lemma class_type_simps:
  "class_type (CHR '';'' # s) = ([], s)"
  "is_dot c \<Longrightarrow> class_type (c # s) = (CHR ''.'' # fst (class_type s), snd (class_type s))"
  "class_type (CHR ''<'' # s) =
     (''<'' @ join_with '', '' (fst (type_args s)) @ ''>'' @ fst (class_type (snd (type_args s))), snd (class_type (snd (type_args s))))"
  "\<not> class_end c \<Longrightarrow> \<not> is_dot c \<Longrightarrow> c \<noteq> CHR ''<'' \<Longrightarrow> class_type (c # s) = (c # fst (class_type s), snd (class_type s))"
proof -
  show "class_type (CHR '';'' # s) = ([], s)" by (subst class_type.simps) (simp add: class_end_def)
  have "is_dot c \<Longrightarrow> \<not> class_end c" by (auto simp: is_dot_def class_end_def NUL_def)
  then show "is_dot c \<Longrightarrow> class_type (c # s) = (CHR ''.'' # fst (class_type s), snd (class_type s))"
    by (subst class_type.simps) (simp add: split_beta)
  show "class_type (CHR ''<'' # s) =
     (''<'' @ join_with '', '' (fst (type_args s)) @ ''>'' @ fst (class_type (snd (type_args s))), snd (class_type (snd (type_args s))))"
    by (subst class_type.simps) (simp add: split_beta Let_def class_end_def is_dot_def NUL_def)
  show "\<not> class_end c \<Longrightarrow> \<not> is_dot c \<Longrightarrow> c \<noteq> CHR ''<'' \<Longrightarrow> class_type (c # s) = (c # fst (class_type s), snd (class_type s))"
    by (subst class_type.simps) (simp add: split_beta)
qed

lemma type_args_simps:
  "type_args (CHR ''>'' # s) = ([], s)"
  "type_args (CHR ''*'' # s) = (''?'' # fst (type_args s), snd (type_args s))"
  "type_args (CHR ''+'' # s) = ((''? extends '' @ fst (referenceType s)) # fst (type_args (snd (referenceType s))), snd (type_args (snd (referenceType s))))"
  "type_args (CHR ''-'' # s) = ((''? super '' @ fst (referenceType s)) # fst (type_args (snd (referenceType s))), snd (type_args (snd (referenceType s))))"
  "c \<in> {CHR ''T'', CHR ''['', CHR ''L''} \<Longrightarrow>
     type_args (c # s) = (fst (referenceType (c # s)) # fst (type_args (snd (referenceType (c # s)))), snd (type_args (snd (referenceType (c # s)))))"
  by (subst type_args.simps, auto simp: split_beta Let_def)+

lemma referenceType_simps:
  "referenceType (CHR ''['' # s) = (fst (javaType s) @ ''[]'', snd (javaType s))"
  "referenceType (CHR ''L'' # s) = class_type s"
  by (subst referenceType.simps, simp add: peek_def split_beta)+

lemma referenceType_var: "CHR '';'' \<notin> set n \<Longrightarrow> referenceType (CHR ''T'' # n @ CHR '';'' # s) = (n, s)"
proof -
  assume n: "CHR '';'' \<notin> set n"
  have "\<forall>c \<in> set n. c \<noteq> CHR '';''" using n by metis
  then have "index_where (\<lambda>c. c = CHR '';'') (n @ CHR '';'' # s) = Some (length n)"
    using index_where_append [of n "\<lambda>c. c = CHR '';''" "CHR '';''" s] by simp
  then show ?thesis by (subst referenceType.simps) (simp add: peek_def)
qed

lemma gsig_start: "\<exists>c s. gsig t = c # s \<and> c \<in> {CHR ''T'', CHR ''['', CHR ''L''}"
  by (cases t) auto

lemma javaType_prim: "primitiveName c = Some p \<Longrightarrow> javaType (c # s) = (p, s)"
  by (subst javaType.simps) (simp add: peek_def)

lemma javaType_gsig: "javaType (gsig t @ s) = referenceType (gsig t @ s)"
proof -
  obtain c u where g: "gsig t = c # u" "c \<in> {CHR ''T'', CHR ''['', CHR ''L''}" using gsig_start by blast
  then have "primitiveName c = None" using primitive_char [of c] by (cases "primitiveName c") auto
  then show ?thesis unfolding g(1) by (subst javaType.simps) (simp add: peek_def)
qed

lemma class_type_parts:
  "(\<And>p s. p \<in> set ps \<Longrightarrow> class_type (psig p @ s) = (psrc p @ fst (class_type s), snd (class_type s))) \<Longrightarrow>
   class_type (concat (map psig ps) @ s) = (concat (map psrc ps) @ fst (class_type s), snd (class_type s))"
  by (induction ps) simp_all

lemma type_args_parts:
  "(\<And>a s. a \<in> set as \<Longrightarrow> type_args (asig a @ s) = (asrc a # fst (type_args s), snd (type_args s))) \<Longrightarrow>
   type_args (concat (map asig as) @ s) = (map asrc as @ fst (type_args s), snd (type_args s))"
  by (induction as) simp_all

lemma signature_read:
  "wf_gtype t \<Longrightarrow> referenceType (gsig t @ s) = (gsrc t, s)"
  "wf_part p \<Longrightarrow> class_type (psig p @ s) = (psrc p @ fst (class_type s), snd (class_type s))"
  "wf_arg a \<Longrightarrow> type_args (asig a @ s) = (asrc a # fst (type_args s), snd (type_args s))"
proof (induction t and p and a arbitrary: s and s and s rule: gsig_psig_asig.induct)
  case (1 n)
  then show ?case by (simp add: referenceType_var)
next
  case (2 t)
  then show ?case by (simp add: referenceType_simps javaType_gsig)
next
  case (3 c)
  then obtain p where "primitiveName c = Some p" by auto
  then show ?case by (simp add: referenceType_simps javaType_prim)
next
  case (4 ps)
  then have "class_type (concat (map psig ps) @ CHR '';'' # s) = (concat (map psrc ps), s)"
    by (subst class_type_parts) (auto simp: list_all_iff class_type_simps)
  then show ?case by (simp add: referenceType_simps)
next
  case (5 c)
  then show ?case by (cases "is_dot c") (simp_all add: class_type_simps)
next
  case (6 as)
  then have "type_args (concat (map asig as) @ CHR ''>'' # s) = (map asrc as, s)"
    by (subst type_args_parts) (auto simp: list_all_iff type_args_simps)
  then show ?case by (simp add: class_type_simps)
next
  case 7
  then show ?case by (simp add: type_args_simps)
next
  case (8 t)
  then show ?case by (simp add: type_args_simps)
next
  case (9 t)
  then show ?case by (simp add: type_args_simps)
next
  case (10 t)
  obtain c u where g: "gsig t = c # u" "c \<in> {CHR ''T'', CHR ''['', CHR ''L''}" using gsig_start by blast
  have "referenceType (c # u @ s) = (gsrc t, s)" using 10 g(1) by simp
  then show ?case using type_args_simps(5) [OF g(2), of "u @ s"] by (simp add: g(1))
qed

text \<open>A method signature: type parameters with one bound list each, parameters, result.\<close>

datatype jparam = PPrim char | PRef gtype

fun param_sig :: "jparam \<Rightarrow> string" where
  "param_sig (PPrim c) = [c]" | "param_sig (PRef t) = gsig t"

fun param_src :: "jparam \<Rightarrow> string" where
  "param_src (PPrim c) = the (primitiveName c)" | "param_src (PRef t) = gsrc t"

fun wf_param :: "jparam \<Rightarrow> bool" where
  "wf_param (PPrim c) = (primitiveName c \<noteq> None)" | "wf_param (PRef t) = wf_gtype t"

lemma javaType_param: "wf_param p \<Longrightarrow> javaType (param_sig p @ s) = (param_src p, s)"
  by (cases p) (auto simp: javaType_gsig signature_read(1) javaType_prim)

lemma param_start: "wf_param p \<Longrightarrow> \<exists>c u. param_sig p = c # u \<and> c \<noteq> CHR '')''"
proof (cases p)
  case (PPrim c)
  assume "wf_param p"
  with PPrim obtain q where "primitiveName c = Some q" by auto
  from primitive_char [OF this] PPrim show ?thesis by simp
next
  case (PRef t)
  then show ?thesis using gsig_start [of t] by auto
qed

lemma java_types_params:
  "list_all wf_param ps \<Longrightarrow> java_types (concat (map param_sig ps) @ CHR '')'' # s) = (map param_src ps, CHR '')'' # s)"
proof (induction ps)
  case Nil
  then show ?case by (subst java_types.simps) simp
next
  case (Cons p ps)
  let ?more = "concat (map param_sig ps) @ CHR '')'' # s"
  obtain c u where c: "param_sig p = c # u" "c \<noteq> CHR '')''" using param_start [of p] Cons.prems by auto
  have "javaType (param_sig p @ ?more) = (param_src p, ?more)" by (rule javaType_param) (use Cons.prems in simp)
  moreover have "java_types ?more = (map param_src ps, CHR '')'' # s)" using Cons by simp
  ultimately have "java_types (param_sig p @ ?more) = (param_src p # map param_src ps, CHR '')'' # s)"
    using c by (subst java_types.simps) simp
  then show ?case by simp
qed

text \<open>
  A type parameter: its name, an optional class bound and the interface bounds; \<open>T::LI;\<close> leaves the
  class bound empty.
\<close>

record tparam =
  tp_name :: string
  tp_class :: "gtype option"
  tp_ifaces :: "gtype list"

definition tparam_sig :: "tparam \<Rightarrow> string" where
  "tparam_sig p = tp_name p @ (case tp_class p of None \<Rightarrow> '':'' | Some t \<Rightarrow> '':'' @ gsig t)
     @ concat (map (\<lambda>t. '':'' @ gsig t) (tp_ifaces p))"

definition tparam_bounds :: "tparam \<Rightarrow> gtype list" where
  "tparam_bounds p = (case tp_class p of None \<Rightarrow> [] | Some t \<Rightarrow> [t]) @ tp_ifaces p"

definition tparam_src :: "tparam \<Rightarrow> string" where
  "tparam_src p = type_parameter (tp_name p) (map gsrc (tparam_bounds p))"

text \<open>Without a class bound there is an interface bound; the name holds no colon and is no \<open>>\<close>.\<close>

definition wf_tparam :: "tparam \<Rightarrow> bool" where
  "wf_tparam p \<longleftrightarrow> tp_name p \<noteq> [] \<and> CHR '':'' \<notin> set (tp_name p) \<and> hd (tp_name p) \<noteq> CHR ''>''
     \<and> tparam_bounds p \<noteq> [] \<and> list_all wf_gtype (tparam_bounds p)"

lemma peek_gsig: "peek (gsig t @ s) \<noteq> CHR '':''"
  using gsig_start [of t] by (auto simp: peek_def)

lemma type_bounds_Cons:
  assumes "wf_gtype t"
  shows "type_bounds (CHR '':'' # gsig t @ s) = (gsrc t # fst (type_bounds s), snd (type_bounds s))"
  using peek_gsig [of t s] signature_read(1) [OF assms, of s]
  by (subst type_bounds.simps) (simp add: peek_def split_beta)

lemma type_bounds_list:
  "list_all wf_gtype ts \<Longrightarrow> peek s \<noteq> CHR '':'' \<Longrightarrow>
   type_bounds (concat (map (\<lambda>t. CHR '':'' # gsig t) ts) @ s) = (map gsrc ts, s)"
proof (induction ts)
  case Nil
  then show ?case by (subst type_bounds.simps) simp
qed (simp add: type_bounds_Cons)

lemma type_bounds_empty: "peek s = CHR '':'' \<Longrightarrow> type_bounds (CHR '':'' # s) = type_bounds s"
  by (subst type_bounds.simps) (simp add: peek_def)

lemma type_bounds_tparam:
  assumes "wf_tparam p" and "peek s \<noteq> CHR '':''"
  shows "\<exists>r. tparam_sig p @ s = tp_name p @ CHR '':'' # r \<and> type_bounds (CHR '':'' # r) = (map gsrc (tparam_bounds p), s)"
proof (cases "tp_class p")
  case None
  then obtain t ts where ts: "tp_ifaces p = t # ts" using assms(1) by (cases "tp_ifaces p") (auto simp: wf_tparam_def tparam_bounds_def)
  let ?r = "concat (map (\<lambda>t. CHR '':'' # gsig t) (tp_ifaces p)) @ s"
  have "type_bounds (CHR '':'' # ?r) = type_bounds ?r" by (rule type_bounds_empty) (simp add: ts peek_def)
  also have "\<dots> = (map gsrc (tp_ifaces p), s)"
    by (rule type_bounds_list) (use assms None in \<open>simp_all add: wf_tparam_def tparam_bounds_def\<close>)
  finally show ?thesis using None by (intro exI [of _ ?r]) (simp add: tparam_sig_def tparam_bounds_def)
next
  case (Some t)
  let ?ts = "t # tp_ifaces p" and ?r = "gsig t @ concat (map (\<lambda>t. CHR '':'' # gsig t) (tp_ifaces p)) @ s"
  have "type_bounds (concat (map (\<lambda>t. CHR '':'' # gsig t) ?ts) @ s) = (map gsrc ?ts, s)"
    by (rule type_bounds_list) (use assms Some in \<open>simp_all add: wf_tparam_def tparam_bounds_def\<close>)
  then show ?thesis using Some by (intro exI [of _ ?r]) (simp add: tparam_sig_def tparam_bounds_def)
qed

lemma type_params_list:
  "list_all wf_tparam ps \<Longrightarrow> type_params (concat (map tparam_sig ps) @ CHR ''>'' # s) = (map tparam_src ps, s)"
proof (induction ps)
  case Nil
  then show ?case by (subst type_params.simps) simp
next
  case (Cons p ps)
  let ?more = "concat (map tparam_sig ps) @ CHR ''>'' # s"
  have p: "wf_tparam p" and ps: "list_all wf_tparam ps" using Cons.prems by simp_all
  have "peek ?more \<noteq> CHR '':''"
  proof (cases ps)
    case (Cons q qs)
    with ps show ?thesis by (cases "tp_name q") (auto simp: wf_tparam_def tparam_sig_def peek_def)
  qed (simp add: peek_def)
  from type_bounds_tparam [OF p this] obtain r where r: "tparam_sig p @ ?more = tp_name p @ CHR '':'' # r"
    "type_bounds (CHR '':'' # r) = (map gsrc (tparam_bounds p), ?more)" by blast
  have "\<forall>c \<in> set (tp_name p). c \<noteq> CHR '':''" using p by (metis wf_tparam_def)
  then have i: "index_where (\<lambda>c. c = CHR '':'') (tp_name p @ CHR '':'' # r) = Some (length (tp_name p))"
    using index_where_append [of "tp_name p" "\<lambda>c. c = CHR '':''" "CHR '':''" r] by simp
  have name: "tp_name p \<noteq> []" "hd (tp_name p) \<noteq> CHR ''>''" using p by (simp_all add: wf_tparam_def)
  have "type_params (tparam_sig p @ ?more) = (tparam_src p # map tparam_src ps, s)"
    unfolding r(1) using i r(2) Cons.IH [OF ps] name
    by (subst type_params.simps) (simp add: tparam_src_def)
  then show ?case by simp
qed

definition formal_sig :: "tparam list \<Rightarrow> string" where
  "formal_sig ps = (if ps = [] then [] else ''<'' @ concat (map tparam_sig ps) @ ''>'')"

definition formal_src :: "tparam list \<Rightarrow> string" where
  "formal_src ps = (if ps = [] then [] else ''<'' @ join_with '', '' (map tparam_src ps) @ ''>'')"

lemma typeParameters_formal:
  "list_all wf_tparam ps \<Longrightarrow> peek s \<noteq> CHR ''<'' \<Longrightarrow> typeParameters (formal_sig ps @ s) = (formal_src ps, s)"
  by (cases "ps = []") (simp_all add: typeParameters_def formal_sig_def formal_src_def peek_def type_params_list)

lemma reference_types_list:
  "list_all wf_gtype ts \<Longrightarrow> reference_types (concat (map gsig ts)) = map gsrc ts"
proof (induction ts)
  case Nil
  then show ?case by (subst reference_types.simps) simp
next
  case (Cons t ts)
  have "gsig t @ concat (map gsig ts) \<noteq> []" using gsig_start [of t] by auto
  moreover have "referenceType (gsig t @ concat (map gsig ts)) = (gsrc t, concat (map gsig ts))"
    by (rule signature_read(1)) (use Cons.prems in simp)
  ultimately have "reference_types (gsig t @ concat (map gsig ts)) = gsrc t # map gsrc ts"
    using Cons by (subst reference_types.simps) simp
  then show ?case by simp
qed



section \<open>Families of classes\<close>

text \<open>A member a stub may show, and the class without the others.\<close>

definition shown_field :: "class_info \<Rightarrow> memberInfo \<Rightarrow> bool" where
  "shown_field info f \<longleftrightarrow> visibleMember f \<or> (isEnum info \<and> m_flags f AND accEnum \<noteq> 0)"

definition public_part :: "class_info \<Rightarrow> class_info" where
  "public_part info = info\<lparr>class_fields := filter (shown_field info) (class_fields info),
     class_methods := filter visibleMember (class_methods info)\<rparr>"

lemma map_filter_filter: "(\<And>x. \<not> p x \<Longrightarrow> f x = None) \<Longrightarrow> List.map_filter f (filter p xs) = List.map_filter f xs"
  by (induction xs) (auto split: option.split)

lemma public_part_simps [simp]:
  "ci_name (public_part info) = ci_name info" "isEnum (public_part info) = isEnum info"
  "isInterface (public_part info) = isInterface info" "ci_signature (public_part info) = ci_signature info"
  "is_nested (public_part info) = is_nested info" "stubbable (public_part info) = stubbable info"
  "headLine (public_part info) n i b = headLine info n i b"
  "methodLine (public_part info) = methodLine info"
  by (simp_all add: public_part_def isEnum_def isInterface_def is_nested_def stubbable_def headLine_def headWords_def
      superSource_def superBase_def interfaceSources_def classTypeParameters_def methodLine_def methodMods_def fun_eq_iff Let_def)

lemma public_part_lines:
  "enumConstants (public_part info) = (if isEnum info then enumConstants info else enumConstants (public_part info))"
  "fieldLines (public_part info) i = fieldLines info i"
  "methodLines (public_part info) n i = methodLines info n i"
proof -
  show "methodLines (public_part info) n i = methodLines info n i"
    unfolding methodLines_def public_part_simps
    by (simp add: public_part_def) (rule map_filter_filter, simp add: methodLine_def Let_def split_beta)
  have "filter (\<lambda>f. visibleMember f \<and> \<not> (isEnum info \<and> m_flags f AND accEnum \<noteq> 0)) (filter (shown_field info) fs)
      = filter (\<lambda>f. visibleMember f \<and> \<not> (isEnum info \<and> m_flags f AND accEnum \<noteq> 0)) fs" for fs
    by (induction fs) (auto simp: shown_field_def)
  then show "fieldLines (public_part info) i = fieldLines info i"
    unfolding fieldLines_def public_part_simps by (simp add: public_part_def)
  have "isEnum info \<Longrightarrow> filter (\<lambda>f. m_flags f AND accEnum \<noteq> 0 \<and> d f) (filter (shown_field info) fs)
      = filter (\<lambda>f. m_flags f AND accEnum \<noteq> 0 \<and> d f) fs" for fs d
    by (induction fs) (auto simp: shown_field_def)
  then show "enumConstants (public_part info) = (if isEnum info then enumConstants info else enumConstants (public_part info))"
    by (simp add: enumConstants_def) (simp add: public_part_def)
qed

lemma nestedOf_public: "nestedOf (map public_part classes) n = map public_part (nestedOf classes n)"
  by (induction classes) (simp_all add: nestedOf_def)

lemma typeDeclLines_public:
  "typeDeclLines (map public_part classes) (public_part info) n i b = typeDeclLines classes info n i b"
proof (induction classes info n i b rule: typeDeclLines.induct)
  case (1 classes info n i b)
  then have "concat (map (\<lambda>child. [] # typeDeclLines (map public_part classes) (public_part child) (after_last CHR ''$'' (ci_name child)) (i @ ''  '') True) (nestedOf classes (ci_name info)))
      = concat (map (\<lambda>child. [] # typeDeclLines classes child (after_last CHR ''$'' (ci_name child)) (i @ ''  '') True) (nestedOf classes (ci_name info)))"
    by (intro arg_cong [where f = concat] map_cong) simp_all
  then show ?case
    by (subst (1 2) typeDeclLines.simps) (simp add: public_part_lines nestedOf_public comp_def)
qed


end
