(* ===== verification/SyntaxKinds.thy ===== *)
theory SyntaxKinds
  imports GoPrelude
begin

text \<open>
  Token kinds and their spellings: \<open>togo/internal/compiler/kinds.go\<close> and \<open>keywords.go\<close>. The
  ranges \<open>FirstPunctuation .. LastPunctuation\<close> and \<open>FirstKeyword .. LastKeyword\<close> of the integer
  enumeration are datatypes of their own, in the order of the source, so a range test is a
  constructor; the kinds of tokens that are neither stand beside them. The trivia kinds are never
  produced, and the node kinds belong to the tree.
\<close>

section \<open>Kinds\<close>

datatype (plugins only: code) Punctuation =
    OpenBraceToken | CloseBraceToken | OpenParenToken | CloseParenToken | OpenBracketToken
  | CloseBracketToken | DotToken | DotDotDotToken | SemicolonToken | CommaToken
  | AtToken | ColonColonToken | ArrowToken | LessThanToken | GreaterThanToken
  | LessThanEqualsToken | GreaterThanEqualsToken | EqualsEqualsToken | ExclamationEqualsToken | AmpersandAmpersandToken
  | BarBarToken | ExclamationToken | AmpersandToken | BarToken | CaretToken
  | TildeToken | LessThanLessThanToken | GreaterThanGreaterThanToken | GreaterThanGreaterThanGreaterThanToken | PlusToken
  | MinusToken | AsteriskToken | SlashToken | PercentToken | PlusPlusToken
  | MinusMinusToken | EqualsToken | PlusEqualsToken | MinusEqualsToken | AsteriskEqualsToken
  | SlashEqualsToken | PercentEqualsToken | AmpersandEqualsToken | BarEqualsToken | CaretEqualsToken
  | LessThanLessThanEqualsToken | GreaterThanGreaterThanEqualsToken | GreaterThanGreaterThanGreaterThanEqualsToken | QuestionToken | ColonToken

datatype (plugins only: code) Keyword =
    AbstractKeyword | AssertKeyword | BooleanKeyword | BreakKeyword | ByteKeyword
  | CaseKeyword | CatchKeyword | CharKeyword | ClassKeyword | ConstKeyword
  | ContinueKeyword | DefaultKeyword | DoKeyword | DoubleKeyword | ElseKeyword
  | EnumKeyword | ExtendsKeyword | FinalKeyword | FinallyKeyword | FloatKeyword
  | ForKeyword | GotoKeyword | IfKeyword | ImplementsKeyword | ImportKeyword
  | InstanceofKeyword | IntKeyword | InterfaceKeyword | LongKeyword | NativeKeyword
  | NewKeyword | PackageKeyword | PrivateKeyword | ProtectedKeyword | PublicKeyword
  | ReturnKeyword | ShortKeyword | StaticKeyword | StrictfpKeyword | SuperKeyword
  | SwitchKeyword | SynchronizedKeyword | ThisKeyword | ThrowKeyword | ThrowsKeyword
  | TransientKeyword | TryKeyword | VoidKeyword | VolatileKeyword | WhileKeyword
  | TrueKeyword | FalseKeyword | NullKeyword

datatype SyntaxKind =
    Unknown | EndOfFileToken
  | NumericLiteral | CharacterLiteral | StringLiteral | TextBlockLiteral
  | Punct Punctuation
  | Reserved Keyword
  | Identifier

definition IsKeyword :: "SyntaxKind \<Rightarrow> bool" where
  "IsKeyword k = (case k of Reserved _ \<Rightarrow> True | _ \<Rightarrow> False)"

definition IsReservedWord :: "SyntaxKind \<Rightarrow> bool" where
  "IsReservedWord k = (case k of Reserved w \<Rightarrow> w \<noteq> TrueKeyword \<and> w \<noteq> FalseKeyword \<and> w \<noteq> NullKeyword | _ \<Rightarrow> False)"

section \<open>Flags\<close>

text \<open>\<open>TokenFlags\<close> is a \<open>uint32\<close> of one bit per lexical property.\<close>

type_synonym TokenFlags = "32 word"

definition PrecedingLineBreak :: TokenFlags where "PrecedingLineBreak = 1"
definition Unterminated :: TokenFlags where "Unterminated = 2"
definition HexSpecifier :: TokenFlags where "HexSpecifier = 4"
definition BinarySpecifier :: TokenFlags where "BinarySpecifier = 8"
definition OctalSpecifier :: TokenFlags where "OctalSpecifier = 16"
definition ContainsUnderscore :: TokenFlags where "ContainsUnderscore = 32"
definition LongSuffix :: TokenFlags where "LongSuffix = 64"
definition FloatSuffix :: TokenFlags where "FloatSuffix = 128"
definition DoubleSuffix :: TokenFlags where "DoubleSuffix = 256"

section \<open>Spellings\<close>

text \<open>The entries of the map \<open>textToKeyword\<close>; \<open>keywordText\<close> is built from the same entries.\<close>

definition keyword_table :: "(string \<times> Keyword) list" where
  "keyword_table =
    [(''abstract'', AbstractKeyword), (''assert'', AssertKeyword), (''boolean'', BooleanKeyword),
     (''break'', BreakKeyword), (''byte'', ByteKeyword), (''case'', CaseKeyword),
     (''catch'', CatchKeyword), (''char'', CharKeyword), (''class'', ClassKeyword),
     (''const'', ConstKeyword), (''continue'', ContinueKeyword), (''default'', DefaultKeyword),
     (''do'', DoKeyword), (''double'', DoubleKeyword), (''else'', ElseKeyword),
     (''enum'', EnumKeyword), (''extends'', ExtendsKeyword), (''final'', FinalKeyword),
     (''finally'', FinallyKeyword), (''float'', FloatKeyword), (''for'', ForKeyword),
     (''goto'', GotoKeyword), (''if'', IfKeyword), (''implements'', ImplementsKeyword),
     (''import'', ImportKeyword), (''instanceof'', InstanceofKeyword), (''int'', IntKeyword),
     (''interface'', InterfaceKeyword), (''long'', LongKeyword), (''native'', NativeKeyword),
     (''new'', NewKeyword), (''package'', PackageKeyword), (''private'', PrivateKeyword),
     (''protected'', ProtectedKeyword), (''public'', PublicKeyword), (''return'', ReturnKeyword),
     (''short'', ShortKeyword), (''static'', StaticKeyword), (''strictfp'', StrictfpKeyword),
     (''super'', SuperKeyword), (''switch'', SwitchKeyword), (''synchronized'', SynchronizedKeyword),
     (''this'', ThisKeyword), (''throw'', ThrowKeyword), (''throws'', ThrowsKeyword),
     (''transient'', TransientKeyword), (''try'', TryKeyword), (''void'', VoidKeyword),
     (''volatile'', VolatileKeyword), (''while'', WhileKeyword), (''true'', TrueKeyword),
     (''false'', FalseKeyword), (''null'', NullKeyword)]"

definition textToKeyword :: "string \<Rightarrow> SyntaxKind option" where
  "textToKeyword s = map_option Reserved (map_of keyword_table s)"

definition keywordText :: "Keyword \<Rightarrow> string option" where
  "keywordText k = map_of (map (\<lambda>(s, k). (k, s)) keyword_table) k"

fun punctuationText :: "Punctuation \<Rightarrow> string" where
  "punctuationText OpenBraceToken = ''{''"
| "punctuationText CloseBraceToken = ''}''"
| "punctuationText OpenParenToken = ''(''"
| "punctuationText CloseParenToken = '')''"
| "punctuationText OpenBracketToken = ''[''"
| "punctuationText CloseBracketToken = '']''"
| "punctuationText DotToken = ''.''"
| "punctuationText DotDotDotToken = ''...''"
| "punctuationText SemicolonToken = '';''"
| "punctuationText CommaToken = '',''"
| "punctuationText AtToken = ''@''"
| "punctuationText ColonColonToken = ''::''"
| "punctuationText ArrowToken = ''->''"
| "punctuationText LessThanToken = ''<''"
| "punctuationText GreaterThanToken = ''>''"
| "punctuationText LessThanEqualsToken = ''<=''"
| "punctuationText GreaterThanEqualsToken = ''>=''"
| "punctuationText EqualsEqualsToken = ''==''"
| "punctuationText ExclamationEqualsToken = ''!=''"
| "punctuationText AmpersandAmpersandToken = ''&&''"
| "punctuationText BarBarToken = ''||''"
| "punctuationText ExclamationToken = ''!''"
| "punctuationText AmpersandToken = ''&''"
| "punctuationText BarToken = ''|''"
| "punctuationText CaretToken = ''^''"
| "punctuationText TildeToken = ''~''"
| "punctuationText LessThanLessThanToken = ''<<''"
| "punctuationText GreaterThanGreaterThanToken = ''>>''"
| "punctuationText GreaterThanGreaterThanGreaterThanToken = ''>>>''"
| "punctuationText PlusToken = ''+''"
| "punctuationText MinusToken = ''-''"
| "punctuationText AsteriskToken = ''*''"
| "punctuationText SlashToken = ''/''"
| "punctuationText PercentToken = ''%''"
| "punctuationText PlusPlusToken = ''++''"
| "punctuationText MinusMinusToken = ''--''"
| "punctuationText EqualsToken = ''=''"
| "punctuationText PlusEqualsToken = ''+=''"
| "punctuationText MinusEqualsToken = ''-=''"
| "punctuationText AsteriskEqualsToken = ''*=''"
| "punctuationText SlashEqualsToken = ''/=''"
| "punctuationText PercentEqualsToken = ''%=''"
| "punctuationText AmpersandEqualsToken = ''&=''"
| "punctuationText BarEqualsToken = ''|=''"
| "punctuationText CaretEqualsToken = ''^=''"
| "punctuationText LessThanLessThanEqualsToken = ''<<=''"
| "punctuationText GreaterThanGreaterThanEqualsToken = ''>>=''"
| "punctuationText GreaterThanGreaterThanGreaterThanEqualsToken = ''>>>=''"
| "punctuationText QuestionToken = ''?''"
| "punctuationText ColonToken = '':''"

text \<open>\<open>tokenToString\<close>: the empty string for a kind without a canonical spelling.\<close>

definition tokenToString :: "SyntaxKind \<Rightarrow> string" where
  "tokenToString kind =
     (case kind of
        Punct p \<Rightarrow> punctuationText p
      | Reserved k \<Rightarrow> (case keywordText k of Some s \<Rightarrow> s | None \<Rightarrow> [])
      | _ \<Rightarrow> [])"

end
