(* ===== verification/Scanner.thy ===== *)
theory Scanner
  imports SyntaxKinds GoUtf8
begin

unbundle bit_operations_syntax

text \<open>
  The lexical scanner: \<open>togo/internal/compiler/scanner.go\<close>. The state is the Go struct with the
  errors the callback received so far; a character code is an integer, -1 past the end of the text,
  as \<open>charCodeAt\<close> has it. A slice out of range panics, which is \<open>None\<close>. The theory
  \<open>ScannerCorrect\<close> proves what a run of the scanner does to a text.
\<close>

section \<open>State\<close>

datatype DiagnosticMessage =
    UnterminatedComment | InvalidCharacter
  | HexadecimalDigitExpected | DigitExpected | BinaryDigitExpected
  | UnterminatedStringLiteral | UnterminatedCharacterLiteral

record Scanner =
  source_text :: string
  source_end :: nat
  s_pos :: nat
  fullStartPos :: nat
  tokenStart :: nat
  token :: SyntaxKind
  tokenValue :: string
  tokenFlags :: TokenFlags
  errors :: "(DiagnosticMessage \<times> nat \<times> nat) list"

definition NewScanner :: "string \<Rightarrow> Scanner" where
  "NewScanner t =
     \<lparr>source_text = t, source_end = length t, s_pos = 0, fullStartPos = 0, tokenStart = 0, token = Unknown,
      tokenValue = [], tokenFlags = 0, errors = []\<rparr>"

definition ResetTokenState :: "nat \<Rightarrow> Scanner \<Rightarrow> Scanner" where
  "ResetTokenState position s =
     s\<lparr>s_pos := position, fullStartPos := position, tokenStart := position, token := Unknown,
       tokenValue := [], tokenFlags := 0\<rparr>"

text \<open>\<open>SetText\<close>: no length is Go's negative one.\<close>

definition SetText :: "string \<Rightarrow> nat \<Rightarrow> nat option \<Rightarrow> Scanner \<Rightarrow> Scanner" where
  "SetText newText start len s =
     ResetTokenState start
       (s\<lparr>source_text := newText,
          source_end := (case len of None \<Rightarrow> length newText | Some n \<Rightarrow> start + n)\<rparr>)"

definition charCodeAt :: "Scanner \<Rightarrow> nat \<Rightarrow> int" where
  "charCodeAt s i = (if length (source_text s) \<le> i then -1 else of_char (source_text s ! i))"

definition scan_error :: "DiagnosticMessage \<Rightarrow> nat \<Rightarrow> nat \<Rightarrow> Scanner \<Rightarrow> Scanner" where
  "scan_error message at len s = s\<lparr>errors := errors s @ [(message, at, len)]\<rparr>"

definition advance :: "nat \<Rightarrow> Scanner \<Rightarrow> Scanner" where
  "advance n s = s\<lparr>s_pos := s_pos s + n\<rparr>"

definition add_flag :: "TokenFlags \<Rightarrow> Scanner \<Rightarrow> Scanner" where
  "add_flag f s = s\<lparr>tokenFlags := tokenFlags s OR f\<rparr>"

definition set_token :: "SyntaxKind \<Rightarrow> Scanner \<Rightarrow> Scanner" where
  "set_token kind s = s\<lparr>token := kind\<rparr>"

text \<open>The slice \<open>s.text[from:to]\<close>.\<close>

definition slice :: "string \<Rightarrow> nat \<Rightarrow> nat \<Rightarrow> string option" where
  "slice t a b = (if a \<le> b \<and> b \<le> length t then Some (take (b - a) (drop a t)) else None)"

definition TokenText :: "Scanner \<Rightarrow> string option" where
  "TokenText s = slice (source_text s) (tokenStart s) (s_pos s)"

definition HasPrecedingLineBreak :: "Scanner \<Rightarrow> bool" where
  "HasPrecedingLineBreak s \<longleftrightarrow> tokenFlags s AND PrecedingLineBreak \<noteq> 0"

definition text_as_value :: "SyntaxKind \<Rightarrow> Scanner \<Rightarrow> Scanner option" where
  "text_as_value kind s = map_option (\<lambda>v. set_token kind (s\<lparr>tokenValue := v\<rparr>)) (TokenText s)"

section \<open>Character classes\<close>

definition isLineBreak :: "int \<Rightarrow> bool" where
  "isLineBreak ch \<longleftrightarrow> ch = 0x0a \<or> ch = 0x0d"

definition isDigit :: "int \<Rightarrow> bool" where
  "isDigit ch \<longleftrightarrow> 0x30 \<le> ch \<and> ch \<le> 0x39"

definition isOctalDigit :: "int \<Rightarrow> bool" where
  "isOctalDigit ch \<longleftrightarrow> 0x30 \<le> ch \<and> ch \<le> 0x37"

definition isHexDigit :: "int \<Rightarrow> bool" where
  "isHexDigit ch \<longleftrightarrow> isDigit ch \<or> (0x41 \<le> ch \<and> ch \<le> 0x46) \<or> (0x61 \<le> ch \<and> ch \<le> 0x66)"

definition isBinaryDigit :: "int \<Rightarrow> bool" where
  "isBinaryDigit ch \<longleftrightarrow> ch = 0x30 \<or> ch = 0x31"

definition hexValue :: "int \<Rightarrow> int" where
  "hexValue ch =
     (if isDigit ch then ch - 0x30 else if 0x41 \<le> ch \<and> ch \<le> 0x46 then ch - 0x41 + 10 else ch - 0x61 + 10)"

definition isIdentifierStart :: "int \<Rightarrow> bool" where
  "isIdentifierStart ch \<longleftrightarrow>
     (0x41 \<le> ch \<and> ch \<le> 0x5a) \<or> (0x61 \<le> ch \<and> ch \<le> 0x7a) \<or> ch = 0x5f \<or> ch = 0x24 \<or> ch > 0x7f"

definition isIdentifierPart :: "int \<Rightarrow> bool" where
  "isIdentifierPart ch \<longleftrightarrow> isIdentifierStart ch \<or> isDigit ch"

section \<open>Frame conditions\<close>

text \<open>
  What every part of a scan keeps: the text, its end and where the token began; the position only
  moves forward. It is what the loops below terminate by.
\<close>

named_theorems kept_intros \<open>parts of a scan keep the text and move forward\<close>

definition kept :: "Scanner \<Rightarrow> Scanner \<Rightarrow> bool" where
  "kept s s' \<longleftrightarrow>
     source_text s' = source_text s \<and> source_end s' = source_end s \<and> tokenStart s' = tokenStart s
     \<and> fullStartPos s' = fullStartPos s \<and> s_pos s \<le> s_pos s'"

lemma kept_refl [intro, simp]: "kept s s"
  by (simp add: kept_def)

lemma kept_trans: "kept s t \<Longrightarrow> kept t u \<Longrightarrow> kept s u"
  by (simp add: kept_def)

lemma kept_advance [kept_intros]: "kept s t \<Longrightarrow> kept s (advance n t)"
  by (simp add: kept_def advance_def)

lemma kept_add_flag [kept_intros]: "kept s t \<Longrightarrow> kept s (add_flag f t)"
  by (simp add: kept_def add_flag_def)

lemma kept_scan_error [kept_intros]: "kept s t \<Longrightarrow> kept s (scan_error m i n t)"
  by (simp add: kept_def scan_error_def)

lemma kept_set_token [kept_intros]: "kept s t \<Longrightarrow> kept s (set_token k t)"
  by (simp add: kept_def set_token_def)

lemma kept_tokenValue [kept_intros]: "kept s t \<Longrightarrow> kept s (t\<lparr>tokenValue := v\<rparr>)"
  by (simp add: kept_def)

lemma s_pos_simps [simp]:
  "s_pos (advance n s) = s_pos s + n" "s_pos (add_flag f s) = s_pos s" "s_pos (scan_error m i n s) = s_pos s"
  "s_pos (set_token k s) = s_pos s"
  by (simp_all add: advance_def add_flag_def scan_error_def set_token_def)

lemma token_set_token [simp]: "token (set_token k s) = k"
  by (simp add: set_token_def)

lemma source_simps [simp]:
  "source_end (advance n s) = source_end s" "source_end (add_flag f s) = source_end s"
  "source_end (scan_error m i n s) = source_end s" "source_end (set_token k s) = source_end s"
  "source_text (advance n s) = source_text s" "source_text (add_flag f s) = source_text s"
  "source_text (scan_error m i n s) = source_text s" "source_text (set_token k s) = source_text s"
  by (simp_all add: advance_def add_flag_def scan_error_def set_token_def)

lemma charCodeAt_simps [simp]:
  "charCodeAt (advance n s) = charCodeAt s" "charCodeAt (add_flag f s) = charCodeAt s"
  "charCodeAt (scan_error m i n s) = charCodeAt s" "charCodeAt (set_token k s) = charCodeAt s"
  by (simp_all add: charCodeAt_def fun_eq_iff)

section \<open>Identifiers and numbers\<close>

function skip_identifier :: "Scanner \<Rightarrow> Scanner" where
  "skip_identifier s =
     (if s_pos s < source_end s \<and> isIdentifierPart (charCodeAt s (s_pos s)) then skip_identifier (advance 1 s) else s)"
  by pat_completeness auto
termination
  by (relation "measure (\<lambda>s. source_end s - s_pos s)") auto

declare skip_identifier.simps [simp del]

definition scanIdentifierOrKeyword :: "Scanner \<Rightarrow> Scanner option" where
  "scanIdentifierOrKeyword s0 =
     (let s = skip_identifier s0
      in case TokenText s of
           None \<Rightarrow> None
         | Some v \<Rightarrow>
             Some (set_token (case textToKeyword v of Some kw \<Rightarrow> kw | None \<Rightarrow> Identifier) (s\<lparr>tokenValue := v\<rparr>)))"

text \<open>\<open>scanDigitsWithUnderscores\<close>: whether any digit was seen, and the state after the run.\<close>

function digits_loop :: "(int \<Rightarrow> bool) \<Rightarrow> bool \<Rightarrow> Scanner \<Rightarrow> bool \<times> Scanner" where
  "digits_loop isDigitChar seen s =
     (if s_pos s < source_end s then
        (if isDigitChar (charCodeAt s (s_pos s)) then digits_loop isDigitChar True (advance 1 s)
         else if charCodeAt s (s_pos s) = 0x5f then
           digits_loop isDigitChar seen (advance 1 (add_flag ContainsUnderscore s))
         else (seen, s))
      else (seen, s))"
  by pat_completeness auto
termination
  by (relation "measure (\<lambda>(_, _, s). source_end s - s_pos s)") auto

declare digits_loop.simps [simp del]

definition scanDigitsWithUnderscores :: "(int \<Rightarrow> bool) \<Rightarrow> Scanner \<Rightarrow> bool \<times> Scanner" where
  "scanDigitsWithUnderscores isDigitChar s = digits_loop isDigitChar False s"

definition scanIntegerSuffix :: "Scanner \<Rightarrow> Scanner" where
  "scanIntegerSuffix s =
     (let suffix = charCodeAt s (s_pos s)
      in if suffix = 0x6c \<or> suffix = 0x4c then advance 1 (add_flag LongSuffix s) else s)"

definition finishNumber :: "Scanner \<Rightarrow> Scanner option" where
  "finishNumber s = text_as_value NumericLiteral s"

text \<open>The exponent of a number: an optional sign and the digits after the exponent letter.\<close>

definition scan_exponent :: "Scanner \<Rightarrow> Scanner" where
  "scan_exponent s =
     (let s1 = advance 1 s;
          s2 = (if charCodeAt s1 (s_pos s1) = 0x2b \<or> charCodeAt s1 (s_pos s1) = 0x2d then advance 1 s1 else s1);
          (seen, s3) = scanDigitsWithUnderscores isDigit s2
      in if seen then s3 else scan_error DigitExpected (s_pos s3) 0 s3)"

definition scan_float_suffix :: "Scanner \<Rightarrow> Scanner" where
  "scan_float_suffix s =
     (let ch = charCodeAt s (s_pos s)
      in if ch = 0x66 \<or> ch = 0x46 then advance 1 (add_flag FloatSuffix s)
         else if ch = 0x64 \<or> ch = 0x44 then advance 1 (add_flag DoubleSuffix s)
         else s)"

definition scan_hex_number :: "Scanner \<Rightarrow> Scanner option" where
  "scan_hex_number s =
     (let (hadDigits, s1) = scanDigitsWithUnderscores isHexDigit (advance 2 (add_flag HexSpecifier s));
          dotted = (charCodeAt s1 (s_pos s1) = 0x2e);
          s2 = (if dotted then snd (scanDigitsWithUnderscores isHexDigit (advance 1 s1))
                else if \<not> hadDigits then scan_error HexadecimalDigitExpected (s_pos s1) 0 s1 else s1);
          expo = (charCodeAt s2 (s_pos s2) = 0x70 \<or> charCodeAt s2 (s_pos s2) = 0x50);
          s3 = (if expo then scan_exponent s2 else s2)
      in finishNumber (if dotted \<or> expo then scan_float_suffix s3 else scanIntegerSuffix s3))"

definition scan_binary_number :: "Scanner \<Rightarrow> Scanner option" where
  "scan_binary_number s =
     (let (hadDigits, s1) = scanDigitsWithUnderscores isBinaryDigit (advance 2 (add_flag BinarySpecifier s));
          s2 = (if \<not> hadDigits then scan_error BinaryDigitExpected (s_pos s1) 0 s1 else s1)
      in finishNumber (scanIntegerSuffix s2))"

definition scan_decimal_number :: "Scanner \<Rightarrow> Scanner option" where
  "scan_decimal_number s =
     (let first = charCodeAt s (s_pos s);
          s1 = snd (scanDigitsWithUnderscores isDigit s);
          dotted = (charCodeAt s1 (s_pos s1) = 0x2e);
          s2 = (if dotted then snd (scanDigitsWithUnderscores isDigit (advance 1 s1)) else s1);
          expo = (charCodeAt s2 (s_pos s2) = 0x65 \<or> charCodeAt s2 (s_pos s2) = 0x45);
          s3 = (if expo then scan_exponent s2 else s2);
          isFloat = (dotted \<or> expo);
          suffix = charCodeAt s3 (s_pos s3)
      in finishNumber
          (if suffix = 0x66 \<or> suffix = 0x46 then advance 1 (add_flag FloatSuffix s3)
           else if suffix = 0x64 \<or> suffix = 0x44 then advance 1 (add_flag DoubleSuffix s3)
           else if \<not> isFloat \<and> (suffix = 0x6c \<or> suffix = 0x4c) then advance 1 (add_flag LongSuffix s3)
           else if \<not> isFloat \<and> first = 0x30 \<and> s_pos s3 - tokenStart s3 > 1 then add_flag OctalSpecifier s3
           else s3))"

definition scanNumber :: "Scanner \<Rightarrow> Scanner option" where
  "scanNumber s =
     (let first = charCodeAt s (s_pos s); next' = charCodeAt s (s_pos s + 1)
      in if first = 0x30 \<and> (next' = 0x78 \<or> next' = 0x58) then scan_hex_number s
         else if first = 0x30 \<and> (next' = 0x62 \<or> next' = 0x42) then scan_binary_number s
         else scan_decimal_number s)"

section \<open>Escapes and literals\<close>

text \<open>\<open>string(rune(v))\<close>: the UTF-8 encoding, that of U+FFFD for a surrogate.\<close>

definition rune_string :: "int \<Rightarrow> string" where
  "rune_string v =
     (if v < 0x80 then [char_of v]
      else if v < 0x800 then [char_of (0xC0 + v div 64), char_of (0x80 + v mod 64)]
      else let u = (if 0xD800 \<le> v \<and> v \<le> 0xDFFF then 0xFFFD else v)
           in [char_of (0xE0 + u div 4096), char_of (0x80 + u div 64 mod 64), char_of (0x80 + u mod 64)])"

function skip_us :: "Scanner \<Rightarrow> Scanner" where
  "skip_us s = (if charCodeAt s (s_pos s) = 0x75 then skip_us (advance 1 s) else s)"
  by pat_completeness auto
termination
  by (relation "measure (\<lambda>s. length (source_text s) - s_pos s)") (auto simp: charCodeAt_def split: if_splits)

declare skip_us.simps [simp del]

text \<open>At most \<open>n\<close> more digits; the number still missing is returned with the value.\<close>

fun hex_digits :: "nat \<Rightarrow> int \<Rightarrow> Scanner \<Rightarrow> nat \<times> int \<times> Scanner" where
  "hex_digits 0 value s = (0, value, s)"
| "hex_digits (Suc n) value s =
     (if isHexDigit (charCodeAt s (s_pos s))
      then hex_digits n (value * 16 + hexValue (charCodeAt s (s_pos s))) (advance 1 s)
      else (Suc n, value, s))"

fun octal_digits :: "nat \<Rightarrow> int \<Rightarrow> Scanner \<Rightarrow> int \<times> Scanner" where
  "octal_digits 0 value s = (value, s)"
| "octal_digits (Suc n) value s =
     (let ch = charCodeAt s (s_pos s)
      in if isOctalDigit ch \<and> value * 8 + (ch - 0x30) \<le> 0xff
         then octal_digits n (value * 8 + (ch - 0x30)) (advance 1 s)
         else (value, s))"

definition simple_escape :: "int \<Rightarrow> string option" where
  "simple_escape ch =
     (if ch = 0x62 then Some [CHR 0x08]
      else if ch = 0x74 then Some [CHR 0x09]
      else if ch = 0x6e then Some [LF]
      else if ch = 0x66 then Some [CHR 0x0C]
      else if ch = 0x72 then Some [CR]
      else if ch = 0x73 then Some [CHR '' '']
      else if ch = 0x22 then Some [CHR 0x22]
      else if ch = 0x27 then Some [CHR 0x27]
      else if ch = 0x5c then Some [CHR 0x5C]
      else None)"

definition scanEscapeSequence :: "Scanner \<Rightarrow> string \<times> Scanner" where
  "scanEscapeSequence s0 =
     (let s1 = advance 1 s0
      in if length (source_text s1) \<le> s_pos s1 then ([CHR 0x5C], s1)
         else
           (let ch = charCodeAt s1 (s_pos s1); s = advance 1 s1
            in case simple_escape ch of
                 Some v \<Rightarrow> (v, s)
               | None \<Rightarrow>
                   if ch = 0x75 then
                     (let (missing, value, s') = hex_digits 4 0 (skip_us s)
                      in (rune_string value,
                          if 0 < missing then scan_error HexadecimalDigitExpected (s_pos s') 0 s' else s'))
                   else if isOctalDigit ch then
                     (let (value, s') = octal_digits 2 (ch - 0x30) s in (rune_string value, s'))
                   else (rune_string ch, s)))"

lemma kept_skip_us [kept_intros]: "kept s t \<Longrightarrow> kept s (skip_us t)"
  by (induction t rule: skip_us.induct) (subst skip_us.simps, auto intro: kept_intros)

lemma kept_hex_digits: "kept s t \<Longrightarrow> kept s (snd (snd (hex_digits n v t)))"
  by (induction n v t rule: hex_digits.induct) (auto intro: kept_intros)

lemma kept_octal_digits: "kept s t \<Longrightarrow> kept s (snd (octal_digits n v t))"
  by (induction n v t rule: octal_digits.induct) (auto intro: kept_intros simp: Let_def)

lemma kept_scanEscapeSequence: "kept (advance 1 s) (snd (scanEscapeSequence s))"
  using kept_hex_digits [of "advance 1 s" "skip_us (advance 1 (advance 1 s))" 4 0]
    kept_octal_digits [of "advance 1 s" "advance 1 (advance 1 s)" 2]
  by (auto simp: scanEscapeSequence_def Let_def split_beta intro: kept_intros split: option.split)

text \<open>The loop over the characters of a string or character literal.\<close>

function literal_loop :: "int \<Rightarrow> DiagnosticMessage \<Rightarrow> string \<Rightarrow> Scanner \<Rightarrow> (string \<times> Scanner) option" where
  "literal_loop quote unterminated value s =
     (let ch = charCodeAt s (s_pos s)
      in if source_end s \<le> s_pos s \<or> isLineBreak ch then
           Some (value, scan_error unterminated (tokenStart s) (s_pos s - tokenStart s) (add_flag Unterminated s))
         else if ch = quote then Some (value, advance 1 s)
         else if ch = 0x5c then
           literal_loop quote unterminated (value @ fst (scanEscapeSequence s)) (snd (scanEscapeSequence s))
         else if length (source_text s) \<le> s_pos s then None
         else literal_loop quote unterminated (value @ [source_text s ! s_pos s]) (advance 1 s))"
  by pat_completeness auto
termination
proof (relation "measure (\<lambda>(_, _, _, s). source_end s - s_pos s)", goal_cases)
  case (2 q u v s ch)
  then show ?case using kept_scanEscapeSequence [of s] by (auto simp: kept_def)
qed auto

declare literal_loop.simps [simp del]

definition literal_value :: "SyntaxKind \<Rightarrow> (string \<times> Scanner) option \<Rightarrow> Scanner option" where
  "literal_value kind r = map_option (\<lambda>(v, s). set_token kind (s\<lparr>tokenValue := v\<rparr>)) r"

function text_block_loop :: "Scanner \<Rightarrow> bool \<times> Scanner" where
  "text_block_loop s =
     (if s_pos s < source_end s then
        (if charCodeAt s (s_pos s) = 0x22 \<and> charCodeAt s (s_pos s + 1) = 0x22 \<and> charCodeAt s (s_pos s + 2) = 0x22
         then (True, advance 3 s)
         else if charCodeAt s (s_pos s) = 0x5c then text_block_loop (advance 2 s)
         else text_block_loop (advance 1 s))
      else (False, s))"
  by pat_completeness auto
termination
  by (relation "measure (\<lambda>s. source_end s - s_pos s)") auto

declare text_block_loop.simps [simp del]

definition scanTextBlock :: "Scanner \<Rightarrow> Scanner option" where
  "scanTextBlock s0 =
     (let (closed, s) = text_block_loop (advance 3 s0)
      in if closed then text_as_value TextBlockLiteral s
         else text_as_value TextBlockLiteral
           (scan_error UnterminatedStringLiteral (tokenStart s) (s_pos s - tokenStart s) (add_flag Unterminated s)))"

definition scanStringOrTextBlock :: "Scanner \<Rightarrow> Scanner option" where
  "scanStringOrTextBlock s =
     (if charCodeAt s (s_pos s + 1) = 0x22 \<and> charCodeAt s (s_pos s + 2) = 0x22 then scanTextBlock s
      else literal_value StringLiteral (literal_loop 0x22 UnterminatedStringLiteral [] (advance 1 s)))"

definition scanCharacterLiteral :: "Scanner \<Rightarrow> Scanner option" where
  "scanCharacterLiteral s =
     literal_value CharacterLiteral (literal_loop 0x27 UnterminatedCharacterLiteral [] (advance 1 s))"

section \<open>Punctuation\<close>

text \<open>
  The cases of \<open>Scan\<close> for punctuation, by the character and the two after it: how far the position
  moves and the token. A \<open>>\<close> stands alone; \<open>ReScanGreaterToken\<close> merges it on demand.
\<close>

definition punct_at :: "int \<Rightarrow> int \<Rightarrow> int \<Rightarrow> (nat \<times> Punctuation) option" where
  "punct_at ch c1 c2 =
     (if ch = 0x2f then Some (if c1 = 0x3d then (2, SlashEqualsToken) else (1, SlashToken))
      else if ch = 0x7b then Some (1, OpenBraceToken)
      else if ch = 0x7d then Some (1, CloseBraceToken)
      else if ch = 0x28 then Some (1, OpenParenToken)
      else if ch = 0x29 then Some (1, CloseParenToken)
      else if ch = 0x5b then Some (1, OpenBracketToken)
      else if ch = 0x5d then Some (1, CloseBracketToken)
      else if ch = 0x3b then Some (1, SemicolonToken)
      else if ch = 0x2c then Some (1, CommaToken)
      else if ch = 0x40 then Some (1, AtToken)
      else if ch = 0x3f then Some (1, QuestionToken)
      else if ch = 0x7e then Some (1, TildeToken)
      else if ch = 0x3a then Some (if c1 = 0x3a then (2, ColonColonToken) else (1, ColonToken))
      else if ch = 0x2e then Some (if c1 = 0x2e \<and> c2 = 0x2e then (3, DotDotDotToken) else (1, DotToken))
      else if ch = 0x2b then
        Some (if c1 = 0x2b then (2, PlusPlusToken) else if c1 = 0x3d then (2, PlusEqualsToken) else (1, PlusToken))
      else if ch = 0x2d then
        Some (if c1 = 0x2d then (2, MinusMinusToken) else if c1 = 0x3d then (2, MinusEqualsToken)
              else if c1 = 0x3e then (2, ArrowToken) else (1, MinusToken))
      else if ch = 0x2a then Some (if c1 = 0x3d then (2, AsteriskEqualsToken) else (1, AsteriskToken))
      else if ch = 0x25 then Some (if c1 = 0x3d then (2, PercentEqualsToken) else (1, PercentToken))
      else if ch = 0x3d then Some (if c1 = 0x3d then (2, EqualsEqualsToken) else (1, EqualsToken))
      else if ch = 0x21 then Some (if c1 = 0x3d then (2, ExclamationEqualsToken) else (1, ExclamationToken))
      else if ch = 0x26 then
        Some (if c1 = 0x26 then (2, AmpersandAmpersandToken) else if c1 = 0x3d then (2, AmpersandEqualsToken)
              else (1, AmpersandToken))
      else if ch = 0x7c then
        Some (if c1 = 0x7c then (2, BarBarToken) else if c1 = 0x3d then (2, BarEqualsToken) else (1, BarToken))
      else if ch = 0x5e then Some (if c1 = 0x3d then (2, CaretEqualsToken) else (1, CaretToken))
      else if ch = 0x3c then
        Some (if c1 = 0x3c then (if c2 = 0x3d then (3, LessThanLessThanEqualsToken) else (2, LessThanLessThanToken))
              else if c1 = 0x3d then (2, LessThanEqualsToken) else (1, LessThanToken))
      else if ch = 0x3e then Some (1, GreaterThanToken)
      else None)"

section \<open>Scan\<close>

text \<open>What \<open>Scan\<close> does once the trivia are behind it, with \<open>tokenStart\<close> at the position.\<close>

definition scan_token :: "Scanner \<Rightarrow> Scanner option" where
  "scan_token s =
     (let ch = charCodeAt s (s_pos s); c1 = charCodeAt s (s_pos s + 1); c2 = charCodeAt s (s_pos s + 2)
      in if ch = 0x2e \<and> isDigit c1 then scanNumber s
         else case punct_at ch c1 c2 of
             Some (n, p) \<Rightarrow> Some (set_token (Punct p) (advance n s))
           | None \<Rightarrow>
               if ch = 0x22 then scanStringOrTextBlock s
               else if ch = 0x27 then scanCharacterLiteral s
               else if isDigit ch then scanNumber s
               else if isIdentifierStart ch then scanIdentifierOrKeyword s
               else Some (set_token Unknown (advance 1 (scan_error InvalidCharacter (s_pos s) 1 s))))"

function skip_line :: "Scanner \<Rightarrow> Scanner" where
  "skip_line s =
     (if s_pos s < source_end s \<and> \<not> isLineBreak (charCodeAt s (s_pos s)) then skip_line (advance 1 s) else s)"
  by pat_completeness auto
termination
  by (relation "measure (\<lambda>s. source_end s - s_pos s)") auto

declare skip_line.simps [simp del]

function skip_block :: "Scanner \<Rightarrow> bool \<times> Scanner" where
  "skip_block s =
     (if s_pos s < source_end s then
        (if charCodeAt s (s_pos s) = 0x2a \<and> charCodeAt s (s_pos s + 1) = 0x2f then (True, advance 2 s)
         else skip_block
           (advance 1 (if isLineBreak (charCodeAt s (s_pos s)) then add_flag PrecedingLineBreak s else s)))
      else (False, s))"
  by pat_completeness auto
termination
  by (relation "measure (\<lambda>s. source_end s - s_pos s)") auto

declare skip_block.simps [simp del]

definition skip_comment :: "Scanner \<Rightarrow> Scanner" where
  "skip_comment s0 =
     (let (closed, s) = skip_block s0
      in if closed then s
         else scan_error UnterminatedComment (tokenStart s) (s_pos s - tokenStart s) (add_flag Unterminated s))"

lemma kept_skip_line [kept_intros]: "kept s t \<Longrightarrow> kept s (skip_line t)"
  by (induction t rule: skip_line.induct) (subst skip_line.simps, auto intro: kept_intros)

lemma kept_skip_block: "kept s t \<Longrightarrow> kept s (snd (skip_block t))"
proof (induction t rule: skip_block.induct)
  case (1 t)
  from 1(2) have "kept s (advance 1 (if isLineBreak (charCodeAt t (s_pos t)) then add_flag PrecedingLineBreak t else t))"
    by (auto intro: kept_intros)
  with 1(1) 1(2) show ?case
    by (subst skip_block.simps) (auto simp del: One_nat_def intro: kept_intros)
qed

lemma kept_skip_comment [kept_intros]: "kept s t \<Longrightarrow> kept s (skip_comment t)"
  using kept_skip_block [of s t] by (auto simp: skip_comment_def split_beta Let_def intro: kept_intros)

definition isBlank :: "int \<Rightarrow> bool" where
  "isBlank ch \<longleftrightarrow> ch = 0x20 \<or> ch = 0x09 \<or> ch = 0x0c \<or> ch = 0x0b"

function scan_loop :: "Scanner \<Rightarrow> Scanner option" where
  "scan_loop s0 =
     (let s = s0\<lparr>tokenStart := s_pos s0\<rparr>; ch = charCodeAt s (s_pos s); c1 = charCodeAt s (s_pos s + 1)
      in if source_end s \<le> s_pos s then Some (set_token EndOfFileToken s)
         else if isLineBreak ch then scan_loop (advance 1 (add_flag PrecedingLineBreak s))
         else if isBlank ch then scan_loop (advance 1 s)
         else if ch = 0x2f \<and> c1 = 0x2f then scan_loop (skip_line (advance 2 s))
         else if ch = 0x2f \<and> c1 = 0x2a then scan_loop (skip_comment (advance 2 s))
         else scan_token s)"
  by pat_completeness auto
termination
proof (relation "measure (\<lambda>s. source_end s - s_pos s)", goal_cases)
  case (4 s0 s ch c1)
  then show ?case using kept_skip_line [OF kept_refl, of "advance 2 s"] by (auto simp: kept_def)
next
  case (5 s0 s ch c1)
  then show ?case using kept_skip_comment [OF kept_refl, of "advance 2 s"] by (auto simp: kept_def)
qed auto

declare scan_loop.simps [simp del]

definition Scan :: "Scanner \<Rightarrow> Scanner option" where
  "Scan s = scan_loop (s\<lparr>fullStartPos := s_pos s, tokenFlags := 0, tokenValue := []\<rparr>)"

section \<open>Rescanning and speculation\<close>

definition ReScanGreaterToken :: "Scanner \<Rightarrow> Scanner" where
  "ReScanGreaterToken s =
     (let c0 = charCodeAt s (s_pos s); c1 = charCodeAt s (s_pos s + 1); c2 = charCodeAt s (s_pos s + 2)
      in if token s = Punct GreaterThanToken then
           (if c0 = 0x3e then
              (if c1 = 0x3e then
                 (if c2 = 0x3d then set_token (Punct GreaterThanGreaterThanGreaterThanEqualsToken) (advance 3 s)
                  else set_token (Punct GreaterThanGreaterThanGreaterThanToken) (advance 2 s))
               else if c1 = 0x3d then set_token (Punct GreaterThanGreaterThanEqualsToken) (advance 2 s)
               else set_token (Punct GreaterThanGreaterThanToken) (advance 1 s))
            else if c0 = 0x3d then set_token (Punct GreaterThanEqualsToken) (advance 1 s)
            else s)
         else s)"

record scanState =
  st_pos :: nat
  st_fullStartPos :: nat
  st_tokenStart :: nat
  st_token :: SyntaxKind
  st_tokenValue :: string
  st_tokenFlags :: TokenFlags

definition snapshot :: "Scanner \<Rightarrow> scanState" where
  "snapshot s =
     \<lparr>st_pos = s_pos s, st_fullStartPos = fullStartPos s, st_tokenStart = tokenStart s, st_token = token s,
      st_tokenValue = tokenValue s, st_tokenFlags = tokenFlags s\<rparr>"

definition restore :: "scanState \<Rightarrow> Scanner \<Rightarrow> Scanner" where
  "restore st s =
     s\<lparr>s_pos := st_pos st, fullStartPos := st_fullStartPos st, tokenStart := st_tokenStart st, token := st_token st,
       tokenValue := st_tokenValue st, tokenFlags := st_tokenFlags st\<rparr>"

text \<open>A callback reads the scanner and may panic; \<open>TryScan\<close> restores on the zero value of its type.\<close>

definition LookAhead :: "(Scanner \<Rightarrow> ('a \<times> Scanner) option) \<Rightarrow> Scanner \<Rightarrow> ('a \<times> Scanner) option" where
  "LookAhead cb s = map_option (\<lambda>(result, s'). (result, restore (snapshot s) s')) (cb s)"

definition TryScan :: "'a \<Rightarrow> (Scanner \<Rightarrow> ('a \<times> Scanner) option) \<Rightarrow> Scanner \<Rightarrow> ('a \<times> Scanner) option" where
  "TryScan zero cb s =
     map_option (\<lambda>(result, s'). (result, if result = zero then restore (snapshot s) s' else s')) (cb s)"

end
