(* ===== verification/ScannerCorrect.thy ===== *)
theory ScannerCorrect
  imports Scanner
begin

unbundle bit_operations_syntax

text \<open>
  What a run of the scanner does to a text. A scan moves forward and never leaves the text
  (\<open>inside\<close>), so the run of scans to the end of the file terminates; its tokens, each with the trivia
  before it, partition the text.
\<close>

section \<open>Staying inside the text\<close>

named_theorems inside_intros \<open>parts of a scan stay inside the text\<close>

definition inside :: "Scanner \<Rightarrow> bool" where
  "inside s \<longleftrightarrow> source_end s = length (source_text s) \<and> s_pos s \<le> length (source_text s)"

lemma charCodeAt_in_text: "charCodeAt s i \<noteq> -1 \<Longrightarrow> i < length (source_text s)"
  by (simp add: charCodeAt_def split: if_splits)

lemma inside_advance1: "inside s \<Longrightarrow> charCodeAt s (s_pos s) \<noteq> -1 \<Longrightarrow> inside (advance (Suc 0) s)"
  using charCodeAt_in_text [of s "s_pos s"] by (simp add: inside_def)

lemma inside_simps [simp]:
  "inside (add_flag f s) = inside s" "inside (scan_error m i n s) = inside s" "inside (set_token k s) = inside s"
  "inside (s\<lparr>tokenValue := v\<rparr>) = inside s"
  by (simp_all add: inside_def)

lemma inside_char: "inside s \<Longrightarrow> s_pos s < source_end s \<Longrightarrow> inside (advance (Suc 0) s)"
  by (simp add: inside_def)

lemma class_minus_one [simp]:
  "\<not> isDigit (-1)" "\<not> isHexDigit (-1)" "\<not> isOctalDigit (-1)" "\<not> isBinaryDigit (-1)" "\<not> isIdentifierStart (-1)"
  "\<not> isIdentifierPart (-1)" "\<not> isLineBreak (-1)"
  by (simp_all add: isDigit_def isHexDigit_def isOctalDigit_def isBinaryDigit_def isIdentifierStart_def
        isIdentifierPart_def isLineBreak_def)

section \<open>Identifiers and numbers\<close>

lemma kept_skip_identifier [kept_intros]: "kept s t \<Longrightarrow> kept s (skip_identifier t)"
  by (induction t rule: skip_identifier.induct) (subst skip_identifier.simps, auto intro: kept_intros)

lemma inside_skip_identifier [inside_intros]: "inside t \<Longrightarrow> inside (skip_identifier t)"
  by (induction t rule: skip_identifier.induct) (subst skip_identifier.simps, auto intro: inside_char)

lemma kept_digits_loop: "kept s t \<Longrightarrow> kept s (snd (digits_loop p b t))"
proof (induction p b t rule: digits_loop.induct)
  case (1 p b t)
  then show ?case by (subst digits_loop.simps) (auto simp: kept_intros)
qed

lemma inside_digits_loop: "inside t \<Longrightarrow> inside (snd (digits_loop p b t))"
proof (induction p b t rule: digits_loop.induct)
  case (1 p b t)
  then show ?case by (subst digits_loop.simps) (auto simp: inside_char)
qed

lemma kept_digits [kept_intros]: "kept s t \<Longrightarrow> kept s (snd (scanDigitsWithUnderscores p t))"
  by (simp add: scanDigitsWithUnderscores_def kept_digits_loop)

lemma inside_digits [inside_intros]: "inside t \<Longrightarrow> inside (snd (scanDigitsWithUnderscores p t))"
  by (simp add: scanDigitsWithUnderscores_def inside_digits_loop)

lemma kept_suffix [kept_intros]: "kept s t \<Longrightarrow> kept s (scanIntegerSuffix t)" "kept s t \<Longrightarrow> kept s (scan_float_suffix t)"
  by (auto simp: scanIntegerSuffix_def scan_float_suffix_def Let_def intro: kept_intros)

lemma inside_suffix [inside_intros]: "inside t \<Longrightarrow> inside (scanIntegerSuffix t)" "inside t \<Longrightarrow> inside (scan_float_suffix t)"
  by (auto simp: scanIntegerSuffix_def scan_float_suffix_def Let_def intro!: inside_advance1)

lemma kept_exponent [kept_intros]: "kept s t \<Longrightarrow> kept s (scan_exponent t)"
  by (auto simp: scan_exponent_def Let_def split_beta intro!: kept_intros)

lemma inside_exponent: "inside t \<Longrightarrow> charCodeAt t (s_pos t) \<noteq> -1 \<Longrightarrow> inside (scan_exponent t)"
  using inside_advance1 [of t] inside_advance1 [of "advance (Suc 0) t"]
  by (auto simp: scan_exponent_def Let_def split_beta intro!: inside_intros)

lemma kept_text_as_value: "kept s t \<Longrightarrow> text_as_value kind t = Some s' \<Longrightarrow> kept s s'"
  by (auto simp: text_as_value_def intro!: kept_intros)

lemma inside_text_as_value: "source_end t = length (source_text t) \<Longrightarrow> text_as_value kind t = Some s' \<Longrightarrow> inside s'"
  by (auto simp: text_as_value_def TokenText_def slice_def inside_def split: if_splits)

lemma text_as_value_token: "text_as_value kind t = Some s' \<Longrightarrow> token s' = kind"
  by (auto simp: text_as_value_def set_token_def)

lemma TokenText_Some: "tokenStart t \<le> s_pos t \<Longrightarrow> inside t \<Longrightarrow> \<exists>v. TokenText t = Some v"
  by (simp add: TokenText_def slice_def inside_def)

text \<open>One token has been read: forward, inside the text, and it is not the end of the file.\<close>

definition token_read :: "Scanner \<Rightarrow> Scanner \<Rightarrow> bool" where
  "token_read s s' \<longleftrightarrow> kept s s' \<and> s_pos s < s_pos s' \<and> token s' \<noteq> EndOfFileToken"

lemma token_readI: "kept (advance 1 s) s' \<Longrightarrow> token s' \<noteq> EndOfFileToken \<Longrightarrow> token_read s s'"
  by (simp add: token_read_def kept_def advance_def)

text \<open>The first character of a token is consumed.\<close>

lemma kept_first: "kept s t \<Longrightarrow> 0 < n \<Longrightarrow> kept (advance (Suc 0) s) (advance n t)"
  by (simp add: kept_def advance_def)

lemmas kept_simps = kept_intros kept_first

lemma finishNumber_read:
  "kept (advance 1 s) t \<Longrightarrow> finishNumber t = Some s' \<Longrightarrow> token_read s s'"
  unfolding finishNumber_def by (rule token_readI) (auto simp: kept_text_as_value dest: text_as_value_token)

lemma scan_hex_number_read: "scan_hex_number s = Some s' \<Longrightarrow> token_read s s'"
  unfolding scan_hex_number_def Let_def split_beta by (rule finishNumber_read) (auto simp: kept_simps)

lemma scan_binary_number_read: "scan_binary_number s = Some s' \<Longrightarrow> token_read s s'"
  unfolding scan_binary_number_def Let_def split_beta by (rule finishNumber_read) (auto simp: kept_simps)

lemma digits_first:
  assumes "s_pos s < source_end s" and "p (charCodeAt s (s_pos s))"
  shows "kept (advance (Suc 0) s) (snd (scanDigitsWithUnderscores p s))"
  using assms kept_digits_loop [OF kept_refl, of "advance (Suc 0) s" p True]
  by (simp add: scanDigitsWithUnderscores_def digits_loop.simps [of p False s])

lemma no_digits: "\<not> p 0x2e \<Longrightarrow> charCodeAt s (s_pos s) = 0x2e \<Longrightarrow> snd (scanDigitsWithUnderscores p s) = s"
  by (simp add: scanDigitsWithUnderscores_def digits_loop.simps [of p False s])

lemma scan_decimal_number_read:
  assumes "s_pos s < source_end s" and "isDigit (charCodeAt s (s_pos s)) \<or> charCodeAt s (s_pos s) = 0x2e"
    and "scan_decimal_number s = Some s'"
  shows "token_read s s'"
proof -
  let ?s1 = "snd (scanDigitsWithUnderscores isDigit s)"
  have "kept (advance 1 s) (if charCodeAt ?s1 (s_pos ?s1) = 0x2e
          then snd (scanDigitsWithUnderscores isDigit (advance 1 ?s1)) else ?s1)" (is "kept _ ?s2")
  proof (cases "isDigit (charCodeAt s (s_pos s))")
    case True
    with digits_first [OF assms(1), of isDigit] show ?thesis by (simp add: kept_simps)
  next
    case False
    with assms(2) have "charCodeAt s (s_pos s) = 0x2e" by blast
    moreover from this have "?s1 = s" by (rule no_digits [rotated]) (simp add: isDigit_def)
    ultimately show ?thesis by (simp add: kept_simps)
  qed
  then have "\<And>t. kept ?s2 t \<Longrightarrow> kept (advance 1 s) t" by (rule kept_trans)
  with assms(3) show ?thesis
    unfolding scan_decimal_number_def Let_def by (rule_tac finishNumber_read) (auto simp: kept_simps)
qed

lemma scanNumber_read:
  assumes "s_pos s < source_end s" and "isDigit (charCodeAt s (s_pos s)) \<or> charCodeAt s (s_pos s) = 0x2e"
    and "scanNumber s = Some s'"
  shows "token_read s s'"
  using assms scan_decimal_number_read [of s s'] scan_hex_number_read [of s s'] scan_binary_number_read [of s s']
  by (simp add: scanNumber_def Let_def split: if_splits)

lemma scanIdentifierOrKeyword_read:
  assumes "s_pos s < source_end s" and "isIdentifierStart (charCodeAt s (s_pos s))" and "scanIdentifierOrKeyword s = Some s'"
  shows "token_read s s'"
proof (rule token_readI)
  from assms(1, 2) have "kept (advance 1 s) (skip_identifier s)"
    by (subst skip_identifier.simps) (auto simp: kept_simps isIdentifierPart_def)
  with assms(3) show "kept (advance 1 s) s'"
    by (auto simp: scanIdentifierOrKeyword_def Let_def kept_simps split: option.splits)
  from assms(3) show "token s' \<noteq> EndOfFileToken"
    by (auto simp: scanIdentifierOrKeyword_def Let_def set_token_def textToKeyword_def split: option.splits)
qed

section \<open>Literals\<close>

lemma literal_loop_closed:
  "source_end s \<le> s_pos s \<or> isLineBreak (charCodeAt s (s_pos s)) \<Longrightarrow>
     literal_loop q m v s = Some (v, scan_error m (tokenStart s) (s_pos s - tokenStart s) (add_flag Unterminated s))"
  by (subst literal_loop.simps) (simp add: Let_def)

lemma literal_loop_quote:
  "s_pos s < source_end s \<Longrightarrow> charCodeAt s (s_pos s) = q \<Longrightarrow> \<not> isLineBreak q \<Longrightarrow>
     literal_loop q m v s = Some (v, advance 1 s)"
  by (subst literal_loop.simps) (simp add: Let_def)

lemma literal_loop_escape:
  "s_pos s < source_end s \<Longrightarrow> charCodeAt s (s_pos s) = 0x5c \<Longrightarrow> q \<noteq> 0x5c \<Longrightarrow>
     literal_loop q m v s = literal_loop q m (v @ fst (scanEscapeSequence s)) (snd (scanEscapeSequence s))"
  by (subst literal_loop.simps) (simp add: Let_def isLineBreak_def)

lemma literal_loop_char:
  "s_pos s < source_end s \<Longrightarrow> \<not> isLineBreak (charCodeAt s (s_pos s)) \<Longrightarrow> charCodeAt s (s_pos s) \<noteq> q \<Longrightarrow>
     charCodeAt s (s_pos s) \<noteq> 0x5c \<Longrightarrow> s_pos s < length (source_text s) \<Longrightarrow>
     literal_loop q m v s = literal_loop q m (v @ [source_text s ! s_pos s]) (advance 1 s)"
  by (subst literal_loop.simps) (simp add: Let_def)

lemma literal_loop_off:
  "s_pos s < source_end s \<Longrightarrow> length (source_text s) \<le> s_pos s \<Longrightarrow> q \<noteq> -1 \<Longrightarrow> literal_loop q m v s = None"
  by (subst literal_loop.simps) (simp add: Let_def charCodeAt_def)

text \<open>The ways a step of the loop goes, as an induction rule.\<close>

lemma literal_loop_induct [case_names closed quote escape char off]:
  assumes closed: "\<And>v s. source_end s \<le> s_pos s \<or> isLineBreak (charCodeAt s (s_pos s)) \<Longrightarrow> P v s"
    and quote: "\<And>v s. s_pos s < source_end s \<Longrightarrow> charCodeAt s (s_pos s) = q \<Longrightarrow> P v s"
    and escape: "\<And>v s. s_pos s < source_end s \<Longrightarrow> charCodeAt s (s_pos s) = 0x5c \<Longrightarrow>
      P (v @ fst (scanEscapeSequence s)) (snd (scanEscapeSequence s)) \<Longrightarrow> P v s"
    and char: "\<And>v s. s_pos s < source_end s \<Longrightarrow> \<not> isLineBreak (charCodeAt s (s_pos s)) \<Longrightarrow>
      charCodeAt s (s_pos s) \<noteq> q \<Longrightarrow> charCodeAt s (s_pos s) \<noteq> 0x5c \<Longrightarrow> s_pos s < length (source_text s) \<Longrightarrow>
      P (v @ [source_text s ! s_pos s]) (advance 1 s) \<Longrightarrow> P v s"
    and off: "\<And>v s. s_pos s < source_end s \<Longrightarrow> length (source_text s) \<le> s_pos s \<Longrightarrow> P v s"
  shows "P v s"
proof (induction "source_end s - s_pos s" arbitrary: v s rule: less_induct)
  case (less s v)
  consider "source_end s \<le> s_pos s \<or> isLineBreak (charCodeAt s (s_pos s))"
    | "s_pos s < source_end s" "\<not> isLineBreak (charCodeAt s (s_pos s))" "charCodeAt s (s_pos s) = q"
    | "s_pos s < source_end s" "\<not> isLineBreak (charCodeAt s (s_pos s))" "charCodeAt s (s_pos s) \<noteq> q" "charCodeAt s (s_pos s) = 0x5c"
    | "s_pos s < source_end s" "\<not> isLineBreak (charCodeAt s (s_pos s))" "charCodeAt s (s_pos s) \<noteq> q"
        "charCodeAt s (s_pos s) \<noteq> 0x5c" "s_pos s < length (source_text s)"
    | "s_pos s < source_end s" "length (source_text s) \<le> s_pos s"
    by linarith
  then show ?case
  proof cases
    case 1
    then show ?thesis by (rule closed)
  next
    case 2
    then show ?thesis by (intro quote)
  next
    case 3
    from kept_scanEscapeSequence [of s]
    have "source_end (snd (scanEscapeSequence s)) = source_end s" "s_pos s < s_pos (snd (scanEscapeSequence s))"
      by (simp_all add: kept_def)
    with 3(1) have "source_end (snd (scanEscapeSequence s)) - s_pos (snd (scanEscapeSequence s)) < source_end s - s_pos s"
      by linarith
    from less [OF this] show ?thesis by (rule escape [OF 3(1, 4)])
  next
    case 4
    then have "source_end (advance 1 s) - s_pos (advance 1 s) < source_end s - s_pos s" by simp
    from less [OF this] show ?thesis by (rule char [OF 4])
  next
    case 5
    then show ?thesis by (rule off)
  qed
qed

lemma kept_escape: "kept s (snd (scanEscapeSequence s))"
  by (rule kept_trans [OF kept_advance [OF kept_refl] kept_scanEscapeSequence])

lemma kept_literal_loop:
  assumes "literal_loop q m v t = Some (w, s')" and "\<not> isLineBreak q" and "q \<noteq> 0x5c" and "q \<noteq> -1"
  shows "kept t s'"
  using assms(1)
proof (induction v t rule: literal_loop_induct [where q = q])
  case (closed v s)
  then show ?case by (auto simp: literal_loop_closed kept_simps)
next
  case (quote v s)
  with assms show ?case by (auto simp: literal_loop_quote kept_simps)
next
  case (escape v s)
  with assms kept_trans [OF kept_escape] show ?case by (simp add: literal_loop_escape)
next
  case (char v s)
  then have "kept (advance 1 s) s'" by (simp add: literal_loop_char)
  then show ?case by (rule kept_trans [OF kept_advance [OF kept_refl]])
next
  case (off v s)
  with assms show ?case by (simp add: literal_loop_off)
qed

lemma literal_value_read:
  assumes "literal_value kind (literal_loop q m [] (advance 1 s)) = Some s'" and "kind \<noteq> EndOfFileToken"
    and "\<not> isLineBreak q" and "q \<noteq> 0x5c" and "q \<noteq> -1"
  shows "token_read s s'"
proof -
  from assms(1) obtain v t where loop: "literal_loop q m [] (advance 1 s) = Some (v, t)"
    and s': "s' = set_token kind (t\<lparr>tokenValue := v\<rparr>)"
    by (auto simp: literal_value_def)
  from kept_literal_loop [OF loop assms(3-5)] have "kept (advance 1 s) s'" by (simp add: s' kept_simps)
  then show ?thesis by (rule token_readI) (simp add: s' assms(2))
qed

lemma kept_text_block_loop: "kept s t \<Longrightarrow> kept s (snd (text_block_loop t))"
proof (induction t rule: text_block_loop.induct)
  case (1 t)
  then show ?case by (subst text_block_loop.simps) (auto simp: kept_simps)
qed

lemma scanTextBlock_read: "scanTextBlock s = Some s' \<Longrightarrow> token_read s s'"
  unfolding scanTextBlock_def Let_def split_beta
  by (rule token_readI)
    (auto simp: kept_simps kept_text_block_loop dest: text_as_value_token split: if_splits elim!: kept_text_as_value [rotated])

lemma scan_token_read:
  assumes "s_pos s < source_end s" and "scan_token s = Some s'"
  shows "token_read s s'"
proof -
  let ?ch = "charCodeAt s (s_pos s)" and ?c1 = "charCodeAt s (s_pos s + 1)" and ?c2 = "charCodeAt s (s_pos s + 2)"
  note st = assms(2) [unfolded scan_token_def Let_def]
  consider (dot) "?ch = 0x2e \<and> isDigit ?c1"
    | (punct) n p where "\<not> (?ch = 0x2e \<and> isDigit ?c1)" "punct_at ?ch ?c1 ?c2 = Some (n, p)"
    | (other) "\<not> (?ch = 0x2e \<and> isDigit ?c1)" "punct_at ?ch ?c1 ?c2 = None"
    by (cases "punct_at ?ch ?c1 ?c2") auto
  then show ?thesis
  proof cases
    case dot
    with st have "scanNumber s = Some s'" by simp
    with dot assms(1) show ?thesis by (intro scanNumber_read) auto
  next
    case punct
    then have "0 < n" by (auto simp: punct_at_def split: if_splits)
    with punct st show ?thesis by (auto simp: token_read_def kept_simps)
  next
    case other
    note st = st [unfolded if_not_P [OF other(1)] other(2) option.case]
    show ?thesis
    proof (cases "?ch = 0x22")
      case True
      with st scanTextBlock_read [of s s'] literal_value_read [of StringLiteral "0x22" UnterminatedStringLiteral s s']
      show ?thesis by (auto simp: scanStringOrTextBlock_def isLineBreak_def split: if_splits)
    next
      case False
      with st scanNumber_read [OF assms(1), of s'] scanIdentifierOrKeyword_read [OF assms(1), of s']
        literal_value_read [of CharacterLiteral "0x27" UnterminatedCharacterLiteral s s']
      show ?thesis
        by (auto simp: scanCharacterLiteral_def isLineBreak_def token_read_def kept_simps split: if_splits)
    qed
  qed
qed

section \<open>Tokens that cannot panic\<close>

text \<open>The token is read and its end is inside the text.\<close>

definition read_inside :: "Scanner \<Rightarrow> Scanner option \<Rightarrow> bool" where
  "read_inside s r \<longleftrightarrow> (\<exists>s'. r = Some s' \<and> inside s')"

lemma text_as_value_inside:
  assumes "inside t" and "kept s t" and "tokenStart s \<le> s_pos s"
  shows "read_inside s (text_as_value kind t)"
  using assms TokenText_def slice_def
  by (auto simp: read_inside_def text_as_value_def TokenText_def slice_def inside_def kept_def)

lemma inside_advance_digit: "inside s \<Longrightarrow> charCodeAt s (s_pos s + 1) \<noteq> -1 \<Longrightarrow> inside (advance 2 s)"
  using charCodeAt_in_text [of s "s_pos s + 1"] by (simp add: inside_def)

lemma scan_hex_number_inside:
  assumes "inside s" and "tokenStart s \<le> s_pos s" and "charCodeAt s (s_pos s + 1) \<noteq> -1"
  shows "read_inside s (scan_hex_number s)"
proof -
  let ?s0 = "advance 2 (add_flag HexSpecifier s)"
  let ?r = "scanDigitsWithUnderscores isHexDigit ?s0"
  let ?s1 = "snd ?r"
  define s2 where "s2 = (if charCodeAt ?s1 (s_pos ?s1) = 0x2e then snd (scanDigitsWithUnderscores isHexDigit (advance 1 ?s1))
      else if \<not> fst ?r then scan_error HexadecimalDigitExpected (s_pos ?s1) 0 ?s1 else ?s1)"
  define s3 where "s3 = (if charCodeAt s2 (s_pos s2) = 0x70 \<or> charCodeAt s2 (s_pos s2) = 0x50 then scan_exponent s2 else s2)"
  have "inside ?s0" using inside_advance_digit [of "add_flag HexSpecifier s"] assms by simp
  then have 1: "inside ?s1" by (rule inside_intros)
  then have 2: "inside s2" using inside_advance1 [OF 1] by (auto simp: s2_def intro: inside_intros)
  then have 3: "inside s3" by (auto simp: s3_def intro: inside_exponent)
  have k: "kept s s3" by (simp add: s3_def s2_def kept_simps)
  show ?thesis
    unfolding scan_hex_number_def Let_def split_beta finishNumber_def s2_def [symmetric] s3_def [symmetric]
    using 3 k assms(2) by (intro text_as_value_inside) (auto intro: inside_intros kept_intros)
qed

lemma scan_binary_number_inside:
  assumes "inside s" and "tokenStart s \<le> s_pos s" and "charCodeAt s (s_pos s + 1) \<noteq> -1"
  shows "read_inside s (scan_binary_number s)"
  unfolding scan_binary_number_def Let_def split_beta finishNumber_def
  using assms inside_advance_digit [of "add_flag BinarySpecifier s"]
  by (intro text_as_value_inside) (auto intro!: inside_intros kept_intros)

lemma scan_decimal_number_inside:
  assumes "inside s" and "tokenStart s \<le> s_pos s"
  shows "read_inside s (scan_decimal_number s)"
proof -
  let ?s1 = "snd (scanDigitsWithUnderscores isDigit s)"
  define s2 where "s2 = (if charCodeAt ?s1 (s_pos ?s1) = 0x2e then snd (scanDigitsWithUnderscores isDigit (advance 1 ?s1)) else ?s1)"
  define s3 where "s3 = (if charCodeAt s2 (s_pos s2) = 0x65 \<or> charCodeAt s2 (s_pos s2) = 0x45 then scan_exponent s2 else s2)"
  have 1: "inside ?s1" using assms(1) by (rule inside_intros)
  then have 2: "inside s2" using inside_advance1 [OF 1] by (auto simp: s2_def intro: inside_intros)
  then have 3: "inside s3" by (auto simp: s3_def intro: inside_exponent)
  have k: "kept s s3" by (simp add: s3_def s2_def kept_simps)
  show ?thesis
    unfolding scan_decimal_number_def Let_def finishNumber_def s2_def [symmetric] s3_def [symmetric]
    using 3 k assms(2) by (intro text_as_value_inside) (auto intro: kept_intros inside_advance1)
qed

lemma scanNumber_inside:
  "inside s \<Longrightarrow> tokenStart s \<le> s_pos s \<Longrightarrow> read_inside s (scanNumber s)"
  using scan_decimal_number_inside scan_hex_number_inside scan_binary_number_inside
  by (auto simp: scanNumber_def Let_def)

lemma scanIdentifierOrKeyword_inside:
  assumes "inside s" and "tokenStart s \<le> s_pos s"
  shows "read_inside s (scanIdentifierOrKeyword s)"
proof -
  have "tokenStart (skip_identifier s) \<le> s_pos (skip_identifier s)"
    using kept_skip_identifier [OF kept_refl, of s] assms(2) by (auto simp: kept_def)
  from TokenText_Some [OF this inside_skip_identifier [OF assms(1)]] inside_skip_identifier [OF assms(1)]
  show ?thesis by (auto simp: read_inside_def scanIdentifierOrKeyword_def Let_def)
qed

lemma inside_skip_us: "inside s \<Longrightarrow> inside (skip_us s)"
  by (induction s rule: skip_us.induct) (subst skip_us.simps, auto simp: inside_advance1)

lemma inside_hex_digits: "inside s \<Longrightarrow> inside (snd (snd (hex_digits n v s)))"
proof (induction n v s rule: hex_digits.induct)
  case (2 n v s)
  then show ?case using inside_advance1 [of s] by (cases "charCodeAt s (s_pos s) = -1") auto
qed simp

lemma inside_octal_digits: "inside s \<Longrightarrow> inside (snd (octal_digits n v s))"
proof (induction n v s rule: octal_digits.induct)
  case (2 n v s)
  then show ?case using inside_advance1 [of s] by (cases "charCodeAt s (s_pos s) = -1") (auto simp: Let_def)
qed simp

lemma inside_scanEscapeSequence:
  assumes "inside s" and "charCodeAt s (s_pos s) \<noteq> -1"
  shows "inside (snd (scanEscapeSequence s))"
proof (cases "length (source_text s) \<le> s_pos s + 1")
  case True
  then show ?thesis using inside_advance1 [OF assms] by (simp add: scanEscapeSequence_def Let_def)
next
  case False
  then have "inside (advance (Suc 0) (advance (Suc 0) s))" using assms(1) by (simp add: inside_def)
  then show ?thesis
    using False by (auto simp: scanEscapeSequence_def Let_def split_beta inside_hex_digits inside_octal_digits inside_skip_us
        split: option.split)
qed

lemma literal_loop_inside:
  assumes "inside s" and "\<not> isLineBreak q" and "q \<noteq> 0x5c" and "q \<noteq> -1"
  shows "\<exists>w s'. literal_loop q m v s = Some (w, s') \<and> inside s'"
  using assms(1)
proof (induction v s rule: literal_loop_induct [where q = q])
  case (closed v s)
  then show ?case by (simp add: literal_loop_closed)
next
  case (quote v s)
  with assms inside_advance1 [of s] show ?case by (simp add: literal_loop_quote)
next
  case (escape v s)
  with inside_scanEscapeSequence [of s] assms show ?case by (simp add: literal_loop_escape)
next
  case (char v s)
  then show ?case by (simp add: literal_loop_char inside_char)
next
  case (off v s)
  then show ?case by (simp add: inside_def)
qed

lemma literal_value_inside:
  assumes "inside s" and "s_pos s < source_end s" and "\<not> isLineBreak q" and "q \<noteq> 0x5c" and "q \<noteq> -1"
  shows "read_inside s (literal_value kind (literal_loop q m [] (advance 1 s)))"
proof -
  from assms have "inside (advance 1 s)" by (simp add: inside_char)
  from literal_loop_inside [OF this assms(3-5), of m "[]"] show ?thesis by (auto simp: read_inside_def literal_value_def)
qed

text \<open>
  A text block can run past the text: the loop skips two bytes at a backslash that is the last one.
\<close>

definition BACKSLASH :: char where "BACKSLASH = CHR 0x5C"

lemma charCodeAt_backslash: "charCodeAt s i = 0x5c \<longleftrightarrow> i < length (source_text s) \<and> source_text s ! i = BACKSLASH"
proof -
  have "(of_char c :: int) = 0x5c \<longleftrightarrow> c = BACKSLASH" for c
  proof -
    have "(of_char BACKSLASH :: int) = 0x5c" by (simp add: BACKSLASH_def)
    then show ?thesis by (metis of_char_eq_iff)
  qed
  then show ?thesis by (auto simp: charCodeAt_def)
qed

lemma text_block_loop_inside:
  "inside s \<Longrightarrow> \<not> inside (snd (text_block_loop s)) \<Longrightarrow> last (source_text s) = BACKSLASH"
proof (induction s rule: text_block_loop.induct)
  case (1 s)
  let ?q = "\<lambda>i. charCodeAt s (s_pos s + i) = 0x22"
  consider (stop) "source_end s \<le> s_pos s" | (close) "s_pos s < source_end s" "?q 0 \<and> ?q 1 \<and> ?q 2"
    | (esc) "s_pos s < source_end s" "\<not> (?q 0 \<and> ?q 1 \<and> ?q 2)" "charCodeAt s (s_pos s) = 0x5c"
    | (char) "s_pos s < source_end s" "\<not> (?q 0 \<and> ?q 1 \<and> ?q 2)" "charCodeAt s (s_pos s) \<noteq> 0x5c"
    by linarith
  then show ?case
  proof cases
    case stop
    with 1 show ?thesis by (simp add: text_block_loop.simps [of s])
  next
    case close
    then have "inside (advance 3 s)" using 1(3) charCodeAt_in_text [of s "s_pos s + 2"] by (auto simp: inside_def)
    with close 1 show ?thesis by (simp add: text_block_loop.simps [of s])
  next
    case esc
    show ?thesis
    proof (cases "inside (advance 2 s)")
      case True
      have "text_block_loop s = text_block_loop (advance 2 s)" using esc by (subst text_block_loop.simps) auto
      with 1(1) [OF esc(1) _ esc(3) True] esc 1(4) show ?thesis by simp
    next
      case False
      with esc(1) 1(3) have "s_pos s = length (source_text s) - 1" "source_text s \<noteq> []" by (auto simp: inside_def)
      with esc(3) show ?thesis by (simp add: charCodeAt_backslash last_conv_nth)
    qed
  next
    case char
    have "text_block_loop s = text_block_loop (advance 1 s)" using char by (subst text_block_loop.simps) auto
    with 1(2) [OF char(1) _ char(3)] char 1(3, 4) show ?thesis by (simp add: inside_char)
  qed
qed

lemma scanTextBlock_inside:
  assumes "inside s" and "tokenStart s \<le> s_pos s" and "charCodeAt s (s_pos s + 2) = 0x22"
  shows "read_inside s (scanTextBlock s) \<or> (scanTextBlock s = None \<and> last (source_text s) = BACKSLASH)"
proof -
  let ?t = "snd (text_block_loop (advance 3 s))"
  have start: "inside (advance 3 s)" using assms charCodeAt_in_text [of s "s_pos s + 2"] by (simp add: inside_def)
  have kept: "kept s ?t" by (rule kept_text_block_loop) (rule kept_advance, rule kept_refl)
  show ?thesis
  proof (cases "inside ?t")
    case True
    then show ?thesis
      using kept assms(2)
      by (auto simp: scanTextBlock_def split_beta Let_def intro!: text_as_value_inside kept_intros)
  next
    case False
    from text_block_loop_inside [OF start False] have "last (source_text s) = BACKSLASH" by simp
    moreover from False kept assms(1) have "TokenText ?t = None"
      by (auto simp: TokenText_def slice_def inside_def kept_def)
    ultimately show ?thesis
      by (auto simp: scanTextBlock_def split_beta Let_def text_as_value_def TokenText_def)
         (auto simp: scan_error_def add_flag_def)
  qed
qed

lemma scan_token_inside:
  assumes "inside s" and "s_pos s < source_end s" and "tokenStart s \<le> s_pos s"
  shows "read_inside s (scan_token s) \<or> (scan_token s = None \<and> last (source_text s) = BACKSLASH)"
proof -
  let ?ch = "charCodeAt s (s_pos s)" and ?c1 = "charCodeAt s (s_pos s + 1)" and ?c2 = "charCodeAt s (s_pos s + 2)"
  consider (dot) "?ch = 0x2e \<and> isDigit ?c1"
    | (punct) n p where "\<not> (?ch = 0x2e \<and> isDigit ?c1)" "punct_at ?ch ?c1 ?c2 = Some (n, p)"
    | (other) "\<not> (?ch = 0x2e \<and> isDigit ?c1)" "punct_at ?ch ?c1 ?c2 = None"
    by (cases "punct_at ?ch ?c1 ?c2") auto
  then show ?thesis
  proof cases
    case dot
    then show ?thesis using scanNumber_inside [OF assms(1, 3)] by (simp add: scan_token_def)
  next
    case punct
    then have "n = 1 \<or> n = 2 \<and> ?c1 \<noteq> -1 \<or> n = 3 \<and> ?c2 \<noteq> -1" by (auto simp: punct_at_def split: if_splits)
    then have "inside (advance n s)"
      using assms(1, 2) charCodeAt_in_text [of s "s_pos s + 1"] charCodeAt_in_text [of s "s_pos s + 2"]
      by (auto simp: inside_def)
    with punct show ?thesis by (auto simp: scan_token_def Let_def read_inside_def)
  next
    case other
    have eq: "scan_token s =
        (if ?ch = 0x22 then scanStringOrTextBlock s else if ?ch = 0x27 then scanCharacterLiteral s
         else if isDigit ?ch then scanNumber s else if isIdentifierStart ?ch then scanIdentifierOrKeyword s
         else Some (set_token Unknown (advance 1 (scan_error InvalidCharacter (s_pos s) 1 s))))"
      unfolding scan_token_def Let_def if_not_P [OF other(1)] other(2) option.case ..
    show ?thesis
      unfolding eq
      using scanTextBlock_inside [OF assms(1, 3)] scanNumber_inside [OF assms(1, 3)]
        scanIdentifierOrKeyword_inside [OF assms(1, 3)] inside_char [OF assms(1, 2)]
        literal_value_inside [OF assms(1, 2), of "0x22" StringLiteral UnterminatedStringLiteral]
        literal_value_inside [OF assms(1, 2), of "0x27" CharacterLiteral UnterminatedCharacterLiteral]
      by (auto simp: scanStringOrTextBlock_def scanCharacterLiteral_def isLineBreak_def read_inside_def inside_def)
  qed
qed

end
