(* ===== verification/TokenStream.thy ===== *)
theory TokenStream
  imports ScannerCorrect
begin

text \<open>
  The token stream of a text: a scan skips trivia, white space and comments, and then reads one token
  or reports the end of the file. Scanning to the end of the file terminates, and the tokens with
  the trivia before them are the text.
\<close>

section \<open>Pieces of the text\<close>

definition text_between :: "string \<Rightarrow> nat \<Rightarrow> nat \<Rightarrow> string" where
  "text_between t a b = take (b - a) (drop a t)"

lemma text_between_same [simp]: "text_between t a a = []"
  by (simp add: text_between_def)

lemma text_between_step: "a < b \<Longrightarrow> a < length t \<Longrightarrow> text_between t a b = t ! a # text_between t (Suc a) b"
  by (auto dest!: less_imp_Suc_add simp: text_between_def Cons_nth_drop_Suc [symmetric])

lemma text_between_append: "a \<le> b \<Longrightarrow> b \<le> c \<Longrightarrow> text_between t a c = text_between t a b @ text_between t b c"
proof -
  assume "a \<le> b" and "b \<le> c"
  then obtain i j where "b = a + i" and "c = a + i + j" by (metis le_Suc_ex)
  then show ?thesis by (simp add: text_between_def take_add [of i j] add.commute)
qed

lemma text_between_all: "text_between t 0 (length t) = t"
  by (simp add: text_between_def)

lemma length_text_between: "b \<le> length t \<Longrightarrow> length (text_between t a b) = b - a"
  by (auto simp: text_between_def min_def)

definition SLASH :: char where "SLASH = CHR 0x2F"
definition STAR :: char where "STAR = CHR 0x2A"

lemma charCode_eq: "charCodeAt s i = of_char c \<longleftrightarrow> i < length (source_text s) \<and> source_text s ! i = c"
proof -
  have "(of_char c :: int) \<noteq> -1" by (metis neg_0_le_iff_le not_one_le_zero of_nat_of_char of_nat_0_le_iff)
  then show ?thesis by (auto simp: charCodeAt_def)
qed

lemma code_constants: "(of_char SLASH :: int) = 0x2f" "(of_char STAR :: int) = 0x2a" "(of_char LF :: int) = 0x0a" "(of_char CR :: int) = 0x0d"
  by (simp_all add: SLASH_def STAR_def LF_def CR_def)

lemma charCode_slash: "charCodeAt s i = 0x2f \<longleftrightarrow> i < length (source_text s) \<and> source_text s ! i = SLASH"
  and charCode_star: "charCodeAt s i = 0x2a \<longleftrightarrow> i < length (source_text s) \<and> source_text s ! i = STAR"
  and charCode_line_break: "isLineBreak (charCodeAt s i) \<longleftrightarrow>
    i < length (source_text s) \<and> (source_text s ! i = LF \<or> source_text s ! i = CR)"
  unfolding isLineBreak_def code_constants [symmetric] charCode_eq by auto

section \<open>Trivia\<close>

text \<open>No comment end in a comment body.\<close>

fun no_close :: "string \<Rightarrow> bool" where
  "no_close [] \<longleftrightarrow> True"
| "no_close (c # w) \<longleftrightarrow> \<not> (c = STAR \<and> w \<noteq> [] \<and> hd w = SLASH) \<and> no_close w"

definition blank :: "char \<Rightarrow> bool" where
  "blank c \<longleftrightarrow> isLineBreak (of_char c) \<or> isBlank (of_char c)"

text \<open>
  White space and comments. A line comment goes to the end of its line; a block comment that is
  never closed goes to the end of the text.
\<close>

inductive trivia :: "string \<Rightarrow> bool" where
  none: "trivia []"
| blank: "blank c \<Longrightarrow> trivia w \<Longrightarrow> trivia (c # w)"
| line: "LF \<notin> set b \<Longrightarrow> CR \<notin> set b \<Longrightarrow> w = [] \<or> hd w = LF \<or> hd w = CR \<Longrightarrow> trivia w \<Longrightarrow> trivia ([SLASH, SLASH] @ b @ w)"
| block: "no_close b \<Longrightarrow> trivia w \<Longrightarrow> trivia ([SLASH, STAR] @ b @ [STAR, SLASH] @ w)"
| unclosed: "no_close b \<Longrightarrow> trivia ([SLASH, STAR] @ b)"

lemma skip_line_spec:
  assumes "inside s"
  shows "inside (skip_line s)
    \<and> (let b = text_between (source_text s) (s_pos s) (s_pos (skip_line s)) in LF \<notin> set b \<and> CR \<notin> set b)
    \<and> (s_pos (skip_line s) = source_end s \<or> isLineBreak (charCodeAt s (s_pos (skip_line s))))"
  using assms
proof (induction s rule: skip_line.induct)
  case (1 s)
  show ?case
  proof (cases "s_pos s < source_end s \<and> \<not> isLineBreak (charCodeAt s (s_pos s))")
    case True
    have "s_pos s < s_pos (skip_line (advance 1 s))"
      using kept_skip_line [OF kept_refl, of "advance 1 s"] by (simp add: kept_def)
    then show ?thesis
      using 1 True by (subst (1 2 3 4) skip_line.simps)
        (auto simp: inside_char charCode_line_break text_between_step [of "s_pos s"] inside_def Let_def)
  next
    case False
    then show ?thesis using 1(2) by (subst (1 2 3 4) skip_line.simps) (auto simp: inside_def)
  qed
qed


lemma skip_block_spec:
  assumes "inside s"
  shows "inside (snd (skip_block s))
    \<and> (if fst (skip_block s)
       then \<exists>b. text_between (source_text s) (s_pos s) (s_pos (snd (skip_block s))) = b @ [STAR, SLASH] \<and> no_close b
       else s_pos (snd (skip_block s)) = source_end s
         \<and> no_close (text_between (source_text s) (s_pos s) (source_end s)))"
  using assms
proof (induction s rule: skip_block.induct)
  case (1 s)
  let ?t = "source_text s" and ?i = "s_pos s"
  let ?s1 = "advance 1 (if isLineBreak (charCodeAt s ?i) then add_flag PrecedingLineBreak s else s)"
  consider (eof) "source_end s \<le> ?i"
    | (close) "?i < source_end s" "charCodeAt s ?i = 0x2a \<and> charCodeAt s (?i + 1) = 0x2f"
    | (more) "?i < source_end s" "\<not> (charCodeAt s ?i = 0x2a \<and> charCodeAt s (?i + 1) = 0x2f)"
    by linarith
  then show ?case
  proof cases
    case eof
    with 1(2) show ?thesis by (auto simp: skip_block.simps [of s] inside_def)
  next
    case close
    then have "?i + 1 < length ?t" and "?t ! ?i = STAR" and "?t ! (?i + 1) = SLASH"
      by (auto simp: charCode_star charCode_slash)
    then have "text_between ?t ?i (?i + 2) = [] @ [STAR, SLASH]" by (simp add: text_between_step)
    with close 1(2) \<open>?i + 1 < length ?t\<close> show ?thesis
      by (subst (1 2 3 4) skip_block.simps) (force simp: inside_def)
  next
    case more
    have eq: "skip_block s = skip_block ?s1"
      unfolding skip_block.simps [of s] if_P [OF more(1)] if_not_P [OF more(2)] ..
    have in1: "inside ?s1" using 1(2) more(1) by (simp add: inside_char)
    have i: "?i < length ?t" using 1(2) more(1) by (simp add: inside_def)
    have le: "?i < s_pos (snd (skip_block s))"
    proof -
      from kept_skip_block [OF kept_refl, of ?s1] have "s_pos ?s1 \<le> s_pos (snd (skip_block ?s1))"
        unfolding kept_def by blast
      then show ?thesis by (simp only: eq) (simp split: if_splits)
    qed
    note ih = 1(1) [OF more(1) more(2) in1, folded eq]
    have head: "\<not> (?t ! ?i = STAR \<and> b \<noteq> [] \<and> hd b = SLASH)"
      if "text_between ?t (?i + 1) j = b @ w" for b w j
    proof
      assume *: "?t ! ?i = STAR \<and> b \<noteq> [] \<and> hd b = SLASH"
      with that have "text_between ?t (?i + 1) j \<noteq> []" and "hd (text_between ?t (?i + 1) j) = SLASH" by auto
      then have "?i + 1 < length ?t" and "?t ! (?i + 1) = SLASH"
        by (auto simp: text_between_def hd_drop_conv_nth)
      with * more(2) i show False by (simp add: charCode_star charCode_slash)
    qed
    show ?thesis
    proof (cases "fst (skip_block s)")
      case True
      with ih obtain b where b: "text_between ?t (?i + 1) (s_pos (snd (skip_block s))) = b @ [STAR, SLASH]" "no_close b"
        by (auto split: if_splits)
      then have "text_between ?t ?i (s_pos (snd (skip_block s))) = (?t ! ?i # b) @ [STAR, SLASH]"
        using le i by (simp add: text_between_step)
      moreover have "no_close (?t ! ?i # b)" using head [OF b(1)] b(2) by simp
      ultimately show ?thesis using True ih by auto
    next
      case False
      with ih have b: "s_pos (snd (skip_block s)) = source_end s" "no_close (text_between ?t (?i + 1) (source_end s))"
        by (auto split: if_splits)
      moreover have "no_close (text_between ?t ?i (source_end s))"
        using head [of "source_end s" _ "[]"] b(2) more(1) i by (simp add: text_between_step)
      ultimately show ?thesis using False ih by auto
    qed
  qed
qed


text \<open>One piece of trivia: the part of \<open>scan_loop\<close> that goes round again.\<close>

definition trivia_next :: "Scanner \<Rightarrow> Scanner option" where
  "trivia_next s =
     (let ch = charCodeAt s (s_pos s); c1 = charCodeAt s (s_pos s + 1)
      in if isLineBreak ch then Some (advance 1 (add_flag PrecedingLineBreak s))
         else if isBlank ch then Some (advance 1 s)
         else if ch = 0x2f \<and> c1 = 0x2f then Some (skip_line (advance 2 s))
         else if ch = 0x2f \<and> c1 = 0x2a then Some (skip_comment (advance 2 s))
         else None)"

lemma scan_loop_step:
  "scan_loop s0 =
     (let s = s0\<lparr>tokenStart := s_pos s0\<rparr>
      in if source_end s \<le> s_pos s then Some (set_token EndOfFileToken s)
         else case trivia_next s of Some t \<Rightarrow> scan_loop t | None \<Rightarrow> scan_token s)"
  by (subst scan_loop.simps) (simp add: Let_def trivia_next_def)

lemma trivia_next_kept: "trivia_next s = Some t \<Longrightarrow> kept (advance (Suc 0) s) t"
  by (auto simp: trivia_next_def Let_def kept_simps split: if_splits)

lemma blank_char:
  "isLineBreak (charCodeAt s i) \<or> isBlank (charCodeAt s i) \<Longrightarrow> i < length (source_text s) \<and> blank (source_text s ! i)"
  by (auto simp: charCodeAt_def blank_def isBlank_def split: if_splits)

lemma trivia_next_trivia:
  assumes inside: "inside s" and some: "trivia_next s = Some t" and lt: "s_pos s < source_end s"
  shows "inside t \<and> (\<forall>p. s_pos t \<le> p \<longrightarrow> trivia (text_between (source_text s) (s_pos t) p)
    \<longrightarrow> trivia (text_between (source_text s) (s_pos s) p))"
proof -
  let ?t = "source_text s" and ?i = "s_pos s"
  let ?ch = "charCodeAt s ?i" and ?c1 = "charCodeAt s (?i + 1)"
  have i: "?i < length ?t" using inside lt by (simp add: inside_def)
  have two: "text_between ?t ?i p = [?t ! ?i, ?t ! (?i + 1)] @ text_between ?t (?i + 2) p"
    if "?i + 2 \<le> p" and "?i + 1 < length ?t" for p
    using that i by (simp add: text_between_step)
  consider (blank) "isLineBreak ?ch \<or> isBlank ?ch"
    | (line) "\<not> (isLineBreak ?ch \<or> isBlank ?ch)" "?ch = 0x2f \<and> ?c1 = 0x2f"
    | (block) "\<not> (isLineBreak ?ch \<or> isBlank ?ch)" "?ch = 0x2f \<and> ?c1 = 0x2a"
    using some by (auto simp: trivia_next_def Let_def split: if_splits)
  then show ?thesis
  proof cases
    case blank
    then have t: "s_pos t = ?i + 1" "inside t"
      using some inside lt by (auto simp: trivia_next_def Let_def inside_char split: if_splits)
    have "trivia (text_between ?t ?i p)" if "?i + 1 \<le> p" "trivia (text_between ?t (?i + 1) p)" for p
      using that blank_char [OF blank] by (simp add: text_between_step trivia.blank)
    with t show ?thesis by simp
  next
    case line
    let ?u = "advance 2 s"
    from line(2) have at: "?i + 1 < length ?t" "?t ! ?i = SLASH" "?t ! (?i + 1) = SLASH" by (simp_all add: charCode_slash)
    then have "inside ?u" using inside by (simp add: inside_def)
    note spec = skip_line_spec [OF this, unfolded Let_def, simplified]
    have t: "t = skip_line ?u" using line some by (simp add: trivia_next_def Let_def isLineBreak_def isBlank_def)
    have le: "?i + 2 \<le> s_pos t" using kept_skip_line [OF kept_refl, of ?u] by (simp add: t kept_def)
    have "trivia (text_between ?t ?i p)" if p: "s_pos t \<le> p" "trivia (text_between ?t (s_pos t) p)" for p
    proof -
      let ?w = "text_between ?t (s_pos t) p"
      have stop: "?w = [] \<or> hd ?w = LF \<or> hd ?w = CR"
      proof (cases "s_pos t < p \<and> s_pos t < length ?t")
        case True
        with spec inside show ?thesis by (auto simp: t text_between_step charCode_line_break inside_def)
      next
        case False
        then show ?thesis by (auto simp: text_between_def)
      qed
      have "text_between ?t ?i p = [SLASH, SLASH] @ text_between ?t (?i + 2) (s_pos t) @ ?w"
        using two [of p] at le p(1) text_between_append [of "?i + 2" "s_pos t" p ?t] by simp
      moreover have "trivia ([SLASH, SLASH] @ text_between ?t (?i + 2) (s_pos t) @ ?w)"
        using spec by (intro trivia.line [OF _ _ stop p(2)]) (simp_all add: t)
      ultimately show ?thesis by simp
    qed
    then show ?thesis using spec by (simp add: t)
  next
    case block
    let ?u = "advance 2 s"
    from block(2) have at: "?i + 1 < length ?t" "?t ! ?i = SLASH" "?t ! (?i + 1) = STAR" by (simp_all add: charCode_slash charCode_star)
    then have "inside ?u" using inside by (simp add: inside_def)
    note spec = skip_block_spec [OF this, simplified]
    have t: "t = skip_comment ?u" using block some by (simp add: trivia_next_def Let_def isLineBreak_def isBlank_def)
    have pos: "s_pos t = s_pos (snd (skip_block ?u))" "inside t"
      using spec by (auto simp: t skip_comment_def split_beta Let_def)
    have le: "?i + 2 \<le> s_pos t" using kept_skip_block [OF kept_refl, of ?u] by (simp add: pos kept_def)
    have "trivia (text_between ?t ?i p)" if p: "s_pos t \<le> p" "trivia (text_between ?t (s_pos t) p)" for p
    proof (cases "fst (skip_block ?u)")
      case True
      with spec obtain b where b: "text_between ?t (?i + 2) (s_pos t) = b @ [STAR, SLASH]" "no_close b" by (auto simp: pos)
      then have "text_between ?t ?i p = [SLASH, STAR] @ b @ [STAR, SLASH] @ text_between ?t (s_pos t) p"
        using two [of p] at le p(1) text_between_append [of "?i + 2" "s_pos t" p ?t] by simp
      with trivia.block [OF b(2) p(2)] show ?thesis by simp
    next
      case False
      with spec inside have e: "s_pos t = length ?t" "no_close (text_between ?t (?i + 2) (length ?t))" by (auto simp: pos inside_def)
      then have "text_between ?t ?i p = [SLASH, STAR] @ text_between ?t (?i + 2) (length ?t)"
        using two [of p] at le p(1) text_between_append [of "?i + 2" "s_pos t" p ?t] by (simp add: text_between_def [of _ "length ?t"])
      with trivia.unclosed [OF e(2)] show ?thesis by simp
    qed
    then show ?thesis using pos by simp
  qed
qed


section \<open>A scan\<close>

text \<open>The state at the start of the token that a scan finds, after the trivia.\<close>

definition found :: "Scanner \<Rightarrow> Scanner \<Rightarrow> bool" where
  "found s u \<longleftrightarrow>
     source_text u = source_text s \<and> source_end u = source_end s \<and> s_pos s \<le> s_pos u
     \<and> tokenStart u = s_pos u \<and> fullStartPos u = fullStartPos s
     \<and> (inside s \<longrightarrow> inside u \<and> trivia (text_between (source_text s) (s_pos s) (s_pos u)))"

definition token_at :: "Scanner \<Rightarrow> Scanner option" where
  "token_at u = (if source_end u \<le> s_pos u then Some (set_token EndOfFileToken u) else scan_token u)"

lemma found_start: "found s (s\<lparr>tokenStart := s_pos s\<rparr>)"
  by (simp add: found_def inside_def trivia.none)

lemma scan_loop_found: "\<exists>u. found s u \<and> scan_loop s = token_at u"
proof (induction "source_end s - s_pos s" arbitrary: s rule: less_induct)
  case less
  let ?s = "s\<lparr>tokenStart := s_pos s\<rparr>"
  show ?case
  proof (cases "source_end s \<le> s_pos s")
    case True
    then show ?thesis using found_start [of s] by (auto simp: scan_loop_step [of s] token_at_def)
  next
    case False
    show ?thesis
    proof (cases "trivia_next ?s")
      case None
      with False show ?thesis using found_start [of s] by (auto simp: scan_loop_step [of s] token_at_def)
    next
      case (Some t)
      from trivia_next_kept [OF this] have t: "source_text t = source_text s" "source_end t = source_end s"
        "fullStartPos t = fullStartPos s" "s_pos s < s_pos t"
        by (simp_all add: kept_def advance_def)
      with False have "source_end t - s_pos t < source_end s - s_pos s" by linarith
      from less [OF this] obtain u where u: "found t u" "scan_loop t = token_at u" by blast
      have "inside t \<and> trivia (text_between (source_text s) (s_pos s) (s_pos u))" if "inside s"
        using trivia_next_trivia [of ?s t] Some False that u(1) t by (simp add: inside_def found_def)
      with u(1) t have "found s u" by (auto simp: found_def)
      moreover from Some False u(2) have "scan_loop s = token_at u" by (simp add: scan_loop_step [of s])
      ultimately show ?thesis by blast
    qed
  qed
qed

text \<open>A scan: the trivia are skipped, then the token is read, which moves the position.\<close>

definition scanned :: "Scanner \<Rightarrow> Scanner \<Rightarrow> bool" where
  "scanned s s' \<longleftrightarrow>
     source_text s' = source_text s \<and> source_end s' = source_end s \<and> fullStartPos s' = s_pos s
     \<and> s_pos s \<le> tokenStart s'
     \<and> (if token s' = EndOfFileToken then tokenStart s' = s_pos s' \<and> source_end s' \<le> s_pos s'
        else tokenStart s' < s_pos s' \<and> tokenStart s' < source_end s')
     \<and> (inside s \<longrightarrow> inside s' \<and> trivia (text_between (source_text s) (s_pos s) (tokenStart s')))"

lemma Scan_found: obtains u where "found (s\<lparr>fullStartPos := s_pos s, tokenFlags := 0, tokenValue := []\<rparr>) u" "Scan s = token_at u"
  using scan_loop_found [of "s\<lparr>fullStartPos := s_pos s, tokenFlags := 0, tokenValue := []\<rparr>"] by (auto simp: Scan_def)

lemma Scan_scanned:
  assumes "Scan s = Some s'"
  shows "scanned s s'"
proof -
  obtain u where u: "found (s\<lparr>fullStartPos := s_pos s, tokenFlags := 0, tokenValue := []\<rparr>) u" "Scan s = token_at u"
    by (rule Scan_found)
  show ?thesis
  proof (cases "source_end u \<le> s_pos u")
    case True
    with u assms have "s' = set_token EndOfFileToken u" by (simp add: token_at_def)
    with u(1) True show ?thesis by (auto simp: scanned_def found_def set_token_def inside_def)
  next
    case False
    with u assms have tok: "scan_token u = Some s'" by (simp add: token_at_def)
    with False have "token_read u s'" by (intro scan_token_read) auto
    moreover have "inside u \<Longrightarrow> inside s'"
      using scan_token_inside [of u] False tok u(1) by (auto simp: read_inside_def found_def)
    ultimately show ?thesis
      using u(1) False by (auto simp: scanned_def found_def token_read_def kept_def inside_def)
  qed
qed

lemma Scan_None:
  assumes "inside s" and "Scan s = None"
  shows "source_text s \<noteq> [] \<and> last (source_text s) = BACKSLASH"
proof -
  obtain u where u: "found (s\<lparr>fullStartPos := s_pos s, tokenFlags := 0, tokenValue := []\<rparr>) u" "Scan s = token_at u"
    by (rule Scan_found)
  from assms(1) u(1) have "inside u" by (auto simp: found_def inside_def)
  moreover from u(2) assms(2) have "\<not> source_end u \<le> s_pos u" "scan_token u = None"
    by (auto simp: token_at_def split: if_splits)
  ultimately show ?thesis
    using scan_token_inside [of u] u(1) by (auto simp: read_inside_def found_def inside_def)
qed

section \<open>Scanning to the end of the file\<close>

text \<open>
  What a client that scans until \<open>EndOfFileToken\<close> sees, as \<open>collectComments\<close> does: the state after
  each scan, the one at the end of the file included. The run ends on every state.
\<close>

function scan_tokens :: "Scanner \<Rightarrow> Scanner list option" where
  "scan_tokens s =
     (case Scan s of
        None \<Rightarrow> None
      | Some s' \<Rightarrow> if token s' = EndOfFileToken then Some [s'] else map_option ((#) s') (scan_tokens s'))"
  by pat_completeness auto
termination
proof (relation "measure (\<lambda>s. source_end s - s_pos s)", goal_cases)
  case (2 s s')
  then show ?case using Scan_scanned [of s s'] by (auto simp: scanned_def)
qed simp

declare scan_tokens.simps [simp del]

lemma scan_tokens_induct [consumes 1, case_names eof token]:
  assumes "scan_tokens s = Some ts"
    and eof: "\<And>s s'. Scan s = Some s' \<Longrightarrow> scanned s s' \<Longrightarrow> token s' = EndOfFileToken \<Longrightarrow> P s [s']"
    and token: "\<And>s s' ts. Scan s = Some s' \<Longrightarrow> scanned s s' \<Longrightarrow> token s' \<noteq> EndOfFileToken \<Longrightarrow>
      scan_tokens s' = Some ts \<Longrightarrow> P s' ts \<Longrightarrow> P s (s' # ts)"
  shows "P s ts"
  using assms(1)
proof (induction s arbitrary: ts rule: scan_tokens.induct)
  case (1 s)
  from 1(2) obtain s' where s': "Scan s = Some s'" by (auto simp: scan_tokens.simps [of s] split: option.splits)
  show ?case
  proof (cases "token s' = EndOfFileToken")
    case True
    with 1(2) s' eof [OF s' Scan_scanned [OF s']] show ?thesis by (simp add: scan_tokens.simps [of s])
  next
    case False
    with 1(2) s' obtain ts' where "scan_tokens s' = Some ts'" "ts = s' # ts'"
      by (auto simp: scan_tokens.simps [of s])
    with token [OF s' Scan_scanned [OF s'] False] 1(1) [OF s' False] show ?thesis by simp
  qed
qed

text \<open>The text from where the trivia of a token began to its end.\<close>

definition token_full_text :: "Scanner \<Rightarrow> string" where
  "token_full_text s = text_between (source_text s) (fullStartPos s) (s_pos s)"

definition token_text :: "Scanner \<Rightarrow> string" where
  "token_text s = text_between (source_text s) (tokenStart s) (s_pos s)"

definition trivia_text :: "Scanner \<Rightarrow> string" where
  "trivia_text s = text_between (source_text s) (fullStartPos s) (tokenStart s)"


lemma scan_tokens_partition:
  assumes "scan_tokens s = Some ts" and "inside s"
  shows "concat (map token_full_text ts) = text_between (source_text s) (s_pos s) (source_end s)
    \<and> (\<forall>k \<in> set ts. token_full_text k = trivia_text k @ token_text k \<and> trivia (trivia_text k))
    \<and> (\<forall>k \<in> set (butlast ts). token k \<noteq> EndOfFileToken \<and> token_text k \<noteq> [])
    \<and> ts \<noteq> [] \<and> token (last ts) = EndOfFileToken \<and> token_text (last ts) = []"
  using assms
proof (induction rule: scan_tokens_induct)
  case (eof s s')
  then have "s_pos s' = source_end s" by (auto simp: scanned_def inside_def)
  with eof show ?case by (auto simp: scanned_def token_full_text_def trivia_text_def token_text_def)
next
  case (token s s' ts)
  then have inside: "inside s'" by (simp add: scanned_def)
  have le: "s_pos s \<le> tokenStart s'" "tokenStart s' < s_pos s'" "s_pos s' \<le> source_end s" "tokenStart s' < length (source_text s)"
    using token(2, 3) token(6) inside by (auto simp: scanned_def inside_def)
  have full: "token_full_text s' = trivia_text s' @ token_text s'"
    unfolding token_full_text_def trivia_text_def token_text_def
    using token(2) le by (intro text_between_append) (simp_all add: scanned_def)
  moreover have "token_text s' \<noteq> []"
    using le token(2) by (simp add: token_text_def text_between_step scanned_def)
  moreover have "text_between (source_text s) (s_pos s) (source_end s) = token_full_text s' @ text_between (source_text s) (s_pos s') (source_end s)"
    using token(2) le text_between_append [of "s_pos s" "s_pos s'" "source_end s" "source_text s"]
    by (simp add: token_full_text_def scanned_def)
  moreover from token(2, 6) have "trivia (trivia_text s')"
    by (simp add: scanned_def trivia_text_def)
  moreover have "source_text s' = source_text s" "source_end s' = source_end s" using token(2) by (simp_all add: scanned_def)
  note ih = token(5) [OF inside, unfolded this]
  ultimately show ?case using token(3) ih by simp
qed

lemma inside_NewScanner [simp]: "inside (NewScanner t)"
  by (simp add: inside_def NewScanner_def)

lemma NewScanner_simps [simp]:
  "source_text (NewScanner t) = t" "s_pos (NewScanner t) = 0" "source_end (NewScanner t) = length t"
  by (simp_all add: NewScanner_def)

lemma scan_tokens_None: "inside s \<Longrightarrow> scan_tokens s = None \<Longrightarrow> source_text s \<noteq> [] \<and> last (source_text s) = BACKSLASH"
proof (induction s rule: scan_tokens.induct)
  case (1 s)
  show ?case
  proof (cases "Scan s")
    case None
    with Scan_None [OF 1(2)] show ?thesis by simp
  next
    case (Some s')
    with 1(3) have "token s' \<noteq> EndOfFileToken" "scan_tokens s' = None" by (auto simp: scan_tokens.simps [of s] split: if_splits)
    with 1(1) [OF Some] Scan_scanned [OF Some] 1(2) show ?thesis by (auto simp: scanned_def)
  qed
qed

section \<open>The properties of the stream\<close>

text \<open>
  C19. Scanning a text to the end of the file gives the text back: the tokens with the trivia
  before them, in order, are the text; the trivia are white space and comments, every token but the
  last takes at least one character, and the last is the end of the file.
\<close>

theorem tokens_partition:
  assumes "scan_tokens (NewScanner t) = Some ts"
  shows "concat (map token_full_text ts) = t
    \<and> (\<forall>k \<in> set ts. token_full_text k = trivia_text k @ token_text k \<and> trivia (trivia_text k))
    \<and> (\<forall>k \<in> set (butlast ts). token k \<noteq> EndOfFileToken \<and> token_text k \<noteq> [])
    \<and> ts \<noteq> [] \<and> token (last ts) = EndOfFileToken \<and> token_text (last ts) = []"
  using scan_tokens_partition [OF assms]
  by (simp add: text_between_all)

definition example_text :: string where
  "example_text = ''/*a*/ i++ //''"

theorem tokens_partition_witness:
  "concat (map token_full_text (the (scan_tokens (NewScanner example_text)))) = example_text"
proof -
  have "scan_tokens (NewScanner example_text) = Some (the (scan_tokens (NewScanner example_text)))" by code_simp
  from tokens_partition [OF this] show ?thesis by blast
qed

definition open_text_block :: string where
  "open_text_block = [CHR 0x22, CHR 0x22, CHR 0x22, CHR 0x5C]"

text \<open>
  C20. The scanner returns on every text whose last byte is not a backslash, with a token stream. The
  text block that is opened and ends in a lone backslash makes it panic: two bytes are skipped at
  the backslash, and the value of the token is sliced past the end of the text.
\<close>

theorem scanner_panics_only_at_backslash:
  assumes "t = [] \<or> last t \<noteq> BACKSLASH"
  shows "(\<exists>ts. scan_tokens (NewScanner t) = Some ts) \<and> scan_tokens (NewScanner open_text_block) = None"
proof
  show "\<exists>ts. scan_tokens (NewScanner t) = Some ts"
    using scan_tokens_None [of "NewScanner t"] assms by (cases "scan_tokens (NewScanner t)") auto
  show "scan_tokens (NewScanner open_text_block) = None" by code_simp
qed

theorem scanner_panics_only_at_backslash_witness:
  "example_text \<noteq> [] \<and> last example_text \<noteq> BACKSLASH \<and> (\<exists>ts. scan_tokens (NewScanner example_text) = Some ts)"
proof -
  have "example_text \<noteq> []" "last example_text \<noteq> BACKSLASH" by code_simp+
  with scanner_panics_only_at_backslash [of example_text] show ?thesis by blast
qed

end
