(* ===== verification/TokenSpelling.thy ===== *)
theory TokenSpelling
  imports TokenStream
begin

text \<open>
  Tokens and their spellings: a token of a kind with a canonical spelling has that spelling in the
  text, and a list of words printed with a blank before each is scanned back to the same tokens.
\<close>

section \<open>The keyword table\<close>

lemma keyword_table_distinct: "distinct (map snd keyword_table)" "distinct (map fst keyword_table)"
  by code_simp+

lemma keywordText_iff: "keywordText k = Some w \<longleftrightarrow> map_of keyword_table w = Some k"
proof -
  have "distinct (map fst (map (\<lambda>(s, k). (k, s)) keyword_table))"
    using keyword_table_distinct(1) by (simp add: comp_def split_beta)
  then have "keywordText k = Some w \<longleftrightarrow> (k, w) \<in> set (map (\<lambda>(s, k). (k, s)) keyword_table)"
    by (simp add: keywordText_def)
  also have "\<dots> \<longleftrightarrow> (w, k) \<in> set keyword_table" by force
  also have "\<dots> \<longleftrightarrow> map_of keyword_table w = Some k" using keyword_table_distinct(2) by simp
  finally show ?thesis .
qed

lemma keyword_spelling: "textToKeyword w = Some kind \<Longrightarrow> tokenToString kind = w"
  by (auto simp: textToKeyword_def tokenToString_def simp flip: keywordText_iff)

section \<open>Identifiers\<close>

definition is_identifier :: "string \<Rightarrow> bool" where
  "is_identifier w \<longleftrightarrow> w \<noteq> [] \<and> isIdentifierStart (of_char (hd w)) \<and> list_all (\<lambda>c. isIdentifierPart (of_char c)) w"

lemma keywords_are_identifiers: "list_all (\<lambda>(w, _). is_identifier w) keyword_table"
  by code_simp

lemma skip_identifier_text:
  "inside s \<Longrightarrow> list_all (\<lambda>c. isIdentifierPart (of_char c)) (text_between (source_text s) (s_pos s) (s_pos (skip_identifier s)))"
proof (induction s rule: skip_identifier.induct)
  case (1 s)
  show ?case
  proof (cases "s_pos s < source_end s \<and> isIdentifierPart (charCodeAt s (s_pos s))")
    case True
    have "s_pos s < s_pos (skip_identifier (advance 1 s))"
      using kept_skip_identifier [OF kept_refl, of "advance 1 s"] by (simp add: kept_def)
    moreover have "skip_identifier s = skip_identifier (advance 1 s)" using True by (subst skip_identifier.simps) simp
    moreover from True 1(2) have "s_pos s < length (source_text s)" by (simp add: inside_def)
    ultimately show ?thesis
      using 1(1) [OF True] True 1(2) by (simp add: text_between_step inside_char charCodeAt_def)
  next
    case False
    then have "skip_identifier s = s" by (subst skip_identifier.simps) auto
    then show ?thesis by simp
  qed
qed

section \<open>The text of a token\<close>

lemma TokenText_between: "TokenText s = Some v \<Longrightarrow> v = text_between (source_text s) (tokenStart s) (s_pos s)"
  by (auto simp: TokenText_def slice_def text_between_def split: if_splits)

lemma token_text_set [simp]:
  "token_text (set_token k s) = token_text s" "token_text (s\<lparr>tokenValue := v\<rparr>) = token_text s"
  by (simp_all add: token_text_def set_token_def)

lemma TokenText_token_text: "TokenText s = Some v \<Longrightarrow> v = token_text s"
  by (simp add: TokenText_between token_text_def)

text \<open>What each kind says about the text of its token.\<close>

definition spelled :: "Scanner \<Rightarrow> bool" where
  "spelled s \<longleftrightarrow>
     (case token s of
        Punct _ \<Rightarrow> token_text s = tokenToString (token s)
      | Reserved _ \<Rightarrow> token_text s = tokenToString (token s) \<and> tokenValue s = token_text s
      | Identifier \<Rightarrow> is_identifier (token_text s) \<and> textToKeyword (token_text s) = None \<and> tokenValue s = token_text s
      | NumericLiteral \<Rightarrow> tokenValue s = token_text s
      | TextBlockLiteral \<Rightarrow> tokenValue s = token_text s
      | _ \<Rightarrow> True)"

lemma spelled_text_as_value:
  "text_as_value kind t = Some s \<Longrightarrow> kind = NumericLiteral \<or> kind = TextBlockLiteral \<Longrightarrow> spelled s"
  by (auto simp: text_as_value_def spelled_def dest!: TokenText_token_text) (auto simp: set_token_def)

lemma spelled_number: "scanNumber t = Some s \<Longrightarrow> spelled s"
  by (auto simp: scanNumber_def scan_hex_number_def scan_binary_number_def scan_decimal_number_def finishNumber_def
      Let_def split_beta split: if_splits intro: spelled_text_as_value)

lemma spelled_identifier:
  assumes "scanIdentifierOrKeyword t = Some s" and "inside t" and "tokenStart t = s_pos t"
    and "isIdentifierStart (charCodeAt t (s_pos t))" and "s_pos t < source_end t"
  shows "spelled s"
proof -
  let ?u = "skip_identifier t"
  from assms(1) obtain v where v: "TokenText ?u = Some v"
    and s: "s = set_token (case textToKeyword v of Some kw \<Rightarrow> kw | None \<Rightarrow> Identifier) (?u\<lparr>tokenValue := v\<rparr>)"
    by (auto simp: scanIdentifierOrKeyword_def Let_def split: option.splits)
  have k: "kept t ?u" by (rule kept_skip_identifier) simp
  have vt: "v = text_between (source_text t) (s_pos t) (s_pos ?u)"
    using TokenText_between [OF v] k assms(3) by (simp add: kept_def)
  have "?u = skip_identifier (advance 1 t)" using assms(4, 5) by (subst skip_identifier.simps) (simp add: isIdentifierPart_def)
  then have lt: "s_pos t < s_pos ?u" using kept_skip_identifier [OF kept_refl, of "advance 1 t"] by (simp add: kept_def)
  have "is_identifier v"
    using skip_identifier_text [OF assms(2)] assms(2, 4, 5) lt
    by (simp add: is_identifier_def vt text_between_step charCodeAt_def inside_def)
  moreover have "token_text s = v" using TokenText_token_text [OF v] by (simp add: s)
  moreover have "\<And>kw. textToKeyword v = Some kw \<Longrightarrow> \<exists>w. kw = Reserved w" by (auto simp: textToKeyword_def)
  ultimately show ?thesis
    using keyword_spelling [of v] by (cases "textToKeyword v") (auto simp: spelled_def s set_token_def)
qed

text \<open>Punctuation: the characters that \<open>punct_at\<close> saw are the spelling.\<close>

lemma punct_at_spelling:
  assumes "punct_at c0 c1 c2 = Some (n, p)"
  shows "n = length (punctuationText p) \<and> map of_char (punctuationText p) = take n [c0, c1, c2]"
  using assms unfolding punct_at_def by (simp split: if_splits) (elim conjE; hypsubst; simp)+

lemma text_between_chars:
  "charCodeAt s i = of_char a \<Longrightarrow> text_between (source_text s) i (i + 1) = [a]"
  "charCodeAt s i = of_char a \<Longrightarrow> charCodeAt s (i + 1) = of_char b \<Longrightarrow> text_between (source_text s) i (i + 2) = [a, b]"
  "charCodeAt s i = of_char a \<Longrightarrow> charCodeAt s (i + 1) = of_char b \<Longrightarrow> charCodeAt s (i + 2) = of_char c \<Longrightarrow>
     text_between (source_text s) i (i + 3) = [a, b, c]"
  by (simp_all add: charCode_eq text_between_step text_between_def [of _ "Suc (Suc (Suc i))"])

lemma spelled_punct:
  assumes "punct_at (charCodeAt s (s_pos s)) (charCodeAt s (s_pos s + 1)) (charCodeAt s (s_pos s + 2)) = Some (n, p)"
  shows "text_between (source_text s) (s_pos s) (s_pos s + n) = punctuationText p"
proof -
  let ?l = "[charCodeAt s (s_pos s), charCodeAt s (s_pos s + 1), charCodeAt s (s_pos s + 2)]"
  from punct_at_spelling [OF assms] have n: "n = length (punctuationText p)"
    and chars: "map of_char (punctuationText p) = take n ?l" by simp_all
  from arg_cong [OF chars, of length] n have "length (punctuationText p) \<le> 3" by simp
  then consider "punctuationText p = []" | a where "punctuationText p = [a]" | a b where "punctuationText p = [a, b]"
    | a b c where "punctuationText p = [a, b, c]"
    by (cases "punctuationText p" rule: remdups_adj.cases) (auto simp: le_Suc_eq numeral_3_eq_3 length_Suc_conv)
  then show ?thesis
  proof cases
    case 1
    then show ?thesis by (simp add: n)
  next
    case 2
    with n chars text_between_chars(1) [of s "s_pos s"] show ?thesis by simp
  next
    case 3
    with n chars text_between_chars(2) [of s "s_pos s"] show ?thesis by (simp add: numeral_2_eq_2)
  next
    case 4
    with n chars text_between_chars(3) [of s "s_pos s"] show ?thesis by (simp add: numeral_3_eq_3)
  qed
qed

lemma spelled_other: "token s = StringLiteral \<or> token s = CharacterLiteral \<or> token s = Unknown \<or> token s = EndOfFileToken \<Longrightarrow> spelled s"
  by (auto simp: spelled_def)

lemma literal_value_token: "literal_value kind r = Some s \<Longrightarrow> token s = kind"
  by (auto simp: literal_value_def)

lemma scan_token_spelled:
  assumes "scan_token t = Some s" and "inside t" and "tokenStart t = s_pos t" and "s_pos t < source_end t"
  shows "spelled s"
proof -
  let ?ch = "charCodeAt t (s_pos t)" and ?c1 = "charCodeAt t (s_pos t + 1)" and ?c2 = "charCodeAt t (s_pos t + 2)"
  note st = assms(1) [unfolded scan_token_def Let_def]
  consider (dot) "?ch = 0x2e \<and> isDigit ?c1"
    | (punct) n p where "\<not> (?ch = 0x2e \<and> isDigit ?c1)" "punct_at ?ch ?c1 ?c2 = Some (n, p)"
    | (other) "\<not> (?ch = 0x2e \<and> isDigit ?c1)" "punct_at ?ch ?c1 ?c2 = None"
    by (cases "punct_at ?ch ?c1 ?c2") auto
  then show ?thesis
  proof cases
    case dot
    with st have "scanNumber t = Some s" by simp
    then show ?thesis by (rule spelled_number)
  next
    case punct
    with st have s: "s = set_token (Punct p) (advance n t)" by auto
    from spelled_punct [OF punct(2)] show ?thesis
      using assms(3) by (simp add: spelled_def s token_text_def tokenToString_def set_token_def advance_def)
  next
    case other
    note st = st [unfolded if_not_P [OF other(1)] other(2) option.case]
    show ?thesis
      using st spelled_number spelled_identifier [OF _ assms(2, 3) _ assms(4)] spelled_text_as_value
      by (auto simp: scanStringOrTextBlock_def scanTextBlock_def scanCharacterLiteral_def Let_def split_beta
          split: if_splits intro: spelled_other literal_value_token)
  qed
qed

lemma Scan_spelled:
  assumes "Scan s = Some s'" and "inside s"
  shows "spelled s'"
proof -
  obtain u where u: "found (s\<lparr>fullStartPos := s_pos s, tokenFlags := 0, tokenValue := []\<rparr>) u" "Scan s = token_at u"
    by (rule Scan_found)
  from u(1) assms(2) have "inside u" "tokenStart u = s_pos u" by (auto simp: found_def inside_def)
  moreover from u(2) assms(1) have "token_at u = Some s'" by simp
  ultimately show ?thesis
    using scan_token_spelled [of u s'] spelled_other [of s'] by (auto simp: token_at_def split: if_splits)
qed

text \<open>Merging a \<open>>\<close> with what follows keeps the token spelled.\<close>

lemma rescan_spelled:
  assumes "spelled s" and "tokenStart s \<le> s_pos s"
  shows "spelled (ReScanGreaterToken s)"
proof (cases "token s = Punct GreaterThanToken")
  case True
  let ?c = "\<lambda>i. charCodeAt s (s_pos s + i)"
  have code: "(of_char (CHR ''>'') :: int) = 0x3e" "(of_char (CHR ''='') :: int) = 0x3d" by simp_all
  have grow: "token_text (advance n s) = CHR ''>'' # text_between (source_text s) (s_pos s) (s_pos s + n)" for n
    using assms True text_between_append [of "tokenStart s" "s_pos s" "s_pos s + n" "source_text s"]
    by (simp add: token_text_def advance_def spelled_def tokenToString_def)
  note more = text_between_chars [of s "s_pos s", folded code]
  consider "?c 0 = 0x3e \<and> ?c 1 = 0x3e \<and> ?c 2 = 0x3d" | "?c 0 = 0x3e \<and> ?c 1 = 0x3e \<and> ?c 2 \<noteq> 0x3d"
    | "?c 0 = 0x3e \<and> ?c 1 \<noteq> 0x3e \<and> ?c 1 = 0x3d" | "?c 0 = 0x3e \<and> ?c 1 \<noteq> 0x3e \<and> ?c 1 \<noteq> 0x3d"
    | "?c 0 \<noteq> 0x3e \<and> ?c 0 = 0x3d" | "?c 0 \<noteq> 0x3e \<and> ?c 0 \<noteq> 0x3d" by blast
  then show ?thesis
  proof cases
    case 1
    with True grow [of 3] more(3) [of "CHR ''>''" "CHR ''>''" "CHR ''=''"] show ?thesis
      by (simp add: ReScanGreaterToken_def spelled_def tokenToString_def)
  next
    case 2
    with True grow [of 2] more(2) [of "CHR ''>''" "CHR ''>''"] show ?thesis
      by (simp add: ReScanGreaterToken_def spelled_def tokenToString_def)
  next
    case 3
    with True grow [of 2] more(2) [of "CHR ''>''" "CHR ''=''"] show ?thesis
      by (simp add: ReScanGreaterToken_def spelled_def tokenToString_def)
  next
    case 4
    with True grow [of 1] more(1) [of "CHR ''>''"] show ?thesis
      by (simp add: ReScanGreaterToken_def spelled_def tokenToString_def)
  next
    case 5
    with True grow [of 1] more(1) [of "CHR ''=''"] show ?thesis
      by (simp add: ReScanGreaterToken_def spelled_def tokenToString_def)
  next
    case 6
    with True assms(1) show ?thesis by (simp add: ReScanGreaterToken_def)
  qed
next
  case False
  with assms(1) show ?thesis by (simp add: ReScanGreaterToken_def Let_def)
qed

lemma scan_tokens_spelled:
  assumes "scan_tokens s = Some ts" and "inside s"
  shows "\<forall>k \<in> set ts. spelled k \<and> tokenStart k \<le> s_pos k"
  using assms
proof (induction rule: scan_tokens_induct)
  case (eof s s')
  then show ?case using Scan_spelled [of s s'] by (simp add: scanned_def)
next
  case (token s s' ts)
  then show ?case using Scan_spelled [of s s'] by (simp add: scanned_def)
qed

text \<open>
  C23. In every token stream, a punctuation or keyword token has the canonical spelling of its kind
  as its text, also after a \<open>>\<close> has been merged with what follows; an identifier is an identifier
  that is no keyword, and it, a number and a text block carry their text as their value.
\<close>

theorem token_spelling:
  assumes "scan_tokens (NewScanner t) = Some ts" and "k \<in> set ts"
  shows "spelled k \<and> spelled (ReScanGreaterToken k)"
  using scan_tokens_spelled [OF assms(1)] assms(2) rescan_spelled [of k] by simp

theorem token_spelling_witness:
  "let k = hd (the (scan_tokens (NewScanner ''>>= x'')))
   in spelled (ReScanGreaterToken k) \<and> token (ReScanGreaterToken k) = Punct GreaterThanGreaterThanEqualsToken"
proof -
  let ?r = "scan_tokens (NewScanner ''>>= x'')"
  have "?r = Some (the ?r)" "hd (the ?r) \<in> set (the ?r)" by code_simp+
  from token_spelling [OF this] have "spelled (ReScanGreaterToken (hd (the ?r)))" by simp
  moreover have "token (ReScanGreaterToken (hd (the ?r))) = Punct GreaterThanGreaterThanEqualsToken" by code_simp
  ultimately show ?thesis by (simp add: Let_def)
qed

section \<open>Words printed and scanned back\<close>

text \<open>
  The words whose printing is scanned back: every keyword, every identifier that is no keyword, and
  the punctuation that one scan reads, which leaves out the merged \<open>>\<close> family.
\<close>

definition merged :: "Punctuation \<Rightarrow> bool" where
  "merged p \<longleftrightarrow>
     p \<in> {GreaterThanEqualsToken, GreaterThanGreaterThanToken, GreaterThanGreaterThanGreaterThanToken,
          GreaterThanGreaterThanEqualsToken, GreaterThanGreaterThanGreaterThanEqualsToken}"

fun word_of :: "SyntaxKind \<Rightarrow> string \<Rightarrow> bool" where
  "word_of (Punct p) w \<longleftrightarrow> w = punctuationText p \<and> \<not> merged p"
| "word_of (Reserved k) w \<longleftrightarrow> keywordText k = Some w"
| "word_of Identifier w \<longleftrightarrow> is_identifier w \<and> textToKeyword w = None"
| "word_of _ w \<longleftrightarrow> False"

text \<open>Every word is printed with a blank before it.\<close>

definition print_words :: "(SyntaxKind \<times> string) list \<Rightarrow> string" where
  "print_words ws = concat (map (\<lambda>(_, w). CHR '' '' # w) ws)"

definition ends_word :: "int \<Rightarrow> bool" where
  "ends_word c \<longleftrightarrow> c = -1 \<or> c = 0x20"

lemma punct_at_word:
  assumes "\<not> merged p" and "ends_word (c (length (punctuationText p)))"
    and "\<And>i. i < length (punctuationText p) \<Longrightarrow> c i = of_char (punctuationText p ! i)"
  shows "punct_at (c 0) (c 1) (c 2) = Some (length (punctuationText p), p)
    \<and> \<not> (c 0 = 0x2e \<and> isDigit (c 1)) \<and> \<not> isLineBreak (c 0) \<and> \<not> isBlank (c 0)
    \<and> \<not> (c 0 = 0x2f \<and> c 1 = 0x2f) \<and> \<not> (c 0 = 0x2f \<and> c 1 = 0x2a)"
  using assms(2) assms(3) [of 0] assms(3) [of 1] assms(3) [of 2] assms(1)
  by (cases p; simp add: punct_at_def merged_def ends_word_def isDigit_def isLineBreak_def isBlank_def numeral_2_eq_2; elim disjE; simp)

lemma charCode_in_word:
  assumes "drop i (source_text s) = w @ rest"
  shows "j < length w \<Longrightarrow> charCodeAt s (i + j) = of_char (w ! j)"
    and "charCodeAt s (i + length w) = (if rest = [] then -1 else of_char (hd rest))"
proof -
  have at: "source_text s ! (i + k) = (w @ rest) ! k" if "i + k < length (source_text s)" for k
    using that assms by (metis nth_drop less_or_eq_imp_le add_leD1)
  have len: "length (source_text s) - i = length w + length rest" using arg_cong [OF assms, of length] by simp
  show "j < length w \<Longrightarrow> charCodeAt s (i + j) = of_char (w ! j)"
    using at [of j] len by (auto simp: charCodeAt_def nth_append)
  show "charCodeAt s (i + length w) = (if rest = [] then -1 else of_char (hd rest))"
    using at [of "length w"] len by (cases rest) (auto simp: charCodeAt_def nth_append)
qed

lemma skip_identifier_run:
  assumes "\<And>i. i < n \<Longrightarrow> isIdentifierPart (charCodeAt s (s_pos s + i))" and "\<not> isIdentifierPart (charCodeAt s (s_pos s + n))"
    and "inside s"
  shows "skip_identifier s = advance n s"
  using assms
proof (induction n arbitrary: s)
  case 0
  then show ?case by (subst skip_identifier.simps) (simp add: advance_def)
next
  case (Suc n)
  from Suc.prems(1) [of 0] have part: "isIdentifierPart (charCodeAt s (s_pos s))" by simp
  then have "charCodeAt s (s_pos s) \<noteq> -1" by auto
  with Suc.prems(3) have lt: "s_pos s < source_end s" using charCodeAt_in_text by (simp add: inside_def)
  have "skip_identifier (advance 1 s) = advance n (advance 1 s)"
    using Suc.prems(1) [of "Suc _"] Suc.prems(2, 3) lt by (intro Suc.IH) (auto simp: inside_char)
  with part lt show ?case by (subst skip_identifier.simps) (simp add: advance_def)
qed

lemma word_of_nonempty: "word_of k w \<Longrightarrow> w \<noteq> []"
proof (induction k w rule: word_of.induct)
  case (1 p w)
  then show ?case by (cases p) simp_all
next
  case (2 k w)
  then have "(w, k) \<in> set keyword_table" by (simp add: keywordText_iff map_of_SomeD)
  with keywords_are_identifiers show ?case by (auto simp: list_all_iff is_identifier_def)
qed (auto simp: is_identifier_def)

lemma keyword_is_identifier: "map_of keyword_table w = Some r \<Longrightarrow> is_identifier w"
  using keywords_are_identifiers by (drule_tac map_of_SomeD) (auto simp: list_all_iff)

lemma identifier_word:
  "word_of k w \<Longrightarrow> k = Identifier \<or> (\<exists>r. k = Reserved r) \<Longrightarrow>
     is_identifier w \<and> (case textToKeyword w of Some kw \<Rightarrow> kw | None \<Rightarrow> Identifier) = k"
  using keyword_is_identifier by (auto simp: keywordText_iff textToKeyword_def)


text \<open>A word is read from where it begins.\<close>

lemma scan_token_word:
  assumes word: "word_of k w" and inside: "inside s" and start: "tokenStart s = s_pos s"
    and at: "drop (s_pos s) (source_text s) = w @ rest" and rest: "rest = [] \<or> hd rest = CHR '' ''"
  shows "\<exists>s'. scan_token s = Some s' \<and> token s' = k \<and> s_pos s' = s_pos s + length w \<and> trivia_next s = None"
proof -
  let ?c = "\<lambda>i. charCodeAt s (s_pos s + i)"
  have stop: "ends_word (?c (length w))" using charCode_in_word(2) [OF at] rest by (auto simp: ends_word_def)
  have chars: "\<And>i. i < length w \<Longrightarrow> ?c i = of_char (w ! i)" by (rule charCode_in_word(1) [OF at])
  note nonempty = word_of_nonempty [OF word]
  show ?thesis
  proof (cases "\<exists>p. k = Punct p")
    case True
    then obtain p where k: "k = Punct p" and w: "w = punctuationText p" "\<not> merged p" using word by auto
    from punct_at_word [OF w(2), of ?c] stop chars w(1)
    have p: "punct_at (?c 0) (?c 1) (?c 2) = Some (length w, p)" "\<not> (?c 0 = 0x2e \<and> isDigit (?c 1))"
      and no: "trivia_next s = None"
      by (simp_all add: trivia_next_def Let_def)
    have "scan_token s = Some (set_token (Punct p) (advance (length w) s))"
      using p by (auto simp: scan_token_def Let_def)
    with no show ?thesis by (simp add: k)
  next
    case False
    with word have "k = Identifier \<or> (\<exists>r. k = Reserved r)" by (cases k) auto
    note id = identifier_word [OF word this]
    then have first: "isIdentifierStart (?c 0)" using chars [of 0] nonempty by (simp add: is_identifier_def hd_conv_nth)
    then have c0: "\<not> isDigit (?c 0)" "punct_at (?c 0) x y = None" "trivia_next s = None" "?c 0 \<noteq> 0x2e" "?c 0 \<noteq> 0x22" "?c 0 \<noteq> 0x27" for x y
      by (auto simp: isIdentifierStart_def isDigit_def punct_at_def trivia_next_def Let_def isLineBreak_def isBlank_def)
    have run: "skip_identifier s = advance (length w) s"
    proof (rule skip_identifier_run [OF _ _ inside])
      show "\<And>i. i < length w \<Longrightarrow> isIdentifierPart (?c i)" using id chars by (simp add: is_identifier_def list_all_length)
      show "\<not> isIdentifierPart (?c (length w))" using stop by (auto simp: ends_word_def isIdentifierPart_def isIdentifierStart_def isDigit_def)
    qed
    have "length (source_text s) - s_pos s = length w + length rest" using arg_cong [OF at, of length] by simp
    with inside have "s_pos s + length w \<le> length (source_text s)" unfolding inside_def by linarith
    then have "TokenText (advance (length w) s) = Some w"
      using at start
      by (simp add: TokenText_def slice_def inside_def advance_def)
    then have "scan_token s = Some (set_token k (advance (length w) s\<lparr>tokenValue := w\<rparr>))"
      using c0 first id by (simp add: scan_token_def scanIdentifierOrKeyword_def run Let_def)
    with c0(3) show ?thesis by simp
  qed
qed

lemma Scan_word:
  assumes word: "word_of k w" and inside: "inside s"
    and at: "drop (s_pos s) (source_text s) = CHR '' '' # w @ rest" and rest: "rest = [] \<or> hd rest = CHR '' ''"
  shows "\<exists>s'. Scan s = Some s' \<and> token s' = k \<and> token_text s' = w \<and> drop (s_pos s') (source_text s') = rest \<and> inside s'"
proof -
  let ?s = "s\<lparr>fullStartPos := s_pos s, tokenFlags := 0, tokenValue := []\<rparr>"
  let ?t = "(advance 1 (?s\<lparr>tokenStart := s_pos s\<rparr>))"
  let ?u = "?t\<lparr>tokenStart := s_pos ?t\<rparr>"
  have lt: "s_pos s < source_end s" using arg_cong [OF at, of length] inside by (simp add: inside_def)
  have blank: "charCodeAt s (s_pos s) = 0x20" using charCode_in_word(1) [of "s_pos s" s "CHR '' '' # w" rest 0] at by simp
  have charCode: "charCodeAt (?s\<lparr>tokenStart := n\<rparr>) = charCodeAt s" for n by (simp add: charCodeAt_def fun_eq_iff)
  have "Scan s = scan_loop ?t"
    using lt blank by (simp add: Scan_def scan_loop_step [of ?s] trivia_next_def charCode isLineBreak_def isBlank_def Let_def)
  moreover have "inside ?u" using inside lt by (simp add: inside_def)
  moreover have drop: "drop (s_pos ?u) (source_text ?u) = w @ rest"
    using at by (simp add: drop_Suc) (metis drop_Suc drop_tl list.sel(3))
  ultimately obtain s' where s': "scan_token ?u = Some s'" "token s' = k" "s_pos s' = s_pos ?u + length w" "trivia_next ?u = None"
    using scan_token_word [OF word _ _ _ rest, of ?u] by auto
  have lt': "s_pos ?t < source_end ?t"
    using arg_cong [OF drop, of length] word_of_nonempty [OF word] inside by (cases w) (auto simp: inside_def)
  have scan: "Scan s = Some s'"
    unfolding \<open>Scan s = scan_loop ?t\<close> scan_loop_step [of ?t] Let_def using s' lt' by simp
  have "kept ?u s'" using scan_token_read [OF _ s'(1)] lt' by (simp add: token_read_def)
  then have eqs: "source_text s' = source_text s" "tokenStart s' = s_pos ?u" by (simp_all add: kept_def)
  have "token_text s' = w"
    using drop s'(3) by (simp add: token_text_def text_between_def eqs)
  moreover have "drop (s_pos s') (source_text s') = rest"
    using arg_cong [OF drop, of "drop (length w)"] s'(3) by (simp add: eqs add.commute)
  ultimately show ?thesis using scan s'(2) Scan_scanned [OF scan] inside by (auto simp: scanned_def)
qed


lemma scan_tokens_words:
  assumes "list_all (\<lambda>(k, w). word_of k w) ws" and "inside s" and "drop (s_pos s) (source_text s) = print_words ws"
  shows "\<exists>ts. scan_tokens s = Some ts \<and> map (\<lambda>k. (token k, token_text k)) (butlast ts) = ws"
  using assms
proof (induction ws arbitrary: s)
  case Nil
  then have "source_end s \<le> s_pos s" by (simp add: print_words_def inside_def)
  then have "Scan s = Some (set_token EndOfFileToken (s\<lparr>fullStartPos := s_pos s, tokenFlags := 0, tokenValue := [], tokenStart := s_pos s\<rparr>))"
    by (simp add: Scan_def scan_loop_step Let_def)
  then show ?case by (simp add: scan_tokens.simps [of s])
next
  case (Cons kw ws)
  obtain k w where kw: "kw = (k, w)" by (cases kw)
  have rest: "print_words ws = [] \<or> hd (print_words ws) = CHR '' ''"
    by (cases ws) (auto simp: print_words_def split_beta)
  from Cons.prems kw have "word_of k w" "drop (s_pos s) (source_text s) = CHR '' '' # w @ print_words ws"
    by (simp_all add: print_words_def)
  from Scan_word [OF this(1) Cons.prems(2) this(2) rest] obtain s' where
    s': "Scan s = Some s'" "token s' = k" "token_text s' = w" "drop (s_pos s') (source_text s') = print_words ws" "inside s'"
    by blast
  from Cons.IH [OF _ s'(5, 4)] Cons.prems(1) obtain ts where
    ts: "scan_tokens s' = Some ts" "map (\<lambda>k. (token k, token_text k)) (butlast ts) = ws"
    by auto
  have "token s' \<noteq> EndOfFileToken" using \<open>word_of k w\<close> s'(2) by auto
  moreover have "ts \<noteq> []" using scan_tokens_partition [OF ts(1) s'(5)] by blast
  ultimately show ?case using s' ts by (simp add: scan_tokens.simps [of s] kw)
qed


definition example_words :: "(SyntaxKind \<times> string) list" where
  "example_words = [(Reserved IntKeyword, ''int''), (Identifier, ''i''), (Punct LessThanLessThanEqualsToken, ''<<=''),
    (Punct DotToken, ''.''), (Punct SlashToken, ''/'')]"


end
