(* ===== verification/StringEscape.thy ===== *)
theory StringEscape
  imports TokenSpelling
begin

text \<open>
  String literals written and read: \<open>escapeString\<close> of \<open>togo/internal/compiler/disasm.go\<close> writes the text of
  a constant the way \<open>javap\<close> does, and the scanner reads it back from between two quotes.
\<close>

definition QUOTE :: char where "QUOTE = CHR 0x22"

definition hex_digit_char :: "int \<Rightarrow> char" where
  "hex_digit_char d = (if d < 10 then char_of (0x30 + d) else char_of (0x57 + d))"

text \<open>The verb \<open>%04x\<close> of \<open>fmt\<close>, for a number of at most four digits.\<close>

definition hex4 :: "int \<Rightarrow> string" where
  "hex4 r = map hex_digit_char [r div 4096 mod 16, r div 256 mod 16, r div 16 mod 16, r mod 16]"

definition escape_rune :: "int \<Rightarrow> string \<Rightarrow> string" where
  "escape_rune r raw =
     (if r = 0x5c then [BACKSLASH, BACKSLASH]
      else if r = 0x22 then [BACKSLASH, QUOTE]
      else if r = 0x27 then [BACKSLASH, CHR 0x27]
      else if r = 0x0a then [BACKSLASH, CHR ''n'']
      else if r = 0x0d then [BACKSLASH, CHR ''r'']
      else if r = 0x09 then [BACKSLASH, CHR ''t'']
      else if r = 0x08 then [BACKSLASH, CHR ''b'']
      else if r = 0x0c then [BACKSLASH, CHR ''f'']
      else if r < 0x20 \<or> (0x7f \<le> r \<and> r \<le> 0x9f) then [BACKSLASH, CHR ''u''] @ hex4 r
      else raw)"

text \<open>A surrogate in its WTF-8 bytes, which has no encoding.\<close>

definition surrogate_at :: "string \<Rightarrow> bool" where
  "surrogate_at v \<longleftrightarrow> 2 < length v \<and> byte_of (v ! 0) = 0xed \<and> byte_of (v ! 1) \<ge> 0xa0"

function escapeString :: "string \<Rightarrow> string" where
  "escapeString [] = []"
| "escapeString (c # v) =
     (if surrogate_at (c # v) then CHR ''?'' # escapeString (drop 3 (c # v))
      else let (r, size) = decode_rune (c # v)
           in escape_rune r (take size (c # v)) @ escapeString (drop size (c # v)))"
  by pat_completeness auto
termination
  by (relation "measure length") (auto simp: prod_eq_iff decode_rune_pos intro: diff_less simp del: decode_rune.simps)

declare escapeString.simps(2) [simp del]

section \<open>Runes\<close>

lemma decode_ascii: "byte_of c < 128 \<Longrightarrow> decode_rune (c # v) = (byte_of c, 1)"
  by simp

text \<open>A sequence that begins with a high byte has only high bytes; only C2 begins the C1 controls.\<close>

lemma decode_high:
  assumes "\<not> byte_of c < 128" and "decode_rune (c # v) = (r, n)"
  shows "(\<forall>d \<in> set (take n (c # v)). \<not> byte_of d < 128) \<and> 128 \<le> r \<and> (r < 0xa0 \<longrightarrow> take n (c # v) = rune_string r)"
proof -
  have two: "take 2 (c # d # w) = rune_string ((byte_of c - 192) * 64 + (byte_of d - 128))"
    if "194 \<le> byte_of c" "cont_byte 128 191 d" "(byte_of c - 192) * 64 + (byte_of d - 128) < 0xa0" for d w
  proof -
    from that have c: "byte_of c = 194" and d: "128 \<le> byte_of d" "byte_of d < 160" by (simp_all add: cont_byte_def)
    then have "c = char_of (194 :: int)" "d = char_of (byte_of d)" by (metis char_of_char)+
    moreover have "x div 64 = 2 \<and> x mod 64 = x - 128" if "128 \<le> x" "x < 160" for x :: int using that by presburger
    from this [OF d] have "byte_of d div 64 = 2" "byte_of d mod 64 = byte_of d - 128" by simp_all
    ultimately show ?thesis using c d by (simp add: rune_string_def numeral_2_eq_2)
  qed
  show ?thesis
    using assms two
    by (auto simp: Let_def cont_byte_def rune_error_def split: if_splits list.splits)
qed


section \<open>Reading the escapes back\<close>

text \<open>Characters a literal holds as they are.\<close>

definition plain :: "char \<Rightarrow> bool" where
  "plain c \<longleftrightarrow> \<not> isLineBreak (byte_of c) \<and> byte_of c \<noteq> 0x22 \<and> byte_of c \<noteq> 0x5c"

lemma advance_advance [simp]: "advance a (advance b s) = advance (b + a) s"
  by (simp add: advance_def)

lemma advance_0 [simp]: "advance 0 s = s"
  by (simp add: advance_def)

lemma drop_advance: "drop (s_pos s) (source_text s) = w @ v \<Longrightarrow> length w = n \<Longrightarrow> drop (s_pos (advance n s)) (source_text (advance n s)) = v"
  using drop_drop [of n "s_pos s" "source_text s"] by (simp add: add.commute)

lemma inside_drop: "drop (s_pos s) (source_text s) = w @ v \<Longrightarrow> length w = n \<Longrightarrow> inside s \<Longrightarrow> inside (advance n s)"
  by (drule arg_cong [of _ _ length]) (auto simp: inside_def)

lemma literal_plain:
  assumes "list_all plain w" and "inside s" and "drop (s_pos s) (source_text s) = w @ rest"
  shows "literal_loop 0x22 m acc s = literal_loop 0x22 m (acc @ w) (advance (length w) s)"
  using assms
proof (induction w arbitrary: s acc)
  case (Cons c w)
  from charCode_in_word(1) [OF Cons.prems(3), of 0] have c: "charCodeAt s (s_pos s) = byte_of c" by simp
  from Cons.prems(3) have lt: "s_pos s < length (source_text s)" and nth: "source_text s ! s_pos s = c"
    by (metis append_Cons drop_all leI list.distinct(1), metis append_Cons hd_drop_conv_nth drop_all leI list.distinct(1) list.sel(1))
  have "literal_loop 0x22 m acc s = literal_loop 0x22 m (acc @ [c]) (advance 1 s)"
    using Cons.prems(1, 2) c lt nth by (subst literal_loop_char) (simp_all add: plain_def inside_def)
  also have "\<dots> = literal_loop 0x22 m ((acc @ [c]) @ w) (advance (length w) (advance 1 s))"
    using Cons.prems drop_advance [of s "[c]" "w @ rest" 1] inside_drop [of s "[c]" "w @ rest" 1] by (intro Cons.IH) simp_all
  finally show ?case by simp
qed simp

lemma literal_escape:
  assumes "inside s" and "drop (s_pos s) (source_text s) = BACKSLASH # w" and "scanEscapeSequence s = (v, t)"
  shows "literal_loop 0x22 m acc s = literal_loop 0x22 m (acc @ v) t"
proof -
  have "charCodeAt s (s_pos s) = 0x5c"
    using charCode_in_word(1) [of "s_pos s" s "[BACKSLASH]" w 0] assms(2) by (simp add: BACKSLASH_def)
  moreover from assms(1, 2) have "s_pos s < source_end s" by (auto simp: inside_def intro: ccontr)
  ultimately show ?thesis using assms(3) by (subst literal_loop_escape) simp_all
qed

lemma scan_simple_escape:
  assumes "drop (s_pos s) (source_text s) = BACKSLASH # c # w" and "simple_escape (byte_of c) = Some v"
  shows "scanEscapeSequence s = (v, advance 2 s)"
proof -
  have "charCodeAt s (s_pos s + 1) = byte_of c"
    using charCode_in_word(1) [of "s_pos s" s "[BACKSLASH, c]" w 1] assms(1) by simp
  moreover have "s_pos s + 1 < length (source_text s)" using arg_cong [OF assms(1), of length] by simp
  ultimately show ?thesis using assms(2) by (simp add: scanEscapeSequence_def Let_def numeral_2_eq_2)
qed

lemma hex_digit_code:
  assumes "0 \<le> d" and "d < 16"
  shows "isHexDigit (byte_of (hex_digit_char d)) \<and> hexValue (byte_of (hex_digit_char d)) = d"
  using assms by (auto simp: hex_digit_char_def isHexDigit_def hexValue_def isDigit_def)

lemma hex_digits_read:
  assumes "\<And>i. i < length w \<Longrightarrow> charCodeAt s (s_pos s + i) = byte_of (hex_digit_char (w ! i))"
    and "list_all (\<lambda>d. 0 \<le> d \<and> d < 16) w"
  shows "hex_digits (length w) value s = (0, foldl (\<lambda>n d. n * 16 + d) value w, advance (length w) s)"
  using assms
proof (induction w arbitrary: s "value")
  case (Cons d w)
  from Cons.prems(1) [of 0] have "charCodeAt s (s_pos s) = byte_of (hex_digit_char d)" by simp
  moreover have "hex_digits (length w) v (advance 1 s) = (0, foldl (\<lambda>n d. n * 16 + d) v w, advance (length w) (advance 1 s))" for v
    using Cons.prems(1) [of "Suc _"] Cons.prems(2) by (intro Cons.IH) auto
  ultimately show ?case using hex_digit_code [of d] Cons.prems(2) by simp
qed simp

lemma four_digits:
  fixes r :: int
  assumes "0 \<le> r" and "r < 65536"
  shows "((r div 4096 mod 16 * 16 + r div 256 mod 16) * 16 + r div 16 mod 16) * 16 + r mod 16 = r"
proof -
  have "r div 4096 = r div 256 div 16" using zdiv_zmult2_eq [of 16 r 256] by simp
  moreover have "r div 256 = r div 16 div 16" using zdiv_zmult2_eq [of 16 r 16] by simp
  moreover have "r div 4096 mod 16 = r div 4096" using assms by (intro mod_pos_pos_trivial) auto
  ultimately show ?thesis by (simp only: div_mult_mod_eq)
qed

lemma scan_hex_escape:
  assumes "drop (s_pos s) (source_text s) = BACKSLASH # CHR ''u'' # map hex_digit_char ds @ w"
    and "length ds = 4" and "list_all (\<lambda>d. 0 \<le> d \<and> d < 16) ds"
  shows "scanEscapeSequence s = (rune_string (foldl (\<lambda>n d. n * 16 + d) 0 ds), advance 6 s)"
proof -
  let ?s = "advance 2 s"
  have at: "drop (s_pos s) (source_text s) = (BACKSLASH # CHR ''u'' # map hex_digit_char ds) @ w" using assms(1) by simp
  note code = charCode_in_word(1) [OF at]
  have u: "charCodeAt s (s_pos s + 1) = 0x75" using code [of 1] by simp
  have len: "s_pos s + 1 < length (source_text s)" using arg_cong [OF at, of length] by simp
  have digits: "charCodeAt ?s (s_pos ?s + i) = byte_of (hex_digit_char (ds ! i))" if "i < length ds" for i
    using code [of "Suc (Suc i)"] that by simp
  have "0 < length ds" using assms(2) by simp
  then have "isHexDigit (charCodeAt ?s (s_pos ?s))"
    using digits [of 0] hex_digit_code [of "ds ! 0"] assms(3) unfolding list_all_length by simp
  then have no_u: "skip_us ?s = ?s" by (subst skip_us.simps) (auto simp: isHexDigit_def isDigit_def)
  have "hex_digits 4 0 ?s = (0, foldl (\<lambda>n d. n * 16 + d) 0 ds, advance 4 ?s)"
    using hex_digits_read [OF digits assms(3), of 0] by (simp only: assms(2))
  then show ?thesis
    using u len no_u by (simp add: scanEscapeSequence_def Let_def simple_escape_def numeral_2_eq_2)
qed

lemma scan_unicode_escape:
  assumes "drop (s_pos s) (source_text s) = BACKSLASH # CHR ''u'' # hex4 r @ w" and "0 \<le> r" and "r < 65536"
  shows "scanEscapeSequence s = (rune_string r, advance 6 s)"
proof -
  let ?ds = "[r div 4096 mod 16, r div 256 mod 16, r div 16 mod 16, r mod 16]"
  have val: "foldl (\<lambda>n d. n * 16 + d) 0 ?ds = r"
    unfolding foldl.simps mult_zero_left add_0_left by (rule four_digits [OF assms(2, 3)])
  have "length ?ds = 4" "list_all (\<lambda>d. 0 \<le> d \<and> d < 16) ?ds" by simp_all
  from scan_hex_escape [OF assms(1) [unfolded hex4_def] this] show ?thesis unfolding val .
qed

lemma literal_simple:
  assumes "inside s" and "drop (s_pos s) (source_text s) = [BACKSLASH, c] @ w" and "simple_escape (byte_of c) = Some v"
  shows "literal_loop 0x22 m acc s = literal_loop 0x22 m (acc @ v) (advance (length [BACKSLASH, c]) s)"
  using literal_escape [OF assms(1) _ scan_simple_escape [of s c w, OF _ assms(3)]] assms(2) by (simp add: numeral_2_eq_2)

lemma rune_string_ascii: "r < 128 \<Longrightarrow> rune_string r = [char_of r]"
  by (simp add: rune_string_def)

lemma byte_of_nonneg [simp]: "0 \<le> byte_of c"
  by (metis of_nat_of_char of_nat_0_le_iff)

lemma escaped_chars:
  "char_of (92 :: int) = CHR 0x5C" "char_of (34 :: int) = CHR 0x22" "char_of (39 :: int) = CHR 0x27" "char_of (10 :: int) = CHR 0x0A"
  "char_of (13 :: int) = CHR 0x0D" "char_of (9 :: int) = CHR 0x09" "char_of (8 :: int) = CHR 0x08" "char_of (12 :: int) = CHR 0x0C"
  by (simp_all add: char_of_eq_iff)

text \<open>One rune: its escape is read back as its bytes.\<close>

lemma escape_rune_read:
  assumes dec: "decode_rune (c # v) = (r, n)" and inside: "inside s"
    and at: "drop (s_pos s) (source_text s) = escape_rune r (take n (c # v)) @ w"
  shows "literal_loop 0x22 m acc s
    = literal_loop 0x22 m (acc @ take n (c # v)) (advance (length (escape_rune r (take n (c # v)))) s)"
proof -
  let ?raw = "take n (c # v)"
  have bytes: "(r < 0xa0 \<longrightarrow> ?raw = rune_string r) \<and> (0xa0 \<le> r \<longrightarrow> list_all plain ?raw) \<and> 0 \<le> r"
  proof (cases "byte_of c < 128")
    case True
    with dec have "r = byte_of c" "n = 1" by (auto simp: decode_ascii)
    with True show ?thesis by (simp add: rune_string_ascii)
  next
    case False
    from decode_high [OF False dec] show ?thesis
      by (auto simp: list_all_iff plain_def isLineBreak_def)
  qed
  consider (esc) e where "escape_rune r ?raw = [BACKSLASH, e]" "simple_escape (byte_of e) = Some [char_of r]" "r < 128"
    | (hex) "escape_rune r ?raw = [BACKSLASH, CHR ''u''] @ hex4 r" "r < 0xa0"
    | (raw) "escape_rune r ?raw = ?raw" "list_all plain ?raw"
  proof -
    consider "r = 0x5c" | "r = 0x22" | "r = 0x27" | "r = 0x0a" | "r = 0x0d" | "r = 0x09" | "r = 0x08" | "r = 0x0c"
      | (other) "r \<noteq> 0x5c" "r \<noteq> 0x22" "r \<noteq> 0x27" "r \<noteq> 0x0a" "r \<noteq> 0x0d" "r \<noteq> 0x09" "r \<noteq> 0x08" "r \<noteq> 0x0c"
      by blast
    then show thesis
    proof cases
      case other
      consider (control) "r < 0x20 \<or> (0x7f \<le> r \<and> r \<le> 0x9f)" | (plain) "\<not> r < 0x20" "r < 0x7f" | (high) "0xa0 \<le> r"
        by linarith
      then show thesis
      proof cases
        case control
        with other show thesis by (intro hex) (auto simp: escape_rune_def)
      next
        case plain
        with other bytes show thesis
          by (intro raw) (auto simp: escape_rune_def rune_string_ascii plain_def isLineBreak_def)
      next
        case high
        with other bytes show thesis by (intro raw) (simp_all add: escape_rune_def)
      qed
    qed (auto intro!: esc simp: escape_rune_def simple_escape_def BACKSLASH_def QUOTE_def LF_def CR_def escaped_chars)
  qed
  then show ?thesis
  proof cases
    case esc
    with literal_simple [OF inside at [unfolded esc(1)] esc(2)] bytes show ?thesis by (simp add: rune_string_ascii)
  next
    case hex
    have "drop (s_pos s) (source_text s) = BACKSLASH # CHR ''u'' # hex4 r @ w" using at hex(1) by simp
    from literal_escape [OF inside this scan_unicode_escape [OF this]] hex bytes show ?thesis by (simp add: hex4_def eval_nat_numeral)
  next
    case raw
    from literal_plain [OF raw(2) inside at [unfolded raw(1)]] show ?thesis by (simp add: raw(1))
  qed
qed

text \<open>No surrogate anywhere in the text.\<close>

fun no_surrogates :: "string \<Rightarrow> bool" where
  "no_surrogates [] \<longleftrightarrow> True"
| "no_surrogates (c # v) \<longleftrightarrow> \<not> surrogate_at (c # v) \<and> no_surrogates v"

lemma no_surrogates_drop: "no_surrogates v \<Longrightarrow> no_surrogates (drop n v)"
  by (induction v arbitrary: n) (auto simp: drop_Cons split: nat.split)

lemma no_surrogates_head: "no_surrogates (c # v) \<Longrightarrow> \<not> surrogate_at (c # v)"
  by simp

lemma escapeString_read:
  assumes "no_surrogates v" and "inside s" and "drop (s_pos s) (source_text s) = escapeString v @ QUOTE # w"
  shows "literal_loop 0x22 m acc s = Some (acc @ v, advance (length (escapeString v) + 1) s)"
  using assms
proof (induction v arbitrary: s acc rule: escapeString.induct)
  case 1
  then have "charCodeAt s (s_pos s) = 0x22"
    using charCode_in_word(1) [of "s_pos s" s "[QUOTE]" w 0] by (simp add: QUOTE_def)
  moreover from 1 have "s_pos s < source_end s" by (auto simp: inside_def intro: ccontr)
  ultimately show ?case by (subst literal_loop_quote) (simp_all add: isLineBreak_def)
next
  case (2 c v)
  obtain r n where dec: "decode_rune (c # v) = (r, n)" by (cases "decode_rune (c # v)")
  let ?e = "escape_rune r (take n (c # v))"
  have split: "escapeString (c # v) = ?e @ escapeString (drop n (c # v))"
    using no_surrogates_head [OF 2(3)] dec by (simp add: escapeString.simps(2) del: decode_rune.simps)
  have at: "drop (s_pos s) (source_text s) = ?e @ escapeString (drop n (c # v)) @ QUOTE # w"
    using 2(5) split by simp
  have "literal_loop 0x22 m acc s = literal_loop 0x22 m (acc @ take n (c # v)) (advance (length ?e) s)"
    by (rule escape_rune_read [OF dec 2(4) at])
  also have "\<dots> = Some ((acc @ take n (c # v)) @ drop n (c # v), advance (length (escapeString (drop n (c # v))) + 1) (advance (length ?e) s))"
    by (rule 2(2) [OF no_surrogates_head [OF 2(3)] dec [symmetric] refl no_surrogates_drop [OF 2(3)] inside_drop [OF at refl 2(4)]
          drop_advance [OF at refl]])
  finally show ?case by (simp add: split add.assoc)
qed

lemma BACKSLASH_QUOTE: "BACKSLASH \<noteq> QUOTE"
  by (simp add: BACKSLASH_def QUOTE_def)

lemma escape_rune_cases: "escape_rune r raw = raw \<and> r \<noteq> 0x22 \<or> (\<exists>w. escape_rune r raw = BACKSLASH # w)"
  by (simp add: escape_rune_def)

lemma escapeString_hd: "v \<noteq> [] \<Longrightarrow> no_surrogates v \<Longrightarrow> escapeString v \<noteq> [] \<and> hd (escapeString v) \<noteq> QUOTE"
proof (cases v)
  case (Cons c w)
  assume "no_surrogates v"
  obtain r n where dec: "decode_rune (c # w) = (r, n)" by (cases "decode_rune (c # w)")
  have n: "0 < n" using decode_rune_pos [of c w] dec by simp
  have "\<not> surrogate_at v" using \<open>no_surrogates v\<close> Cons no_surrogates_head by blast
  then have "escapeString v = escape_rune r (take n v) @ escapeString (drop n v)"
    using dec Cons by (simp add: escapeString.simps(2) del: decode_rune.simps)
  moreover have "escape_rune r (take n v) \<noteq> [] \<and> hd (escape_rune r (take n v)) \<noteq> QUOTE"
  proof (cases "escape_rune r (take n v) = take n v \<and> r \<noteq> 0x22")
    case True
    have "c \<noteq> QUOTE"
    proof
      assume "c = QUOTE"
      then have "byte_of c = 0x22" by (simp add: QUOTE_def)
      with dec True show False by (simp add: decode_ascii del: decode_rune.simps)
    qed
    with True n Cons show ?thesis by (cases n) auto
  next
    case False
    with escape_rune_cases [of r "take n v"] BACKSLASH_QUOTE show ?thesis by auto
  qed
  ultimately show ?thesis by simp
qed simp


definition example_constant :: string where
  "example_constant = [CHR ''a'', CHR 0x22, LF, CHR 0x5C, CHR ''u'', CHR 0xC2, CHR 0x85, CHR 0xE2, CHR 0x82, CHR 0xAC, CHR 0x00]"


end
