(* ===== verification/Comments.thy ===== *)
theory Comments
  imports TokenStream
begin

text \<open>
  Comment recovery: \<open>togo/internal/format/comments.go\<close>. The tree has no comments, so the formatter finds
  them in the gaps between the tokens of a scan. The theorem is what the formatter relies on: every
  byte that is not white space is in a token or in a recovered comment.
\<close>

record comment =
  c_pos :: nat
  c_end :: nat
  c_text :: string
  line :: bool
  ownLine :: bool

definition isInlineWhitespace :: "char \<Rightarrow> bool" where
  "isInlineWhitespace ch \<longleftrightarrow> ch = CHR '' '' \<or> ch = CHR 0x09 \<or> ch = CR \<or> ch = CHR 0x0C \<or> ch = CHR 0x0B"

text \<open>The end of a line comment, the star that ends a block comment, and the end of inline blanks.\<close>

function line_end :: "string \<Rightarrow> nat \<Rightarrow> nat \<Rightarrow> nat" where
  "line_end source lim j = (if j < lim \<and> source ! j \<noteq> LF then line_end source lim (j + 1) else j)"
  by pat_completeness auto
termination
  by (relation "measure (\<lambda>(_, lim, j). lim - j)") auto

function block_end :: "string \<Rightarrow> nat \<Rightarrow> nat \<Rightarrow> nat" where
  "block_end source lim j =
     (if j < lim \<and> (source ! j \<noteq> STAR \<or> length source \<le> j + 1 \<or> source ! (j + 1) \<noteq> SLASH)
      then block_end source lim (j + 1) else j)"
  by pat_completeness auto
termination
  by (relation "measure (\<lambda>(_, lim, j). lim - j)") auto

function skip_inline :: "string \<Rightarrow> nat \<Rightarrow> nat \<Rightarrow> nat" where
  "skip_inline source lim k =
     (if k < lim \<and> isInlineWhitespace (source ! k) then skip_inline source lim (k + 1) else k)"
  by pat_completeness auto
termination
  by (relation "measure (\<lambda>(_, lim, k). lim - k)") auto

declare line_end.simps [simp del] block_end.simps [simp del] skip_inline.simps [simp del]

lemma line_end_ge: "j \<le> line_end source lim j"
proof (induction source lim j rule: line_end.induct)
  case (1 source lim j)
  then show ?case by (subst line_end.simps) auto
qed

lemma block_end_ge: "j \<le> block_end source lim j"
proof (induction source lim j rule: block_end.induct)
  case (1 source lim j)
  then show ?case by (subst block_end.simps) auto
qed

definition line_comment :: "string \<Rightarrow> nat \<Rightarrow> nat \<Rightarrow> bool \<Rightarrow> comment" where
  "line_comment source i j own =
     \<lparr>c_pos = i, c_end = j, c_text = trim_right is_space (text_between source i j), line = True, ownLine = own\<rparr>"

definition block_comment :: "string \<Rightarrow> nat \<Rightarrow> nat \<Rightarrow> nat \<Rightarrow> bool \<Rightarrow> comment" where
  "block_comment source lim i j own =
     (let k = skip_inline source lim j; codeFollowsOnLine = (k < length source \<and> source ! k \<noteq> LF)
      in \<lparr>c_pos = i, c_end = j, c_text = text_between source i j, line = False, ownLine = own \<and> \<not> codeFollowsOnLine\<rparr>)"

text \<open>The loop of \<open>extractFromGap\<close> at \<open>i\<close>, with \<open>sawNewlineSinceCode\<close>.\<close>

function gap_loop :: "string \<Rightarrow> nat \<Rightarrow> nat \<Rightarrow> bool \<Rightarrow> comment list" where
  "gap_loop source lim i own =
     (if i < lim then
        let ch = source ! i; slash = (ch = SLASH \<and> i + 1 < length source)
        in if ch = LF then gap_loop source lim (i + 1) True
           else if isInlineWhitespace ch then gap_loop source lim (i + 1) own
           else if slash \<and> source ! (i + 1) = SLASH then
             (let j = line_end source lim (i + 2) in line_comment source i j own # gap_loop source lim j False)
           else if slash \<and> source ! (i + 1) = STAR then
             (let j = min (block_end source lim (i + 2) + 2) lim
              in block_comment source lim i j own # gap_loop source lim j False)
           else gap_loop source lim (i + 1) own
      else [])"
  by pat_completeness auto
termination
proof (relation "measure (\<lambda>(_, lim, i, _). lim - i)", goal_cases)
  case (4 source lim i own ch slash j)
  then show ?case using line_end_ge [of "i + 2" source lim] by simp
next
  case (5 source lim i own ch slash j)
  then show ?case using block_end_ge [of "i + 2" source lim] by simp
qed auto

declare gap_loop.simps [simp del]

definition extractFromGap :: "string \<Rightarrow> nat \<Rightarrow> nat \<Rightarrow> comment list" where
  "extractFromGap source from lim = gap_loop source lim from (from = 0)"

text \<open>The loop of \<open>collectComments\<close> over the tokens still to come; a panic of the scanner is \<open>None\<close>.\<close>

fun collect_from :: "string \<Rightarrow> nat \<Rightarrow> Scanner list \<Rightarrow> comment list" where
  "collect_from source prevEnd [] = []"
| "collect_from source prevEnd (k # ks) =
     (let start = (if token k = EndOfFileToken then length source else tokenStart k)
      in extractFromGap source prevEnd start
         @ (if token k = EndOfFileToken then [] else collect_from source (s_pos k) ks))"

definition collectComments :: "string \<Rightarrow> comment list option" where
  "collectComments source = map_option (collect_from source 0) (scan_tokens (NewScanner source))"

section \<open>A gap of trivia is white space and comments\<close>

text \<open>Every carriage return is followed by a line feed.\<close>

fun crlf :: "string \<Rightarrow> bool" where
  "crlf [] \<longleftrightarrow> True"
| "crlf (c # w) \<longleftrightarrow> (c = CR \<longrightarrow> w \<noteq> [] \<and> hd w = LF) \<and> crlf w"

lemma crlf_at: "crlf t \<Longrightarrow> i < length t \<Longrightarrow> t ! i = CR \<Longrightarrow> i + 1 < length t \<and> t ! (i + 1) = LF"
proof (induction t arbitrary: i)
  case (Cons c w)
  then show ?case by (cases i) (auto simp: hd_conv_nth)
qed simp

lemma text_between_Cons:
  assumes "text_between t i lim = c # w" and "lim \<le> length t"
  shows "i < lim \<and> t ! i = c \<and> text_between t (i + 1) lim = w"
proof -
  have "i < lim" using assms by (auto simp: text_between_def intro: ccontr)
  with assms text_between_step [of i lim t] show ?thesis by simp
qed

lemma text_between_suffix:
  assumes "text_between t i lim = b @ w" and "lim \<le> length t"
  shows "text_between t (i + length b) lim = w"
  using assms
proof (induction b arbitrary: i)
  case (Cons c b)
  then have "text_between t (i + 1) lim = b @ w" using text_between_Cons [of t i lim c "b @ w"] by simp
  from Cons.IH [OF this Cons.prems(2)] show ?case by simp
qed simp

lemma line_end_run:
  assumes "text_between t i lim = b @ w" and "lim \<le> length t" and "LF \<notin> set b" and "w = [] \<or> hd w = LF" and "i \<le> lim"
  shows "line_end t lim i = i + length b"
  using assms
proof (induction b arbitrary: i)
  case Nil
  then show ?case
    using text_between_Cons [of t i lim] length_text_between [of lim t i]
    by (subst line_end.simps) (cases w; auto)
next
  case (Cons c b)
  from text_between_Cons [of t i lim c "b @ w"] Cons.prems
  have i: "i < lim" "t ! i = c" "text_between t (i + 1) lim = b @ w" by simp_all
  with Cons show ?case by (subst line_end.simps) auto
qed

lemma block_end_run:
  assumes "text_between t i lim = b @ [STAR, SLASH] @ w" and "lim \<le> length t" and "no_close b"
  shows "block_end t lim i = i + length b"
  using assms
proof (induction b arbitrary: i)
  case Nil
  then have "i < lim \<and> t ! i = STAR" "text_between t (i + 1) lim = SLASH # w" using text_between_Cons [of t i lim] by auto
  moreover from this have "i + 1 < lim \<and> t ! (i + 1) = SLASH" using text_between_Cons [of t "i + 1" lim] Nil by auto
  ultimately show ?case using Nil by (subst block_end.simps) simp
next
  case (Cons c b)
  from text_between_Cons [of t i lim c "b @ [STAR, SLASH] @ w"] Cons.prems
  have i: "i < lim" "t ! i = c" "text_between t (i + 1) lim = b @ [STAR, SLASH] @ w" by simp_all
  have "STAR \<noteq> SLASH" by (simp add: STAR_def SLASH_def)
  moreover have "t ! (i + 1) = hd (b @ [STAR, SLASH] @ w)"
    using text_between_Cons [of t "i + 1" lim] i(3) Cons.prems(2) by (cases b) auto
  ultimately have "c \<noteq> STAR \<or> t ! (i + 1) \<noteq> SLASH" using Cons.prems(3) by (cases b) auto
  with i Cons show ?case by (subst block_end.simps) auto
qed

lemma block_end_unclosed:
  assumes "text_between t i lim = b" and "lim \<le> length t" and "no_close b" and "i \<le> lim"
  shows "lim \<le> block_end t lim i + 2"
  using assms
proof (induction b arbitrary: i)
  case Nil
  then show ?case using length_text_between [of lim t i] block_end_ge [of i t lim] by simp
next
  case (Cons c b)
  from text_between_Cons [of t i lim c b] Cons.prems have i: "i < lim" "t ! i = c" "text_between t (i + 1) lim = b" by simp_all
  show ?case
  proof (cases "c = STAR \<and> t ! (i + 1) = SLASH \<and> i + 1 < length t")
    case True
    have "b = []"
    proof (cases b)
      case (Cons d w)
      with i text_between_Cons [of t "i + 1" lim d w] Cons.prems True show ?thesis by simp
    qed
    with i have "lim = i + 1" using length_text_between [of lim t "i + 1"] Cons.prems(2) by simp
    then show ?thesis using block_end_ge [of i t lim] by simp
  next
    case False
    then have "block_end t lim i = block_end t lim (i + 1)" using i by (subst block_end.simps) auto
    with Cons i show ?thesis by simp
  qed
qed


definition in_comment :: "comment \<Rightarrow> nat \<Rightarrow> bool" where
  "in_comment c p \<longleftrightarrow> c_pos c \<le> p \<and> p < c_end c"

text \<open>Every byte of the gap is white space or in a comment, and the comments lie in the gap in order.\<close>

definition covers :: "string \<Rightarrow> nat \<Rightarrow> nat \<Rightarrow> comment list \<Rightarrow> bool" where
  "covers t i lim cs \<longleftrightarrow>
     (\<forall>p. i \<le> p \<and> p < lim \<longrightarrow> is_space (t ! p) \<or> (\<exists>c \<in> set cs. in_comment c p))
     \<and> (\<forall>c \<in> set cs. i \<le> c_pos c \<and> c_pos c < c_end c \<and> c_end c \<le> lim)
     \<and> sorted_wrt (\<lambda>c d. c_end c \<le> c_pos d) cs"

lemma covers_empty: "lim \<le> i \<Longrightarrow> covers t i lim []"
  by (auto simp: covers_def)

lemma covers_space: "is_space (t ! i) \<Longrightarrow> covers t (i + 1) lim cs \<Longrightarrow> covers t i lim cs"
  unfolding covers_def by (metis Suc_eq_plus1 Suc_leD le_antisym not_less_eq_eq)

lemma covers_comment:
  assumes "covers t j lim cs" and "c_pos c = i" and "c_end c = j" and "i < j" and "j \<le> lim"
  shows "covers t i lim (c # cs)"
  using assms by (fastforce simp: covers_def in_comment_def not_less)

lemma blank_cases: "blank c \<Longrightarrow> c = LF \<or> isInlineWhitespace c"
proof -
  have code: "(of_char c :: int) = of_char d \<Longrightarrow> c = d" for d by simp
  assume "blank c"
  then consider "byte_of c = of_char LF" | "byte_of c = of_char CR" | "byte_of c = of_char (CHR '' '')" | "byte_of c = of_char (CHR 0x09)"
    | "byte_of c = of_char (CHR 0x0C)" | "byte_of c = of_char (CHR 0x0B)"
    by (auto simp: blank_def isLineBreak_def isBlank_def LF_def CR_def)
  then show ?thesis
    by cases (drule code, simp add: isInlineWhitespace_def)+
qed

lemma white_is_space: "c = LF \<or> isInlineWhitespace c \<Longrightarrow> is_space c"
  by (auto simp: isInlineWhitespace_def is_space_def LF_def CR_def less_eq_char_def)

lemma slash_not_white: "SLASH \<noteq> LF" "\<not> isInlineWhitespace SLASH" "STAR \<noteq> SLASH" "SLASH \<noteq> CR" "CR \<noteq> LF" "isInlineWhitespace CR"
  by (simp_all add: SLASH_def LF_def CR_def STAR_def isInlineWhitespace_def)

lemma gap_loop_line:
  assumes "i < lim" and "t ! i = SLASH" and "i + 1 < length t" and "t ! (i + 1) = SLASH"
  shows "gap_loop t lim i own
    = line_comment t i (line_end t lim (i + 2)) own # gap_loop t lim (line_end t lim (i + 2)) False"
  using assms by (subst gap_loop.simps) (simp add: slash_not_white Let_def)

lemma gap_loop_block:
  assumes "i < lim" and "t ! i = SLASH" and "i + 1 < length t" and "t ! (i + 1) = STAR"
  shows "gap_loop t lim i own
    = block_comment t lim i (min (block_end t lim (i + 2) + 2) lim) own
      # gap_loop t lim (min (block_end t lim (i + 2) + 2) lim) False"
  using assms by (subst gap_loop.simps) (simp add: slash_not_white Let_def)

lemma comment_bounds [simp]:
  "c_pos (line_comment t i j own) = i" "c_end (line_comment t i j own) = j"
  "c_pos (block_comment t lim i j own) = i" "c_end (block_comment t lim i j own) = j"
  by (simp_all add: line_comment_def block_comment_def Let_def)

lemma gap_covers:
  assumes "trivia (text_between t i lim)" and "lim \<le> length t" and "crlf t"
  shows "covers t i lim (gap_loop t lim i own)"
  using assms(1)
proof (induction "lim - i" arbitrary: i own rule: less_induct)
  case less
  note le = assms(2)
  have two: "i + 2 \<le> lim \<and> t ! i = a \<and> i + 1 < length t \<and> t ! (i + 1) = b \<and> text_between t (i + 2) lim = w"
    if "text_between t i lim = [a, b] @ w" for a b w
  proof -
    from that have 1: "i < lim" "t ! i = a" "text_between t (i + 1) lim = b # w" using text_between_Cons [of t i lim a] le by auto
    moreover from text_between_Cons [OF 1(3) le] have "i + 1 < lim" "t ! (i + 1) = b" "text_between t (i + 2) lim = w" by simp_all
    ultimately show ?thesis using le by auto
  qed
  from less.prems show ?case
  proof (cases rule: trivia.cases)
    case none
    then have "lim \<le> i" using length_text_between [OF le, of i] by simp
    then show ?thesis by (subst gap_loop.simps) (simp add: covers_empty)
  next
    case (blank c w)
    from text_between_Cons [OF blank(1) le] have i: "i < lim" "t ! i = c" "text_between t (i + 1) lim = w" by simp_all
    have "gap_loop t lim i own = gap_loop t lim (i + 1) (if c = LF then True else own)"
      using i blank_cases [OF blank(2)] by (subst gap_loop.simps) (auto simp: Let_def)
    moreover have "covers t (i + 1) lim (gap_loop t lim (i + 1) (if c = LF then True else own))"
      using i blank(3) by (intro less.hyps) auto
    moreover have "is_space (t ! i)" using i(2) white_is_space [OF blank_cases [OF blank(2)]] by simp
    ultimately show ?thesis using covers_space by simp
  next
    case (line b w)
    from two [of SLASH SLASH "b @ w"] line(1)
    have i: "i + 2 \<le> lim" "t ! i = SLASH" "i + 1 < length t" "t ! (i + 1) = SLASH" "text_between t (i + 2) lim = b @ w" by simp_all
    have "\<exists>j. line_end t lim (i + 2) = j \<and> i + 2 \<le> j \<and> j \<le> lim \<and> trivia (text_between t j lim)"
    proof (cases "w \<noteq> [] \<and> hd w = CR")
      case False
      with line have "w = [] \<or> hd w = LF" by blast
      from line_end_run [OF i(5) le line(2) this i(1)] text_between_suffix [OF i(5) le] line(5)
      show ?thesis using length_text_between [OF le, of "i + 2"] i(1, 5) by auto
    next
      case True
      then obtain v where w: "w = CR # v" by (cases w) auto
      from line(5) [unfolded w] have v: "trivia v"
        by (cases rule: trivia.cases) (auto simp: slash_not_white(4) [symmetric])
      have "text_between t (i + 2 + length b) lim = CR # v" using text_between_suffix [OF i(5) le] w by simp
      from text_between_Cons [OF this le] have cr: "i + 2 + length b < lim" "t ! (i + 2 + length b) = CR"
        "text_between t (i + 2 + length b + 1) lim = v" by simp_all
      from crlf_at [OF assms(3) _ cr(2)] cr(1) le have lf: "t ! (i + 2 + length b + 1) = LF" by simp
      have "v = [] \<or> hd v = LF"
        using text_between_Cons [of t "i + 2 + length b + 1" lim] cr(3) le lf by (cases v) auto
      then have "line_end t lim (i + 2) = i + 2 + length (b @ [CR])"
        using i(1, 5) w line(2) le slash_not_white(5) by (intro line_end_run [where w = v]) auto
      then show ?thesis using cr v by simp
    qed
    then obtain j where j: "line_end t lim (i + 2) = j" "i + 2 \<le> j" "j \<le> lim" "trivia (text_between t j lim)" by blast
    have "covers t j lim (gap_loop t lim j False)" using j i(1) by (intro less.hyps) auto
    then show ?thesis
      using gap_loop_line [of i lim t own] i j(1-3) by (simp add: covers_comment)
  next
    case (block b w)
    from two [of SLASH STAR "b @ [STAR, SLASH] @ w"] block(1)
    have i: "i + 2 \<le> lim" "t ! i = SLASH" "i + 1 < length t" "t ! (i + 1) = STAR"
      "text_between t (i + 2) lim = b @ [STAR, SLASH] @ w" by simp_all
    have len: "i + 2 + length b + 2 \<le> lim" using length_text_between [OF le, of "i + 2"] i by simp
    have e: "block_end t lim (i + 2) + 2 = i + 2 + length (b @ [STAR, SLASH])"
      using block_end_run [OF i(5) le block(2)] by simp
    have "text_between t (i + 2 + length (b @ [STAR, SLASH])) lim = w"
      using text_between_suffix [of t "i + 2" lim "b @ [STAR, SLASH]" w] i(5) le by simp
    then have "covers t (i + 2 + length (b @ [STAR, SLASH])) lim (gap_loop t lim (i + 2 + length (b @ [STAR, SLASH])) False)"
      using block(3) i(1) by (intro less.hyps) auto
    then show ?thesis
      using gap_loop_block [of i lim t own] i(1-4) len unfolding e by (auto simp: min_def intro!: covers_comment)
  next
    case (unclosed b)
    from two [of SLASH STAR b] unclosed(1)
    have i: "i + 2 \<le> lim" "t ! i = SLASH" "i + 1 < length t" "t ! (i + 1) = STAR" "text_between t (i + 2) lim = b" by simp_all
    from block_end_unclosed [OF i(5) le unclosed(2) i(1)] have e: "min (block_end t lim (i + 2) + 2) lim = lim" by simp
    have "gap_loop t lim lim False = []" by (subst gap_loop.simps) simp
    then show ?thesis
      using gap_loop_block [of i lim t own] i(1-4) unfolding e by (auto intro!: covers_comment covers_empty)
  qed
qed

section \<open>Nothing of the source is lost\<close>

definition in_token :: "Scanner \<Rightarrow> nat \<Rightarrow> bool" where
  "in_token k p \<longleftrightarrow> tokenStart k \<le> p \<and> p < s_pos k"

definition accounted :: "string \<Rightarrow> nat \<Rightarrow> Scanner list \<Rightarrow> comment list \<Rightarrow> bool" where
  "accounted t i ts cs \<longleftrightarrow>
     (\<forall>p. i \<le> p \<and> p < length t \<longrightarrow> is_space (t ! p) \<or> (\<exists>k \<in> set ts. in_token k p) \<or> (\<exists>c \<in> set cs. in_comment c p))
     \<and> (\<forall>c \<in> set cs. \<forall>k \<in> set ts. c_end c \<le> tokenStart k \<or> s_pos k \<le> c_pos c)
     \<and> (\<forall>c \<in> set cs. i \<le> c_pos c \<and> c_pos c < c_end c \<and> c_end c \<le> length t)
     \<and> (\<forall>k \<in> set ts. i \<le> tokenStart k \<and> tokenStart k \<le> s_pos k)
     \<and> sorted_wrt (\<lambda>c d. c_end c \<le> c_pos d) cs"

lemma accounted_eof:
  assumes "covers t i (length t) cs" and "tokenStart k = length t" and "s_pos k = length t" and "i \<le> length t"
  shows "accounted t i [k] cs"
  using assms by (auto simp: accounted_def covers_def)

lemma accounted_token:
  assumes "covers t i (tokenStart k) cs" and "accounted t (s_pos k) ts ds"
    and "i \<le> tokenStart k" and "tokenStart k < s_pos k" and "s_pos k \<le> length t"
  shows "accounted t i (k # ts) (cs @ ds)"
proof -
  have "is_space (t ! p) \<or> (\<exists>x \<in> set (k # ts). in_token x p) \<or> (\<exists>c \<in> set (cs @ ds). in_comment c p)"
    if "i \<le> p" "p < length t" for p
  proof -
    consider "p < tokenStart k" | "in_token k p" | "s_pos k \<le> p" unfolding in_token_def by linarith
    then show ?thesis using assms(1, 2) that by cases (auto simp: covers_def accounted_def)
  qed
  moreover have "\<forall>c \<in> set (cs @ ds). \<forall>x \<in> set (k # ts). c_end c \<le> tokenStart x \<or> s_pos x \<le> c_pos c"
    using assms by (fastforce simp: covers_def accounted_def)
  moreover have "sorted_wrt (\<lambda>c d. c_end c \<le> c_pos d) (cs @ ds)"
    using assms by (fastforce simp: covers_def accounted_def sorted_wrt_append)
  moreover have "\<forall>c \<in> set (cs @ ds). i \<le> c_pos c \<and> c_pos c < c_end c \<and> c_end c \<le> length t"
    using assms by (fastforce simp: covers_def accounted_def)
  moreover have "\<forall>x \<in> set (k # ts). i \<le> tokenStart x \<and> tokenStart x \<le> s_pos x"
    using assms by (fastforce simp: accounted_def)
  ultimately show ?thesis unfolding accounted_def by blast
qed

lemma collect_accounted:
  assumes "scan_tokens s = Some ts" and "inside s" and "source_text s = t" and "crlf t"
  shows "accounted t (s_pos s) ts (collect_from t (s_pos s) ts)"
  using assms
proof (induction rule: scan_tokens_induct)
  case (eof s s')
  then have at: "tokenStart s' = length t" "s_pos s' = length t" "s_pos s \<le> length t"
    and triv: "trivia (text_between t (s_pos s) (length t))"
    by (auto simp: scanned_def inside_def)
  have "covers t (s_pos s) (length t) (gap_loop t (length t) (s_pos s) own)" for own
    by (rule gap_covers [OF triv order_refl eof(6)])
  then show ?case using accounted_eof at eof(3) by (simp add: extractFromGap_def)
next
  case (token s s' ts)
  have s': "inside s'" "source_text s' = t" "s_pos s \<le> tokenStart s'" "tokenStart s' < s_pos s'"
    and triv: "trivia (text_between t (s_pos s) (tokenStart s'))"
    using token(2, 3, 6, 7) by (simp_all add: scanned_def)
  then have le: "s_pos s' \<le> length t" by (simp add: inside_def)
  have "covers t (s_pos s) (tokenStart s') (gap_loop t (tokenStart s') (s_pos s) own)" for own
    using s' le by (intro gap_covers [OF triv _ token(8)]) simp
  from accounted_token [OF this token(5) [OF s'(1, 2) token(8)] s'(3, 4) le] show ?case
    using token(3) by (simp add: extractFromGap_def)
qed

definition lone_cr :: string where
  "lone_cr = [SLASH, SLASH, CR, SLASH, STAR, LF, CHR ''c'', STAR, SLASH]"

text \<open>
  C18. The formatter loses nothing: when every carriage return is followed by a line feed, each byte of
  the source that is not white space is in a token or in a recovered comment; the comments are in
  order, not empty, inside the text and apart from every token, so a \<open>//\<close> in a string is never
  taken for one. With a lone carriage return, which ends a line for the scanner and not for the
  recovery, the text of a comment is dropped.
\<close>

theorem comments_complete:
  assumes "collectComments t = Some cs" and "crlf t"
  shows "(\<exists>ts. scan_tokens (NewScanner t) = Some ts \<and> accounted t 0 ts cs)
    \<and> (\<exists>ts ds. scan_tokens (NewScanner lone_cr) = Some ts \<and> collectComments lone_cr = Some ds \<and> \<not> accounted lone_cr 0 ts ds)"
proof
  show "\<exists>ts. scan_tokens (NewScanner t) = Some ts \<and> accounted t 0 ts cs"
    using assms collect_accounted [of "NewScanner t" _ t] by (auto simp: collectComments_def)
next
  have "scan_tokens (NewScanner lone_cr) = Some (the (scan_tokens (NewScanner lone_cr)))"
    "collectComments lone_cr = Some (the (collectComments lone_cr))"
    "\<not> is_space (lone_cr ! 6)" "6 < length lone_cr"
    "\<not> list_ex (\<lambda>k. in_token k 6) (the (scan_tokens (NewScanner lone_cr)))"
    "\<not> list_ex (\<lambda>c. in_comment c 6) (the (collectComments lone_cr))"
    by code_simp+
  then show "\<exists>ts ds. scan_tokens (NewScanner lone_cr) = Some ts \<and> collectComments lone_cr = Some ds \<and> \<not> accounted lone_cr 0 ts ds"
    by (intro exI conjI) (assumption | auto simp: accounted_def list_ex_iff dest!: spec [of _ 6])+
qed

definition commented :: string where
  "commented = ''a /* // */ +'' @ [CR, LF] @ ''// b'' @ [LF] @ ''c''"

theorem comments_complete_witness:
  "crlf commented \<and> map c_pos (the (collectComments commented)) = [2, 14]
   \<and> (\<exists>ts. scan_tokens (NewScanner commented) = Some ts \<and> accounted commented 0 ts (the (collectComments commented)))"
proof -
  have "crlf commented" "collectComments commented = Some (the (collectComments commented))"
    "map c_pos (the (collectComments commented)) = [2, 14]"
    by code_simp+
  with comments_complete [of commented] show ?thesis by blast
qed

end
