(* ===== verification/SyntaxTree.thy ===== *)
theory SyntaxTree
  imports SyntaxKinds
begin

text \<open>
  The syntax tree: \<open>togo/internal/compiler/ast.go\<close>, \<open>nodes.go\<close>, \<open>nodes_expr2.go\<close>, \<open>nodes_module.go\<close>,
  \<open>nodes_stmts.go\<close> and \<open>utilities.go\<close>. A node is a kind, a source range, the error flag and the fields of
  its payload. The Go payloads are one struct per kind whose \<open>forEachChild\<close> visits the node fields
  in a fixed order; here a payload is the list of its fields in that order, an optional child is
  \<open>None\<close> for Go's nil, and a field that \<open>forEachChild\<close> leaves out is \<open>Unvisited\<close>. The links to the
  parent, the symbol and the scope belong to the binder.
\<close>

section \<open>Kinds\<close>

text \<open>
  The node kinds of \<open>kinds.go\<close> that the parser makes: names, types, declarations and members, then
  statements, expressions and patterns. A token as a node, an identifier and a literal keep their token kind.
\<close>

datatype (plugins only: code) DeclKind =
    QualifiedName | PrimitiveType | VarType | TypeReference | ArrayType | WildcardType | TypeParameter
    | Annotation | AnnotationArgument | SourceFile | PackageDeclaration | ImportDeclaration
    | ClassDeclaration | InterfaceDeclaration | EnumDeclaration | AnnotationTypeDeclaration
    | RecordComponent | RecordDeclaration | EnumConstantDeclaration | FieldDeclaration
    | VariableDeclarator | CompactConstructorDeclaration | ModuleDeclaration | RequiresDirective
    | ExportsDirective | OpensDirective | UsesDirective | ProvidesDirective | MethodDeclaration
    | ConstructorDeclaration | InitializerBlock | Parameter

datatype (plugins only: code) CodeKind =
    EmptyStatement | Block | ExpressionStatement | ReturnStatement | PrefixUnaryExpression
    | PostfixUnaryExpression | ConditionalExpression | AssignmentExpression | InstanceofExpression
    | CastExpression | ElementAccessExpression | ThisExpression | SuperExpression | BinaryExpression
    | PropertyAccessExpression | CallExpression | ParenthesizedExpression | ObjectCreationExpression
    | ArrayCreationExpression | LambdaExpression | MethodReferenceExpression | ClassLiteralExpression
    | SwitchExpression | TypePattern | RecordPattern | MatchAllPattern
    | LocalVariableDeclarationStatement | IfStatement | WhileStatement | DoStatement | ForStatement
    | ForEachStatement | ThrowStatement | SynchronizedStatement | AssertStatement | LabeledStatement
    | YieldStatement | Resource | CatchClause | TryStatement | SwitchClause | SwitchStatement
    | ArrayInitializer | BreakStatement | ContinueStatement

datatype Kind = TokenKind SyntaxKind | DeclNode DeclKind | CodeNode CodeKind

section \<open>Nodes\<close>

datatype Node = Node (node_kind: Kind) (Pos: nat) (End: nat) (has_error: bool) (payload: "Field list")
and NodeArray = NodeArray (Nodes: "Node list") (array_Pos: nat) (array_End: nat)
and Field =
    Child "Node option"
  | Children "NodeArray option"
  | Unvisited "NodeArray option"
  | Operator SyntaxKind
  | Flag bool
  | Text string
  | Count nat

definition newNode :: "Kind \<Rightarrow> Field list \<Rightarrow> Node" where
  "newNode kind fs = Node kind 0 0 False fs"

text \<open>\<open>Len\<close> is 0 for a nil array.\<close>

definition Len :: "NodeArray option \<Rightarrow> nat" where
  "Len a = (case a of None \<Rightarrow> 0 | Some a \<Rightarrow> length (Nodes a))"

fun field_nodes :: "Field \<Rightarrow> Node list" where
  "field_nodes (Child (Some n)) = [n]"
| "field_nodes (Children (Some a)) = Nodes a"
| "field_nodes _ = []"

definition children :: "Node \<Rightarrow> Node list" where
  "children n = concat (map field_nodes (payload n))"

text \<open>\<open>ForEachChild\<close>: a visitor sees the children in order until it returns true.\<close>

definition ForEachChild :: "(Node \<Rightarrow> bool) \<Rightarrow> Node \<Rightarrow> bool" where
  "ForEachChild v n = list_ex v (children n)"

section \<open>The node factory\<close>

text \<open>
  One constructor per kind, with the parameters in the order of the fields. The type nodes take
  their annotations and the verbatim mark, which the parser assigns right after it has made the node.
\<close>

definition newToken :: "SyntaxKind \<Rightarrow> Node" where
  "newToken kind = newNode (TokenKind kind) []"

definition NewIdentifier :: "string \<Rightarrow> Node" where
  "NewIdentifier name = newNode (TokenKind Identifier) [Text name]"

definition NewQualifiedName :: "Node \<Rightarrow> Node \<Rightarrow> Node" where
  "NewQualifiedName left right =
     newNode (DeclNode QualifiedName) [Child (Some left), Child (Some right)]"

definition NewPrimitiveType :: "SyntaxKind \<Rightarrow> NodeArray option \<Rightarrow> Node" where
  "NewPrimitiveType keyword annotations =
     newNode (DeclNode PrimitiveType) [Operator keyword, Unvisited annotations]"

definition NewVarType :: "Node" where
  "NewVarType = newNode (DeclNode VarType) []"

definition NewTypeReference :: "Node \<Rightarrow> NodeArray option \<Rightarrow> NodeArray option \<Rightarrow> bool \<Rightarrow>
    Node" where
  "NewTypeReference typeName typeArguments annotations verbatim =
     newNode (DeclNode TypeReference) [Child (Some typeName), Children typeArguments, Unvisited annotations, Flag verbatim]"

definition NewArrayType :: "Node \<Rightarrow> bool \<Rightarrow> Node" where
  "NewArrayType elementType verbatim =
     newNode (DeclNode ArrayType) [Child (Some elementType), Flag verbatim]"

definition NewWildcardType :: "bool \<Rightarrow> bool \<Rightarrow> Node option \<Rightarrow> bool \<Rightarrow> Node" where
  "NewWildcardType hasExtends hasSuper typ verbatim =
     newNode (DeclNode WildcardType) [Flag hasExtends, Flag hasSuper, Child typ, Flag verbatim]"

definition NewTypeParameter :: "NodeArray option \<Rightarrow> Node \<Rightarrow> NodeArray option \<Rightarrow> Node" where
  "NewTypeParameter annotations name bound =
     newNode (DeclNode TypeParameter) [Children annotations, Child (Some name), Children bound]"

definition NewAnnotation :: "Node \<Rightarrow> NodeArray option \<Rightarrow> Node" where
  "NewAnnotation typeName args = newNode (DeclNode Annotation) [Child (Some typeName), Children args]"

definition NewAnnotationArgument :: "Node option \<Rightarrow> Node \<Rightarrow> Node" where
  "NewAnnotationArgument name val =
     newNode (DeclNode AnnotationArgument) [Child name, Child (Some val)]"

definition NewSourceFile :: "Node option \<Rightarrow> NodeArray \<Rightarrow> Node option \<Rightarrow> NodeArray \<Rightarrow>
    Node \<Rightarrow> Node" where
  "NewSourceFile pkg importList modul statements eof =
     newNode (DeclNode SourceFile) [Child pkg, Children (Some importList), Child modul, Children (Some statements), Child (Some eof)]"

definition NewPackageDeclaration :: "NodeArray option \<Rightarrow> Node \<Rightarrow> Node" where
  "NewPackageDeclaration annotations name =
     newNode (DeclNode PackageDeclaration) [Children annotations, Child (Some name)]"

definition NewImportDeclaration :: "bool \<Rightarrow> Node \<Rightarrow> bool \<Rightarrow> Node" where
  "NewImportDeclaration isStatic name isOnDemand =
     newNode (DeclNode ImportDeclaration) [Flag isStatic, Child (Some name), Flag isOnDemand]"

definition NewEmptyStatement :: "Node" where
  "NewEmptyStatement = newNode (CodeNode EmptyStatement) []"

definition NewClassDeclaration :: "NodeArray option \<Rightarrow> Node \<Rightarrow> NodeArray option \<Rightarrow> Node option
    \<Rightarrow> NodeArray option \<Rightarrow> NodeArray option \<Rightarrow> NodeArray option
    \<Rightarrow> Node" where
  "NewClassDeclaration modifiers name typeParameters extendsType implementsTypes permitsTypes members =
     newNode (DeclNode ClassDeclaration) [Children modifiers, Child (Some name), Children typeParameters, Child extendsType,
       Children implementsTypes, Children permitsTypes, Children members]"

definition NewInterfaceDeclaration :: "NodeArray option \<Rightarrow> Node \<Rightarrow> NodeArray option \<Rightarrow> NodeArray option
    \<Rightarrow> NodeArray option \<Rightarrow> NodeArray \<Rightarrow> Node" where
  "NewInterfaceDeclaration modifiers name typeParameters extendsTypes permitsTypes members =
     newNode (DeclNode InterfaceDeclaration) [Children modifiers, Child (Some name), Children typeParameters, Children extendsTypes,
       Children permitsTypes, Children (Some members)]"

definition NewEnumDeclaration :: "NodeArray option \<Rightarrow> Node \<Rightarrow> NodeArray option \<Rightarrow> NodeArray
    \<Rightarrow> NodeArray \<Rightarrow> Node" where
  "NewEnumDeclaration modifiers name implementsTypes enumConstants members =
     newNode (DeclNode EnumDeclaration) [Children modifiers, Child (Some name), Children implementsTypes, Children (Some enumConstants),
       Children (Some members)]"

definition NewAnnotationTypeDeclaration :: "NodeArray option \<Rightarrow> Node \<Rightarrow> NodeArray \<Rightarrow> Node" where
  "NewAnnotationTypeDeclaration modifiers name members =
     newNode (DeclNode AnnotationTypeDeclaration) [Children modifiers, Child (Some name), Children (Some members)]"

definition NewRecordComponent :: "NodeArray option \<Rightarrow> Node \<Rightarrow> bool \<Rightarrow> Node \<Rightarrow> Node" where
  "NewRecordComponent annotations typ isVarArgs name =
     newNode (DeclNode RecordComponent) [Children annotations, Child (Some typ), Flag isVarArgs, Child (Some name)]"

definition NewRecordDeclaration :: "NodeArray option \<Rightarrow> Node \<Rightarrow> NodeArray option \<Rightarrow> NodeArray
    \<Rightarrow> NodeArray option \<Rightarrow> NodeArray \<Rightarrow> Node" where
  "NewRecordDeclaration modifiers name typeParameters recordComponents implementsTypes members =
     newNode (DeclNode RecordDeclaration) [Children modifiers, Child (Some name), Children typeParameters, Children (Some recordComponents),
       Children implementsTypes, Children (Some members)]"

definition NewEnumConstantDeclaration :: "NodeArray option \<Rightarrow> Node \<Rightarrow> NodeArray option \<Rightarrow> NodeArray option
    \<Rightarrow> Node" where
  "NewEnumConstantDeclaration modifiers name arguments classBody =
     newNode (DeclNode EnumConstantDeclaration) [Children modifiers, Child (Some name), Children arguments, Children classBody]"

definition NewFieldDeclaration :: "NodeArray option \<Rightarrow> Node \<Rightarrow> NodeArray \<Rightarrow> Node" where
  "NewFieldDeclaration modifiers typ declarators =
     newNode (DeclNode FieldDeclaration) [Children modifiers, Child (Some typ), Children (Some declarators)]"

definition NewVariableDeclarator :: "Node \<Rightarrow> nat \<Rightarrow> Node option \<Rightarrow> Node" where
  "NewVariableDeclarator name arrayRankAfterName initializer =
     newNode (DeclNode VariableDeclarator) [Child (Some name), Count arrayRankAfterName, Child initializer]"

definition NewBlock :: "NodeArray \<Rightarrow> Node" where
  "NewBlock statements = newNode (CodeNode Block) [Children (Some statements)]"

definition NewExpressionStatement :: "Node \<Rightarrow> Node" where
  "NewExpressionStatement expr = newNode (CodeNode ExpressionStatement) [Child (Some expr)]"

definition NewReturnStatement :: "Node option \<Rightarrow> Node" where
  "NewReturnStatement expr = newNode (CodeNode ReturnStatement) [Child expr]"

definition NewLiteralExpression :: "SyntaxKind \<Rightarrow> string \<Rightarrow> Node" where
  "NewLiteralExpression kind val = newNode (TokenKind kind) [Text val]"

definition NewPrefixUnaryExpression :: "SyntaxKind \<Rightarrow> Node \<Rightarrow> Node" where
  "NewPrefixUnaryExpression op operand =
     newNode (CodeNode PrefixUnaryExpression) [Operator op, Child (Some operand)]"

definition NewPostfixUnaryExpression :: "Node \<Rightarrow> SyntaxKind \<Rightarrow> Node" where
  "NewPostfixUnaryExpression operand op =
     newNode (CodeNode PostfixUnaryExpression) [Child (Some operand), Operator op]"

definition NewConditionalExpression :: "Node \<Rightarrow> Node \<Rightarrow> Node \<Rightarrow> Node" where
  "NewConditionalExpression condition whenTrue whenFalse =
     newNode (CodeNode ConditionalExpression) [Child (Some condition), Child (Some whenTrue), Child (Some whenFalse)]"

definition NewAssignmentExpression :: "Node \<Rightarrow> SyntaxKind \<Rightarrow> Node \<Rightarrow> Node" where
  "NewAssignmentExpression left op right =
     newNode (CodeNode AssignmentExpression) [Child (Some left), Operator op, Child (Some right)]"

definition NewInstanceofExpression :: "Node \<Rightarrow> Node option \<Rightarrow> Node option \<Rightarrow> Node option \<Rightarrow>
    Node" where
  "NewInstanceofExpression expr typ name pattern =
     newNode (CodeNode InstanceofExpression) [Child (Some expr), Child typ, Child name, Child pattern]"

definition NewCastExpression :: "Node \<Rightarrow> NodeArray option \<Rightarrow> Node \<Rightarrow> Node" where
  "NewCastExpression typ bounds expr =
     newNode (CodeNode CastExpression) [Child (Some typ), Children bounds, Child (Some expr)]"

definition NewElementAccessExpression :: "Node \<Rightarrow> Node \<Rightarrow> Node" where
  "NewElementAccessExpression expr arg =
     newNode (CodeNode ElementAccessExpression) [Child (Some expr), Child (Some arg)]"

definition NewThisExpression :: "Node option \<Rightarrow> Node" where
  "NewThisExpression qualifier = newNode (CodeNode ThisExpression) [Child qualifier]"

definition NewSuperExpression :: "Node option \<Rightarrow> Node" where
  "NewSuperExpression qualifier = newNode (CodeNode SuperExpression) [Child qualifier]"

definition NewBinaryExpression :: "Node \<Rightarrow> SyntaxKind \<Rightarrow> Node \<Rightarrow> Node" where
  "NewBinaryExpression left op right =
     newNode (CodeNode BinaryExpression) [Child (Some left), Operator op, Child (Some right)]"

definition NewPropertyAccessExpression :: "Node \<Rightarrow> Node \<Rightarrow> Node" where
  "NewPropertyAccessExpression expr name =
     newNode (CodeNode PropertyAccessExpression) [Child (Some expr), Child (Some name)]"

definition NewCallExpression :: "Node \<Rightarrow> NodeArray option \<Rightarrow> NodeArray \<Rightarrow> Node" where
  "NewCallExpression expr typeArgs args =
     newNode (CodeNode CallExpression) [Child (Some expr), Children typeArgs, Children (Some args)]"

definition NewParenthesizedExpression :: "Node \<Rightarrow> Node" where
  "NewParenthesizedExpression expr = newNode (CodeNode ParenthesizedExpression) [Child (Some expr)]"

definition NewObjectCreationExpression :: "Node option \<Rightarrow> Node \<Rightarrow> NodeArray \<Rightarrow> NodeArray option \<Rightarrow>
    Node" where
  "NewObjectCreationExpression qualifier typ arguments classBody =
     newNode (CodeNode ObjectCreationExpression) [Child qualifier, Child (Some typ), Children (Some arguments), Children classBody]"

definition NewArrayCreationExpression :: "Node \<Rightarrow> NodeArray \<Rightarrow> nat \<Rightarrow> Node option \<Rightarrow> Node" where
  "NewArrayCreationExpression elementType dimensions additionalRank initializer =
     newNode (CodeNode ArrayCreationExpression) [Child (Some elementType), Children (Some dimensions), Count additionalRank, Child initializer]"

definition NewLambdaExpression :: "NodeArray \<Rightarrow> Node \<Rightarrow> Node" where
  "NewLambdaExpression parameters body =
     newNode (CodeNode LambdaExpression) [Children (Some parameters), Child (Some body)]"

definition NewMethodReferenceExpression :: "Node \<Rightarrow> NodeArray option \<Rightarrow> Node option \<Rightarrow> bool \<Rightarrow> Node" where
  "NewMethodReferenceExpression expr typeArguments name isConstructorRef =
     newNode (CodeNode MethodReferenceExpression) [Child (Some expr), Children typeArguments, Child name, Flag isConstructorRef]"

definition NewClassLiteralExpression :: "Node \<Rightarrow> Node" where
  "NewClassLiteralExpression typ = newNode (CodeNode ClassLiteralExpression) [Child (Some typ)]"

definition NewSwitchExpression :: "Node \<Rightarrow> NodeArray \<Rightarrow> Node" where
  "NewSwitchExpression expression clauses =
     newNode (CodeNode SwitchExpression) [Child (Some expression), Children (Some clauses)]"

definition NewTypePattern :: "Node \<Rightarrow> Node \<Rightarrow> Node" where
  "NewTypePattern typ name = newNode (CodeNode TypePattern) [Child (Some typ), Child (Some name)]"

definition NewRecordPattern :: "Node \<Rightarrow> NodeArray \<Rightarrow> Node" where
  "NewRecordPattern typ patterns =
     newNode (CodeNode RecordPattern) [Child (Some typ), Children (Some patterns)]"

definition NewMatchAllPattern :: "Node" where
  "NewMatchAllPattern = newNode (CodeNode MatchAllPattern) []"

definition NewCompactConstructorDeclaration :: "NodeArray option \<Rightarrow> Node \<Rightarrow> Node \<Rightarrow> Node" where
  "NewCompactConstructorDeclaration modifiers name body =
     newNode (DeclNode CompactConstructorDeclaration) [Children modifiers, Child (Some name), Child (Some body)]"

definition NewModuleDeclaration :: "NodeArray option \<Rightarrow> bool \<Rightarrow> Node \<Rightarrow> NodeArray \<Rightarrow> Node" where
  "NewModuleDeclaration annotations isOpen name directives =
     newNode (DeclNode ModuleDeclaration) [Children annotations, Flag isOpen, Child (Some name), Children (Some directives)]"

definition NewRequiresDirective :: "bool \<Rightarrow> bool \<Rightarrow> Node \<Rightarrow> Node" where
  "NewRequiresDirective isTransitive isStatic name =
     newNode (DeclNode RequiresDirective) [Flag isTransitive, Flag isStatic, Child (Some name)]"

definition NewExportsDirective :: "Node \<Rightarrow> NodeArray option \<Rightarrow> Node" where
  "NewExportsDirective packageName toModules =
     newNode (DeclNode ExportsDirective) [Child (Some packageName), Children toModules]"

definition NewOpensDirective :: "Node \<Rightarrow> NodeArray option \<Rightarrow> Node" where
  "NewOpensDirective packageName toModules =
     newNode (DeclNode OpensDirective) [Child (Some packageName), Children toModules]"

definition NewUsesDirective :: "Node \<Rightarrow> Node" where
  "NewUsesDirective typeName = newNode (DeclNode UsesDirective) [Child (Some typeName)]"

definition NewProvidesDirective :: "Node \<Rightarrow> NodeArray \<Rightarrow> Node" where
  "NewProvidesDirective typeName withTypes =
     newNode (DeclNode ProvidesDirective) [Child (Some typeName), Children (Some withTypes)]"

definition NewMethodDeclaration :: "NodeArray option \<Rightarrow> NodeArray option \<Rightarrow> Node \<Rightarrow> Node \<Rightarrow>
    NodeArray \<Rightarrow> NodeArray option \<Rightarrow> Node option \<Rightarrow> Node option
    \<Rightarrow> Node" where
  "NewMethodDeclaration modifiers typeParameters returnType name parameters throws defaultValue body =
     newNode (DeclNode MethodDeclaration) [Children modifiers, Children typeParameters, Child (Some returnType), Child (Some name),
       Children (Some parameters), Children throws, Child defaultValue, Child body]"

definition NewConstructorDeclaration :: "NodeArray option \<Rightarrow> NodeArray option \<Rightarrow> Node \<Rightarrow> NodeArray
    \<Rightarrow> NodeArray option \<Rightarrow> Node \<Rightarrow> Node" where
  "NewConstructorDeclaration modifiers typeParameters name parameters throws body =
     newNode (DeclNode ConstructorDeclaration) [Children modifiers, Children typeParameters, Child (Some name), Children (Some parameters),
       Children throws, Child (Some body)]"

definition NewInitializerBlock :: "bool \<Rightarrow> Node \<Rightarrow> Node" where
  "NewInitializerBlock isStatic body =
     newNode (DeclNode InitializerBlock) [Flag isStatic, Child (Some body)]"

definition NewParameter :: "NodeArray option \<Rightarrow> Node \<Rightarrow> bool \<Rightarrow> Node option \<Rightarrow> nat
    \<Rightarrow> bool \<Rightarrow> Node" where
  "NewParameter modifiers typ isVarArgs name arrayRank isReceiver =
     newNode (DeclNode Parameter) [Children modifiers, Child (Some typ), Flag isVarArgs, Child name, Count arrayRank,
       Flag isReceiver]"

definition NewLocalVariableDeclarationStatement :: "NodeArray option \<Rightarrow> Node \<Rightarrow> NodeArray \<Rightarrow> Node" where
  "NewLocalVariableDeclarationStatement modifiers typ declarators =
     newNode (CodeNode LocalVariableDeclarationStatement) [Children modifiers, Child (Some typ), Children (Some declarators)]"

definition NewIfStatement :: "Node \<Rightarrow> Node \<Rightarrow> Node option \<Rightarrow> Node" where
  "NewIfStatement condition thn els =
     newNode (CodeNode IfStatement) [Child (Some condition), Child (Some thn), Child els]"

definition NewWhileStatement :: "Node \<Rightarrow> Node \<Rightarrow> Node" where
  "NewWhileStatement condition statement =
     newNode (CodeNode WhileStatement) [Child (Some condition), Child (Some statement)]"

definition NewDoStatement :: "Node \<Rightarrow> Node \<Rightarrow> Node" where
  "NewDoStatement statement condition =
     newNode (CodeNode DoStatement) [Child (Some statement), Child (Some condition)]"

definition NewForStatement :: "Node option \<Rightarrow> NodeArray option \<Rightarrow> Node option \<Rightarrow> NodeArray option
    \<Rightarrow> Node \<Rightarrow> Node" where
  "NewForStatement initializer initializerExpressions condition incrementors statement =
     newNode (CodeNode ForStatement) [Child initializer, Children initializerExpressions, Child condition, Children incrementors,
       Child (Some statement)]"

definition NewForEachStatement :: "Node \<Rightarrow> Node \<Rightarrow> Node \<Rightarrow> Node" where
  "NewForEachStatement parameter expression statement =
     newNode (CodeNode ForEachStatement) [Child (Some parameter), Child (Some expression), Child (Some statement)]"

definition NewThrowStatement :: "Node \<Rightarrow> Node" where
  "NewThrowStatement expr = newNode (CodeNode ThrowStatement) [Child (Some expr)]"

definition NewBreakOrContinue :: "CodeKind \<Rightarrow> Node option \<Rightarrow> Node" where
  "NewBreakOrContinue kind lbl = newNode (CodeNode kind) [Child lbl]"

definition NewSynchronizedStatement :: "Node \<Rightarrow> Node \<Rightarrow> Node" where
  "NewSynchronizedStatement expr body =
     newNode (CodeNode SynchronizedStatement) [Child (Some expr), Child (Some body)]"

definition NewAssertStatement :: "Node \<Rightarrow> Node option \<Rightarrow> Node" where
  "NewAssertStatement condition message =
     newNode (CodeNode AssertStatement) [Child (Some condition), Child message]"

definition NewLabeledStatement :: "Node \<Rightarrow> Node \<Rightarrow> Node" where
  "NewLabeledStatement lbl statement =
     newNode (CodeNode LabeledStatement) [Child (Some lbl), Child (Some statement)]"

definition NewYieldStatement :: "Node \<Rightarrow> Node" where
  "NewYieldStatement expr = newNode (CodeNode YieldStatement) [Child (Some expr)]"

definition NewResource :: "NodeArray option \<Rightarrow> Node option \<Rightarrow> Node option \<Rightarrow> Node option
    \<Rightarrow> Node option \<Rightarrow> Node" where
  "NewResource modifiers typ name initializer expression =
     newNode (CodeNode Resource) [Children modifiers, Child typ, Child name, Child initializer, Child expression]"

definition NewCatchClause :: "NodeArray option \<Rightarrow> NodeArray \<Rightarrow> Node \<Rightarrow> Node \<Rightarrow> Node" where
  "NewCatchClause modifiers catchTypes name block =
     newNode (CodeNode CatchClause) [Children modifiers, Children (Some catchTypes), Child (Some name), Child (Some block)]"

definition NewTryStatement :: "NodeArray option \<Rightarrow> Node \<Rightarrow> NodeArray \<Rightarrow> Node option \<Rightarrow>
    Node" where
  "NewTryStatement resources tryBlock catchClauses finallyBlock =
     newNode (CodeNode TryStatement) [Children resources, Child (Some tryBlock), Children (Some catchClauses), Child finallyBlock]"

definition NewSwitchClause :: "bool \<Rightarrow> bool \<Rightarrow> NodeArray option \<Rightarrow> Node option \<Rightarrow>
    NodeArray \<Rightarrow> Node" where
  "NewSwitchClause isDefault isArrow labels guard statements =
     newNode (CodeNode SwitchClause) [Flag isDefault, Flag isArrow, Children labels, Child guard, Children (Some statements)]"

definition NewSwitchStatement :: "Node \<Rightarrow> NodeArray \<Rightarrow> Node" where
  "NewSwitchStatement expression clauses =
     newNode (CodeNode SwitchStatement) [Child (Some expression), Children (Some clauses)]"

definition NewArrayInitializer :: "NodeArray \<Rightarrow> Node" where
  "NewArrayInitializer elements = newNode (CodeNode ArrayInitializer) [Children (Some elements)]"

lemmas node_factory =
  newNode_def newToken_def
  NewIdentifier_def NewQualifiedName_def NewPrimitiveType_def NewVarType_def NewTypeReference_def
  NewArrayType_def NewWildcardType_def NewTypeParameter_def NewAnnotation_def
  NewAnnotationArgument_def NewSourceFile_def NewPackageDeclaration_def NewImportDeclaration_def
  NewEmptyStatement_def NewClassDeclaration_def NewInterfaceDeclaration_def NewEnumDeclaration_def
  NewAnnotationTypeDeclaration_def NewRecordComponent_def NewRecordDeclaration_def
  NewEnumConstantDeclaration_def NewFieldDeclaration_def NewVariableDeclarator_def NewBlock_def
  NewExpressionStatement_def NewReturnStatement_def NewLiteralExpression_def
  NewPrefixUnaryExpression_def NewPostfixUnaryExpression_def NewConditionalExpression_def
  NewAssignmentExpression_def NewInstanceofExpression_def NewCastExpression_def
  NewElementAccessExpression_def NewThisExpression_def NewSuperExpression_def
  NewBinaryExpression_def NewPropertyAccessExpression_def NewCallExpression_def
  NewParenthesizedExpression_def NewObjectCreationExpression_def NewArrayCreationExpression_def
  NewLambdaExpression_def NewMethodReferenceExpression_def NewClassLiteralExpression_def
  NewSwitchExpression_def NewTypePattern_def NewRecordPattern_def NewMatchAllPattern_def
  NewCompactConstructorDeclaration_def NewModuleDeclaration_def NewRequiresDirective_def
  NewExportsDirective_def NewOpensDirective_def NewUsesDirective_def NewProvidesDirective_def
  NewMethodDeclaration_def NewConstructorDeclaration_def NewInitializerBlock_def NewParameter_def
  NewLocalVariableDeclarationStatement_def NewIfStatement_def NewWhileStatement_def
  NewDoStatement_def NewForStatement_def NewForEachStatement_def NewThrowStatement_def
  NewBreakOrContinue_def NewSynchronizedStatement_def NewAssertStatement_def NewLabeledStatement_def
  NewYieldStatement_def NewResource_def NewCatchClause_def NewTryStatement_def NewSwitchClause_def
  NewSwitchStatement_def NewArrayInitializer_def

section \<open>Token predicates\<close>

definition isModifierKeyword :: "SyntaxKind \<Rightarrow> bool" where
  "isModifierKeyword kind \<longleftrightarrow>
     kind \<in> {Reserved PublicKeyword, Reserved ProtectedKeyword, Reserved PrivateKeyword, Reserved AbstractKeyword,
       Reserved StaticKeyword, Reserved FinalKeyword, Reserved NativeKeyword, Reserved SynchronizedKeyword,
       Reserved TransientKeyword, Reserved VolatileKeyword, Reserved StrictfpKeyword, Reserved DefaultKeyword}"

definition isAssignmentOperator :: "SyntaxKind \<Rightarrow> bool" where
  "isAssignmentOperator kind \<longleftrightarrow>
     kind \<in> {Punct EqualsToken, Punct PlusEqualsToken, Punct MinusEqualsToken, Punct AsteriskEqualsToken,
       Punct SlashEqualsToken, Punct PercentEqualsToken, Punct AmpersandEqualsToken, Punct BarEqualsToken,
       Punct CaretEqualsToken, Punct LessThanLessThanEqualsToken, Punct GreaterThanGreaterThanEqualsToken,
       Punct GreaterThanGreaterThanGreaterThanEqualsToken}"

definition isPrimitiveTypeKeyword :: "SyntaxKind \<Rightarrow> bool" where
  "isPrimitiveTypeKeyword kind \<longleftrightarrow>
     kind \<in> {Reserved BooleanKeyword, Reserved ByteKeyword, Reserved ShortKeyword, Reserved IntKeyword,
       Reserved LongKeyword, Reserved CharKeyword, Reserved FloatKeyword, Reserved DoubleKeyword}"

section \<open>Ranges\<close>

text \<open>
  The ranges of a tree: a node ends no earlier than it begins and its children lie in its range, but
  for the unnamed identifier that stands for the name of a missing declaration, which has no range. A
  property access begins where its expression does.
\<close>

definition placeholder :: Node where
  "placeholder = NewIdentifier []"

definition dotted :: "Kind \<Rightarrow> nat \<Rightarrow> Field list \<Rightarrow> bool" where
  "dotted k a fs \<longleftrightarrow>
     k = CodeNode PropertyAccessExpression \<longrightarrow> (case fs of Child (Some x) # _ \<Rightarrow> Pos x = a | _ \<Rightarrow> True)"

fun nested :: "Node \<Rightarrow> bool"
and field_nested :: "nat \<Rightarrow> nat \<Rightarrow> Field \<Rightarrow> bool"
and array_nested :: "nat \<Rightarrow> nat \<Rightarrow> NodeArray \<Rightarrow> bool" where
  "nested (Node k a b e fs) \<longleftrightarrow> a \<le> b \<and> dotted k a fs \<and> (\<forall>f \<in> set fs. field_nested a b f)"
| "field_nested a b (Child (Some n)) \<longleftrightarrow> n = placeholder \<or> (a \<le> Pos n \<and> End n \<le> b \<and> nested n)"
| "field_nested a b (Children (Some ns)) \<longleftrightarrow> array_nested a b ns"
| "field_nested a b (Unvisited (Some ns)) \<longleftrightarrow> array_nested a b ns"
| "field_nested a b _ \<longleftrightarrow> True"
| "array_nested a b (NodeArray ns c d) \<longleftrightarrow>
     a \<le> c \<and> c \<le> d \<and> d \<le> b \<and> (\<forall>n \<in> set ns. c \<le> Pos n \<and> End n \<le> d \<and> nested n)"

end
