(* ===== verification/ParserState.thy ===== *)
theory ParserState
  imports SyntaxTree TokenStream "HOL-Library.Monad_Syntax"
begin

text \<open>
  The core of the recursive-descent parser: \<open>togo/internal/compiler/parser.go\<close> up to its list parsers.
  The parser's struct is a record that every method takes and returns; \<open>None\<close> is a panic of the
  scanner, or a recursion or loop that ran out of its fuel, and \<open>ParserCorrect\<close> shows that neither
  happens on a text that does not end in a backslash. A list parser takes the element's parser as an
  argument, as in the source.
\<close>

section \<open>State\<close>

text \<open>
  A diagnostic keeps its message and the arguments that \<open>FormatMessage\<close> fills in. \<open>ParserMessage\<close> holds the
  entries of the message table that the parser uses.
\<close>

datatype ParserMessage =
    ScannerMessage DiagnosticMessage
  | Expected0
  | IdentifierExpected
  | DeclarationOrStatementExpected
  | ExpressionExpected
  | UnexpectedToken
  | DeclarationExpected
  | ParameterDeclarationExpected

record Diagnostic =
  diag_Pos :: nat
  diag_End :: nat
  diag_message :: ParserMessage
  diag_args :: "string list"

definition CreateDiagnostic :: "nat \<Rightarrow> nat \<Rightarrow> ParserMessage \<Rightarrow> string list \<Rightarrow> Diagnostic" where
  "CreateDiagnostic start len message args =
     \<lparr>diag_Pos = start, diag_End = start + len, diag_message = message, diag_args = args\<rparr>"

datatype ParsingContext =
    ctxSourceElements | ctxBlockStatements | ctxClassMembers | ctxEnumConstants | ctxTypeArguments
  | ctxTypeParameters | ctxParameters | ctxArgumentExpressions | ctxVariableDeclarations
  | ctxArrayInitializerElements | ctxSwitchClauses | ctxCatchClauses | ctxModuleDirectives
  | ctxAnnotationValues

text \<open>The values of the enumeration, in order.\<close>

definition parsing_contexts :: "ParsingContext list" where
  "parsing_contexts =
     [ctxSourceElements, ctxBlockStatements, ctxClassMembers, ctxEnumConstants, ctxTypeArguments,
      ctxTypeParameters, ctxParameters, ctxArgumentExpressions, ctxVariableDeclarations,
      ctxArrayInitializerElements, ctxSwitchClauses, ctxCatchClauses, ctxModuleDirectives, ctxAnnotationValues]"

fun context_index :: "ParsingContext \<Rightarrow> nat" where
  "context_index ctxSourceElements = 0"
| "context_index ctxBlockStatements = 1"
| "context_index ctxClassMembers = 2"
| "context_index ctxEnumConstants = 3"
| "context_index ctxTypeArguments = 4"
| "context_index ctxTypeParameters = 5"
| "context_index ctxParameters = 6"
| "context_index ctxArgumentExpressions = 7"
| "context_index ctxVariableDeclarations = 8"
| "context_index ctxArrayInitializerElements = 9"
| "context_index ctxSwitchClauses = 10"
| "context_index ctxCatchClauses = 11"
| "context_index ctxModuleDirectives = 12"
| "context_index ctxAnnotationValues = 13"

record Parser =
  scanner :: Scanner
  sourceText :: string
  fileName :: string
  currentToken :: SyntaxKind
  parseDiagnostics :: "Diagnostic list"
  parsingContext :: "64 word"
  parseErrorBeforeNextFinishedNode :: bool

type_synonym 'a parsed = "('a \<times> Parser) option"

section \<open>Nodes and diagnostics\<close>

definition getNodePos :: "Parser \<Rightarrow> nat" where
  "getNodePos p = fullStartPos (scanner p)"

text \<open>Every call of \<open>finishNode\<close> and \<open>createNodeArray\<close> passes the end -1, the current full start.\<close>

definition finishNode :: "Node \<Rightarrow> nat \<Rightarrow> Parser \<Rightarrow> Node parsed" where
  "finishNode node position p =
     Some (Node (node_kind node) position (getNodePos p)
             (has_error node \<or> parseErrorBeforeNextFinishedNode p) (payload node),
           p\<lparr>parseErrorBeforeNextFinishedNode := False\<rparr>)"

definition createNodeArray :: "Node list \<Rightarrow> nat \<Rightarrow> Parser \<Rightarrow> NodeArray" where
  "createNodeArray nodes position p = NodeArray nodes position (getNodePos p)"

definition parseErrorAtPosition :: "nat \<Rightarrow> nat \<Rightarrow> ParserMessage \<Rightarrow> string list \<Rightarrow> Parser \<Rightarrow> Parser" where
  "parseErrorAtPosition start len message args p =
     p\<lparr>parseDiagnostics :=
         (let ds = parseDiagnostics p
          in if ds = [] \<or> start \<noteq> diag_Pos (last ds) then ds @ [CreateDiagnostic start len message args] else ds),
       parseErrorBeforeNextFinishedNode := True\<rparr>"

definition parseErrorAt :: "nat \<Rightarrow> nat \<Rightarrow> ParserMessage \<Rightarrow> string list \<Rightarrow> Parser \<Rightarrow> Parser" where
  "parseErrorAt start endPos message args p = parseErrorAtPosition start (endPos - start) message args p"

definition parseErrorAtCurrentToken :: "ParserMessage \<Rightarrow> string list \<Rightarrow> Parser \<Rightarrow> Parser" where
  "parseErrorAtCurrentToken message args p =
     parseErrorAt (tokenStart (scanner p)) (s_pos (scanner p)) message args p"

section \<open>Tokens\<close>

text \<open>
  A call of the scanner: the errors it reports go to \<open>parseErrorAtPosition\<close>, the callback that
  \<open>ParseSourceFile\<close> gives it. The scanner's record collects them, so they are taken out of it.
\<close>

definition report_errors :: "(DiagnosticMessage \<times> nat \<times> nat) list \<Rightarrow> Parser \<Rightarrow> Parser" where
  "report_errors es p = foldl (\<lambda>p (m, position, len). parseErrorAtPosition position len (ScannerMessage m) [] p) p es"

definition scan_with :: "(Scanner \<Rightarrow> Scanner option) \<Rightarrow> Parser \<Rightarrow> SyntaxKind parsed" where
  "scan_with f p =
     (case f (scanner p) of
        None \<Rightarrow> None
      | Some s \<Rightarrow> Some (token s, report_errors (errors s) (p\<lparr>scanner := s\<lparr>errors := []\<rparr>\<rparr>)))"

definition nextToken :: "Parser \<Rightarrow> SyntaxKind parsed" where
  "nextToken p = do {
     (kind, p) \<leftarrow> scan_with Scan p;
     Some (kind, p\<lparr>currentToken := kind\<rparr>)
   }"

definition parseExpected :: "SyntaxKind \<Rightarrow> ParserMessage option \<Rightarrow> Parser \<Rightarrow> bool parsed" where
  "parseExpected kind message p =
     (if currentToken p = kind then do { (_, p) \<leftarrow> nextToken p; Some (True, p) }
      else Some (False,
        case message of
          Some m \<Rightarrow> parseErrorAtCurrentToken m [] p
        | None \<Rightarrow> parseErrorAtCurrentToken Expected0 [tokenToString kind] p))"

definition parseOptional :: "SyntaxKind \<Rightarrow> Parser \<Rightarrow> bool parsed" where
  "parseOptional kind p =
     (if currentToken p = kind then do { (_, p) \<leftarrow> nextToken p; Some (True, p) } else Some (False, p))"

definition parseTokenNode :: "Parser \<Rightarrow> Node parsed" where
  "parseTokenNode p = do {
     let position = getNodePos p;
     let kind = currentToken p;
     (_, p) \<leftarrow> nextToken p;
     finishNode (newToken kind) position p
   }"

definition createMissingNode ::
    "SyntaxKind \<Rightarrow> bool \<Rightarrow> ParserMessage option \<Rightarrow> string list \<Rightarrow> Parser \<Rightarrow> Node parsed" where
  "createMissingNode kind reportAtCurrentPosition message args p =
     (let p =
        (if reportAtCurrentPosition
         then parseErrorAtPosition (getNodePos p) 0 (case message of None \<Rightarrow> Expected0 | Some m \<Rightarrow> m) args p
         else case message of Some m \<Rightarrow> parseErrorAtCurrentToken m args p | None \<Rightarrow> p)
      in finishNode (if kind = Identifier then NewIdentifier [] else newToken kind) (getNodePos p) p)"

definition parseExpectedToken :: "SyntaxKind \<Rightarrow> ParserMessage option \<Rightarrow> Parser \<Rightarrow> Node parsed" where
  "parseExpectedToken kind message p =
     (if currentToken p = kind then parseTokenNode p
      else createMissingNode kind False message [tokenToString kind] p)"

definition parserLookAhead :: "(Parser \<Rightarrow> 'a parsed) \<Rightarrow> Parser \<Rightarrow> 'a parsed" where
  "parserLookAhead cb p = do {
     (result, q) \<leftarrow> cb p;
     Some (result,
       q\<lparr>scanner := restore (snapshot (scanner p)) (scanner q),
         currentToken := currentToken p,
         parseDiagnostics := take (length (parseDiagnostics p)) (parseDiagnostics q),
         parseErrorBeforeNextFinishedNode := parseErrorBeforeNextFinishedNode p\<rparr>)
   }"

text \<open>The callback that reads the next token and tests it, as many lookaheads have it.\<close>

definition next_is :: "SyntaxKind \<Rightarrow> Parser \<Rightarrow> bool parsed" where
  "next_is kind p = do {
     (_, p) \<leftarrow> nextToken p;
     Some (currentToken p = kind, p)
   }"

definition parseIdentifier :: "Parser \<Rightarrow> Node parsed" where
  "parseIdentifier p =
     (if currentToken p = Identifier then do {
        let position = getNodePos p;
        let name = tokenValue (scanner p);
        (_, p) \<leftarrow> nextToken p;
        finishNode (NewIdentifier name) position p
      }
      else createMissingNode Identifier False (Some IdentifierExpected) [] p)"

definition isContextualKeyword :: "string \<Rightarrow> Parser \<Rightarrow> bool" where
  "isContextualKeyword name p \<longleftrightarrow> currentToken p = Identifier \<and> tokenValue (scanner p) = name"

definition parseContextualKeyword :: "string \<Rightarrow> Parser \<Rightarrow> bool parsed" where
  "parseContextualKeyword name p =
     (if isContextualKeyword name p then do { (_, p) \<leftarrow> nextToken p; Some (True, p) } else Some (False, p))"

section \<open>Loops and conditional parts\<close>

text \<open>
  A loop of the parser: the body says whether to go on. The fuel is the number of iterations; every
  iteration of the parser's loops that goes on consumes a token, so the length of the text bounds them.
\<close>

fun loop :: "nat \<Rightarrow> ('a \<Rightarrow> Parser \<Rightarrow> (bool \<times> 'a) parsed) \<Rightarrow> 'a \<Rightarrow> Parser \<Rightarrow> 'a parsed" where
  "loop 0 body x p = None"
| "loop (Suc n) body x p = do {
     ((again, x), p) \<leftarrow> body x p;
     if again then loop n body x p else Some (x, p)
   }"

definition parse_loop :: "('a \<Rightarrow> Parser \<Rightarrow> (bool \<times> 'a) parsed) \<Rightarrow> 'a \<Rightarrow> Parser \<Rightarrow> 'a parsed" where
  "parse_loop body x p = loop (length (sourceText p) + 2) body x p"

text \<open>
  \<open>collect\<close>: while the condition holds, the element is parsed and appended. \<open>optionally\<close>: a variable that
  stays nil unless the condition holds.
\<close>

definition collect :: "(Parser \<Rightarrow> bool parsed) \<Rightarrow> (Parser \<Rightarrow> Node parsed) \<Rightarrow> Node list \<Rightarrow> Parser \<Rightarrow> Node list parsed" where
  "collect cond element =
     parse_loop (\<lambda>list p. do {
       (go, p) \<leftarrow> cond p;
       if go then do { (n, p) \<leftarrow> element p; Some ((True, list @ [n]), p) }
       else Some ((False, list), p)
     })"

definition optionally :: "bool \<Rightarrow> (Parser \<Rightarrow> 'a parsed) \<Rightarrow> Parser \<Rightarrow> 'a option parsed" where
  "optionally cond f p = (if cond then do { (x, p) \<leftarrow> f p; Some (Some x, p) } else Some (None, p))"

end
