(* ===== verification/ParserTypes.thy ===== *)
theory ParserTypes
  imports ParserState
begin

text \<open>
  The first half of the grammar: the predicates on the current token, the list parsers with their
  error recovery, names, annotations, types and modifiers, from \<open>parser.go\<close>, \<open>parser_decls.go\<close>,
  \<open>parser_expr.go\<close>, \<open>parser_members.go\<close> and \<open>parser_module.go\<close> of \<open>togo/internal/compiler\<close>.

  The methods of the parser are mutually recursive. Each is a definition of its own that calls the ones
  it needs; where a call would close a cycle it goes through the argument \<open>rec\<close>, the parser of the
  nonterminals below, which \<open>Parser\<close> ties to the definitions with fuel. Every such call comes after
  a token has been consumed.
\<close>

datatype Nonterminal =
    nt_ElementValue | nt_Type | nt_ClassMember | nt_Statement | nt_SwitchClause | nt_Expression | nt_Unary
  | nt_Binary nat | nt_VariableInitializer | nt_Pattern

type_synonym grammar = "Nonterminal \<Rightarrow> Parser \<Rightarrow> Node parsed"

section \<open>What can start\<close>

definition isStartOfType :: "Parser \<Rightarrow> bool" where
  "isStartOfType p \<longleftrightarrow>
     isPrimitiveTypeKeyword (currentToken p) \<or> currentToken p = Reserved VoidKeyword
     \<or> currentToken p = Identifier \<or> currentToken p = Punct QuestionToken \<or> currentToken p = Punct AtToken"

definition isStartOfParameter :: "Parser \<Rightarrow> bool" where
  "isStartOfParameter p \<longleftrightarrow>
     currentToken p = Punct AtToken \<or> currentToken p = Reserved FinalKeyword \<or> isStartOfType p"

definition isStartOfExpression :: "Parser \<Rightarrow> bool" where
  "isStartOfExpression p \<longleftrightarrow>
     currentToken p \<in> {NumericLiteral, StringLiteral, CharacterLiteral, TextBlockLiteral,
       Reserved TrueKeyword, Reserved FalseKeyword, Reserved NullKeyword, Reserved ThisKeyword,
       Reserved SuperKeyword, Reserved NewKeyword, Reserved SwitchKeyword, Identifier, Punct OpenParenToken,
       Punct ExclamationToken, Punct TildeToken, Punct PlusToken, Punct MinusToken, Punct PlusPlusToken,
       Punct MinusMinusToken}
     \<or> isPrimitiveTypeKeyword (currentToken p) \<or> currentToken p = Reserved VoidKeyword"

definition isStartOfClassMember :: "Parser \<Rightarrow> bool" where
  "isStartOfClassMember p \<longleftrightarrow>
     currentToken p \<in> {Punct SemicolonToken, Punct OpenBraceToken, Punct LessThanToken, Punct AtToken,
       Reserved ClassKeyword, Reserved InterfaceKeyword, Reserved EnumKeyword}
     \<or> isModifierKeyword (currentToken p) \<or> isStartOfType p"

definition isStartOfStatementToken :: "Parser \<Rightarrow> bool" where
  "isStartOfStatementToken p \<longleftrightarrow>
     currentToken p \<in> {Punct SemicolonToken, Punct OpenBraceToken, Reserved IfKeyword, Reserved WhileKeyword,
       Reserved DoKeyword, Reserved ForKeyword, Reserved TryKeyword, Reserved SwitchKeyword,
       Reserved ReturnKeyword, Reserved ThrowKeyword, Reserved BreakKeyword, Reserved ContinueKeyword,
       Reserved SynchronizedKeyword, Reserved AssertKeyword, Reserved ClassKeyword, Reserved InterfaceKeyword,
       Reserved EnumKeyword, Punct AtToken}
     \<or> (isModifierKeyword (currentToken p) \<and> currentToken p \<noteq> Reserved DefaultKeyword)
     \<or> isStartOfExpression p"

definition isModuleDirectiveStart :: "Parser \<Rightarrow> bool" where
  "isModuleDirectiveStart p \<longleftrightarrow>
     isContextualKeyword ''requires'' p \<or> isContextualKeyword ''exports'' p \<or> isContextualKeyword ''opens'' p
     \<or> isContextualKeyword ''uses'' p \<or> isContextualKeyword ''provides'' p"

definition isRecordDeclarationStart :: "Parser \<Rightarrow> bool parsed" where
  "isRecordDeclarationStart p =
     (if isContextualKeyword ''record'' p then
        parserLookAhead (\<lambda>p. do {
          (_, p) \<leftarrow> nextToken p;
          if currentToken p \<noteq> Identifier then Some (False, p)
          else do {
            (_, p) \<leftarrow> nextToken p;
            Some (currentToken p = Punct OpenParenToken \<or> currentToken p = Punct LessThanToken, p)
          }
        }) p
      else Some (False, p))"

definition isStartOfStatement :: "Parser \<Rightarrow> bool parsed" where
  "isStartOfStatement p =
     (if currentToken p \<in> {Punct SemicolonToken, Reserved ClassKeyword, Reserved InterfaceKeyword,
            Reserved EnumKeyword, Punct AtToken}
         \<or> isModifierKeyword (currentToken p) \<or> isContextualKeyword ''sealed'' p \<or> isContextualKeyword ''non'' p
      then Some (True, p) else isRecordDeclarationStart p)"

section \<open>Lists with error recovery\<close>

definition isListTerminator :: "ParsingContext \<Rightarrow> Parser \<Rightarrow> bool" where
  "isListTerminator context p \<longleftrightarrow>
     currentToken p = EndOfFileToken \<or>
     (if context \<in> {ctxBlockStatements, ctxClassMembers, ctxEnumConstants, ctxSwitchClauses,
           ctxArrayInitializerElements, ctxModuleDirectives}
      then currentToken p = Punct CloseBraceToken
      else if context \<in> {ctxParameters, ctxArgumentExpressions, ctxAnnotationValues}
      then currentToken p = Punct CloseParenToken
      else if context \<in> {ctxTypeArguments, ctxTypeParameters} then currentToken p = Punct GreaterThanToken
      else False)"

definition isListElement :: "ParsingContext \<Rightarrow> Parser \<Rightarrow> bool parsed" where
  "isListElement context p =
     (case context of
        ctxSourceElements \<Rightarrow> isStartOfStatement p
      | ctxClassMembers \<Rightarrow> Some (isStartOfClassMember p, p)
      | ctxTypeArguments \<Rightarrow> Some (isStartOfType p, p)
      | ctxTypeParameters \<Rightarrow> Some (currentToken p = Identifier \<or> currentToken p = Punct AtToken, p)
      | ctxParameters \<Rightarrow> Some (isStartOfParameter p, p)
      | ctxArgumentExpressions \<Rightarrow> Some (isStartOfExpression p, p)
      | ctxBlockStatements \<Rightarrow> Some (isStartOfStatementToken p, p)
      | ctxSwitchClauses \<Rightarrow> Some (currentToken p = Reserved CaseKeyword \<or> currentToken p = Reserved DefaultKeyword, p)
      | ctxArrayInitializerElements \<Rightarrow>
          Some (currentToken p = Punct OpenBraceToken \<or> currentToken p = Punct AtToken \<or> isStartOfExpression p, p)
      | ctxAnnotationValues \<Rightarrow>
          Some (currentToken p = Punct OpenBraceToken \<or> currentToken p = Punct AtToken \<or> isStartOfExpression p, p)
      | ctxModuleDirectives \<Rightarrow> Some (isModuleDirectiveStart p, p)
      | _ \<Rightarrow> Some (False, p))"

fun in_some_context :: "ParsingContext list \<Rightarrow> Parser \<Rightarrow> bool parsed" where
  "in_some_context [] p = Some (False, p)"
| "in_some_context (context # cs) p =
     (if bit (parsingContext p) (context_index context) then do {
        (element, p) \<leftarrow> isListElement context p;
        if element \<or> isListTerminator context p then Some (True, p) else in_some_context cs p
      }
      else in_some_context cs p)"

definition isInSomeParsingContext :: "Parser \<Rightarrow> bool parsed" where
  "isInSomeParsingContext p = in_some_context parsing_contexts p"

definition parsingContextErrors :: "ParsingContext \<Rightarrow> Parser \<Rightarrow> Parser" where
  "parsingContextErrors context p =
     parseErrorAtCurrentToken
       (case context of
          ctxSourceElements \<Rightarrow> DeclarationOrStatementExpected
        | ctxBlockStatements \<Rightarrow> DeclarationOrStatementExpected
        | ctxParameters \<Rightarrow> ParameterDeclarationExpected
        | _ \<Rightarrow> UnexpectedToken) [] p"

definition abortParsingListOrMoveToNextToken :: "ParsingContext \<Rightarrow> Parser \<Rightarrow> bool parsed" where
  "abortParsingListOrMoveToNextToken context p = do {
     let p = parsingContextErrors context p;
     (inSome, p) \<leftarrow> isInSomeParsingContext p;
     if inSome then Some (True, p)
     else do { (_, p) \<leftarrow> nextToken p; Some (False, p) }
   }"

definition enter_context :: "ParsingContext \<Rightarrow> Parser \<Rightarrow> Parser" where
  "enter_context context p =
     p\<lparr>parsingContext := parsingContext p OR push_bit (context_index context) 1\<rparr>"

definition list_step :: "ParsingContext \<Rightarrow> (Parser \<Rightarrow> Node parsed) \<Rightarrow> Node list \<Rightarrow> Parser \<Rightarrow> (bool \<times> Node list) parsed" where
  "list_step context parseElement list p =
     (if isListTerminator context p then Some ((False, list), p)
      else do {
        (element, p) \<leftarrow> isListElement context p;
        if element then do { (n, p) \<leftarrow> parseElement p; Some ((True, list @ [n]), p) }
        else do {
          (abort, p) \<leftarrow> abortParsingListOrMoveToNextToken context p;
          Some ((\<not> abort, list), p)
        }
      })"

definition parseList :: "ParsingContext \<Rightarrow> (Parser \<Rightarrow> Node parsed) \<Rightarrow> Parser \<Rightarrow> NodeArray parsed" where
  "parseList context parseElement p = do {
     let save = parsingContext p;
     let listPos = getNodePos p;
     (list, p) \<leftarrow> parse_loop (list_step context parseElement) [] (enter_context context p);
     let p = p\<lparr>parsingContext := save\<rparr>;
     Some (createNodeArray list listPos p, p)
   }"

definition delimited_step :: "ParsingContext \<Rightarrow> (Parser \<Rightarrow> Node parsed) \<Rightarrow> Node list \<Rightarrow> Parser \<Rightarrow> (bool \<times> Node list) parsed" where
  "delimited_step context parseElement list p = do {
     (element, p) \<leftarrow> isListElement context p;
     if element then do {
       let startPos = getNodePos p;
       (n, p) \<leftarrow> parseElement p;
       (comma, p) \<leftarrow> parseOptional (Punct CommaToken) p;
       if comma then Some ((True, list @ [n]), p)
       else if isListTerminator context p then Some ((False, list @ [n]), p)
       else do {
         (_, p) \<leftarrow> parseExpected (Punct CommaToken) None p;
         if startPos = getNodePos p then do { (_, p) \<leftarrow> nextToken p; Some ((True, list @ [n]), p) }
         else Some ((True, list @ [n]), p)
       }
     }
     else if isListTerminator context p then Some ((False, list), p)
     else do {
       (abort, p) \<leftarrow> abortParsingListOrMoveToNextToken context p;
       Some ((\<not> abort, list), p)
     }
   }"

definition parseDelimitedList :: "ParsingContext \<Rightarrow> (Parser \<Rightarrow> Node parsed) \<Rightarrow> Parser \<Rightarrow> NodeArray parsed" where
  "parseDelimitedList context parseElement p = do {
     let save = parsingContext p;
     let listPos = getNodePos p;
     (list, p) \<leftarrow> parse_loop (delimited_step context parseElement) [] (enter_context context p);
     let p = p\<lparr>parsingContext := save\<rparr>;
     Some (createNodeArray list listPos p, p)
   }"

section \<open>Names\<close>

definition makeQualifiedName :: "Node \<Rightarrow> Node \<Rightarrow> Parser \<Rightarrow> Node parsed" where
  "makeQualifiedName left right p = finishNode (NewQualifiedName left right) (Pos left) p"

definition parseEntityName :: "Parser \<Rightarrow> Node parsed" where
  "parseEntityName p = do {
     (entity, p) \<leftarrow> parseIdentifier p;
     parse_loop (\<lambda>entity p.
       if currentToken p = Punct DotToken then do {
         (name, p) \<leftarrow> parserLookAhead (next_is Identifier) p;
         if name then do {
           (_, p) \<leftarrow> parseExpected (Punct DotToken) None p;
           (right, p) \<leftarrow> parseIdentifier p;
           (entity, p) \<leftarrow> makeQualifiedName entity right p;
           Some ((True, entity), p)
         }
         else Some ((False, entity), p)
       }
       else Some ((False, entity), p)) entity p
   }"

section \<open>Annotations\<close>

text \<open>
  \<open>LookAhead\<close> of the scanner alone: the parser's state is not restored, so an error that the scanner
  reports on the way stays.
\<close>

definition isAnnotationTypeDeclarationStart :: "Parser \<Rightarrow> bool parsed" where
  "isAnnotationTypeDeclarationStart p = do {
     (kind, q) \<leftarrow> scan_with Scan p;
     Some (kind = Reserved InterfaceKeyword, q\<lparr>scanner := restore (snapshot (scanner p)) (scanner q)\<rparr>)
   }"

definition at_annotation :: "Parser \<Rightarrow> bool parsed" where
  "at_annotation p =
     (if currentToken p = Punct AtToken then do {
        (decl, p) \<leftarrow> isAnnotationTypeDeclarationStart p;
        Some (\<not> decl, p)
      }
      else Some (False, p))"

definition parseAnnotationArgument :: "grammar \<Rightarrow> Parser \<Rightarrow> Node parsed" where
  "parseAnnotationArgument rec p = do {
     let position = getNodePos p;
     (named, p) \<leftarrow>
       (if currentToken p = Identifier then parserLookAhead (next_is (Punct EqualsToken)) p else Some (False, p));
     (name, p) \<leftarrow> optionally named (\<lambda>p. do {
       (name, p) \<leftarrow> parseIdentifier p;
       (_, p) \<leftarrow> parseExpected (Punct EqualsToken) None p;
       Some (name, p)
     }) p;
     (val, p) \<leftarrow> rec nt_ElementValue p;
     finishNode (NewAnnotationArgument name val) position p
   }"

definition parseAnnotation :: "grammar \<Rightarrow> Parser \<Rightarrow> Node parsed" where
  "parseAnnotation rec p = do {
     let position = getNodePos p;
     (_, p) \<leftarrow> parseExpected (Punct AtToken) None p;
     (typeName, p) \<leftarrow> parseEntityName p;
     (args, p) \<leftarrow> optionally (currentToken p = Punct OpenParenToken) (\<lambda>p. do {
       (_, p) \<leftarrow> parseExpected (Punct OpenParenToken) None p;
       (args, p) \<leftarrow> parseDelimitedList ctxAnnotationValues (parseAnnotationArgument rec) p;
       (_, p) \<leftarrow> parseExpected (Punct CloseParenToken) None p;
       Some (args, p)
     }) p;
     finishNode (NewAnnotation typeName args) position p
   }"

text \<open>An empty list is nil.\<close>

definition array_or_nil :: "Node list \<Rightarrow> nat \<Rightarrow> Parser \<Rightarrow> NodeArray option" where
  "array_or_nil list position p = (if list = [] then None else Some (createNodeArray list position p))"

definition parseAnnotations :: "grammar \<Rightarrow> Parser \<Rightarrow> NodeArray option parsed" where
  "parseAnnotations rec p = do {
     let position = getNodePos p;
     (list, p) \<leftarrow> collect at_annotation (parseAnnotation rec) [] p;
     Some (array_or_nil list position p, p)
   }"

section \<open>Types\<close>

definition parseWildcardTypeFrom :: "grammar \<Rightarrow> nat \<Rightarrow> bool \<Rightarrow> Parser \<Rightarrow> Node parsed" where
  "parseWildcardTypeFrom rec position verbatim p = do {
     (_, p) \<leftarrow> parseExpected (Punct QuestionToken) None p;
     (hasExtends, p) \<leftarrow> parseOptional (Reserved ExtendsKeyword) p;
     (hasSuper, p) \<leftarrow> (if hasExtends then Some (False, p) else parseOptional (Reserved SuperKeyword) p);
     (typ, p) \<leftarrow> optionally (hasExtends \<or> hasSuper) (rec nt_Type) p;
     finishNode (NewWildcardType hasExtends hasSuper typ verbatim) position p
   }"

definition parseWildcardType :: "grammar \<Rightarrow> Parser \<Rightarrow> Node parsed" where
  "parseWildcardType rec p = parseWildcardTypeFrom rec (getNodePos p) False p"

definition parseTypeArgument :: "grammar \<Rightarrow> Parser \<Rightarrow> Node parsed" where
  "parseTypeArgument rec p =
     (if currentToken p = Punct QuestionToken then parseWildcardType rec p else rec nt_Type p)"

definition parseTypeArguments :: "grammar \<Rightarrow> Parser \<Rightarrow> NodeArray parsed" where
  "parseTypeArguments rec p = do {
     (_, p) \<leftarrow> parseExpected (Punct LessThanToken) None p;
     (list, p) \<leftarrow> parseDelimitedList ctxTypeArguments (parseTypeArgument rec) p;
     (_, p) \<leftarrow> parseExpected (Punct GreaterThanToken) None p;
     Some (list, p)
   }"

definition type_arguments_if :: "grammar \<Rightarrow> Parser \<Rightarrow> NodeArray option parsed" where
  "type_arguments_if rec p = optionally (currentToken p = Punct LessThanToken) (parseTypeArguments rec) p"

definition type_segment :: "grammar \<Rightarrow> Node \<times> NodeArray option \<times> bool \<Rightarrow> Parser \<Rightarrow> (bool \<times> Node \<times> NodeArray option \<times> bool) parsed" where
  "type_segment rec = (\<lambda>(typeName, typeArguments, verbatim) p. do {
     (dotted, p) \<leftarrow>
       (if currentToken p = Punct DotToken then parserLookAhead (\<lambda>p. do {
          (_, p) \<leftarrow> nextToken p;
          (_, p) \<leftarrow> parseAnnotations rec p;
          Some (currentToken p = Identifier, p)
        }) p
        else Some (False, p));
     if dotted then do {
       (_, p) \<leftarrow> parseExpected (Punct DotToken) None p;
       let annotated = currentToken p = Punct AtToken;
       (_, p) \<leftarrow> (if annotated then parseAnnotations rec p else Some (None, p));
       (right, p) \<leftarrow> parseIdentifier p;
       (name, p) \<leftarrow> makeQualifiedName typeName right p;
       (args, p) \<leftarrow> type_arguments_if rec p;
       Some ((True, name, args, verbatim \<or> annotated \<or> typeArguments \<noteq> None), p)
     }
     else Some ((False, typeName, typeArguments, verbatim), p)
   })"

definition parseNonArrayType :: "grammar \<Rightarrow> Parser \<Rightarrow> Node parsed" where
  "parseNonArrayType rec p = do {
     let position = getNodePos p;
     (typeAnnotations, p) \<leftarrow> parseAnnotations rec p;
     if isPrimitiveTypeKeyword (currentToken p) \<or> currentToken p = Reserved VoidKeyword then do {
       let keyword = currentToken p;
       (_, p) \<leftarrow> nextToken p;
       finishNode (NewPrimitiveType keyword typeAnnotations) position p
     }
     else if currentToken p = Punct QuestionToken then
       (if 0 < Len typeAnnotations then parseWildcardTypeFrom rec position True p else parseWildcardType rec p)
     else do {
       (typeName, p) \<leftarrow> parseIdentifier p;
       (typeArguments, p) \<leftarrow> type_arguments_if rec p;
       ((typeName, typeArguments, verbatim), p) \<leftarrow> parse_loop (type_segment rec) (typeName, typeArguments, False) p;
       finishNode (NewTypeReference typeName typeArguments typeAnnotations verbatim) position p
     }
   }"

definition atArrayBracket :: "Parser \<Rightarrow> bool parsed" where
  "atArrayBracket p =
     (if currentToken p = Punct OpenBracketToken then parserLookAhead (next_is (Punct CloseBracketToken)) p
      else Some (False, p))"

definition array_dimension :: "grammar \<Rightarrow> Node \<times> bool \<Rightarrow> Parser \<Rightarrow> (bool \<times> Node \<times> bool) parsed" where
  "array_dimension rec = (\<lambda>(typ, verbatim) p. do {
     (annotated, p) \<leftarrow>
       (if currentToken p = Punct AtToken then parserLookAhead (\<lambda>p. do {
          (_, p) \<leftarrow> parseAnnotations rec p;
          atArrayBracket p
        }) p
        else Some (False, p));
     (go, p) \<leftarrow> (if annotated then Some (True, p) else atArrayBracket p);
     if go then do {
       (_, p) \<leftarrow> (if annotated then parseAnnotations rec p else Some (None, p));
       (_, p) \<leftarrow> nextToken p;
       (_, p) \<leftarrow> parseExpected (Punct CloseBracketToken) None p;
       (typ, p) \<leftarrow> finishNode (NewArrayType typ (verbatim \<or> annotated)) (Pos typ) p;
       Some ((True, typ, verbatim \<or> annotated), p)
     }
     else Some ((False, typ, verbatim), p)
   })"

text \<open>\<open>AsTypeReference().Verbatim\<close> of a type reference.\<close>

definition verbatim_reference :: "Node \<Rightarrow> bool" where
  "verbatim_reference n \<longleftrightarrow> node_kind n = DeclNode TypeReference \<and> (case payload n of [_, _, _, Flag v] \<Rightarrow> v | _ \<Rightarrow> False)"

definition parseType :: "grammar \<Rightarrow> Parser \<Rightarrow> Node parsed" where
  "parseType rec p = do {
     (typ, p) \<leftarrow> parseNonArrayType rec p;
     ((typ, _), p) \<leftarrow> parse_loop (array_dimension rec) (typ, verbatim_reference typ) p;
     Some (typ, p)
   }"

definition parseTypeOrVar :: "grammar \<Rightarrow> Parser \<Rightarrow> Node parsed" where
  "parseTypeOrVar rec p =
     (if isContextualKeyword ''var'' p then do {
        let position = getNodePos p;
        (_, p) \<leftarrow> nextToken p;
        finishNode NewVarType position p
      }
      else parseType rec p)"

definition parseTypeParameter :: "grammar \<Rightarrow> Parser \<Rightarrow> Node parsed" where
  "parseTypeParameter rec p = do {
     let position = getNodePos p;
     (annotations, p) \<leftarrow> parseAnnotations rec p;
     (name, p) \<leftarrow> parseIdentifier p;
     (extends, p) \<leftarrow> parseOptional (Reserved ExtendsKeyword) p;
     (bound, p) \<leftarrow> optionally extends (\<lambda>p. do {
       (first, p) \<leftarrow> parseType rec p;
       (bounds, p) \<leftarrow> collect (parseOptional (Punct AmpersandToken)) (parseType rec) [first] p;
       Some (createNodeArray bounds (Pos first) p, p)
     }) p;
     finishNode (NewTypeParameter annotations name bound) position p
   }"

definition parseTypeParameters :: "grammar \<Rightarrow> Parser \<Rightarrow> NodeArray option parsed" where
  "parseTypeParameters rec p =
     optionally (currentToken p = Punct LessThanToken) (\<lambda>p. do {
       (_, p) \<leftarrow> parseExpected (Punct LessThanToken) None p;
       (list, p) \<leftarrow> parseDelimitedList ctxTypeParameters (parseTypeParameter rec) p;
       (_, p) \<leftarrow> parseExpected (Punct GreaterThanToken) None p;
       Some (list, p)
     }) p"

definition parseTypeList :: "grammar \<Rightarrow> Parser \<Rightarrow> NodeArray parsed" where
  "parseTypeList rec p = do {
     let position = getNodePos p;
     (first, p) \<leftarrow> parseType rec p;
     (list, p) \<leftarrow> collect (parseOptional (Punct CommaToken)) (parseType rec) [first] p;
     Some (createNodeArray list position p, p)
   }"

section \<open>Modifiers and parameters\<close>

definition isContextualModifierFollow :: "Parser \<Rightarrow> bool" where
  "isContextualModifierFollow p \<longleftrightarrow>
     isModifierKeyword (currentToken p) \<or> currentToken p = Punct AtToken
     \<or> currentToken p = Reserved ClassKeyword \<or> currentToken p = Reserved InterfaceKeyword \<or> currentToken p = Reserved EnumKeyword
     \<or> isContextualKeyword ''sealed'' p \<or> isContextualKeyword ''non'' p \<or> isContextualKeyword ''record'' p"

definition at_sealed :: "Parser \<Rightarrow> bool parsed" where
  "at_sealed p =
     (if isContextualKeyword ''sealed'' p then
        parserLookAhead (\<lambda>p. do { (_, p) \<leftarrow> nextToken p; Some (isContextualModifierFollow p, p) }) p
      else Some (False, p))"

definition at_non_sealed :: "Parser \<Rightarrow> bool parsed" where
  "at_non_sealed p =
     (if isContextualKeyword ''non'' p then
        parserLookAhead (\<lambda>p. do {
          (_, p) \<leftarrow> nextToken p;
          if currentToken p \<noteq> Punct MinusToken then Some (False, p)
          else do {
            (_, p) \<leftarrow> nextToken p;
            Some (isContextualKeyword ''sealed'' p, p)
          }
        }) p
      else Some (False, p))"

definition modifier_step :: "grammar \<Rightarrow> Node list \<Rightarrow> Parser \<Rightarrow> (bool \<times> Node list) parsed" where
  "modifier_step rec list p =
     (if isModifierKeyword (currentToken p) then do {
        (n, p) \<leftarrow> parseTokenNode p;
        Some ((True, list @ [n]), p)
      }
      else do {
        (annotation, p) \<leftarrow> at_annotation p;
        if annotation then do {
          (n, p) \<leftarrow> parseAnnotation rec p;
          Some ((True, list @ [n]), p)
        }
        else do {
          (isSealed, p) \<leftarrow> at_sealed p;
          if isSealed then do {
            (n, p) \<leftarrow> parseIdentifier p;
            Some ((True, list @ [n]), p)
          }
          else do {
            (nonSealed, p) \<leftarrow> at_non_sealed p;
            if nonSealed then do {
              (n, p) \<leftarrow> parseIdentifier p;
              (_, p) \<leftarrow> parseExpected (Punct MinusToken) None p;
              (_, p) \<leftarrow> parseContextualKeyword ''sealed'' p;
              Some ((True, list @ [n]), p)
            }
            else Some ((False, list), p)
          }
        }
      })"

definition parseModifiers :: "grammar \<Rightarrow> Parser \<Rightarrow> NodeArray option parsed" where
  "parseModifiers rec p = do {
     let position = getNodePos p;
     (list, p) \<leftarrow> parse_loop (modifier_step rec) [] p;
     Some (array_or_nil list position p, p)
   }"

definition parseArrayRankAfterName :: "Parser \<Rightarrow> nat parsed" where
  "parseArrayRankAfterName =
     parse_loop (\<lambda>rank p.
       if currentToken p = Punct OpenBracketToken then do {
         (_, p) \<leftarrow> nextToken p;
         (_, p) \<leftarrow> parseExpected (Punct CloseBracketToken) None p;
         Some ((True, rank + 1), p)
       }
       else Some ((False, rank), p)) 0"

definition parseParameter :: "grammar \<Rightarrow> Parser \<Rightarrow> Node parsed" where
  "parseParameter rec p = do {
     let position = getNodePos p;
     (modifiers, p) \<leftarrow> parseModifiers rec p;
     (typ, p) \<leftarrow> parseTypeOrVar rec p;
     if currentToken p = Reserved ThisKeyword then do {
       (_, p) \<leftarrow> nextToken p;
       finishNode (NewParameter modifiers typ False None 0 True) position p
     }
     else do {
       (receiver, p) \<leftarrow>
         (if currentToken p = Identifier then parserLookAhead (\<lambda>p. do {
            (_, p) \<leftarrow> nextToken p;
            if currentToken p \<noteq> Punct DotToken then Some (False, p)
            else do {
              (_, p) \<leftarrow> nextToken p;
              Some (currentToken p = Reserved ThisKeyword, p)
            }
          }) p
          else Some (False, p));
       if receiver then do {
         (_, p) \<leftarrow> parseIdentifier p;
         (_, p) \<leftarrow> parseExpected (Punct DotToken) None p;
         (_, p) \<leftarrow> parseExpected (Reserved ThisKeyword) None p;
         finishNode (NewParameter modifiers typ False None 0 True) position p
       }
       else do {
         (isVarArgs, p) \<leftarrow> parseOptional (Punct DotDotDotToken) p;
         (name, p) \<leftarrow> parseIdentifier p;
         (arrayRank, p) \<leftarrow> parseArrayRankAfterName p;
         finishNode (NewParameter modifiers typ isVarArgs (Some name) arrayRank False) position p
       }
     }
   }"

definition parseFormalParameters :: "grammar \<Rightarrow> Parser \<Rightarrow> NodeArray parsed" where
  "parseFormalParameters rec p = do {
     (_, p) \<leftarrow> parseExpected (Punct OpenParenToken) None p;
     (parameters, p) \<leftarrow> parseDelimitedList ctxParameters (parseParameter rec) p;
     (_, p) \<leftarrow> parseExpected (Punct CloseParenToken) None p;
     Some (parameters, p)
   }"

definition parseThrows :: "grammar \<Rightarrow> Parser \<Rightarrow> NodeArray option parsed" where
  "parseThrows rec p = do {
     (throws, p) \<leftarrow> parseOptional (Reserved ThrowsKeyword) p;
     optionally throws (parseTypeList rec) p
   }"

section \<open>Bodies\<close>

definition parseClassBody :: "grammar \<Rightarrow> Parser \<Rightarrow> NodeArray parsed" where
  "parseClassBody rec p = do {
     let position = getNodePos p;
     if currentToken p \<noteq> Punct OpenBraceToken then do {
       (_, p) \<leftarrow> parseExpected (Punct OpenBraceToken) None p;
       Some (createNodeArray [] position p, p)
     }
     else do {
       (_, p) \<leftarrow> parseExpected (Punct OpenBraceToken) None p;
       (members, p) \<leftarrow> parseList ctxClassMembers (rec nt_ClassMember) p;
       (_, p) \<leftarrow> parseExpected (Punct CloseBraceToken) None p;
       Some (members, p)
     }
   }"

definition parseBlock :: "grammar \<Rightarrow> Parser \<Rightarrow> Node parsed" where
  "parseBlock rec p = do {
     let position = getNodePos p;
     (_, p) \<leftarrow> parseExpected (Punct OpenBraceToken) None p;
     (statements, p) \<leftarrow> parseList ctxBlockStatements (rec nt_Statement) p;
     (_, p) \<leftarrow> parseExpected (Punct CloseBraceToken) None p;
     finishNode (NewBlock statements) position p
   }"

definition parseSwitchBlock :: "grammar \<Rightarrow> Parser \<Rightarrow> NodeArray parsed" where
  "parseSwitchBlock rec p = do {
     (_, p) \<leftarrow> parseExpected (Punct OpenBraceToken) None p;
     (clauses, p) \<leftarrow> parseList ctxSwitchClauses (rec nt_SwitchClause) p;
     (_, p) \<leftarrow> parseExpected (Punct CloseBraceToken) None p;
     Some (clauses, p)
   }"

definition parseArgumentList :: "grammar \<Rightarrow> Parser \<Rightarrow> NodeArray parsed" where
  "parseArgumentList rec p = do {
     (_, p) \<leftarrow> parseExpected (Punct OpenParenToken) None p;
     (args, p) \<leftarrow> parseDelimitedList ctxArgumentExpressions (rec nt_Expression) p;
     (_, p) \<leftarrow> parseExpected (Punct CloseParenToken) None p;
     Some (args, p)
   }"

definition parseArrayInitializer :: "grammar \<Rightarrow> Parser \<Rightarrow> Node parsed" where
  "parseArrayInitializer rec p = do {
     let position = getNodePos p;
     (_, p) \<leftarrow> parseExpected (Punct OpenBraceToken) None p;
     (elements, p) \<leftarrow> parseDelimitedList ctxArrayInitializerElements (rec nt_VariableInitializer) p;
     (_, p) \<leftarrow> parseExpected (Punct CloseBraceToken) None p;
     finishNode (NewArrayInitializer elements) position p
   }"

end
