(* ===== verification/ParserExpr.thy ===== *)
theory ParserExpr
  imports ParserTypes
begin

text \<open>
  Expressions, element values and patterns: \<open>togo/internal/compiler/parser_expr.go\<close> and the parts of
  \<open>parser_stmts.go\<close> and \<open>parser_members.go\<close> that expressions need.
\<close>

section \<open>Patterns\<close>

definition parsePattern :: "grammar \<Rightarrow> Parser \<Rightarrow> Node parsed" where
  "parsePattern rec p = do {
     let position = getNodePos p;
     (_, p) \<leftarrow> parseModifiers rec p;
     (typ, p) \<leftarrow> parseTypeOrVar rec p;
     if currentToken p = Punct OpenParenToken then do {
       (_, p) \<leftarrow> parseExpected (Punct OpenParenToken) None p;
       (patterns, p) \<leftarrow> parseDelimitedList ctxParameters (rec nt_Pattern) p;
       (_, p) \<leftarrow> parseExpected (Punct CloseParenToken) None p;
       finishNode (NewRecordPattern typ patterns) position p
     }
     else do {
       (name, p) \<leftarrow> parseIdentifier p;
       finishNode (NewTypePattern typ name) position p
     }
   }"

text \<open>\<open>nt_Pattern\<close> is the element of a record pattern.\<close>

definition parseComponentPattern :: "grammar \<Rightarrow> Parser \<Rightarrow> Node parsed" where
  "parseComponentPattern rec p = do {
     (matchAll, p) \<leftarrow>
       (if isContextualKeyword ''_'' p then parserLookAhead (\<lambda>p. do {
          (_, p) \<leftarrow> nextToken p;
          Some (currentToken p = Punct CommaToken \<or> currentToken p = Punct CloseParenToken, p)
        }) p
        else Some (False, p));
     if matchAll then do {
       let position = getNodePos p;
       (_, p) \<leftarrow> nextToken p;
       finishNode NewMatchAllPattern position p
     }
     else parsePattern rec p
   }"

section \<open>Operators\<close>

definition reScanGreaterIfNeeded :: "Parser \<Rightarrow> unit parsed" where
  "reScanGreaterIfNeeded p =
     (if currentToken p = Punct GreaterThanToken then do {
        (kind, p) \<leftarrow> scan_with (\<lambda>s. Some (ReScanGreaterToken s)) p;
        Some ((), p\<lparr>currentToken := kind\<rparr>)
      }
      else Some ((), p))"

definition binaryOperatorPrecedence :: "SyntaxKind \<Rightarrow> nat" where
  "binaryOperatorPrecedence kind =
     (if kind = Punct BarBarToken then 1
      else if kind = Punct AmpersandAmpersandToken then 2
      else if kind = Punct BarToken then 3
      else if kind = Punct CaretToken then 4
      else if kind = Punct AmpersandToken then 5
      else if kind \<in> {Punct EqualsEqualsToken, Punct ExclamationEqualsToken} then 6
      else if kind \<in> {Punct LessThanToken, Punct GreaterThanToken, Punct LessThanEqualsToken, Punct GreaterThanEqualsToken} then 7
      else if kind \<in> {Punct LessThanLessThanToken, Punct GreaterThanGreaterThanToken,
             Punct GreaterThanGreaterThanGreaterThanToken} then 8
      else if kind \<in> {Punct PlusToken, Punct MinusToken} then 9
      else if kind \<in> {Punct AsteriskToken, Punct SlashToken, Punct PercentToken} then 10
      else 0)"

definition relationalPrecedence :: nat where
  "relationalPrecedence = 7"

section \<open>Lambdas\<close>

text \<open>The scan for the parenthesis that closes the one before it.\<close>

definition skip_parens :: "nat \<Rightarrow> Parser \<Rightarrow> nat parsed" where
  "skip_parens =
     parse_loop (\<lambda>depth p.
       if 0 < depth \<and> currentToken p \<noteq> EndOfFileToken then do {
         let depth = (if currentToken p = Punct OpenParenToken then depth + 1
                      else if currentToken p = Punct CloseParenToken then depth - 1 else depth);
         (_, p) \<leftarrow> nextToken p;
         Some ((True, depth), p)
       }
       else Some ((False, depth), p))"

definition isLambdaStart :: "Parser \<Rightarrow> bool parsed" where
  "isLambdaStart p =
     (if currentToken p = Identifier then parserLookAhead (next_is (Punct ArrowToken)) p
      else if currentToken p = Punct OpenParenToken then
        parserLookAhead (\<lambda>p. do {
          (_, p) \<leftarrow> nextToken p;
          (_, p) \<leftarrow> skip_parens 1 p;
          Some (currentToken p = Punct ArrowToken, p)
        }) p
      else Some (False, p))"

definition parseLambdaParameter :: "grammar \<Rightarrow> Parser \<Rightarrow> Node parsed" where
  "parseLambdaParameter rec p = do {
     (inferred, p) \<leftarrow>
       (if currentToken p = Identifier then parserLookAhead (\<lambda>p. do {
          (_, p) \<leftarrow> nextToken p;
          Some (currentToken p = Punct CommaToken \<or> currentToken p = Punct CloseParenToken, p)
        }) p
        else Some (False, p));
     if inferred then parseIdentifier p else parseParameter rec p
   }"

definition parseLambdaExpression :: "grammar \<Rightarrow> Parser \<Rightarrow> Node parsed" where
  "parseLambdaExpression rec p = do {
     let position = getNodePos p;
     (parameters, p) \<leftarrow>
       (if currentToken p = Punct OpenParenToken then do {
          (_, p) \<leftarrow> parseExpected (Punct OpenParenToken) None p;
          (parameters, p) \<leftarrow> parseDelimitedList ctxParameters (parseLambdaParameter rec) p;
          (_, p) \<leftarrow> parseExpected (Punct CloseParenToken) None p;
          Some (parameters, p)
        }
        else do {
          let paramsPos = getNodePos p;
          (name, p) \<leftarrow> parseIdentifier p;
          Some (createNodeArray [name] paramsPos p, p)
        });
     (_, p) \<leftarrow> parseExpected (Punct ArrowToken) None p;
     (body, p) \<leftarrow> (if currentToken p = Punct OpenBraceToken then parseBlock rec p else rec nt_Expression p);
     finishNode (NewLambdaExpression parameters body) position p
   }"

section \<open>Primary expressions\<close>

definition parseArrayCreationRest :: "grammar \<Rightarrow> nat \<Rightarrow> Node \<Rightarrow> Parser \<Rightarrow> Node parsed" where
  "parseArrayCreationRest rec position elementType p = do {
     let dimsPos = getNodePos p;
     ((dims, additionalRank), p) \<leftarrow> parse_loop (\<lambda>(dims, additionalRank) p.
       if currentToken p = Punct OpenBracketToken then do {
         (_, p) \<leftarrow> nextToken p;
         if currentToken p = Punct CloseBracketToken then do {
           (_, p) \<leftarrow> nextToken p;
           Some ((True, dims, additionalRank + 1), p)
         }
         else do {
           (dim, p) \<leftarrow> rec nt_Expression p;
           (_, p) \<leftarrow> parseExpected (Punct CloseBracketToken) None p;
           Some ((True, dims @ [dim], additionalRank), p)
         }
       }
       else Some ((False, dims, additionalRank), p)) ([], 0) p;
     (initializer, p) \<leftarrow> optionally (currentToken p = Punct OpenBraceToken) (parseArrayInitializer rec) p;
     finishNode (NewArrayCreationExpression elementType (createNodeArray dims dimsPos p) additionalRank initializer) position p
   }"

definition class_body_if :: "grammar \<Rightarrow> Parser \<Rightarrow> NodeArray option parsed" where
  "class_body_if rec p = optionally (currentToken p = Punct OpenBraceToken) (parseClassBody rec) p"

definition parseNewExpression :: "grammar \<Rightarrow> Parser \<Rightarrow> Node parsed" where
  "parseNewExpression rec p = do {
     let position = getNodePos p;
     (_, p) \<leftarrow> parseExpected (Reserved NewKeyword) None p;
     (typ, p) \<leftarrow> parseNonArrayType rec p;
     if currentToken p = Punct OpenBracketToken then parseArrayCreationRest rec position typ p
     else do {
       (args, p) \<leftarrow> parseArgumentList rec p;
       (classBody, p) \<leftarrow> class_body_if rec p;
       finishNode (NewObjectCreationExpression None typ args classBody) position p
     }
   }"

definition parseSwitchExpression :: "grammar \<Rightarrow> Parser \<Rightarrow> Node parsed" where
  "parseSwitchExpression rec p = do {
     let position = getNodePos p;
     (_, p) \<leftarrow> parseExpected (Reserved SwitchKeyword) None p;
     (_, p) \<leftarrow> parseExpected (Punct OpenParenToken) None p;
     (expression, p) \<leftarrow> rec nt_Expression p;
     (_, p) \<leftarrow> parseExpected (Punct CloseParenToken) None p;
     (clauses, p) \<leftarrow> parseSwitchBlock rec p;
     finishNode (NewSwitchExpression expression clauses) position p
   }"

text \<open>The tokens after the type of a class literal, unless a method reference follows.\<close>

definition class_literal_rest :: "Parser \<Rightarrow> unit parsed" where
  "class_literal_rest p =
     (if currentToken p \<noteq> Punct ColonColonToken then do {
        (_, p) \<leftarrow> parseExpected (Punct DotToken) None p;
        (_, p) \<leftarrow> parseExpected (Reserved ClassKeyword) None p;
        Some ((), p)
      }
      else Some ((), p))"

definition parseAtom :: "grammar \<Rightarrow> Parser \<Rightarrow> Node parsed" where
  "parseAtom rec p = do {
     let position = getNodePos p;
     if currentToken p \<in> {NumericLiteral, StringLiteral, CharacterLiteral, TextBlockLiteral} then do {
       let kind = currentToken p;
       let val = tokenValue (scanner p);
       (_, p) \<leftarrow> nextToken p;
       finishNode (NewLiteralExpression kind val) position p
     }
     else if currentToken p \<in> {Reserved TrueKeyword, Reserved FalseKeyword, Reserved NullKeyword} then parseTokenNode p
     else if currentToken p = Reserved ThisKeyword then do {
       (_, p) \<leftarrow> nextToken p;
       finishNode (NewThisExpression None) position p
     }
     else if currentToken p = Reserved SuperKeyword then do {
       (_, p) \<leftarrow> nextToken p;
       finishNode (NewSuperExpression None) position p
     }
     else if currentToken p = Punct OpenParenToken then do {
       (_, p) \<leftarrow> nextToken p;
       (expression, p) \<leftarrow> rec nt_Expression p;
       (_, p) \<leftarrow> parseExpected (Punct CloseParenToken) None p;
       finishNode (NewParenthesizedExpression expression) position p
     }
     else if currentToken p = Reserved NewKeyword then parseNewExpression rec p
     else if currentToken p = Reserved SwitchKeyword then parseSwitchExpression rec p
     else if currentToken p = Identifier then parseIdentifier p
     else if isPrimitiveTypeKeyword (currentToken p) \<or> currentToken p = Reserved VoidKeyword then do {
       (typ, p) \<leftarrow> parseType rec p;
       (_, p) \<leftarrow> class_literal_rest p;
       finishNode (NewClassLiteralExpression typ) position p
     }
     else createMissingNode Identifier False (Some ExpressionExpected) [] p
   }"

section \<open>Suffixes\<close>

definition makePropertyAccess :: "Node \<Rightarrow> Node \<Rightarrow> Parser \<Rightarrow> Node parsed" where
  "makePropertyAccess expr name p = finishNode (NewPropertyAccessExpression expr name) (Pos expr) p"

text \<open>
  The name of a dotted chain, finished anew: \<open>Some None\<close> is Go's nil. The recursion is on the node, whose
  property accesses are the ones that \<open>NewPropertyAccessExpression\<close> makes.
\<close>

fun expressionToEntityName :: "Node \<Rightarrow> Parser \<Rightarrow> Node option parsed" where
  "expressionToEntityName (Node (TokenKind Identifier) a b e fs) p =
     Some (Some (Node (TokenKind Identifier) a b e fs), p)"
| "expressionToEntityName (Node (CodeNode PropertyAccessExpression) a b e [Child (Some expr), Child (Some name)]) p =
     (case expressionToEntityName expr p of
        None \<Rightarrow> None
      | Some (None, p) \<Rightarrow> Some (None, p)
      | Some (Some left, p) \<Rightarrow> do { (n, p) \<leftarrow> makeQualifiedName left name p; Some (Some n, p) })"
| "expressionToEntityName _ p = Some (None, p)"

definition entityNameOrMissing :: "Node \<Rightarrow> Parser \<Rightarrow> Node parsed" where
  "entityNameOrMissing expr p = do {
     (entity, p) \<leftarrow> expressionToEntityName expr p;
     case entity of
       Some n \<Rightarrow> Some (n, p)
     | None \<Rightarrow> createMissingNode Identifier False None [] p
   }"

definition dot_suffix :: "grammar \<Rightarrow> Node \<Rightarrow> Parser \<Rightarrow> Node parsed" where
  "dot_suffix rec expr p = do {
     let exprPos = Pos expr;
     (_, p) \<leftarrow> nextToken p;
     if currentToken p = Reserved ClassKeyword then do {
       (_, p) \<leftarrow> nextToken p;
       (name, p) \<leftarrow> entityNameOrMissing expr p;
       (typeNode, p) \<leftarrow> finishNode (NewTypeReference name None None False) exprPos p;
       finishNode (NewClassLiteralExpression typeNode) exprPos p
     }
     else if currentToken p = Reserved NewKeyword then do {
       (_, p) \<leftarrow> nextToken p;
       (typ, p) \<leftarrow> parseNonArrayType rec p;
       (args, p) \<leftarrow> parseArgumentList rec p;
       (classBody, p) \<leftarrow> class_body_if rec p;
       finishNode (NewObjectCreationExpression (Some expr) typ args classBody) exprPos p
     }
     else if currentToken p = Reserved ThisKeyword then do {
       (_, p) \<leftarrow> nextToken p;
       finishNode (NewThisExpression (Some expr)) exprPos p
     }
     else if currentToken p = Reserved SuperKeyword then do {
       (_, p) \<leftarrow> nextToken p;
       finishNode (NewSuperExpression (Some expr)) exprPos p
     }
     else do {
       (typeArguments, p) \<leftarrow> type_arguments_if rec p;
       (name, p) \<leftarrow> parseIdentifier p;
       if currentToken p = Punct OpenParenToken then do {
         (target, p) \<leftarrow> makePropertyAccess expr name p;
         (args, p) \<leftarrow> parseArgumentList rec p;
         finishNode (NewCallExpression target typeArguments args) exprPos p
       }
       else makePropertyAccess expr name p
     }
   }"

fun array_types :: "nat \<Rightarrow> nat \<Rightarrow> Node \<Rightarrow> Parser \<Rightarrow> Node parsed" where
  "array_types 0 position typeNode p = Some (typeNode, p)"
| "array_types (Suc rank) position typeNode p = do {
     (typeNode, p) \<leftarrow> finishNode (NewArrayType typeNode False) position p;
     array_types rank position typeNode p
   }"

definition count_brackets :: "Parser \<Rightarrow> nat parsed" where
  "count_brackets =
     parse_loop (\<lambda>rank p. do {
       (bracket, p) \<leftarrow> atArrayBracket p;
       if bracket then do {
         (_, p) \<leftarrow> nextToken p;
         (_, p) \<leftarrow> parseExpected (Punct CloseBracketToken) None p;
         Some ((True, rank + 1), p)
       }
       else Some ((False, rank), p)
     }) 0"

definition bracket_suffix :: "grammar \<Rightarrow> Node \<Rightarrow> Parser \<Rightarrow> Node parsed" where
  "bracket_suffix rec expr p = do {
     let exprPos = Pos expr;
     (emptyBrackets, p) \<leftarrow> parserLookAhead (next_is (Punct CloseBracketToken)) p;
     if emptyBrackets then do {
       (rank, p) \<leftarrow> count_brackets p;
       (_, p) \<leftarrow> class_literal_rest p;
       (name, p) \<leftarrow> entityNameOrMissing expr p;
       (typeNode, p) \<leftarrow> finishNode (NewTypeReference name None None False) exprPos p;
       (typeNode, p) \<leftarrow> array_types rank exprPos typeNode p;
       finishNode (NewClassLiteralExpression typeNode) exprPos p
     }
     else do {
       (_, p) \<leftarrow> nextToken p;
       (argumentExpression, p) \<leftarrow> rec nt_Expression p;
       (_, p) \<leftarrow> parseExpected (Punct CloseBracketToken) None p;
       finishNode (NewElementAccessExpression expr argumentExpression) exprPos p
     }
   }"

definition method_reference_suffix :: "grammar \<Rightarrow> Node \<Rightarrow> Parser \<Rightarrow> Node parsed" where
  "method_reference_suffix rec expr p = do {
     let exprPos = Pos expr;
     (_, p) \<leftarrow> nextToken p;
     (typeArguments, p) \<leftarrow> type_arguments_if rec p;
     (isConstructorRef, p) \<leftarrow> parseOptional (Reserved NewKeyword) p;
     (name, p) \<leftarrow> optionally (\<not> isConstructorRef) parseIdentifier p;
     finishNode (NewMethodReferenceExpression expr typeArguments name isConstructorRef) exprPos p
   }"

definition suffix_step :: "grammar \<Rightarrow> Node \<Rightarrow> Parser \<Rightarrow> (bool \<times> Node) parsed" where
  "suffix_step rec expr p =
     (if currentToken p = Punct DotToken then do {
        (expr, p) \<leftarrow> dot_suffix rec expr p;
        Some ((True, expr), p)
      }
      else if currentToken p = Punct OpenBracketToken then do {
        (expr, p) \<leftarrow> bracket_suffix rec expr p;
        Some ((True, expr), p)
      }
      else if currentToken p = Punct OpenParenToken then do {
        (args, p) \<leftarrow> parseArgumentList rec p;
        (expr, p) \<leftarrow> finishNode (NewCallExpression expr None args) (Pos expr) p;
        Some ((True, expr), p)
      }
      else if currentToken p = Punct ColonColonToken then do {
        (expr, p) \<leftarrow> method_reference_suffix rec expr p;
        Some ((True, expr), p)
      }
      else Some ((False, expr), p))"

definition parseExpressionSuffixes :: "grammar \<Rightarrow> Node \<Rightarrow> Parser \<Rightarrow> Node parsed" where
  "parseExpressionSuffixes rec start p = parse_loop (suffix_step rec) start p"

definition parsePrimaryExpression :: "grammar \<Rightarrow> Parser \<Rightarrow> Node parsed" where
  "parsePrimaryExpression rec p = do {
     (atom, p) \<leftarrow> parseAtom rec p;
     parseExpressionSuffixes rec atom p
   }"

section \<open>Unary, binary, conditional, assignment\<close>

definition parsePostfixExpression :: "grammar \<Rightarrow> Parser \<Rightarrow> Node parsed" where
  "parsePostfixExpression rec p = do {
     (expr, p) \<leftarrow> parsePrimaryExpression rec p;
     if currentToken p = Punct PlusPlusToken \<or> currentToken p = Punct MinusMinusToken then do {
       let operator = currentToken p;
       (_, p) \<leftarrow> nextToken p;
       finishNode (NewPostfixUnaryExpression expr operator) (Pos expr) p
     }
     else Some (expr, p)
   }"

definition isStartOfReferenceCastOperand :: "Parser \<Rightarrow> bool" where
  "isStartOfReferenceCastOperand p \<longleftrightarrow>
     currentToken p \<in> {Identifier, NumericLiteral, StringLiteral, CharacterLiteral, TextBlockLiteral,
       Reserved TrueKeyword, Reserved FalseKeyword, Reserved NullKeyword, Punct OpenParenToken,
       Reserved ThisKeyword, Reserved SuperKeyword, Reserved NewKeyword, Reserved SwitchKeyword,
       Punct ExclamationToken, Punct TildeToken}
     \<or> isPrimitiveTypeKeyword (currentToken p) \<or> currentToken p = Reserved VoidKeyword"

definition skip_bounds :: "grammar \<Rightarrow> Parser \<Rightarrow> unit parsed" where
  "skip_bounds rec =
     parse_loop (\<lambda>u p.
       if currentToken p = Punct AmpersandToken then do {
         (_, p) \<leftarrow> nextToken p;
         (_, p) \<leftarrow> parseType rec p;
         Some ((True, u), p)
       }
       else Some ((False, u), p)) ()"

definition isCastExpression :: "grammar \<Rightarrow> Parser \<Rightarrow> bool parsed" where
  "isCastExpression rec = parserLookAhead (\<lambda>p. do {
     (_, p) \<leftarrow> nextToken p;
     if currentToken p = Punct CloseParenToken then Some (False, p)
     else do {
       let primitive = (isPrimitiveTypeKeyword (currentToken p) \<or> currentToken p = Reserved VoidKeyword);
       (_, p) \<leftarrow> parseType rec p;
       (_, p) \<leftarrow> skip_bounds rec p;
       if currentToken p \<noteq> Punct CloseParenToken then Some (False, p)
       else do {
         (_, p) \<leftarrow> nextToken p;
         Some (if primitive then isStartOfExpression p else isStartOfReferenceCastOperand p, p)
       }
     }
   })"

definition parseCastExpression :: "grammar \<Rightarrow> Parser \<Rightarrow> Node parsed" where
  "parseCastExpression rec p = do {
     let position = getNodePos p;
     (_, p) \<leftarrow> parseExpected (Punct OpenParenToken) None p;
     (typ, p) \<leftarrow> parseType rec p;
     (bounds, p) \<leftarrow> optionally (currentToken p = Punct AmpersandToken) (\<lambda>p. do {
       let boundsPos = getNodePos p;
       (list, p) \<leftarrow> collect (parseOptional (Punct AmpersandToken)) (parseType rec) [] p;
       Some (createNodeArray list boundsPos p, p)
     }) p;
     (_, p) \<leftarrow> parseExpected (Punct CloseParenToken) None p;
     (lambda, p) \<leftarrow> isLambdaStart p;
     (expression, p) \<leftarrow> (if lambda then parseLambdaExpression rec p else rec nt_Unary p);
     finishNode (NewCastExpression typ bounds expression) position p
   }"

definition parseUnaryExpression :: "grammar \<Rightarrow> Parser \<Rightarrow> Node parsed" where
  "parseUnaryExpression rec p = do {
     let t = currentToken p;
     if t \<in> {Punct PlusToken, Punct MinusToken, Punct TildeToken, Punct ExclamationToken, Punct PlusPlusToken,
          Punct MinusMinusToken}
     then do {
       let position = getNodePos p;
       (_, p) \<leftarrow> nextToken p;
       (operand, p) \<leftarrow> rec nt_Unary p;
       finishNode (NewPrefixUnaryExpression t operand) position p
     }
     else do {
       (cast, p) \<leftarrow> (if t = Punct OpenParenToken then isCastExpression rec p else Some (False, p));
       if cast then parseCastExpression rec p else parsePostfixExpression rec p
     }
   }"

definition instanceof_step :: "grammar \<Rightarrow> nat \<Rightarrow> Node \<Rightarrow> Parser \<Rightarrow> Node parsed" where
  "instanceof_step rec position left p = do {
     (_, p) \<leftarrow> nextToken p;
     (typ, p) \<leftarrow> parseType rec p;
     if currentToken p = Punct OpenParenToken then do {
       let patPos = Pos typ;
       (_, p) \<leftarrow> parseExpected (Punct OpenParenToken) None p;
       (patterns, p) \<leftarrow> parseDelimitedList ctxParameters (rec nt_Pattern) p;
       (_, p) \<leftarrow> parseExpected (Punct CloseParenToken) None p;
       (pattern, p) \<leftarrow> finishNode (NewRecordPattern typ patterns) patPos p;
       finishNode (NewInstanceofExpression left None None (Some pattern)) position p
     }
     else do {
       (name, p) \<leftarrow> optionally (currentToken p = Identifier) parseIdentifier p;
       finishNode (NewInstanceofExpression left (Some typ) name None) position p
     }
   }"

definition binary_step :: "grammar \<Rightarrow> nat \<Rightarrow> nat \<Rightarrow> Node \<Rightarrow> Parser \<Rightarrow> (bool \<times> Node) parsed" where
  "binary_step rec minPrecedence position left p =
     (if currentToken p = Reserved InstanceofKeyword then
        (if relationalPrecedence < minPrecedence then Some ((False, left), p)
         else do {
           (left, p) \<leftarrow> instanceof_step rec position left p;
           Some ((True, left), p)
         })
      else do {
        (_, p) \<leftarrow> reScanGreaterIfNeeded p;
        let precedence = binaryOperatorPrecedence (currentToken p);
        if precedence = 0 \<or> precedence < minPrecedence then Some ((False, left), p)
        else do {
          let op = currentToken p;
          (_, p) \<leftarrow> nextToken p;
          (right, p) \<leftarrow> rec (nt_Binary (precedence + 1)) p;
          (left, p) \<leftarrow> finishNode (NewBinaryExpression left op right) position p;
          Some ((True, left), p)
        }
      })"

definition parseBinaryExpressionRest :: "grammar \<Rightarrow> Node \<Rightarrow> nat \<Rightarrow> nat \<Rightarrow> Parser \<Rightarrow> Node parsed" where
  "parseBinaryExpressionRest rec left minPrecedence position p =
     parse_loop (binary_step rec minPrecedence position) left p"

definition parseBinaryExpression :: "grammar \<Rightarrow> nat \<Rightarrow> Parser \<Rightarrow> Node parsed" where
  "parseBinaryExpression rec minPrecedence p = do {
     let position = getNodePos p;
     (left, p) \<leftarrow> parseUnaryExpression rec p;
     parseBinaryExpressionRest rec left minPrecedence position p
   }"

definition parseConditionalExpression :: "grammar \<Rightarrow> Parser \<Rightarrow> Node parsed" where
  "parseConditionalExpression rec p = do {
     let position = getNodePos p;
     (condition, p) \<leftarrow> parseBinaryExpression rec 1 p;
     (question, p) \<leftarrow> parseOptional (Punct QuestionToken) p;
     if question then do {
       (whenTrue, p) \<leftarrow> rec nt_Expression p;
       (_, p) \<leftarrow> parseExpected (Punct ColonToken) None p;
       (whenFalse, p) \<leftarrow> rec nt_Expression p;
       finishNode (NewConditionalExpression condition whenTrue whenFalse) position p
     }
     else Some (condition, p)
   }"

definition parseAssignmentExpression :: "grammar \<Rightarrow> Parser \<Rightarrow> Node parsed" where
  "parseAssignmentExpression rec p = do {
     (lambda, p) \<leftarrow> isLambdaStart p;
     if lambda then parseLambdaExpression rec p
     else do {
       let position = getNodePos p;
       (left, p) \<leftarrow> parseConditionalExpression rec p;
       (_, p) \<leftarrow> reScanGreaterIfNeeded p;
       if isAssignmentOperator (currentToken p) then do {
         let op = currentToken p;
         (_, p) \<leftarrow> nextToken p;
         (right, p) \<leftarrow> rec nt_Expression p;
         finishNode (NewAssignmentExpression left op right) position p
       }
       else Some (left, p)
     }
   }"

definition parseExpression :: "grammar \<Rightarrow> Parser \<Rightarrow> Node parsed" where
  "parseExpression rec p = parseAssignmentExpression rec p"

section \<open>Element values and initializers\<close>

definition parseElementValueArrayInitializer :: "grammar \<Rightarrow> Parser \<Rightarrow> Node parsed" where
  "parseElementValueArrayInitializer rec p = do {
     let position = getNodePos p;
     (_, p) \<leftarrow> parseExpected (Punct OpenBraceToken) None p;
     (elements, p) \<leftarrow> parseDelimitedList ctxArrayInitializerElements (rec nt_ElementValue) p;
     (_, p) \<leftarrow> parseExpected (Punct CloseBraceToken) None p;
     finishNode (NewArrayInitializer elements) position p
   }"

definition parseElementValue :: "grammar \<Rightarrow> Parser \<Rightarrow> Node parsed" where
  "parseElementValue rec p =
     (if currentToken p = Punct OpenBraceToken then parseElementValueArrayInitializer rec p
      else do {
        (annotation, p) \<leftarrow> at_annotation p;
        if annotation then parseAnnotation rec p else parseConditionalExpression rec p
      })"

definition parseVariableInitializer :: "grammar \<Rightarrow> Parser \<Rightarrow> Node parsed" where
  "parseVariableInitializer rec p =
     (if currentToken p = Punct OpenBraceToken then parseArrayInitializer rec p else parseExpression rec p)"

end
