(* ===== verification/ParserDecls.thy ===== *)
theory ParserDecls
  imports ParserExpr
begin

text \<open>
  Declarations, members and module declarations: \<open>togo/internal/compiler/parser_decls.go\<close>,
  \<open>parser_members.go\<close> and \<open>parser_module.go\<close>.
\<close>

section \<open>Variables and fields\<close>

definition parseVariableDeclarator :: "grammar \<Rightarrow> Node \<Rightarrow> Parser \<Rightarrow> Node parsed" where
  "parseVariableDeclarator rec name p = do {
     (arrayRank, p) \<leftarrow> parseArrayRankAfterName p;
     (equals, p) \<leftarrow> parseOptional (Punct EqualsToken) p;
     (initializer, p) \<leftarrow> optionally equals (parseVariableInitializer rec) p;
     finishNode (NewVariableDeclarator name arrayRank initializer) (Pos name) p
   }"

definition named_declarator :: "grammar \<Rightarrow> Parser \<Rightarrow> Node parsed" where
  "named_declarator rec p = do {
     (name, p) \<leftarrow> parseIdentifier p;
     parseVariableDeclarator rec name p
   }"

definition parseFieldDeclaration :: "grammar \<Rightarrow> nat \<Rightarrow> NodeArray option \<Rightarrow> Node \<Rightarrow> Node \<Rightarrow> Parser \<Rightarrow> Node parsed" where
  "parseFieldDeclaration rec position modifiers typ firstName p = do {
     let declaratorsPos = Pos firstName;
     (first, p) \<leftarrow> parseVariableDeclarator rec firstName p;
     (declarators, p) \<leftarrow> collect (parseOptional (Punct CommaToken)) (named_declarator rec) [first] p;
     (_, p) \<leftarrow> parseExpected (Punct SemicolonToken) None p;
     finishNode (NewFieldDeclaration modifiers typ (createNodeArray declarators declaratorsPos p)) position p
   }"

definition parseLocalVariableDeclarationRest :: "grammar \<Rightarrow> nat \<Rightarrow> NodeArray option \<Rightarrow> Parser \<Rightarrow> Node parsed" where
  "parseLocalVariableDeclarationRest rec position modifiers p = do {
     (typ, p) \<leftarrow> parseTypeOrVar rec p;
     let declaratorsPos = getNodePos p;
     (first, p) \<leftarrow> named_declarator rec p;
     (declarators, p) \<leftarrow> collect (parseOptional (Punct CommaToken)) (named_declarator rec) [first] p;
     finishNode (NewLocalVariableDeclarationStatement modifiers typ (createNodeArray declarators declaratorsPos p)) position p
   }"

section \<open>Methods and constructors\<close>

text \<open>
  The loop over the brackets after the parameters: its bound parses the brackets, so it is 0 when it is
  evaluated again.
\<close>

definition method_array_type :: "nat \<times> Node \<Rightarrow> Parser \<Rightarrow> (bool \<times> nat \<times> Node) parsed" where
  "method_array_type = (\<lambda>(i, actualReturnType) p. do {
     (rank, p) \<leftarrow> parseArrayRankAfterName p;
     if i < rank then do {
       (typ, p) \<leftarrow> finishNode (NewArrayType actualReturnType False) (Pos actualReturnType) p;
       Some ((True, i + 1, typ), p)
     }
     else Some ((False, i, actualReturnType), p)
   })"

definition parseMethodDeclaration ::
    "grammar \<Rightarrow> nat \<Rightarrow> NodeArray option \<Rightarrow> NodeArray option \<Rightarrow> Node \<Rightarrow> Node \<Rightarrow> Parser \<Rightarrow> Node parsed" where
  "parseMethodDeclaration rec position modifiers typeParameters returnType name p = do {
     (parameters, p) \<leftarrow> parseFormalParameters rec p;
     ((_, actualReturnType), p) \<leftarrow> parse_loop method_array_type (0, returnType) p;
     (throwsClause, p) \<leftarrow> parseThrows rec p;
     (hasDefault, p) \<leftarrow> parseOptional (Reserved DefaultKeyword) p;
     (defaultValue, p) \<leftarrow> optionally hasDefault (parseElementValue rec) p;
     if currentToken p = Punct OpenBraceToken then do {
       (body, p) \<leftarrow> parseBlock rec p;
       finishNode (NewMethodDeclaration modifiers typeParameters actualReturnType name parameters throwsClause
         defaultValue (Some body)) position p
     }
     else do {
       (_, p) \<leftarrow> parseExpected (Punct SemicolonToken) None p;
       finishNode (NewMethodDeclaration modifiers typeParameters actualReturnType name parameters throwsClause
         defaultValue None) position p
     }
   }"

definition parseConstructorDeclaration :: "grammar \<Rightarrow> nat \<Rightarrow> NodeArray option \<Rightarrow> NodeArray option \<Rightarrow> Parser \<Rightarrow> Node parsed" where
  "parseConstructorDeclaration rec position modifiers typeParameters p = do {
     (name, p) \<leftarrow> parseIdentifier p;
     (parameters, p) \<leftarrow> parseFormalParameters rec p;
     (throwsClause, p) \<leftarrow> parseThrows rec p;
     (body, p) \<leftarrow> parseBlock rec p;
     finishNode (NewConstructorDeclaration modifiers typeParameters name parameters throwsClause body) position p
   }"

definition hasStaticModifier :: "NodeArray option \<Rightarrow> bool" where
  "hasStaticModifier modifiers =
     (case modifiers of
        None \<Rightarrow> False
      | Some a \<Rightarrow> list_ex (\<lambda>m. node_kind m = TokenKind (Reserved StaticKeyword)) (Nodes a))"

definition parseInitializerBlock :: "grammar \<Rightarrow> nat \<Rightarrow> NodeArray option \<Rightarrow> Parser \<Rightarrow> Node parsed" where
  "parseInitializerBlock rec position modifiers p = do {
     (body, p) \<leftarrow> parseBlock rec p;
     finishNode (NewInitializerBlock (hasStaticModifier modifiers) body) position p
   }"

definition parseCompactConstructor :: "grammar \<Rightarrow> nat \<Rightarrow> NodeArray option \<Rightarrow> Parser \<Rightarrow> Node parsed" where
  "parseCompactConstructor rec position modifiers p = do {
     (name, p) \<leftarrow> parseIdentifier p;
     (body, p) \<leftarrow> parseBlock rec p;
     finishNode (NewCompactConstructorDeclaration modifiers name body) position p
   }"

definition isConstructorDeclaration :: "Parser \<Rightarrow> bool parsed" where
  "isConstructorDeclaration p =
     (if currentToken p = Identifier then parserLookAhead (next_is (Punct OpenParenToken)) p else Some (False, p))"

section \<open>Type declarations\<close>

definition isStartOfEnumConstant :: "Parser \<Rightarrow> bool" where
  "isStartOfEnumConstant p \<longleftrightarrow> currentToken p = Identifier \<or> currentToken p = Punct AtToken"

definition parseEnumConstant :: "grammar \<Rightarrow> Parser \<Rightarrow> Node parsed" where
  "parseEnumConstant rec p = do {
     let position = getNodePos p;
     (annotations, p) \<leftarrow> parseAnnotations rec p;
     (name, p) \<leftarrow> parseIdentifier p;
     (args, p) \<leftarrow> optionally (currentToken p = Punct OpenParenToken) (parseArgumentList rec) p;
     (classBody, p) \<leftarrow> class_body_if rec p;
     finishNode (NewEnumConstantDeclaration annotations name args classBody) position p
   }"

text \<open>The comma before another constant; after a trailing one the list ends.\<close>

definition another_constant :: "Parser \<Rightarrow> bool parsed" where
  "another_constant p = do {
     (comma, p) \<leftarrow> parseOptional (Punct CommaToken) p;
     Some (comma \<and> isStartOfEnumConstant p, p)
   }"

definition parseEnumBody :: "grammar \<Rightarrow> Parser \<Rightarrow> (NodeArray \<times> NodeArray) parsed" where
  "parseEnumBody rec p = do {
     let constantsPos = getNodePos p;
     (_, p) \<leftarrow> parseExpected (Punct OpenBraceToken) None p;
     (constants, p) \<leftarrow>
       (if isStartOfEnumConstant p then do {
          (first, p) \<leftarrow> parseEnumConstant rec p;
          collect another_constant (parseEnumConstant rec) [first] p
        }
        else Some ([], p));
     let enumConstants = createNodeArray constants constantsPos p;
     (semicolon, p) \<leftarrow> parseOptional (Punct SemicolonToken) p;
     (members, p) \<leftarrow>
       (if semicolon then parseList ctxClassMembers (rec nt_ClassMember) p
        else Some (createNodeArray [] (getNodePos p) p, p));
     (_, p) \<leftarrow> parseExpected (Punct CloseBraceToken) None p;
     Some ((enumConstants, members), p)
   }"

definition keyword_type_list :: "grammar \<Rightarrow> SyntaxKind \<Rightarrow> Parser \<Rightarrow> NodeArray option parsed" where
  "keyword_type_list rec kind p = do {
     (found, p) \<leftarrow> parseOptional kind p;
     optionally found (parseTypeList rec) p
   }"

definition permits_list :: "grammar \<Rightarrow> Parser \<Rightarrow> NodeArray option parsed" where
  "permits_list rec p = do {
     (found, p) \<leftarrow> parseContextualKeyword ''permits'' p;
     optionally found (parseTypeList rec) p
   }"

definition parseClassDeclaration :: "grammar \<Rightarrow> nat \<Rightarrow> NodeArray option \<Rightarrow> Parser \<Rightarrow> Node parsed" where
  "parseClassDeclaration rec position modifiers p = do {
     (_, p) \<leftarrow> parseExpected (Reserved ClassKeyword) None p;
     (name, p) \<leftarrow> parseIdentifier p;
     (typeParameters, p) \<leftarrow> parseTypeParameters rec p;
     (extends, p) \<leftarrow> parseOptional (Reserved ExtendsKeyword) p;
     (extendsType, p) \<leftarrow> optionally extends (parseType rec) p;
     (implementsTypes, p) \<leftarrow> keyword_type_list rec (Reserved ImplementsKeyword) p;
     (permitsTypes, p) \<leftarrow> permits_list rec p;
     (members, p) \<leftarrow> parseClassBody rec p;
     finishNode (NewClassDeclaration modifiers name typeParameters extendsType implementsTypes permitsTypes
       (Some members)) position p
   }"

definition parseInterfaceDeclaration :: "grammar \<Rightarrow> nat \<Rightarrow> NodeArray option \<Rightarrow> Parser \<Rightarrow> Node parsed" where
  "parseInterfaceDeclaration rec position modifiers p = do {
     (_, p) \<leftarrow> parseExpected (Reserved InterfaceKeyword) None p;
     (name, p) \<leftarrow> parseIdentifier p;
     (typeParameters, p) \<leftarrow> parseTypeParameters rec p;
     (extendsTypes, p) \<leftarrow> keyword_type_list rec (Reserved ExtendsKeyword) p;
     (permitsTypes, p) \<leftarrow> permits_list rec p;
     (members, p) \<leftarrow> parseClassBody rec p;
     finishNode (NewInterfaceDeclaration modifiers name typeParameters extendsTypes permitsTypes members) position p
   }"

definition parseEnumDeclaration :: "grammar \<Rightarrow> nat \<Rightarrow> NodeArray option \<Rightarrow> Parser \<Rightarrow> Node parsed" where
  "parseEnumDeclaration rec position modifiers p = do {
     (_, p) \<leftarrow> parseExpected (Reserved EnumKeyword) None p;
     (name, p) \<leftarrow> parseIdentifier p;
     (implementsTypes, p) \<leftarrow> keyword_type_list rec (Reserved ImplementsKeyword) p;
     ((enumConstants, members), p) \<leftarrow> parseEnumBody rec p;
     finishNode (NewEnumDeclaration modifiers name implementsTypes enumConstants members) position p
   }"

definition parseAnnotationTypeDeclaration :: "grammar \<Rightarrow> nat \<Rightarrow> NodeArray option \<Rightarrow> Parser \<Rightarrow> Node parsed" where
  "parseAnnotationTypeDeclaration rec position modifiers p = do {
     (_, p) \<leftarrow> parseExpected (Punct AtToken) None p;
     (_, p) \<leftarrow> parseExpected (Reserved InterfaceKeyword) None p;
     (name, p) \<leftarrow> parseIdentifier p;
     (members, p) \<leftarrow> parseClassBody rec p;
     finishNode (NewAnnotationTypeDeclaration modifiers name members) position p
   }"

definition parseRecordComponent :: "grammar \<Rightarrow> Parser \<Rightarrow> Node parsed" where
  "parseRecordComponent rec p = do {
     let position = getNodePos p;
     (annotations, p) \<leftarrow> parseAnnotations rec p;
     (typ, p) \<leftarrow> parseType rec p;
     (isVarArgs, p) \<leftarrow> parseOptional (Punct DotDotDotToken) p;
     (name, p) \<leftarrow> parseIdentifier p;
     finishNode (NewRecordComponent annotations typ isVarArgs name) position p
   }"

definition parseRecordDeclaration :: "grammar \<Rightarrow> nat \<Rightarrow> NodeArray option \<Rightarrow> Parser \<Rightarrow> Node parsed" where
  "parseRecordDeclaration rec position modifiers p = do {
     (_, p) \<leftarrow> parseContextualKeyword ''record'' p;
     (name, p) \<leftarrow> parseIdentifier p;
     (typeParameters, p) \<leftarrow> parseTypeParameters rec p;
     (_, p) \<leftarrow> parseExpected (Punct OpenParenToken) None p;
     (recordComponents, p) \<leftarrow> parseDelimitedList ctxParameters (parseRecordComponent rec) p;
     (_, p) \<leftarrow> parseExpected (Punct CloseParenToken) None p;
     (implementsTypes, p) \<leftarrow> keyword_type_list rec (Reserved ImplementsKeyword) p;
     (members, p) \<leftarrow> parseClassBody rec p;
     finishNode (NewRecordDeclaration modifiers name typeParameters recordComponents implementsTypes members) position p
   }"

text \<open>The declarations that a keyword introduces, the same dispatch in three places.\<close>

definition declaration_by_keyword ::
    "grammar \<Rightarrow> nat \<Rightarrow> NodeArray option \<Rightarrow> (Parser \<Rightarrow> Node parsed) \<Rightarrow> Parser \<Rightarrow> Node parsed" where
  "declaration_by_keyword rec position modifiers otherwise p = do {
     (isRecord, p) \<leftarrow> isRecordDeclarationStart p;
     if isRecord then parseRecordDeclaration rec position modifiers p
     else if currentToken p = Reserved ClassKeyword then parseClassDeclaration rec position modifiers p
     else if currentToken p = Reserved InterfaceKeyword then parseInterfaceDeclaration rec position modifiers p
     else if currentToken p = Reserved EnumKeyword then parseEnumDeclaration rec position modifiers p
     else if currentToken p = Punct AtToken then parseAnnotationTypeDeclaration rec position modifiers p
     else otherwise p
   }"

definition missing_declaration :: "nat \<Rightarrow> NodeArray option \<Rightarrow> Parser \<Rightarrow> Node parsed" where
  "missing_declaration position modifiers p = do {
     let p = parseErrorAtCurrentToken DeclarationExpected [] p;
     (_, p) \<leftarrow> (if currentToken p \<noteq> EndOfFileToken then nextToken p else Some (EndOfFileToken, p));
     finishNode (NewClassDeclaration modifiers (NewIdentifier []) None None None None None) position p
   }"

definition parseTypeDeclaration :: "grammar \<Rightarrow> Parser \<Rightarrow> Node parsed" where
  "parseTypeDeclaration rec p = do {
     let position = getNodePos p;
     (modifiers, p) \<leftarrow> parseModifiers rec p;
     declaration_by_keyword rec position modifiers (missing_declaration position modifiers) p
   }"

section \<open>Members\<close>

definition parseEmptyStatement :: "Parser \<Rightarrow> Node parsed" where
  "parseEmptyStatement p = do {
     let position = getNodePos p;
     (_, p) \<leftarrow> parseExpected (Punct SemicolonToken) None p;
     finishNode NewEmptyStatement position p
   }"

definition parse_method_or_field :: "grammar \<Rightarrow> nat \<Rightarrow> NodeArray option \<Rightarrow> Parser \<Rightarrow> Node parsed" where
  "parse_method_or_field rec position modifiers p = do {
     (typeParameters, p) \<leftarrow> parseTypeParameters rec p;
     (compact, p) \<leftarrow>
       (if currentToken p = Identifier then parserLookAhead (next_is (Punct OpenBraceToken)) p else Some (False, p));
     if compact then parseCompactConstructor rec position modifiers p
     else do {
       (constructor, p) \<leftarrow> isConstructorDeclaration p;
       if constructor then parseConstructorDeclaration rec position modifiers typeParameters p
       else do {
         (typ, p) \<leftarrow> parseType rec p;
         (name, p) \<leftarrow> parseIdentifier p;
         if currentToken p = Punct OpenParenToken
         then parseMethodDeclaration rec position modifiers typeParameters typ name p
         else parseFieldDeclaration rec position modifiers typ name p
       }
     }
   }"

definition parseClassMember :: "grammar \<Rightarrow> Parser \<Rightarrow> Node parsed" where
  "parseClassMember rec p = do {
     let position = getNodePos p;
     if currentToken p = Punct SemicolonToken then parseEmptyStatement p
     else do {
       (modifiers, p) \<leftarrow> parseModifiers rec p;
       if currentToken p = Punct OpenBraceToken then parseInitializerBlock rec position modifiers p
       else declaration_by_keyword rec position modifiers (parse_method_or_field rec position modifiers) p
     }
   }"

section \<open>Modules\<close>

definition parseModuleName :: "Parser \<Rightarrow> Node parsed" where
  "parseModuleName p = parseEntityName p"

definition requires_modifiers :: "Parser \<Rightarrow> (bool \<times> bool) parsed" where
  "requires_modifiers =
     parse_loop (\<lambda>(isTransitive, isStatic) p.
       if currentToken p = Reserved StaticKeyword \<or> isContextualKeyword ''transitive'' p then do {
         let static = (currentToken p = Reserved StaticKeyword);
         (_, p) \<leftarrow> nextToken p;
         Some ((True, isTransitive \<or> \<not> static, isStatic \<or> static), p)
       }
       else Some ((False, isTransitive, isStatic), p)) (False, False)"

definition parseRequiresDirective :: "Parser \<Rightarrow> Node parsed" where
  "parseRequiresDirective p = do {
     let position = getNodePos p;
     (_, p) \<leftarrow> parseContextualKeyword ''requires'' p;
     ((isTransitive, isStatic), p) \<leftarrow> requires_modifiers p;
     (name, p) \<leftarrow> parseModuleName p;
     (_, p) \<leftarrow> parseExpected (Punct SemicolonToken) None p;
     finishNode (NewRequiresDirective isTransitive isStatic name) position p
   }"

definition name_list :: "Parser \<Rightarrow> NodeArray parsed" where
  "name_list p = do {
     let position = getNodePos p;
     (first, p) \<leftarrow> parseEntityName p;
     (list, p) \<leftarrow> collect (parseOptional (Punct CommaToken)) parseEntityName [first] p;
     Some (createNodeArray list position p, p)
   }"

definition parseToModuleList :: "Parser \<Rightarrow> NodeArray parsed" where
  "parseToModuleList p = name_list p"

text \<open>The flag says whether the directive is an \<open>exports\<close> one.\<close>

definition parseExportsOrOpensDirective :: "string \<Rightarrow> bool \<Rightarrow> Parser \<Rightarrow> Node parsed" where
  "parseExportsOrOpensDirective keyword exports p = do {
     let position = getNodePos p;
     (_, p) \<leftarrow> parseContextualKeyword keyword p;
     (packageName, p) \<leftarrow> parseEntityName p;
     (to, p) \<leftarrow> parseContextualKeyword ''to'' p;
     (toModules, p) \<leftarrow> optionally to parseToModuleList p;
     (_, p) \<leftarrow> parseExpected (Punct SemicolonToken) None p;
     finishNode (if exports then NewExportsDirective packageName toModules else NewOpensDirective packageName toModules)
       position p
   }"

definition parseUsesDirective :: "Parser \<Rightarrow> Node parsed" where
  "parseUsesDirective p = do {
     let position = getNodePos p;
     (_, p) \<leftarrow> parseContextualKeyword ''uses'' p;
     (typeName, p) \<leftarrow> parseEntityName p;
     (_, p) \<leftarrow> parseExpected (Punct SemicolonToken) None p;
     finishNode (NewUsesDirective typeName) position p
   }"

text \<open>
  The list of \<open>with\<close> ends before the semicolon is read in the list's loop, its range after it: the
  node array is made last.
\<close>

definition parseProvidesDirective :: "Parser \<Rightarrow> Node parsed" where
  "parseProvidesDirective p = do {
     let position = getNodePos p;
     (_, p) \<leftarrow> parseContextualKeyword ''provides'' p;
     (typeName, p) \<leftarrow> parseEntityName p;
     (_, p) \<leftarrow> parseContextualKeyword ''with'' p;
     let withPos = getNodePos p;
     (first, p) \<leftarrow> parseEntityName p;
     (withTypes, p) \<leftarrow> collect (parseOptional (Punct CommaToken)) parseEntityName [first] p;
     (_, p) \<leftarrow> parseExpected (Punct SemicolonToken) None p;
     finishNode (NewProvidesDirective typeName (createNodeArray withTypes withPos p)) position p
   }"

definition parseModuleDirective :: "Parser \<Rightarrow> Node parsed" where
  "parseModuleDirective p =
     (if isContextualKeyword ''requires'' p then parseRequiresDirective p
      else if isContextualKeyword ''exports'' p then parseExportsOrOpensDirective ''exports'' True p
      else if isContextualKeyword ''opens'' p then parseExportsOrOpensDirective ''opens'' False p
      else if isContextualKeyword ''uses'' p then parseUsesDirective p
      else parseProvidesDirective p)"

definition parseModuleDeclaration :: "grammar \<Rightarrow> Parser \<Rightarrow> Node parsed" where
  "parseModuleDeclaration rec p = do {
     let position = getNodePos p;
     (annotations, p) \<leftarrow> parseAnnotations rec p;
     (isOpen, p) \<leftarrow> parseContextualKeyword ''open'' p;
     (_, p) \<leftarrow> parseContextualKeyword ''module'' p;
     (name, p) \<leftarrow> parseModuleName p;
     (_, p) \<leftarrow> parseExpected (Punct OpenBraceToken) None p;
     (directives, p) \<leftarrow> parseList ctxModuleDirectives parseModuleDirective p;
     (_, p) \<leftarrow> parseExpected (Punct CloseBraceToken) None p;
     finishNode (NewModuleDeclaration annotations isOpen name directives) position p
   }"

end
