(* ===== verification/Parser.thy ===== *)
theory Parser
  imports ParserDecls
begin

text \<open>
  Statements and the source file: \<open>togo/internal/compiler/parser_stmts.go\<close> and \<open>ParseSourceFile\<close> of
  \<open>parser.go\<close>. \<open>parse\<close> ties the recursion of the grammar with fuel; the depth of the recursion is at
  most the number of tokens, so the length of the text is enough.
\<close>

section \<open>Simple statements\<close>

definition isLocalVariableDeclarationStart :: "grammar \<Rightarrow> Parser \<Rightarrow> bool parsed" where
  "isLocalVariableDeclarationStart rec = parserLookAhead (\<lambda>p. do {
     (_, p) \<leftarrow> parseType rec p;
     Some (currentToken p = Identifier, p)
   })"

definition parseLocalDeclarationStatement :: "grammar \<Rightarrow> Parser \<Rightarrow> Node parsed" where
  "parseLocalDeclarationStatement rec p = do {
     let position = getNodePos p;
     (modifiers, p) \<leftarrow> parseModifiers rec p;
     declaration_by_keyword rec position modifiers (\<lambda>p. do {
       (node, p) \<leftarrow> parseLocalVariableDeclarationRest rec position modifiers p;
       (_, p) \<leftarrow> parseExpected (Punct SemicolonToken) None p;
       Some (node, p)
     }) p
   }"

definition parseIfStatement :: "grammar \<Rightarrow> Parser \<Rightarrow> Node parsed" where
  "parseIfStatement rec p = do {
     let position = getNodePos p;
     (_, p) \<leftarrow> parseExpected (Reserved IfKeyword) None p;
     (_, p) \<leftarrow> parseExpected (Punct OpenParenToken) None p;
     (condition, p) \<leftarrow> parseExpression rec p;
     (_, p) \<leftarrow> parseExpected (Punct CloseParenToken) None p;
     (thn, p) \<leftarrow> rec nt_Statement p;
     (hasElse, p) \<leftarrow> parseOptional (Reserved ElseKeyword) p;
     (els, p) \<leftarrow> optionally hasElse (rec nt_Statement) p;
     finishNode (NewIfStatement condition thn els) position p
   }"

definition parseWhileStatement :: "grammar \<Rightarrow> Parser \<Rightarrow> Node parsed" where
  "parseWhileStatement rec p = do {
     let position = getNodePos p;
     (_, p) \<leftarrow> parseExpected (Reserved WhileKeyword) None p;
     (_, p) \<leftarrow> parseExpected (Punct OpenParenToken) None p;
     (condition, p) \<leftarrow> parseExpression rec p;
     (_, p) \<leftarrow> parseExpected (Punct CloseParenToken) None p;
     (statement, p) \<leftarrow> rec nt_Statement p;
     finishNode (NewWhileStatement condition statement) position p
   }"

definition parseDoStatement :: "grammar \<Rightarrow> Parser \<Rightarrow> Node parsed" where
  "parseDoStatement rec p = do {
     let position = getNodePos p;
     (_, p) \<leftarrow> parseExpected (Reserved DoKeyword) None p;
     (statement, p) \<leftarrow> rec nt_Statement p;
     (_, p) \<leftarrow> parseExpected (Reserved WhileKeyword) None p;
     (_, p) \<leftarrow> parseExpected (Punct OpenParenToken) None p;
     (condition, p) \<leftarrow> parseExpression rec p;
     (_, p) \<leftarrow> parseExpected (Punct CloseParenToken) None p;
     (_, p) \<leftarrow> parseExpected (Punct SemicolonToken) None p;
     finishNode (NewDoStatement statement condition) position p
   }"

definition isForEachHeader :: "grammar \<Rightarrow> Parser \<Rightarrow> bool parsed" where
  "isForEachHeader rec = parserLookAhead (\<lambda>p. do {
     (_, p) \<leftarrow> parseModifiers rec p;
     if currentToken p = Punct SemicolonToken then Some (False, p)
     else do {
       (_, p) \<leftarrow> parseType rec p;
       if currentToken p \<noteq> Identifier then Some (False, p)
       else do {
         (_, p) \<leftarrow> nextToken p;
         Some (currentToken p = Punct ColonToken, p)
       }
     }
   })"

text \<open>Whether a statement or a \<open>for\<close> header begins with a local declaration.\<close>

definition local_declaration_start :: "grammar \<Rightarrow> Parser \<Rightarrow> bool parsed" where
  "local_declaration_start rec p =
     (if isModifierKeyword (currentToken p) \<or> currentToken p = Punct AtToken then Some (True, p)
      else isLocalVariableDeclarationStart rec p)"

definition expression_list :: "grammar \<Rightarrow> Parser \<Rightarrow> NodeArray parsed" where
  "expression_list rec p = do {
     let position = getNodePos p;
     (first, p) \<leftarrow> parseExpression rec p;
     (list, p) \<leftarrow> collect (parseOptional (Punct CommaToken)) (parseExpression rec) [first] p;
     Some (createNodeArray list position p, p)
   }"

text \<open>The first part of a \<open>for\<close> header, up to and with its semicolon.\<close>

definition for_initializer :: "grammar \<Rightarrow> Parser \<Rightarrow> (Node option \<times> NodeArray option) parsed" where
  "for_initializer rec p =
     (if currentToken p = Punct SemicolonToken then do {
        (_, p) \<leftarrow> nextToken p;
        Some ((None, None), p)
      }
      else do {
        (declaration, p) \<leftarrow> local_declaration_start rec p;
        if declaration then do {
          let initPos = getNodePos p;
          (modifiers, p) \<leftarrow> parseModifiers rec p;
          (initializer, p) \<leftarrow> parseLocalVariableDeclarationRest rec initPos modifiers p;
          (_, p) \<leftarrow> parseExpected (Punct SemicolonToken) None p;
          Some ((Some initializer, None), p)
        }
        else do {
          (expressions, p) \<leftarrow> expression_list rec p;
          (_, p) \<leftarrow> parseExpected (Punct SemicolonToken) None p;
          Some ((None, Some expressions), p)
        }
      })"

definition parseForStatement :: "grammar \<Rightarrow> Parser \<Rightarrow> Node parsed" where
  "parseForStatement rec p = do {
     let position = getNodePos p;
     (_, p) \<leftarrow> parseExpected (Reserved ForKeyword) None p;
     (_, p) \<leftarrow> parseExpected (Punct OpenParenToken) None p;
     (forEach, p) \<leftarrow> isForEachHeader rec p;
     if forEach then do {
       (parameter, p) \<leftarrow> parseParameter rec p;
       (_, p) \<leftarrow> parseExpected (Punct ColonToken) None p;
       (expression, p) \<leftarrow> parseExpression rec p;
       (_, p) \<leftarrow> parseExpected (Punct CloseParenToken) None p;
       (statement, p) \<leftarrow> rec nt_Statement p;
       finishNode (NewForEachStatement parameter expression statement) position p
     }
     else do {
       ((initializer, initializerExpressions), p) \<leftarrow> for_initializer rec p;
       (condition, p) \<leftarrow> optionally (currentToken p \<noteq> Punct SemicolonToken) (parseExpression rec) p;
       (_, p) \<leftarrow> parseExpected (Punct SemicolonToken) None p;
       (incrementors, p) \<leftarrow> optionally (currentToken p \<noteq> Punct CloseParenToken) (expression_list rec) p;
       (_, p) \<leftarrow> parseExpected (Punct CloseParenToken) None p;
       (statement, p) \<leftarrow> rec nt_Statement p;
       finishNode (NewForStatement initializer initializerExpressions condition incrementors statement) position p
     }
   }"

definition parseReturnStatement :: "grammar \<Rightarrow> Parser \<Rightarrow> Node parsed" where
  "parseReturnStatement rec p = do {
     let position = getNodePos p;
     (_, p) \<leftarrow> parseExpected (Reserved ReturnKeyword) None p;
     (expression, p) \<leftarrow> optionally (currentToken p \<noteq> Punct SemicolonToken) (parseExpression rec) p;
     (_, p) \<leftarrow> parseExpected (Punct SemicolonToken) None p;
     finishNode (NewReturnStatement expression) position p
   }"

definition parseThrowStatement :: "grammar \<Rightarrow> Parser \<Rightarrow> Node parsed" where
  "parseThrowStatement rec p = do {
     let position = getNodePos p;
     (_, p) \<leftarrow> parseExpected (Reserved ThrowKeyword) None p;
     (expression, p) \<leftarrow> parseExpression rec p;
     (_, p) \<leftarrow> parseExpected (Punct SemicolonToken) None p;
     finishNode (NewThrowStatement expression) position p
   }"

definition parseBreakOrContinue :: "CodeKind \<Rightarrow> Parser \<Rightarrow> Node parsed" where
  "parseBreakOrContinue kind p = do {
     let position = getNodePos p;
     (_, p) \<leftarrow> nextToken p;
     (label, p) \<leftarrow> optionally (currentToken p = Identifier) parseIdentifier p;
     (_, p) \<leftarrow> parseExpected (Punct SemicolonToken) None p;
     finishNode (NewBreakOrContinue kind label) position p
   }"

definition parseSynchronizedStatement :: "grammar \<Rightarrow> Parser \<Rightarrow> Node parsed" where
  "parseSynchronizedStatement rec p = do {
     let position = getNodePos p;
     (_, p) \<leftarrow> parseExpected (Reserved SynchronizedKeyword) None p;
     (_, p) \<leftarrow> parseExpected (Punct OpenParenToken) None p;
     (expression, p) \<leftarrow> parseExpression rec p;
     (_, p) \<leftarrow> parseExpected (Punct CloseParenToken) None p;
     (body, p) \<leftarrow> parseBlock rec p;
     finishNode (NewSynchronizedStatement expression body) position p
   }"

definition parseAssertStatement :: "grammar \<Rightarrow> Parser \<Rightarrow> Node parsed" where
  "parseAssertStatement rec p = do {
     let position = getNodePos p;
     (_, p) \<leftarrow> parseExpected (Reserved AssertKeyword) None p;
     (condition, p) \<leftarrow> parseExpression rec p;
     (colon, p) \<leftarrow> parseOptional (Punct ColonToken) p;
     (message, p) \<leftarrow> optionally colon (parseExpression rec) p;
     (_, p) \<leftarrow> parseExpected (Punct SemicolonToken) None p;
     finishNode (NewAssertStatement condition message) position p
   }"

definition parseLabeledStatement :: "grammar \<Rightarrow> Parser \<Rightarrow> Node parsed" where
  "parseLabeledStatement rec p = do {
     let position = getNodePos p;
     (label, p) \<leftarrow> parseIdentifier p;
     (_, p) \<leftarrow> parseExpected (Punct ColonToken) None p;
     (statement, p) \<leftarrow> rec nt_Statement p;
     finishNode (NewLabeledStatement label statement) position p
   }"

definition parseYieldStatement :: "grammar \<Rightarrow> Parser \<Rightarrow> Node parsed" where
  "parseYieldStatement rec p = do {
     let position = getNodePos p;
     (_, p) \<leftarrow> parseContextualKeyword ''yield'' p;
     (expression, p) \<leftarrow> parseExpression rec p;
     (_, p) \<leftarrow> parseExpected (Punct SemicolonToken) None p;
     finishNode (NewYieldStatement expression) position p
   }"

section \<open>Try\<close>

definition parseResource :: "grammar \<Rightarrow> Parser \<Rightarrow> Node parsed" where
  "parseResource rec p = do {
     let position = getNodePos p;
     (modifiers, p) \<leftarrow> parseModifiers rec p;
     (isDeclaration, p) \<leftarrow>
       (if modifiers \<noteq> None then Some (True, p)
        else parserLookAhead (\<lambda>p. do {
          (_, p) \<leftarrow> parseTypeOrVar rec p;
          if currentToken p \<noteq> Identifier then Some (False, p)
          else do {
            (_, p) \<leftarrow> nextToken p;
            Some (currentToken p = Punct EqualsToken, p)
          }
        }) p);
     if isDeclaration then do {
       (typ, p) \<leftarrow> parseTypeOrVar rec p;
       (name, p) \<leftarrow> parseIdentifier p;
       (_, p) \<leftarrow> parseExpected (Punct EqualsToken) None p;
       (initializer, p) \<leftarrow> parseExpression rec p;
       finishNode (NewResource modifiers (Some typ) (Some name) (Some initializer) None) position p
     }
     else do {
       (expression, p) \<leftarrow> parseExpression rec p;
       finishNode (NewResource modifiers None None None (Some expression)) position p
     }
   }"

text \<open>The semicolon before another resource; after a trailing one the list ends.\<close>

definition another_resource :: "Parser \<Rightarrow> bool parsed" where
  "another_resource p = do {
     (semicolon, p) \<leftarrow> parseOptional (Punct SemicolonToken) p;
     Some (semicolon \<and> currentToken p \<noteq> Punct CloseParenToken, p)
   }"

definition parseResourceSpecification :: "grammar \<Rightarrow> Parser \<Rightarrow> NodeArray parsed" where
  "parseResourceSpecification rec p = do {
     let position = getNodePos p;
     (_, p) \<leftarrow> parseExpected (Punct OpenParenToken) None p;
     (first, p) \<leftarrow> parseResource rec p;
     (resources, p) \<leftarrow> collect another_resource (parseResource rec) [first] p;
     (_, p) \<leftarrow> parseExpected (Punct CloseParenToken) None p;
     Some (createNodeArray resources position p, p)
   }"

definition parseCatchClause :: "grammar \<Rightarrow> Parser \<Rightarrow> Node parsed" where
  "parseCatchClause rec p = do {
     let position = getNodePos p;
     (_, p) \<leftarrow> parseExpected (Reserved CatchKeyword) None p;
     (_, p) \<leftarrow> parseExpected (Punct OpenParenToken) None p;
     (modifiers, p) \<leftarrow> parseModifiers rec p;
     let typesPos = getNodePos p;
     (first, p) \<leftarrow> parseType rec p;
     (catchTypes, p) \<leftarrow> collect (parseOptional (Punct BarToken)) (parseType rec) [first] p;
     (name, p) \<leftarrow> parseIdentifier p;
     (_, p) \<leftarrow> parseExpected (Punct CloseParenToken) None p;
     (block, p) \<leftarrow> parseBlock rec p;
     finishNode (NewCatchClause modifiers (createNodeArray catchTypes typesPos p) name block) position p
   }"

definition parseTryStatement :: "grammar \<Rightarrow> Parser \<Rightarrow> Node parsed" where
  "parseTryStatement rec p = do {
     let position = getNodePos p;
     (_, p) \<leftarrow> parseExpected (Reserved TryKeyword) None p;
     (resources, p) \<leftarrow> optionally (currentToken p = Punct OpenParenToken) (parseResourceSpecification rec) p;
     (tryBlock, p) \<leftarrow> parseBlock rec p;
     let catchPos = getNodePos p;
     (catchClauses, p) \<leftarrow>
       collect (\<lambda>p. Some (currentToken p = Reserved CatchKeyword, p)) (parseCatchClause rec) [] p;
     (hasFinally, p) \<leftarrow> parseOptional (Reserved FinallyKeyword) p;
     (finallyBlock, p) \<leftarrow> optionally hasFinally (parseBlock rec) p;
     finishNode (NewTryStatement resources tryBlock (createNodeArray catchClauses catchPos p) finallyBlock) position p
   }"

section \<open>Switch\<close>

definition isPatternStart :: "grammar \<Rightarrow> Parser \<Rightarrow> bool parsed" where
  "isPatternStart rec p =
     (if currentToken p = Punct OpenParenToken then Some (False, p)
      else parserLookAhead (\<lambda>p. do {
        (_, p) \<leftarrow> parseModifiers rec p;
        (_, p) \<leftarrow> parseTypeOrVar rec p;
        Some (currentToken p = Identifier \<or> currentToken p = Punct OpenParenToken, p)
      }) p)"

definition parseCaseLabelElement :: "grammar \<Rightarrow> Parser \<Rightarrow> Node parsed" where
  "parseCaseLabelElement rec p =
     (if currentToken p = Reserved DefaultKeyword then parseTokenNode p
      else do {
        (pattern, p) \<leftarrow> isPatternStart rec p;
        if pattern then parsePattern rec p else parseConditionalExpression rec p
      })"

definition makeExpressionStatement :: "Node \<Rightarrow> Parser \<Rightarrow> Node parsed" where
  "makeExpressionStatement expression p = finishNode (NewExpressionStatement expression) (Pos expression) p"

definition case_labels :: "grammar \<Rightarrow> Parser \<Rightarrow> NodeArray parsed" where
  "case_labels rec p = do {
     let labelsPos = getNodePos p;
     (first, p) \<leftarrow> parseCaseLabelElement rec p;
     (list, p) \<leftarrow> collect (parseOptional (Punct CommaToken)) (parseCaseLabelElement rec) [first] p;
     Some (createNodeArray list labelsPos p, p)
   }"

text \<open>The labels and the guard of a clause; the flag says whether it is the default clause.\<close>

definition clause_head :: "grammar \<Rightarrow> Parser \<Rightarrow> (bool \<times> NodeArray option \<times> Node option) parsed" where
  "clause_head rec p = do {
     (isCase, p) \<leftarrow> parseOptional (Reserved CaseKeyword) p;
     if isCase then do {
       (labels, p) \<leftarrow> case_labels rec p;
       (hasGuard, p) \<leftarrow> parseContextualKeyword ''when'' p;
       (guard, p) \<leftarrow> optionally hasGuard (parseConditionalExpression rec) p;
       Some ((False, Some labels, guard), p)
     }
     else do {
       (_, p) \<leftarrow> parseExpected (Reserved DefaultKeyword) None p;
       Some ((True, None, None), p)
     }
   }"

definition arrow_body :: "grammar \<Rightarrow> Parser \<Rightarrow> Node parsed" where
  "arrow_body rec p =
     (if currentToken p = Punct OpenBraceToken then parseBlock rec p
      else if currentToken p = Reserved ThrowKeyword then parseThrowStatement rec p
      else do {
        (expression, p) \<leftarrow> parseExpression rec p;
        (_, p) \<leftarrow> parseExpected (Punct SemicolonToken) None p;
        makeExpressionStatement expression p
      })"

definition clause_goes_on :: "Parser \<Rightarrow> bool parsed" where
  "clause_goes_on p =
     Some (currentToken p \<notin> {Reserved CaseKeyword, Reserved DefaultKeyword, Punct CloseBraceToken, EndOfFileToken}
       \<and> isStartOfStatementToken p, p)"

definition parseSwitchClause :: "grammar \<Rightarrow> Parser \<Rightarrow> Node parsed" where
  "parseSwitchClause rec p = do {
     let position = getNodePos p;
     ((isDefault, labels, guard), p) \<leftarrow> clause_head rec p;
     let statementsPos = getNodePos p;
     (isArrow, p) \<leftarrow> parseOptional (Punct ArrowToken) p;
     (statements, p) \<leftarrow>
       (if isArrow then do {
          (statement, p) \<leftarrow> arrow_body rec p;
          Some ([statement], p)
        }
        else do {
          (_, p) \<leftarrow> parseExpected (Punct ColonToken) None p;
          collect clause_goes_on (rec nt_Statement) [] p
        });
     finishNode (NewSwitchClause isDefault isArrow labels guard (createNodeArray statements statementsPos p)) position p
   }"

definition parseSwitchStatement :: "grammar \<Rightarrow> Parser \<Rightarrow> Node parsed" where
  "parseSwitchStatement rec p = do {
     let position = getNodePos p;
     (_, p) \<leftarrow> parseExpected (Reserved SwitchKeyword) None p;
     (_, p) \<leftarrow> parseExpected (Punct OpenParenToken) None p;
     (expression, p) \<leftarrow> parseExpression rec p;
     (_, p) \<leftarrow> parseExpected (Punct CloseParenToken) None p;
     (clauses, p) \<leftarrow> parseSwitchBlock rec p;
     finishNode (NewSwitchStatement expression clauses) position p
   }"

section \<open>Statements\<close>

definition at_yield :: "Parser \<Rightarrow> bool parsed" where
  "at_yield p =
     (if isContextualKeyword ''yield'' p then
        parserLookAhead (\<lambda>p. do { (_, p) \<leftarrow> nextToken p; Some (isStartOfExpression p, p) }) p
      else Some (False, p))"

definition at_label :: "Parser \<Rightarrow> bool parsed" where
  "at_label p =
     (if currentToken p = Identifier then parserLookAhead (next_is (Punct ColonToken)) p else Some (False, p))"

definition parse_other_statement :: "grammar \<Rightarrow> Parser \<Rightarrow> Node parsed" where
  "parse_other_statement rec p = do {
     (isYield, p) \<leftarrow> at_yield p;
     if isYield then parseYieldStatement rec p
     else do {
       (isLabel, p) \<leftarrow> at_label p;
       if isLabel then parseLabeledStatement rec p
       else do {
         (declaration, p) \<leftarrow> local_declaration_start rec p;
         if declaration then parseLocalDeclarationStatement rec p
         else do {
           let position = getNodePos p;
           (expression, p) \<leftarrow> parseExpression rec p;
           (_, p) \<leftarrow> parseExpected (Punct SemicolonToken) None p;
           finishNode (NewExpressionStatement expression) position p
         }
       }
     }
   }"

definition parseStatement :: "grammar \<Rightarrow> Parser \<Rightarrow> Node parsed" where
  "parseStatement rec p =
     (if currentToken p = Punct SemicolonToken then parseEmptyStatement p
      else if currentToken p = Punct OpenBraceToken then parseBlock rec p
      else if currentToken p = Reserved IfKeyword then parseIfStatement rec p
      else if currentToken p = Reserved WhileKeyword then parseWhileStatement rec p
      else if currentToken p = Reserved DoKeyword then parseDoStatement rec p
      else if currentToken p = Reserved ForKeyword then parseForStatement rec p
      else if currentToken p = Reserved TryKeyword then parseTryStatement rec p
      else if currentToken p = Reserved SwitchKeyword then parseSwitchStatement rec p
      else if currentToken p = Reserved ReturnKeyword then parseReturnStatement rec p
      else if currentToken p = Reserved ThrowKeyword then parseThrowStatement rec p
      else if currentToken p = Reserved BreakKeyword then parseBreakOrContinue BreakStatement p
      else if currentToken p = Reserved ContinueKeyword then parseBreakOrContinue ContinueStatement p
      else if currentToken p = Reserved SynchronizedKeyword then parseSynchronizedStatement rec p
      else if currentToken p = Reserved AssertKeyword then parseAssertStatement rec p
      else if currentToken p \<in> {Reserved ClassKeyword, Reserved InterfaceKeyword, Reserved EnumKeyword}
      then parseTypeDeclaration rec p
      else parse_other_statement rec p)"

section \<open>The recursion\<close>

definition parse_nonterminal :: "grammar \<Rightarrow> grammar" where
  "parse_nonterminal rec nt =
     (case nt of
        nt_ElementValue \<Rightarrow> parseElementValue rec
      | nt_Type \<Rightarrow> parseType rec
      | nt_ClassMember \<Rightarrow> parseClassMember rec
      | nt_Statement \<Rightarrow> parseStatement rec
      | nt_SwitchClause \<Rightarrow> parseSwitchClause rec
      | nt_Expression \<Rightarrow> parseExpression rec
      | nt_Unary \<Rightarrow> parseUnaryExpression rec
      | nt_Binary n \<Rightarrow> parseBinaryExpression rec n
      | nt_VariableInitializer \<Rightarrow> parseVariableInitializer rec
      | nt_Pattern \<Rightarrow> parseComponentPattern rec)"

fun parse :: "nat \<Rightarrow> grammar" where
  "parse 0 = (\<lambda>nt p. None)"
| "parse (Suc n) = parse_nonterminal (parse n)"

section \<open>The source file\<close>

definition parsePackageDeclaration :: "NodeArray option \<Rightarrow> Parser \<Rightarrow> Node parsed" where
  "parsePackageDeclaration annotations p = do {
     let position = (case annotations of None \<Rightarrow> getNodePos p | Some a \<Rightarrow> array_Pos a);
     (_, p) \<leftarrow> parseExpected (Reserved PackageKeyword) None p;
     (name, p) \<leftarrow> parseEntityName p;
     (_, p) \<leftarrow> parseExpected (Punct SemicolonToken) None p;
     finishNode (NewPackageDeclaration annotations name) position p
   }"

definition import_segments :: "Node \<Rightarrow> Parser \<Rightarrow> (Node \<times> bool) parsed" where
  "import_segments name =
     parse_loop (\<lambda>(name, isOnDemand) p. do {
       (dot, p) \<leftarrow> parseOptional (Punct DotToken) p;
       if \<not> dot then Some ((False, name, isOnDemand), p)
       else if currentToken p = Punct AsteriskToken then do {
         (_, p) \<leftarrow> nextToken p;
         Some ((False, name, True), p)
       }
       else do {
         (right, p) \<leftarrow> parseIdentifier p;
         (name, p) \<leftarrow> makeQualifiedName name right p;
         Some ((True, name, isOnDemand), p)
       }
     }) (name, False)"

definition parseImportDeclaration :: "Parser \<Rightarrow> Node parsed" where
  "parseImportDeclaration p = do {
     let position = getNodePos p;
     (_, p) \<leftarrow> parseExpected (Reserved ImportKeyword) None p;
     (isStatic, p) \<leftarrow> parseOptional (Reserved StaticKeyword) p;
     (first, p) \<leftarrow> parseIdentifier p;
     ((name, isOnDemand), p) \<leftarrow> import_segments first p;
     (_, p) \<leftarrow> parseExpected (Punct SemicolonToken) None p;
     finishNode (NewImportDeclaration isStatic name isOnDemand) position p
   }"

definition parseImportDeclarations :: "Parser \<Rightarrow> NodeArray parsed" where
  "parseImportDeclarations p = do {
     let position = getNodePos p;
     (list, p) \<leftarrow> collect (\<lambda>p. Some (currentToken p = Reserved ImportKeyword, p)) parseImportDeclaration [] p;
     Some (createNodeArray list position p, p)
   }"

definition parseSourceElement :: "grammar \<Rightarrow> Parser \<Rightarrow> Node parsed" where
  "parseSourceElement rec p =
     (if currentToken p = Punct SemicolonToken then parseEmptyStatement p else parseTypeDeclaration rec p)"

text \<open>The lookahead past the leading annotations.\<close>

definition after_annotations :: "grammar \<Rightarrow> (Parser \<Rightarrow> bool) \<Rightarrow> Parser \<Rightarrow> bool parsed" where
  "after_annotations rec test p =
     (if currentToken p = Punct AtToken then
        parserLookAhead (\<lambda>p. do { (_, p) \<leftarrow> parseAnnotations rec p; Some (test p, p) }) p
      else Some (False, p))"

definition isModuleKeyword :: "Parser \<Rightarrow> bool" where
  "isModuleKeyword p \<longleftrightarrow> isContextualKeyword ''open'' p \<or> isContextualKeyword ''module'' p"

definition package_part :: "grammar \<Rightarrow> Parser \<Rightarrow> Node option parsed" where
  "package_part rec p = do {
     (annotated, p) \<leftarrow> after_annotations rec (\<lambda>p. currentToken p = Reserved PackageKeyword) p;
     (packageAnnotations, p) \<leftarrow> (if annotated then parseAnnotations rec p else Some (None, p));
     optionally (currentToken p = Reserved PackageKeyword) (parsePackageDeclaration packageAnnotations) p
   }"

definition unit_body :: "grammar \<Rightarrow> Node option \<Rightarrow> Parser \<Rightarrow> (Node option \<times> NodeArray) parsed" where
  "unit_body rec pkg p = do {
     (startsModule, p) \<leftarrow> (if isModuleKeyword p then Some (True, p) else after_annotations rec isModuleKeyword p);
     if startsModule \<and> pkg = None then do {
       (modul, p) \<leftarrow> parseModuleDeclaration rec p;
       Some ((Some modul, createNodeArray [] (getNodePos p) p), p)
     }
     else do {
       (statements, p) \<leftarrow> parseList ctxSourceElements (parseSourceElement rec) p;
       Some ((None, statements), p)
     }
   }"

definition NewParser :: "string \<Rightarrow> string \<Rightarrow> Parser" where
  "NewParser name txt =
     \<lparr>scanner = NewScanner txt, sourceText = txt, fileName = name, currentToken = Unknown,
      parseDiagnostics = [], parsingContext = 0, parseErrorBeforeNextFinishedNode = False\<rparr>"

definition compilation_unit :: "grammar \<Rightarrow> Parser \<Rightarrow> Node parsed" where
  "compilation_unit rec p = do {
     let position = getNodePos p;
     (pkg, p) \<leftarrow> package_part rec p;
     (importList, p) \<leftarrow> parseImportDeclarations p;
     ((modul, statements), p) \<leftarrow> unit_body rec pkg p;
     (eof, p) \<leftarrow> parseExpectedToken EndOfFileToken None p;
     finishNode (NewSourceFile pkg importList modul statements eof) position p
   }"

definition parse_source_file :: "grammar \<Rightarrow> Parser \<Rightarrow> Node parsed" where
  "parse_source_file rec p = do {
     (_, p) \<leftarrow> nextToken p;
     compilation_unit rec p
   }"

text \<open>
  \<open>ParseSourceFile\<close>: the source file node with the file name, the text and the diagnostics that
  its payload also holds.
\<close>

record ParsedFile =
  file_node :: Node
  file_name :: string
  file_text :: string
  file_diagnostics :: "Diagnostic list"

definition ParseSourceFile :: "string \<Rightarrow> string \<Rightarrow> ParsedFile option" where
  "ParseSourceFile name txt =
     (case parse_source_file (parse (length txt + 2)) (NewParser name txt) of
        None \<Rightarrow> None
      | Some (sf, p) \<Rightarrow>
          Some \<lparr>file_node = sf, file_name = fileName p, file_text = sourceText p,
                file_diagnostics = parseDiagnostics p\<rparr>)"

end
