(* ===== verification/ParserLogic.thy ===== *)
theory ParserLogic
  imports ParserState "HOL-Library.Sublist"
begin

text \<open>
  Total correctness of the parser's methods. \<open>well\<close> is the invariant of the parser's state, \<open>follows\<close> what
  a method keeps of the state it started from, and \<open>returns\<close> the judgement that a method returns in a
  state that follows; the rules of a method give its caller the facts about the state and the node it
  returns. What is left of the text, \<open>remaining\<close>, falls with every token.
\<close>

section \<open>The invariant and the judgement\<close>

definition well :: "Parser \<Rightarrow> bool" where
  "well p \<longleftrightarrow>
     inside (scanner p) \<and> source_text (scanner p) = sourceText p \<and> errors (scanner p) = []
     \<and> token (scanner p) = currentToken p \<and> (sourceText p = [] \<or> last (sourceText p) \<noteq> BACKSLASH)
     \<and> fullStartPos (scanner p) \<le> s_pos (scanner p)
     \<and> (if currentToken p = EndOfFileToken then s_pos (scanner p) = length (sourceText p)
        else fullStartPos (scanner p) < s_pos (scanner p))"

definition follows :: "Parser \<Rightarrow> Parser \<Rightarrow> bool" where
  "follows a q \<longleftrightarrow>
     well q \<and> sourceText q = sourceText a \<and> fileName q = fileName a \<and> parsingContext q = parsingContext a
     \<and> prefix (parseDiagnostics a) (parseDiagnostics q)"

definition remaining :: "Parser \<Rightarrow> nat" where
  "remaining p = (if currentToken p = EndOfFileToken then 0 else Suc (length (sourceText p)) - getNodePos p)"

definition returns :: "Parser \<Rightarrow> 'a parsed \<Rightarrow> ('a \<Rightarrow> Parser \<Rightarrow> bool) \<Rightarrow> bool" where
  "returns a m Q \<longleftrightarrow> (\<exists>x q. m = Some (x, q) \<and> follows a q \<and> Q x q)"

lemma follows_well: "follows a p \<Longrightarrow> well p"
  by (simp add: follows_def)

lemma follows_refl: "well p \<Longrightarrow> follows p p"
  by (simp add: follows_def)

lemma follows_trans: "follows a p \<Longrightarrow> follows p q \<Longrightarrow> follows a q"
  by (auto simp: follows_def intro: prefix_order.trans)

lemma returns_weaken: "returns a m P \<Longrightarrow> (\<And>x q. follows a q \<Longrightarrow> P x q \<Longrightarrow> Q x q) \<Longrightarrow> returns a m Q"
  by (auto simp: returns_def)

lemma returns_conj: "returns a m P \<Longrightarrow> returns a m Q \<Longrightarrow> returns a m (\<lambda>x q. P x q \<and> Q x q)"
  by (auto simp: returns_def)

lemma returns_from: "follows a p \<Longrightarrow> returns p m P \<Longrightarrow> (\<And>x q. follows a q \<Longrightarrow> P x q \<Longrightarrow> Q x q) \<Longrightarrow> returns a m Q"
  unfolding returns_def by (metis follows_trans)

lemma returns_bind:
  "returns a m (\<lambda>x q. returns a (g x q) Q) \<Longrightarrow> returns a (Option.bind m (\<lambda>(x, q). g x q)) Q"
  by (auto simp: returns_def)

lemma returns_Some: "follows a q \<Longrightarrow> Q x q \<Longrightarrow> returns a (Some (x, q)) Q"
  by (simp add: returns_def)

lemma returns_let: "returns a (f e) Q \<Longrightarrow> returns a (Let e f) Q"
  by simp

lemma returns_if: "(b \<Longrightarrow> returns a m Q) \<Longrightarrow> (\<not> b \<Longrightarrow> returns a n Q) \<Longrightarrow> returns a (if b then m else n) Q"
  by simp

section \<open>Tokens\<close>

lemma remaining_less: "well p \<Longrightarrow> remaining p \<le> Suc (length (sourceText p))"
  by (simp add: remaining_def)

lemma remaining_EOF: "well p \<Longrightarrow> remaining p = 0 \<longleftrightarrow> currentToken p = EndOfFileToken"
  by (auto simp: remaining_def well_def getNodePos_def inside_def)

lemma getNodePos_le: "well p \<Longrightarrow> getNodePos p \<le> length (sourceText p)"
  by (auto simp: well_def inside_def getNodePos_def)

text \<open>Reporting changes only the diagnostics and the error flag.\<close>

definition reported :: "Parser \<Rightarrow> Parser \<Rightarrow> bool" where
  "reported p q \<longleftrightarrow>
     (\<exists>ds e. q = p\<lparr>parseDiagnostics := parseDiagnostics p @ ds, parseErrorBeforeNextFinishedNode := e\<rparr>)"

lemma reportedI: "q = p\<lparr>parseDiagnostics := parseDiagnostics p @ ds, parseErrorBeforeNextFinishedNode := e\<rparr> \<Longrightarrow> reported p q"
  unfolding reported_def by blast

lemma reported_refl: "reported p p"
  by (rule reportedI [where ds = "[]" and e = "parseErrorBeforeNextFinishedNode p"]) simp

lemma reported_parseErrorAtPosition: "reported p (parseErrorAtPosition i n m args p)"
proof (cases "parseDiagnostics p = [] \<or> i \<noteq> diag_Pos (last (parseDiagnostics p))")
  case True
  then show ?thesis
    by (intro reportedI [where ds = "[CreateDiagnostic i n m args]" and e = True]) (auto simp: parseErrorAtPosition_def)
next
  case False
  then show ?thesis by (intro reportedI [where ds = "[]" and e = True]) (auto simp: parseErrorAtPosition_def)
qed

lemma reported_trans: "reported p q \<Longrightarrow> reported q r \<Longrightarrow> reported p r"
  by (fastforce simp: reported_def)

lemma reported_errors: "reported p (report_errors es p)"
proof (induction es arbitrary: p)
  case (Cons e es)
  obtain m i n where e: "e = (m, i, n)" by (cases e)
  have "report_errors (e # es) p = report_errors es (parseErrorAtPosition i n (ScannerMessage m) [] p)"
    by (simp add: report_errors_def e)
  with Cons [of "parseErrorAtPosition i n (ScannerMessage m) [] p"] reported_parseErrorAtPosition show ?case
    by (metis reported_trans)
qed (simp add: report_errors_def reported_refl)

lemma reported_simps:
  assumes "reported p q"
  shows "scanner q = scanner p" and "currentToken q = currentToken p" and "sourceText q = sourceText p"
    and "getNodePos q = getNodePos p" and "remaining q = remaining p" and "well q = well p"
    and "follows a p \<Longrightarrow> follows a q"
  using assms by (auto simp: reported_def getNodePos_def remaining_def well_def follows_def)

lemma Scan_well:
  assumes "well p"
  obtains s where "Scan (scanner p) = Some s" and "scanned (scanner p) s" and "inside s"
proof -
  from assms have i: "inside (scanner p)" by (simp add: well_def)
  have "Scan (scanner p) \<noteq> None"
  proof
    assume none: "Scan (scanner p) = None"
    have "source_text (scanner p) = sourceText p" using assms by (simp add: well_def)
    then show False using Scan_None [OF i none] assms by (auto simp: well_def)
  qed
  then obtain s where s: "Scan (scanner p) = Some s" by auto
  from Scan_scanned [OF s] have "scanned (scanner p) s" .
  moreover from this i have "inside s" by (simp add: scanned_def)
  ultimately show ?thesis using s that by blast
qed

lemma nextToken_state:
  assumes "well p"
  obtains s q where "scanned (scanner p) s" and "inside s"
    and "reported (p\<lparr>scanner := s\<lparr>errors := []\<rparr>, currentToken := token s\<rparr>) q" and "nextToken p = Some (token s, q)"
proof -
  from assms obtain s where s: "Scan (scanner p) = Some s" "scanned (scanner p) s" "inside s" by (rule Scan_well)
  let ?r = "report_errors (errors s) (p\<lparr>scanner := s\<lparr>errors := []\<rparr>\<rparr>)"
  obtain ds e where r: "?r = p\<lparr>scanner := s\<lparr>errors := []\<rparr>, parseDiagnostics := parseDiagnostics p @ ds,
      parseErrorBeforeNextFinishedNode := e\<rparr>"
    using reported_errors [of "p\<lparr>scanner := s\<lparr>errors := []\<rparr>\<rparr>" "errors s"] by (auto simp: reported_def)
  have "nextToken p = Some (token s, ?r\<lparr>currentToken := token s\<rparr>)"
    by (simp add: nextToken_def scan_with_def s(1))
  moreover have "reported (p\<lparr>scanner := s\<lparr>errors := []\<rparr>, currentToken := token s\<rparr>) (?r\<lparr>currentToken := token s\<rparr>)"
    by (rule reportedI [where ds = ds and e = e]) (simp add: r)
  ultimately show ?thesis using s that by blast
qed

lemma inside_errors [simp]: "inside (s\<lparr>errors := es\<rparr>) = inside s"
  by (simp add: inside_def)

lemma nextToken_well:
  assumes p: "well p" and n: "nextToken p = Some (k, q)"
  shows "follows p q" and "k = currentToken q" and "getNodePos p \<le> getNodePos q" and "remaining q \<le> remaining p"
    and "currentToken p \<noteq> EndOfFileToken \<Longrightarrow> remaining q < remaining p"
    and "currentToken p \<noteq> EndOfFileToken \<Longrightarrow> getNodePos p < getNodePos q"
proof -
  obtain s q' where s: "scanned (scanner p) s" "inside s" and q: "nextToken p = Some (token s, q')"
    and r: "reported (p\<lparr>scanner := s\<lparr>errors := []\<rparr>, currentToken := token s\<rparr>) q'"
    by (rule nextToken_state [OF p])
  let ?p = "p\<lparr>scanner := s\<lparr>errors := []\<rparr>, currentToken := token s\<rparr>"
  from q n have k: "k = token s" "q' = q" by simp_all
  note r = r [unfolded k]
  have src: "source_text s = sourceText p" "fullStartPos s = s_pos (scanner p)" "s_pos (scanner p) \<le> tokenStart s"
    "source_end s = length (sourceText p)"
    using s p by (auto simp: scanned_def well_def inside_def)
  have pos: "if token s = EndOfFileToken then s_pos s = length (sourceText p) else tokenStart s < s_pos s"
    using s p by (auto simp: scanned_def inside_def well_def)
  have le: "s_pos s \<le> length (sourceText p)" "s_pos (scanner p) \<le> length (sourceText p)"
    using s src p by (auto simp: inside_def well_def)
  have w: "well ?p"
    using p s src pos le by (auto simp: well_def)
  then have f: "follows p ?p" by (simp add: follows_def)
  show "follows p q" by (rule reported_simps(7) [OF r f])
  show "k = currentToken q" by (simp add: k reported_simps [OF r])
  have fs: "getNodePos ?p = s_pos (scanner p)" by (simp add: getNodePos_def src)
  show "getNodePos p \<le> getNodePos q"
    using p fs by (simp add: reported_simps [OF r] getNodePos_def well_def)
  show lt: "getNodePos p < getNodePos q" if "currentToken p \<noteq> EndOfFileToken"
    using that p fs by (simp add: reported_simps [OF r] getNodePos_def well_def)
  have rem: "remaining q = (if token s = EndOfFileToken then 0 else Suc (length (sourceText p)) - s_pos (scanner p))"
    using fs by (simp add: reported_simps [OF r] remaining_def)
  show less: "remaining q < remaining p" if nz: "currentToken p \<noteq> EndOfFileToken"
  proof -
    have "getNodePos p < s_pos (scanner p)" using p nz by (simp add: well_def getNodePos_def)
    with le(2) nz show ?thesis by (auto simp: rem remaining_def [of p])
  qed
  show "remaining q \<le> remaining p"
  proof (cases "currentToken p = EndOfFileToken")
    case True
    then have "token s = EndOfFileToken"
      using p pos src le by (auto simp: well_def split: if_splits)
    then show ?thesis by (simp add: rem)
  qed (use less in simp)
qed

lemma nextToken_Some: "well p \<Longrightarrow> \<exists>k q. nextToken p = Some (k, q)"
  by (metis nextToken_state)

text \<open>Rules that move: the current token is known, so it is no end of the file.\<close>

named_theorems tokens \<open>methods that consume the current token, whose kind is known\<close>
named_theorems parse \<open>the rules of the methods, each with what its caller may assume\<close>

lemma nextToken_moves:
  assumes "follows a p" and "currentToken p \<noteq> EndOfFileToken"
    and "\<And>k q. follows a q \<Longrightarrow> getNodePos p < getNodePos q \<Longrightarrow> remaining q < remaining p \<Longrightarrow> k = currentToken q \<Longrightarrow> Q k q"
  shows "returns a (nextToken p) Q"
proof -
  from assms(1) have w: "well p" by (rule follows_well)
  obtain k q where n: "nextToken p = Some (k, q)" using nextToken_Some [OF w] by blast
  note q = nextToken_well [OF w n]
  from follows_trans [OF assms(1) q(1)] assms(3) q(2,5,6) assms(2) n show ?thesis by (auto simp: returns_def)
qed

lemma nextToken_stays:
  assumes "follows a p"
    and "\<And>k q. follows a q \<Longrightarrow> getNodePos p \<le> getNodePos q \<Longrightarrow> remaining q \<le> remaining p \<Longrightarrow> k = currentToken q \<Longrightarrow> Q k q"
  shows "returns a (nextToken p) Q"
proof -
  from assms(1) have w: "well p" by (rule follows_well)
  obtain k q where n: "nextToken p = Some (k, q)" using nextToken_Some [OF w] by blast
  note q = nextToken_well [OF w n]
  from follows_trans [OF assms(1) q(1)] assms(2) q(2,3,4) n show ?thesis by (auto simp: returns_def)
qed

text \<open>A method that only reports.\<close>

lemma returns_reported:
  assumes "follows a p" and "reported p q" and "follows a q \<Longrightarrow> getNodePos q = getNodePos p \<Longrightarrow> remaining q = remaining p \<Longrightarrow>
      currentToken q = currentToken p \<Longrightarrow> scanner q = scanner p \<Longrightarrow> Q x q"
  shows "returns a (Some (x, q)) Q"
  using assms reported_simps [OF assms(2)] by (auto simp: returns_def)

lemma reported_parseErrorAtCurrentToken: "reported p (parseErrorAtCurrentToken m args p)"
  by (simp add: parseErrorAtCurrentToken_def parseErrorAt_def reported_parseErrorAtPosition)

section \<open>Postconditions\<close>

text \<open>
  A value between two positions, by the type of the value; and the postconditions: the method moves
  forward, with a value in the range it passed over, or it consumes at least one token.
\<close>

definition any_in :: "nat \<Rightarrow> nat \<Rightarrow> 'a \<Rightarrow> bool" where
  "any_in lo hi x \<longleftrightarrow> True"

definition node_in :: "nat \<Rightarrow> nat \<Rightarrow> Node \<Rightarrow> bool" where
  "node_in lo hi n \<longleftrightarrow> nested n \<and> lo \<le> Pos n \<and> End n \<le> hi"

definition opt_node_in :: "nat \<Rightarrow> nat \<Rightarrow> Node option \<Rightarrow> bool" where
  "opt_node_in lo hi x \<longleftrightarrow> pred_option (node_in lo hi) x"

definition nodes_in :: "nat \<Rightarrow> nat \<Rightarrow> Node list \<Rightarrow> bool" where
  "nodes_in lo hi ns \<longleftrightarrow> list_all (node_in lo hi) ns"

definition array_in :: "nat \<Rightarrow> nat \<Rightarrow> NodeArray \<Rightarrow> bool" where
  "array_in = array_nested"

definition opt_array_in :: "nat \<Rightarrow> nat \<Rightarrow> NodeArray option \<Rightarrow> bool" where
  "opt_array_in lo hi x \<longleftrightarrow> pred_option (array_in lo hi) x"

definition passes :: "(nat \<Rightarrow> nat \<Rightarrow> 'a \<Rightarrow> bool) \<Rightarrow> Parser \<Rightarrow> 'a \<Rightarrow> Parser \<Rightarrow> bool" where
  "passes V p x q \<longleftrightarrow>
     getNodePos p \<le> getNodePos q \<and> remaining q \<le> remaining p \<and> V (getNodePos p) (getNodePos q) x"

definition moves :: "(nat \<Rightarrow> nat \<Rightarrow> 'a \<Rightarrow> bool) \<Rightarrow> Parser \<Rightarrow> 'a \<Rightarrow> Parser \<Rightarrow> bool" where
  "moves V p x q \<longleftrightarrow> passes V p x q \<and> remaining q < remaining p"

definition starts :: "(Parser \<Rightarrow> bool) \<Rightarrow> (nat \<Rightarrow> nat \<Rightarrow> 'a \<Rightarrow> bool) \<Rightarrow> Parser \<Rightarrow> 'a \<Rightarrow> Parser \<Rightarrow> bool" where
  "starts S V p x q \<longleftrightarrow> passes V p x q \<and> (S p \<longrightarrow> remaining q < remaining p)"

text \<open>A node that begins before the method does; it consumes a token where the condition holds.\<close>

definition spans :: "bool \<Rightarrow> nat \<Rightarrow> Parser \<Rightarrow> Node \<Rightarrow> Parser \<Rightarrow> bool" where
  "spans c position p x q \<longleftrightarrow>
     getNodePos p \<le> getNodePos q \<and> remaining q \<le> remaining p \<and> (c \<longrightarrow> remaining q < remaining p)
     \<and> node_in position (getNodePos q) x"

text \<open>A test that leaves the state as it is, and an optional token.\<close>

definition tests :: "(bool \<Rightarrow> bool) \<Rightarrow> Parser \<Rightarrow> bool \<Rightarrow> Parser \<Rightarrow> bool" where
  "tests C p b q \<longleftrightarrow> q = p \<and> C b"

definition takes :: "Parser \<Rightarrow> bool \<Rightarrow> Parser \<Rightarrow> bool" where
  "takes p b q \<longleftrightarrow>
     getNodePos p \<le> getNodePos q \<and> remaining q \<le> remaining p \<and> (b \<longrightarrow> remaining q < remaining p) \<and> (\<not> b \<longrightarrow> q = p)"

lemma passesI:
  "getNodePos p \<le> getNodePos q \<Longrightarrow> remaining q \<le> remaining p \<Longrightarrow> V (getNodePos p) (getNodePos q) x \<Longrightarrow> passes V p x q"
  by (simp add: passes_def)

lemma movesI:
  "getNodePos p \<le> getNodePos q \<Longrightarrow> remaining q < remaining p \<Longrightarrow> V (getNodePos p) (getNodePos q) x \<Longrightarrow> moves V p x q"
  by (simp add: passes_def moves_def)

lemma startsI:
  "getNodePos p \<le> getNodePos q \<Longrightarrow> remaining q \<le> remaining p \<Longrightarrow> V (getNodePos p) (getNodePos q) x \<Longrightarrow>
     (S p \<Longrightarrow> remaining q < remaining p) \<Longrightarrow> starts S V p x q"
  by (simp add: passes_def starts_def)

lemma testsI: "C b \<Longrightarrow> tests C p b p"
  by (simp add: tests_def)

lemma takesI:
  "getNodePos p \<le> getNodePos q \<Longrightarrow> remaining q \<le> remaining p \<Longrightarrow> (b \<Longrightarrow> remaining q < remaining p) \<Longrightarrow>
     (\<not> b \<Longrightarrow> q = p) \<Longrightarrow> takes p b q"
  by (simp add: takes_def)

lemma spansI:
  "getNodePos p \<le> getNodePos q \<Longrightarrow> remaining q \<le> remaining p \<Longrightarrow> (c \<Longrightarrow> remaining q < remaining p) \<Longrightarrow>
     node_in position (getNodePos q) x \<Longrightarrow> spans c position p x q"
  by (simp add: spans_def)

text \<open>What the caller may assume after a call with a postcondition.\<close>

lemma then_passes:
  assumes "returns a m (passes V p)"
    and "\<And>x q. follows a q \<Longrightarrow> getNodePos p \<le> getNodePos q \<Longrightarrow> remaining q \<le> remaining p \<Longrightarrow>
      V (getNodePos p) (getNodePos q) x \<Longrightarrow> Q x q"
  shows "returns a m Q"
  using assms by (auto simp: returns_def passes_def)

lemma then_moves:
  assumes "returns a m (moves V p)"
    and "\<And>x q. follows a q \<Longrightarrow> getNodePos p \<le> getNodePos q \<Longrightarrow> remaining q < remaining p \<Longrightarrow>
      V (getNodePos p) (getNodePos q) x \<Longrightarrow> Q x q"
  shows "returns a m Q"
  using assms by (auto simp: returns_def passes_def moves_def)

lemma then_starts:
  assumes "returns a m (starts S V p)"
    and "\<And>x q. follows a q \<Longrightarrow> getNodePos p \<le> getNodePos q \<Longrightarrow> remaining q \<le> remaining p \<Longrightarrow>
      V (getNodePos p) (getNodePos q) x \<Longrightarrow> S p \<longrightarrow> remaining q < remaining p \<Longrightarrow> Q x q"
  shows "returns a m Q"
  using assms by (auto simp: returns_def passes_def starts_def)

lemma then_tests: "returns a m (tests C p) \<Longrightarrow> (\<And>b. C b \<Longrightarrow> Q b p) \<Longrightarrow> returns a m Q"
  by (auto simp: returns_def tests_def)

lemma then_takes:
  assumes "returns a m (takes p)"
    and "\<And>b q. follows a q \<Longrightarrow> getNodePos p \<le> getNodePos q \<Longrightarrow> remaining q \<le> remaining p \<Longrightarrow>
      b \<longrightarrow> remaining q < remaining p \<Longrightarrow> \<not> b \<longrightarrow> q = p \<Longrightarrow> Q b q"
  shows "returns a m Q"
  using assms by (auto simp: returns_def takes_def)

text \<open>Values stay in a larger range.\<close>

lemma any_in [simp]: "any_in lo hi x"
  by (simp add: any_in_def)

lemma nested_Pos_End: "nested n \<Longrightarrow> Pos n \<le> End n"
  by (cases n) simp

lemma node_in_mono: "node_in lo hi n \<Longrightarrow> lo' \<le> lo \<Longrightarrow> hi \<le> hi' \<Longrightarrow> node_in lo' hi' n"
  by (simp add: node_in_def)

lemma node_in_Pos: "node_in lo hi n \<Longrightarrow> lo \<le> Pos n" "node_in lo hi n \<Longrightarrow> Pos n \<le> hi"
  using nested_Pos_End [of n] by (auto simp: node_in_def)

lemma opt_node_in_mono: "opt_node_in lo hi x \<Longrightarrow> lo' \<le> lo \<Longrightarrow> hi \<le> hi' \<Longrightarrow> opt_node_in lo' hi' x"
  by (auto simp: opt_node_in_def elim: option.pred_mono_strong intro: node_in_mono)

lemma nodes_in_mono: "nodes_in lo hi ns \<Longrightarrow> lo' \<le> lo \<Longrightarrow> hi \<le> hi' \<Longrightarrow> nodes_in lo' hi' ns"
  by (auto simp: nodes_in_def elim: list.pred_mono_strong intro: node_in_mono)

lemma array_in_mono: "array_in lo hi x \<Longrightarrow> lo' \<le> lo \<Longrightarrow> hi \<le> hi' \<Longrightarrow> array_in lo' hi' x"
  by (cases x) (auto simp: array_in_def)

lemma opt_array_in_mono: "opt_array_in lo hi x \<Longrightarrow> lo' \<le> lo \<Longrightarrow> hi \<le> hi' \<Longrightarrow> opt_array_in lo' hi' x"
  by (auto simp: opt_array_in_def elim: option.pred_mono_strong intro: array_in_mono)

lemmas value_mono = node_in_mono opt_node_in_mono nodes_in_mono array_in_mono opt_array_in_mono

lemma opt_in_simps [simp]:
  "opt_node_in lo hi None" "opt_node_in lo hi (Some n) = node_in lo hi n"
  "opt_array_in lo hi None" "opt_array_in lo hi (Some a) = array_in lo hi a"
  "nodes_in lo hi []" "nodes_in lo hi (ns @ ms) = (nodes_in lo hi ns \<and> nodes_in lo hi ms)"
  "nodes_in lo hi (n # ns) = (node_in lo hi n \<and> nodes_in lo hi ns)"
  by (simp_all add: opt_node_in_def opt_array_in_def nodes_in_def)

lemma array_in_created:
  "nodes_in lo hi ns \<Longrightarrow> a \<le> pos \<Longrightarrow> pos \<le> lo \<Longrightarrow> pos \<le> getNodePos p \<Longrightarrow> hi \<le> getNodePos p \<Longrightarrow>
     getNodePos p \<le> b \<Longrightarrow> array_in a b (createNodeArray ns pos p)"
  by (auto simp: createNodeArray_def node_in_def nodes_in_def list_all_iff array_in_def)

lemma array_in_empty:
  "a \<le> pos \<Longrightarrow> pos \<le> getNodePos p \<Longrightarrow> getNodePos p \<le> b \<Longrightarrow> array_in a b (createNodeArray [] pos p)"
  by (simp add: createNodeArray_def array_in_def)

text \<open>The same with where the node begins.\<close>

lemma then_node_passes:
  assumes "returns a m (passes node_in p)"
    and "\<And>x q. follows a q \<Longrightarrow> getNodePos p \<le> getNodePos q \<Longrightarrow> remaining q \<le> remaining p \<Longrightarrow>
      node_in (getNodePos p) (getNodePos q) x \<Longrightarrow> getNodePos p \<le> Pos x \<Longrightarrow> Pos x \<le> getNodePos q \<Longrightarrow> Q x q"
  shows "returns a m Q"
  by (rule then_passes [OF assms(1)]) (rule assms(2); simp add: node_in_Pos)

lemma then_node_moves:
  assumes "returns a m (moves node_in p)"
    and "\<And>x q. follows a q \<Longrightarrow> getNodePos p \<le> getNodePos q \<Longrightarrow> remaining q < remaining p \<Longrightarrow>
      node_in (getNodePos p) (getNodePos q) x \<Longrightarrow> getNodePos p \<le> Pos x \<Longrightarrow> Pos x \<le> getNodePos q \<Longrightarrow> Q x q"
  shows "returns a m Q"
  by (rule then_moves [OF assms(1)]) (rule assms(2); simp add: node_in_Pos)

lemma then_node_starts:
  assumes "returns a m (starts S node_in p)"
    and "\<And>x q. follows a q \<Longrightarrow> getNodePos p \<le> getNodePos q \<Longrightarrow> remaining q \<le> remaining p \<Longrightarrow>
      node_in (getNodePos p) (getNodePos q) x \<Longrightarrow> getNodePos p \<le> Pos x \<Longrightarrow> Pos x \<le> getNodePos q \<Longrightarrow>
      S p \<longrightarrow> remaining q < remaining p \<Longrightarrow> Q x q"
  shows "returns a m Q"
  by (rule then_starts [OF assms(1)]) (rule assms(2); simp add: node_in_Pos)

lemma then_spans:
  assumes "returns a m (spans c position p)"
    and "\<And>x q. follows a q \<Longrightarrow> getNodePos p \<le> getNodePos q \<Longrightarrow> remaining q \<le> remaining p \<Longrightarrow>
      node_in position (getNodePos q) x \<Longrightarrow> position \<le> Pos x \<Longrightarrow> Pos x \<le> getNodePos q \<Longrightarrow>
      c \<longrightarrow> remaining q < remaining p \<Longrightarrow> Q x q"
  shows "returns a m Q"
  by (rule returns_weaken [OF assms(1)]) (auto simp: spans_def node_in_Pos intro!: assms(2))

section \<open>Methods on the current token\<close>

lemma nextToken_starts [THEN then_starts, parse]:
  "follows a p \<Longrightarrow> returns a (nextToken p) (starts (\<lambda>p. currentToken p \<noteq> EndOfFileToken) any_in p)"
  by (cases "currentToken p = EndOfFileToken")
    (auto intro!: startsI intro: nextToken_moves nextToken_stays less_imp_le)

lemma nextToken_consumes:
  "currentToken p = kind \<Longrightarrow> follows a p \<Longrightarrow> kind \<noteq> EndOfFileToken \<Longrightarrow> returns a (nextToken p) (moves any_in p)"
  by (rule nextToken_moves) (auto intro!: movesI)

lemma parseExpected_consumes:
  "currentToken p = kind \<Longrightarrow> follows a p \<Longrightarrow> kind \<noteq> EndOfFileToken \<Longrightarrow>
     returns a (parseExpected kind m p) (moves any_in p)"
  unfolding parseExpected_def by (auto intro!: returns_bind nextToken_moves returns_Some movesI)

text \<open>The kinds that a method is called with.\<close>

lemma no_end_of_file: "Punct k \<noteq> EndOfFileToken" "Reserved w \<noteq> EndOfFileToken" "Identifier \<noteq> EndOfFileToken"
  by simp_all

lemmas [tokens] =
  no_end_of_file [THEN [3] nextToken_consumes, THEN then_moves]
  no_end_of_file [THEN [3] parseExpected_consumes, THEN then_moves]

lemma parseExpected_starts [THEN then_starts, parse]:
  assumes "follows a p" and "kind \<noteq> EndOfFileToken"
  shows "returns a (parseExpected kind m p) (starts (\<lambda>p. currentToken p = kind) any_in p)"
proof (cases "currentToken p = kind")
  case True
  then show ?thesis
    unfolding parseExpected_def using assms
    by (auto intro!: returns_bind nextToken_moves returns_Some startsI intro: less_imp_le)
next
  case False
  have rep: "reported p (case m of None \<Rightarrow> parseErrorAtCurrentToken Expected0 [tokenToString kind] p
      | Some m \<Rightarrow> parseErrorAtCurrentToken m [] p)"
    by (auto simp: reported_parseErrorAtCurrentToken split: option.splits)
  show ?thesis
    unfolding parseExpected_def if_not_P [OF False]
    by (rule returns_reported [OF assms(1) rep]) (rule startsI; use False in simp)
qed

lemma parseOptional_takes [THEN then_takes, parse]:
  "follows a p \<Longrightarrow> kind \<noteq> EndOfFileToken \<Longrightarrow> returns a (parseOptional kind p) (takes p)"
  unfolding parseOptional_def
  by (auto intro!: returns_bind nextToken_moves returns_Some takesI intro: less_imp_le)

lemma parseOptional_kind:
  assumes "follows a p" and "kind \<noteq> EndOfFileToken"
    and "\<And>b q. follows a q \<Longrightarrow> getNodePos p \<le> getNodePos q \<Longrightarrow> remaining q \<le> remaining p \<Longrightarrow>
      b \<longrightarrow> remaining q < remaining p \<Longrightarrow> \<not> b \<longrightarrow> q = p \<Longrightarrow> b \<longleftrightarrow> currentToken p = kind \<Longrightarrow> Q b q"
  shows "returns a (parseOptional kind p) Q"
  using assms unfolding parseOptional_def
  by (auto intro!: returns_bind nextToken_moves returns_Some intro: less_imp_le)

lemma parseContextualKeyword_takes:
  "follows a p \<Longrightarrow>
     returns a (parseContextualKeyword name p) (\<lambda>b q. takes p b q \<and> b = isContextualKeyword name p)"
  unfolding parseContextualKeyword_def
  by (auto simp: isContextualKeyword_def intro!: returns_bind nextToken_moves returns_Some takesI intro: less_imp_le)

lemma then_contextual [parse]:
  assumes "follows a p"
    and "\<And>b q. follows a q \<Longrightarrow> getNodePos p \<le> getNodePos q \<Longrightarrow> remaining q \<le> remaining p \<Longrightarrow>
      b \<longrightarrow> remaining q < remaining p \<Longrightarrow> \<not> b \<longrightarrow> q = p \<Longrightarrow> b = isContextualKeyword name p \<Longrightarrow> Q b q"
  shows "returns a (parseContextualKeyword name p) Q"
  by (rule returns_weaken [OF parseContextualKeyword_takes [OF assms(1)]]) (auto simp: takes_def intro!: assms(2))

section \<open>Finishing a node\<close>

text \<open>A field of a node that is about to be finished.\<close>

definition field_in :: "nat \<Rightarrow> nat \<Rightarrow> Field \<Rightarrow> bool" where
  "field_in = field_nested"

lemma field_in_values:
  "node_in lo hi n \<Longrightarrow> a \<le> lo \<Longrightarrow> hi \<le> b \<Longrightarrow> field_in a b (Child (Some n))"
  "opt_node_in lo hi x \<Longrightarrow> a \<le> lo \<Longrightarrow> hi \<le> b \<Longrightarrow> field_in a b (Child x)"
  "array_in lo hi ns \<Longrightarrow> a \<le> lo \<Longrightarrow> hi \<le> b \<Longrightarrow> field_in a b (Children (Some ns))"
  "opt_array_in lo hi nx \<Longrightarrow> a \<le> lo \<Longrightarrow> hi \<le> b \<Longrightarrow> field_in a b (Children nx)"
  "opt_array_in lo hi nx \<Longrightarrow> a \<le> lo \<Longrightarrow> hi \<le> b \<Longrightarrow> field_in a b (Unvisited nx)"
  by (auto simp: field_in_def node_in_def opt_node_in_def opt_array_in_def array_in_def
      dest: array_in_mono [unfolded array_in_def] split: option.splits)
    (cases x; cases nx; auto simp: node_in_def array_in_def dest: array_in_mono [unfolded array_in_def])+

lemma field_in_array:
  "nodes_in lo hi ns \<Longrightarrow> a \<le> pos \<Longrightarrow> pos \<le> lo \<Longrightarrow> pos \<le> getNodePos p \<Longrightarrow> hi \<le> getNodePos p \<Longrightarrow>
     getNodePos p \<le> b \<Longrightarrow> field_in a b (Children (Some (createNodeArray ns pos p)))"
  using array_in_created [of lo hi ns a pos p b] by (simp add: field_in_def array_in_def)

lemma field_in_simps [simp]:
  "field_in a b (Operator k)" "field_in a b (Flag f)" "field_in a b (Text s)" "field_in a b (Count n)"
  "field_in a b (Child None)" "field_in a b (Children None)" "field_in a b (Unvisited None)"
  "field_in a b (Child (Some (NewIdentifier [])))"
  by (simp_all add: field_in_def placeholder_def)

definition finished :: "nat \<Rightarrow> Parser \<Rightarrow> Node \<Rightarrow> Parser \<Rightarrow> bool" where
  "finished position p x q \<longleftrightarrow>
     getNodePos q = getNodePos p \<and> remaining q = remaining p \<and> currentToken q = currentToken p
     \<and> node_in position (getNodePos p) x"

lemma then_finished:
  assumes "returns a m (finished position p)"
    and "\<And>x q. follows a q \<Longrightarrow> getNodePos q = getNodePos p \<Longrightarrow> remaining q = remaining p \<Longrightarrow>
      currentToken q = currentToken p \<Longrightarrow> node_in position (getNodePos p) x \<Longrightarrow> position \<le> Pos x \<Longrightarrow>
      Pos x \<le> getNodePos p \<Longrightarrow> Q x q"
  shows "returns a m Q"
  by (rule returns_weaken [OF assms(1)]) (auto simp: finished_def node_in_Pos intro!: assms(2))

lemma finishedI:
  "getNodePos q = getNodePos p \<Longrightarrow> remaining q = remaining p \<Longrightarrow> currentToken q = currentToken p \<Longrightarrow>
     node_in position (getNodePos p) x \<Longrightarrow> finished position p x q"
  by (simp add: finished_def)

lemma finishNode_finished:
  assumes "follows a p" and "position \<le> getNodePos p" and "dotted (node_kind n) position (payload n)"
    and "list_all (field_in position (getNodePos p)) (payload n)"
  shows "returns a (finishNode n position p) (finished position p)"
proof -
  let ?x = "Node (node_kind n) position (getNodePos p) (has_error n \<or> parseErrorBeforeNextFinishedNode p) (payload n)"
  let ?q = "p\<lparr>parseErrorBeforeNextFinishedNode := False\<rparr>"
  have rep: "reported p ?q" by (rule reportedI [where ds = "[]" and e = False]) simp
  have n: "node_in position (getNodePos p) ?x"
    using assms(2-) by (auto simp: node_in_def list_all_iff field_in_def)
  show ?thesis
    unfolding finishNode_def by (rule returns_reported [OF assms(1) rep]) (simp add: n finished_def)
qed

lemmas [parse] = finishNode_finished [THEN then_finished]

section \<open>Lookahead\<close>

text \<open>Whatever a lookahead reads, the parser is left as it was.\<close>

lemma lookahead_restores:
  assumes "follows p q" and "well p"
  shows "q\<lparr>scanner := restore (snapshot (scanner p)) (scanner q), currentToken := currentToken p,
      parseDiagnostics := take (length (parseDiagnostics p)) (parseDiagnostics q),
      parseErrorBeforeNextFinishedNode := parseErrorBeforeNextFinishedNode p\<rparr> = p"
proof -
  from assms obtain ds where ds: "parseDiagnostics q = parseDiagnostics p @ ds" by (auto simp: follows_def prefix_def)
  have "restore (snapshot (scanner p)) (scanner q) = scanner p"
    by (rule Scanner.Scanner.equality) (use assms in \<open>auto simp: restore_def snapshot_def follows_def well_def inside_def\<close>)
  then show ?thesis by - (rule Parser.equality, use assms(1) ds in \<open>auto simp: follows_def\<close>)
qed

lemma parserLookAhead_tests:
  assumes "follows a p" and "returns p (cb p) (\<lambda>x q. C x)"
  shows "returns a (parserLookAhead cb p) (tests C p)"
proof -
  from assms(1) have w: "well p" by (rule follows_well)
  from assms(2) obtain x q where "cb p = Some (x, q)" "follows p q" "C x" by (auto simp: returns_def)
  then have "parserLookAhead cb p = Some (x, p)"
    unfolding parserLookAhead_def by (simp add: lookahead_restores [OF _ w])
  with assms(1) \<open>C x\<close> show ?thesis by (simp add: returns_def tests_def)
qed

section \<open>Loops and optional parts\<close>

text \<open>The step of a loop: a step after which the loop goes on has consumed a token.\<close>

definition steps :: "('a \<Rightarrow> Parser \<Rightarrow> bool) \<Rightarrow> Parser \<Rightarrow> bool \<times> 'a \<Rightarrow> Parser \<Rightarrow> bool" where
  "steps I p r q \<longleftrightarrow>
     getNodePos p \<le> getNodePos q \<and> remaining q \<le> remaining p \<and> (fst r \<longrightarrow> remaining q < remaining p) \<and> I (snd r) q"

lemma stepsI:
  "getNodePos p \<le> getNodePos q \<Longrightarrow> remaining q < remaining p \<Longrightarrow> I x q \<Longrightarrow> steps I p (True, x) q"
  "getNodePos p \<le> getNodePos q \<Longrightarrow> remaining q \<le> remaining p \<Longrightarrow> I x q \<Longrightarrow> steps I p (False, x) q"
  by (simp_all add: steps_def)

text \<open>A step after which the loop has the invariant \<open>I\<close> where it goes on, and \<open>J\<close> where it ends.\<close>

definition exits :: "('a \<Rightarrow> Parser \<Rightarrow> bool) \<Rightarrow> ('a \<Rightarrow> Parser \<Rightarrow> bool) \<Rightarrow> Parser \<Rightarrow> bool \<times> 'a \<Rightarrow> Parser \<Rightarrow> bool" where
  "exits I J p r q \<longleftrightarrow>
     getNodePos p \<le> getNodePos q \<and> remaining q \<le> remaining p
     \<and> (if fst r then remaining q < remaining p \<and> I (snd r) q else J (snd r) q)"

lemma exitsI:
  "getNodePos p \<le> getNodePos q \<Longrightarrow> remaining q < remaining p \<Longrightarrow> I x q \<Longrightarrow> exits I J p (True, x) q"
  "getNodePos p \<le> getNodePos q \<Longrightarrow> remaining q \<le> remaining p \<Longrightarrow> J x q \<Longrightarrow> exits I J p (False, x) q"
  by (simp_all add: exits_def)

lemma loop_exits:
  assumes step: "\<And>x q. follows a q \<Longrightarrow> getNodePos p \<le> getNodePos q \<Longrightarrow> remaining q \<le> remaining p \<Longrightarrow> I x q \<Longrightarrow>
      returns a (body x q) (exits I J q)"
    and "follows a q" and "getNodePos p \<le> getNodePos q" and "remaining q \<le> remaining p" and "I x q" and "remaining q < n"
  shows "returns a (loop n body x q) (\<lambda>x r. getNodePos p \<le> getNodePos r \<and> remaining r \<le> remaining q \<and> J x r)"
  using assms(2-)
proof (induction n arbitrary: x q)
  case (Suc n)
  from step [OF Suc.prems(1-4)] obtain b y r where m: "body x q = Some ((b, y), r)" "follows a r" "exits I J q (b, y) r"
    by (auto simp: returns_def)
  then have r: "body x q = Some ((b, y), r)" "follows a r" "getNodePos q \<le> getNodePos r" "remaining r \<le> remaining q"
      "if b then remaining r < remaining q \<and> I y r else J y r"
    by (auto simp: exits_def)
  show ?case
  proof (cases b)
    case True
    with r Suc.prems have "getNodePos p \<le> getNodePos r" "remaining r \<le> remaining p" "I y r" "remaining r < n" by simp_all
    from Suc.IH [OF r(2) this] have "returns a (loop n body y r) (\<lambda>x s. getNodePos p \<le> getNodePos s \<and> remaining s \<le> remaining r \<and> J x s)" .
    moreover have "loop (Suc n) body x q = loop n body y r" using r(1) True by simp
    ultimately show ?thesis using r(4) by (auto elim: returns_weaken)
  next
    case False
    with r Suc.prems show ?thesis by (auto simp: returns_def)
  qed
qed simp

lemma remaining_fuel: "follows a p \<Longrightarrow> remaining p < length (sourceText p) + 2"
  using remaining_less [of p] by (simp add: follows_well)

lemma parse_loop_exits:
  assumes "follows a p" and "I x p"
    and "\<And>x q. follows a q \<Longrightarrow> getNodePos p \<le> getNodePos q \<Longrightarrow> remaining q \<le> remaining p \<Longrightarrow> I x q \<Longrightarrow>
      returns a (body x q) (exits I J q)"
  shows "returns a (parse_loop body x p) (\<lambda>x q. getNodePos p \<le> getNodePos q \<and> remaining q \<le> remaining p \<and> J x q)"
  unfolding parse_loop_def
  using assms(1,2) remaining_fuel [OF assms(1)] by (intro loop_exits [where p = p and I = I] assms(3)) auto

lemma parse_loop_returns:
  assumes "follows a p" and "I x p"
    and "\<And>x q. follows a q \<Longrightarrow> getNodePos p \<le> getNodePos q \<Longrightarrow> remaining q \<le> remaining p \<Longrightarrow> I x q \<Longrightarrow>
      returns a (body x q) (steps I q)"
  shows "returns a (parse_loop body x p) (\<lambda>x q. getNodePos p \<le> getNodePos q \<and> remaining q \<le> remaining p \<and> I x q)"
  using assms(1,2)
  by (rule parse_loop_exits [where I = I], intro returns_weaken [OF assms(3)]) (auto simp: steps_def exits_def)

text \<open>A loop that ends in its first iteration.\<close>

lemma parse_loop_once: "body x p = Some ((False, y), q) \<Longrightarrow> parse_loop body x p = Some (y, q)"
  by (simp add: parse_loop_def)

text \<open>A loop whose value stays in the range from a fixed position to the current one.\<close>

definition grows :: "(nat \<Rightarrow> nat \<Rightarrow> 'a \<Rightarrow> bool) \<Rightarrow> nat \<Rightarrow> Parser \<Rightarrow> 'a \<Rightarrow> Parser \<Rightarrow> bool" where
  "grows V lo p x q \<longleftrightarrow>
     getNodePos p \<le> getNodePos q \<and> remaining q \<le> remaining p \<and> V lo (getNodePos q) x"

lemma then_grows:
  assumes "returns a m (grows V lo p)"
    and "\<And>x q. follows a q \<Longrightarrow> getNodePos p \<le> getNodePos q \<Longrightarrow> remaining q \<le> remaining p \<Longrightarrow>
      V lo (getNodePos q) x \<Longrightarrow> Q x q"
  shows "returns a m Q"
  using assms by (auto simp: returns_def grows_def)

lemma then_node_grows:
  assumes "returns a m (grows node_in lo p)"
    and "\<And>x q. follows a q \<Longrightarrow> getNodePos p \<le> getNodePos q \<Longrightarrow> remaining q \<le> remaining p \<Longrightarrow>
      node_in lo (getNodePos q) x \<Longrightarrow> lo \<le> Pos x \<Longrightarrow> Pos x \<le> getNodePos q \<Longrightarrow> Q x q"
  shows "returns a m Q"
  by (rule then_grows [OF assms(1)]) (rule assms(2); simp add: node_in_Pos)

lemma growsI:
  "getNodePos p \<le> getNodePos q \<Longrightarrow> remaining q \<le> remaining p \<Longrightarrow> V lo (getNodePos q) x \<Longrightarrow> grows V lo p x q"
  by (simp add: grows_def)

lemma parse_loop_grows:
  assumes "follows a p" and "V lo (getNodePos p) x"
    and "\<And>x q. follows a q \<Longrightarrow> getNodePos p \<le> getNodePos q \<Longrightarrow> remaining q \<le> remaining p \<Longrightarrow> V lo (getNodePos q) x \<Longrightarrow>
      returns a (body x q) (steps (\<lambda>x q. V lo (getNodePos q) x) q)"
  shows "returns a (parse_loop body x p) (grows V lo p)"
  unfolding grows_def using assms by (rule parse_loop_returns [where I = "\<lambda>x q. V lo (getNodePos q) x"])

text \<open>\<open>collect\<close>: an element is parsed only after the condition has held, and the two consume a token.\<close>

lemma collect_grows:
  assumes "follows a p" and "nodes_in lo (getNodePos p) list" and "lo \<le> getNodePos p"
    and "\<And>q. follows a q \<Longrightarrow> getNodePos p \<le> getNodePos q \<Longrightarrow> remaining q \<le> remaining p \<Longrightarrow>
      returns a (cond q) (\<lambda>b r. getNodePos q \<le> getNodePos r \<and> remaining r \<le> remaining q \<and>
        (b \<longrightarrow> returns a (element r) (\<lambda>n s. getNodePos r \<le> getNodePos s \<and> remaining s < remaining q
          \<and> node_in (getNodePos r) (getNodePos s) n)))"
  shows "returns a (collect cond element list p) (grows nodes_in lo p)"
  unfolding collect_def
proof (rule parse_loop_grows [where V = nodes_in, OF assms(1,2)])
  fix list q
  assume q: "follows a q" "getNodePos p \<le> getNodePos q" "remaining q \<le> remaining p" "nodes_in lo (getNodePos q) list"
  show "returns a (Option.bind (cond q) (\<lambda>(go, p). if go then Option.bind (element p) (\<lambda>(n, p). Some ((True, list @ [n]), p))
      else Some ((False, list), p))) (steps (\<lambda>x q. nodes_in lo (getNodePos q) x) q)"
  proof (rule returns_bind, rule returns_weaken [OF assms(4) [OF q(1-3)]])
    fix b r
    assume r: "follows a r" "getNodePos q \<le> getNodePos r \<and> remaining r \<le> remaining q \<and>
        (b \<longrightarrow> returns a (element r) (\<lambda>n s. getNodePos r \<le> getNodePos s \<and> remaining s < remaining q
          \<and> node_in (getNodePos r) (getNodePos s) n))"
    show "returns a (if b then Option.bind (element r) (\<lambda>(n, p). Some ((True, list @ [n]), p)) else Some ((False, list), r))
        (steps (\<lambda>x q. nodes_in lo (getNodePos q) x) q)"
    proof (rule returns_if)
      assume b
      with r have e: "returns a (element r) (\<lambda>n s. getNodePos r \<le> getNodePos s \<and> remaining s < remaining q
          \<and> node_in (getNodePos r) (getNodePos s) n)" by simp
      show "returns a (Option.bind (element r) (\<lambda>(n, p). Some ((True, list @ [n]), p))) (steps (\<lambda>x q. nodes_in lo (getNodePos q) x) q)"
        using q r assms(3)
        by (intro returns_bind returns_weaken [OF e] returns_Some stepsI)
          (auto intro: nodes_in_mono node_in_mono)
    next
      assume "\<not> b"
      with q r show "returns a (Some ((False, list), r)) (steps (\<lambda>x q. nodes_in lo (getNodePos q) x) q)"
        by (intro returns_Some stepsI) (auto intro: nodes_in_mono)
    qed
  qed
qed

lemma collect_empty [THEN then_grows, parse]:
  assumes "follows a p"
    and "\<And>q. follows a q \<Longrightarrow> getNodePos p \<le> getNodePos q \<Longrightarrow> remaining q \<le> remaining p \<Longrightarrow>
      returns a (cond q) (\<lambda>b r. getNodePos q \<le> getNodePos r \<and> remaining r \<le> remaining q \<and>
        (b \<longrightarrow> returns a (element r) (\<lambda>n s. getNodePos r \<le> getNodePos s \<and> remaining s < remaining q
          \<and> node_in (getNodePos r) (getNodePos s) n)))"
  shows "returns a (collect cond element [] p) (grows nodes_in (getNodePos p) p)"
  using assms by (intro collect_grows) simp_all

lemma collect_one:
  assumes "follows a p" and "node_in lo hi n" and "hi \<le> getNodePos p"
    and "\<And>q. follows a q \<Longrightarrow> getNodePos p \<le> getNodePos q \<Longrightarrow> remaining q \<le> remaining p \<Longrightarrow>
      returns a (cond q) (\<lambda>b r. getNodePos q \<le> getNodePos r \<and> remaining r \<le> remaining q \<and>
        (b \<longrightarrow> returns a (element r) (\<lambda>n s. getNodePos r \<le> getNodePos s \<and> remaining s < remaining q
          \<and> node_in (getNodePos r) (getNodePos s) n)))"
  shows "returns a (collect cond element [n] p) (grows nodes_in lo p)"
proof (rule collect_grows [OF assms(1)])
  show "nodes_in lo (getNodePos p) [n]" "lo \<le> getNodePos p"
    using assms(2,3) node_in_Pos [OF assms(2)] by (auto intro: node_in_mono)
qed (rule assms(4))

lemmas [parse] = collect_one [THEN then_grows]

text \<open>A list whose range begins where its first element does.\<close>

lemma node_in_from: "node_in lo hi n \<Longrightarrow> node_in (Pos n) hi n"
  by (simp add: node_in_def)

lemmas collect_from = node_in_from [THEN [2] collect_one, THEN then_grows]

lemma optionally_node [THEN then_passes, parse]:
  assumes "follows a p" and "c \<Longrightarrow> returns a (f p) (passes node_in p)"
  shows "returns a (optionally c f p) (passes opt_node_in p)"
  unfolding optionally_def
  using assms by (auto intro!: returns_bind returns_Some passesI simp: passes_def intro: returns_weaken)

lemma optionally_array [THEN then_passes, parse]:
  assumes "follows a p" and "c \<Longrightarrow> returns a (f p) (passes array_in p)"
  shows "returns a (optionally c f p) (passes opt_array_in p)"
  unfolding optionally_def
  using assms by (auto intro!: returns_bind returns_Some passesI simp: passes_def intro: returns_weaken)

section \<open>Names and tokens as nodes\<close>

lemma createMissingNode_finished [THEN then_finished, parse]:
  assumes "follows a p"
  shows "returns a (createMissingNode kind b m args p) (finished (getNodePos p) p)"
proof -
  let ?q = "if b then parseErrorAtPosition (getNodePos p) 0 (case m of None \<Rightarrow> Expected0 | Some m \<Rightarrow> m) args p
      else case m of Some m \<Rightarrow> parseErrorAtCurrentToken m args p | None \<Rightarrow> p"
  have rep: "reported p ?q"
    by (auto simp: reported_parseErrorAtPosition reported_parseErrorAtCurrentToken reported_refl split: option.splits)
  note q = reported_simps [OF rep]
  have eq: "finished (getNodePos ?q) ?q = finished (getNodePos p) p"
    by (intro ext) (simp only: finished_def q)
  have "returns a (finishNode (if kind = Identifier then NewIdentifier [] else newToken kind) (getNodePos ?q) ?q)
      (finished (getNodePos ?q) ?q)"
    by (rule finishNode_finished [OF q(7) [OF assms]]) (simp_all add: node_factory dotted_def)
  then show ?thesis unfolding createMissingNode_def Let_def eq .
qed

section \<open>The automation\<close>

text \<open>
  \<open>parse\<close> also holds the rules by the shape of a computation and of a postcondition; the rules of \<open>tokens\<close>
  and \<open>ranges\<close> apply where their first premise is at hand, the more special ones first, and \<open>payloads\<close> unfolds a node that is finished.
\<close>

lemma field_in_first: "node_in lo hi n \<Longrightarrow> hi \<le> b \<Longrightarrow> field_in (Pos n) b (Child (Some n))"
  by (auto simp: field_in_def node_in_def)

lemma nodes_in_snoc: "nodes_in lo hi ns \<Longrightarrow> node_in lo hi n \<Longrightarrow> nodes_in lo hi (ns @ [n])"
  by simp

lemma nodes_in_single: "node_in lo hi n \<Longrightarrow> nodes_in lo hi [n]"
  by simp

lemma opt_in_Some: "node_in lo hi n \<Longrightarrow> opt_node_in lo hi (Some n)" "array_in lo hi x \<Longrightarrow> opt_array_in lo hi (Some x)"
  by simp_all

lemma list_all_fields: "list_all P []" "P x \<Longrightarrow> list_all P xs \<Longrightarrow> list_all P (x # xs)"
  by simp_all

lemma returns_if_const:
  "returns a m Q \<Longrightarrow> returns a (if True then m else n) Q" "returns a n Q \<Longrightarrow> returns a (if False then m else n) Q"
  by simp_all

lemma returns_returns: "follows a p \<Longrightarrow> returns p m P \<Longrightarrow> returns a m P"
  by (erule returns_from)

lemma parserLookAhead_any [parse]:
  fixes cb :: "Parser \<Rightarrow> bool parsed"
  assumes "follows a p" and "returns p (cb p) (passes any_in p)" and "\<And>b. Q b p"
  shows "returns a (parserLookAhead cb p) Q"
proof -
  from assms(2) have "returns p (cb p) (\<lambda>x q. True)" by (rule returns_weaken) simp
  then have "returns a (parserLookAhead cb p) (tests (\<lambda>_. True) p)" by (rule parserLookAhead_tests [OF assms(1)])
  then show ?thesis by (rule then_tests) (rule assms(3))
qed

lemmas [parse] =
  returns_bind returns_Some returns_let returns_if_const returns_if conjI impI
  passesI movesI startsI spansI testsI takesI finishedI stepsI exitsI growsI
  any_in nodes_in_snoc nodes_in_single opt_in_Some array_in_empty list_all_fields field_in_simps

lemmas ranges = array_in_created value_mono field_in_first field_in_array field_in_values

lemmas payloads = node_factory dotted_def

lemma parseTokenNode_moves:
  "currentToken p = kind \<Longrightarrow> follows a p \<Longrightarrow> kind \<noteq> EndOfFileToken \<Longrightarrow> returns a (parseTokenNode p) (moves node_in p)"
  unfolding parseTokenNode_def
  by (assumption | (rule nextToken_consumes [THEN then_moves] ranges, assumption) | rule parse | linarith | simp add: payloads)+

lemma parseTokenNode_starts [THEN then_node_starts, parse]:
  "follows a p \<Longrightarrow> returns a (parseTokenNode p) (starts (\<lambda>p. currentToken p \<noteq> EndOfFileToken) node_in p)"
  unfolding parseTokenNode_def
  by (assumption | (rule tokens ranges, assumption) | rule parse | linarith | (simp; fail) | simp add: payloads)+

lemmas [tokens] = no_end_of_file [THEN [3] parseTokenNode_moves, THEN then_node_moves]

lemma parseIdentifier_starts [THEN then_node_starts, parse]:
  "follows a p \<Longrightarrow> returns a (parseIdentifier p) (starts (\<lambda>p. currentToken p = Identifier) node_in p)"
  unfolding parseIdentifier_def
  by (assumption | (rule tokens ranges, assumption) | rule parse | linarith | simp add: payloads)+

lemma next_is_passes [THEN then_passes, parse]: "follows a p \<Longrightarrow> returns a (next_is kind p) (passes any_in p)"
  unfolding next_is_def
  by (assumption | (rule tokens ranges, assumption) | rule parse | linarith | simp add: payloads)+

end
