(* ===== verification/ParserTypesCorrect.thy ===== *)
theory ParserTypesCorrect
  imports ParserTypes ParserLogic
begin

text \<open>
  Total correctness of the list parsers, names, annotations, types, modifiers and bodies of
  \<open>ParserTypes\<close>. The locale \<open>parsing\<close> states what the methods need of the recursion: the parser of the
  nonterminals returns wherever less than \<open>R\<close> is left of the text.
\<close>

section \<open>Tests and lists\<close>

lemma isRecordDeclarationStart_tests [THEN then_tests, parse]:
  "follows a p \<Longrightarrow> returns a (isRecordDeclarationStart p) (tests (\<lambda>b. b \<longrightarrow> isContextualKeyword ''record'' p) p)"
  unfolding isRecordDeclarationStart_def
  by (assumption | (rule tokens ranges, assumption)
    | rule parserLookAhead_tests follows_refl follows_well parse | linarith | simp add: payloads)+

lemma contextual_start: "isContextualKeyword name p \<Longrightarrow> currentToken p \<noteq> EndOfFileToken"
  by (simp add: isContextualKeyword_def)

lemma start_no_end:
  "isStartOfType p \<Longrightarrow> currentToken p \<noteq> EndOfFileToken"
  "isStartOfParameter p \<Longrightarrow> currentToken p \<noteq> EndOfFileToken"
  "isStartOfExpression p \<Longrightarrow> currentToken p \<noteq> EndOfFileToken"
  "isStartOfClassMember p \<Longrightarrow> currentToken p \<noteq> EndOfFileToken"
  "isStartOfStatementToken p \<Longrightarrow> currentToken p \<noteq> EndOfFileToken"
  "isModuleDirectiveStart p \<Longrightarrow> currentToken p \<noteq> EndOfFileToken"
  by (auto simp: isStartOfType_def isStartOfParameter_def isStartOfExpression_def isStartOfClassMember_def
      isStartOfStatementToken_def isModuleDirectiveStart_def isPrimitiveTypeKeyword_def isModifierKeyword_def
      isContextualKeyword_def)

lemmas starters = isStartOfType_def isStartOfParameter_def isStartOfExpression_def isStartOfClassMember_def
  isStartOfStatementToken_def isPrimitiveTypeKeyword_def isModifierKeyword_def

text \<open>What is known where a list finds an element.\<close>

definition list_first :: "ParsingContext \<Rightarrow> Parser \<Rightarrow> bool" where
  "list_first context p \<longleftrightarrow>
     currentToken p \<noteq> EndOfFileToken
     \<and> (context = ctxClassMembers \<longrightarrow> isStartOfClassMember p)
     \<and> (context = ctxBlockStatements \<longrightarrow> isStartOfStatementToken p)
     \<and> (context = ctxSwitchClauses \<longrightarrow> currentToken p = Reserved CaseKeyword \<or> currentToken p = Reserved DefaultKeyword)
     \<and> (context = ctxModuleDirectives \<longrightarrow> isModuleDirectiveStart p)"

lemma isStartOfStatement_tests:
  assumes "follows a p"
  shows "returns a (isStartOfStatement p) (tests (\<lambda>b. b \<longrightarrow> currentToken p \<noteq> EndOfFileToken) p)"
proof -
  have "returns a (isRecordDeclarationStart p) (tests (\<lambda>b. b \<longrightarrow> currentToken p \<noteq> EndOfFileToken) p)"
    by (rule isRecordDeclarationStart_tests [OF assms]) (auto simp: tests_def dest: contextual_start)
  with assms show ?thesis
    by (auto simp: isStartOfStatement_def isModifierKeyword_def tests_def dest: contextual_start
        intro!: returns_Some)
qed

lemma isListElement_tests [THEN then_tests, parse]:
  assumes "follows a p"
  shows "returns a (isListElement context p) (tests (\<lambda>b. b \<longrightarrow> list_first context p) p)"
  using isStartOfStatement_tests [OF assms] assms
  by (cases "context") (auto simp: isListElement_def list_first_def tests_def dest: start_no_end intro!: returns_Some)

lemma in_some_context_same: "follows a p \<Longrightarrow> returns a (in_some_context cs p) (\<lambda>_ q. q = p)"
proof (induction cs)
  case (Cons c cs)
  show ?case
    unfolding in_some_context.simps
    by (rule returns_if, rule returns_bind, rule isListElement_tests [OF Cons.prems])
      (auto intro!: returns_Some Cons)
qed (simp add: returns_Some)

lemma isInSomeParsingContext_tests [THEN then_tests, parse]:
  "follows a p \<Longrightarrow> returns a (isInSomeParsingContext p) (tests (\<lambda>_. True) p)"
  unfolding isInSomeParsingContext_def by (rule returns_weaken [OF in_some_context_same]) (auto simp: tests_def)

lemma nextToken_not_end:
  "currentToken p \<noteq> EndOfFileToken \<Longrightarrow> follows a p \<Longrightarrow> returns a (nextToken p) (moves any_in p)"
  by (rule nextToken_moves) (auto intro!: movesI)

text \<open>Recovery: the list is left, or a token is skipped.\<close>

lemma abort_list:
  assumes "currentToken p \<noteq> EndOfFileToken" and "follows a p"
  shows "returns a (abortParsingListOrMoveToNextToken context p)
    (\<lambda>b q. getNodePos p \<le> getNodePos q \<and> remaining q \<le> remaining p \<and> (\<not> b \<longrightarrow> remaining q < remaining p))"
proof -
  have rep: "reported p (parsingContextErrors context p)"
    by (simp add: parsingContextErrors_def reported_parseErrorAtCurrentToken)
  note q = reported_simps [OF rep]
  from q(2) assms(1) have e: "currentToken (parsingContextErrors context p) \<noteq> EndOfFileToken" by simp
  show ?thesis
    unfolding abortParsingListOrMoveToNextToken_def Let_def
    by (rule returns_bind, rule isInSomeParsingContext_tests [OF q(7) [OF assms(2)]], rule returns_if)
      (auto intro!: returns_Some returns_bind then_moves [OF nextToken_not_end [OF e]] q(7) assms(2) simp: q)
qed

lemma enter_follows:
  assumes "follows a p"
  shows "follows (enter_context c p) (enter_context c p)" and "getNodePos (enter_context c p) = getNodePos p"
    and "remaining (enter_context c p) = remaining p"
    and "follows (enter_context c p) q \<Longrightarrow> follows a (q\<lparr>parsingContext := parsingContext p\<rparr>)"
  using assms
  by (auto simp: follows_def well_def enter_context_def getNodePos_def remaining_def intro: prefix_order.trans)

lemma leave_simps [simp]:
  "getNodePos (q\<lparr>parsingContext := c\<rparr>) = getNodePos q" "remaining (q\<lparr>parsingContext := c\<rparr>) = remaining q"
  by (simp_all add: getNodePos_def remaining_def)

lemma list_of_loop:
  assumes "follows a p"
    and step: "\<And>list q. follows (enter_context c p) q \<Longrightarrow> getNodePos p \<le> getNodePos q \<Longrightarrow> remaining q \<le> remaining p \<Longrightarrow>
      nodes_in (getNodePos p) (getNodePos q) list \<Longrightarrow>
      returns (enter_context c p) (body list q) (steps (\<lambda>x q. nodes_in (getNodePos p) (getNodePos q) x) q)"
  shows "returns a (Option.bind (parse_loop body [] (enter_context c p)) (\<lambda>(list, q).
      Some (createNodeArray list (getNodePos p) (q\<lparr>parsingContext := parsingContext p\<rparr>), q\<lparr>parsingContext := parsingContext p\<rparr>)))
    (passes array_in p)"
proof -
  note e = enter_follows [OF assms(1)]
  have "returns (enter_context c p) (parse_loop body [] (enter_context c p)) (grows nodes_in (getNodePos p) (enter_context c p))"
    using e(1-3) step by (intro parse_loop_grows) simp_all
  then obtain list q where q: "parse_loop body [] (enter_context c p) = Some (list, q)" "follows (enter_context c p) q"
    and g: "getNodePos p \<le> getNodePos q" "remaining q \<le> remaining p" "nodes_in (getNodePos p) (getNodePos q) list"
    by (auto simp: returns_def grows_def e)
  from e(4) [OF q(2)] g show ?thesis
    by (simp add: q(1)) (auto intro!: returns_Some passesI array_in_created)
qed

lemma abort_step:
  assumes "currentToken q \<noteq> EndOfFileToken" and "follows a q" and "nodes_in lo (getNodePos q) list"
  shows "returns a (Option.bind (abortParsingListOrMoveToNextToken c q) (\<lambda>(b, p). Some ((\<not> b, list), p)))
    (steps (\<lambda>x q. nodes_in lo (getNodePos q) x) q)"
  by (rule returns_bind, rule returns_weaken [OF abort_list [OF assms(1,2)]])
    (use assms(3) in \<open>auto intro!: returns_Some simp: steps_def intro: nodes_in_mono\<close>)

lemma parseList_passes [THEN then_passes, parse]:
  assumes "follows a p"
    and elem: "\<And>q. follows q q \<Longrightarrow> getNodePos p \<le> getNodePos q \<Longrightarrow> remaining q \<le> remaining p \<Longrightarrow> list_first c q \<Longrightarrow>
      returns q (element q) (moves node_in q)"
  shows "returns a (parseList c element p) (passes array_in p)"
  unfolding parseList_def Let_def
proof (rule list_of_loop [OF assms(1)])
  fix list q
  assume q: "follows (enter_context c p) q" "getNodePos p \<le> getNodePos q" "remaining q \<le> remaining p"
    "nodes_in (getNodePos p) (getNodePos q) list"
  let ?I = "\<lambda>x q. nodes_in (getNodePos p) (getNodePos q) x"
  show "returns (enter_context c p) (list_step c element list q) (steps ?I q)"
    unfolding list_step_def
  proof (rule returns_if)
    show "returns (enter_context c p) (Some ((False, list), q)) (steps ?I q)"
      using q by (intro returns_Some stepsI) auto
  next
    assume "\<not> isListTerminator c q"
    then have e: "currentToken q \<noteq> EndOfFileToken" by (simp add: isListTerminator_def)
    show "returns (enter_context c p) (Option.bind (isListElement c q) (\<lambda>(b, p).
        if b then Option.bind (element p) (\<lambda>(n, p). Some ((True, list @ [n]), p))
        else Option.bind (abortParsingListOrMoveToNextToken c p) (\<lambda>(b, p). Some ((\<not> b, list), p)))) (steps ?I q)"
    proof (rule returns_bind, rule isListElement_tests [OF q(1)], rule returns_if)
      fix b assume "b \<longrightarrow> list_first c q" "b"
      then have "list_first c q" by simp
      note elem = then_node_moves [OF returns_returns [OF q(1) elem [OF follows_refl [OF follows_well [OF q(1)]] q(2,3) this]]]
      from q(2,4) show "returns (enter_context c p) (Option.bind (element q) (\<lambda>(n, p). Some ((True, list @ [n]), p))) (steps ?I q)"
        by - (assumption | (rule ranges, assumption) | rule elem parse | linarith)+
    qed (rule abort_step [OF e q(1,4)])
  qed
qed

lemma not_end: "currentToken p \<noteq> EndOfFileToken \<Longrightarrow> well p \<Longrightarrow> 0 < remaining p"
  using remaining_EOF [of p] by simp

text \<open>An element that consumes nothing has its first token skipped, unless a comma follows it.\<close>

lemma stuck: "follows a q \<Longrightarrow> follows a r \<Longrightarrow> getNodePos q \<noteq> getNodePos r \<Longrightarrow> remaining r \<le> remaining q \<Longrightarrow>
    currentToken q \<noteq> EndOfFileToken \<Longrightarrow> remaining r < remaining q"
  using getNodePos_le [of q] getNodePos_le [of r]
  by (auto simp: remaining_def follows_def split: if_splits)

lemma skip_step:
  assumes "follows a q" and "currentToken q \<noteq> EndOfFileToken"
    and "follows a s" and "getNodePos q \<le> getNodePos s" and "remaining s \<le> remaining q" and "nodes_in lo (getNodePos s) ns"
  shows "returns a (if getNodePos q = getNodePos s then Option.bind (nextToken s) (\<lambda>(_, p). Some ((True, ns), p))
    else Some ((True, ns), s)) (steps (\<lambda>x q. nodes_in lo (getNodePos q) x) q)"
proof (rule returns_if)
  show "returns a (Option.bind (nextToken s) (\<lambda>(_, p). Some ((True, ns), p))) (steps (\<lambda>x q. nodes_in lo (getNodePos q) x) q)"
  proof (cases "currentToken s = EndOfFileToken")
    case True
    then have "remaining s < remaining q" using assms(1,2) not_end [of q] by (simp add: remaining_def follows_well)
    with assms(3-) show ?thesis
      by - (assumption | (rule ranges, assumption) | rule parse | linarith)+
  next
    case False
    from assms(3-) show ?thesis
      by - (assumption | (rule ranges, assumption) | rule then_moves [OF nextToken_not_end [OF False]] parse | linarith)+
  qed
next
  assume "getNodePos q \<noteq> getNodePos s"
  from stuck [OF assms(1,3) this assms(5,2)] assms(3-)
  show "returns a (Some ((True, ns), s)) (steps (\<lambda>x q. nodes_in lo (getNodePos q) x) q)"
    by - (assumption | (rule ranges, assumption) | rule parse | linarith)+
qed

lemma parseDelimitedList_passes [THEN then_passes, parse]:
  assumes "follows a p"
    and elem: "\<And>q. follows q q \<Longrightarrow> getNodePos p \<le> getNodePos q \<Longrightarrow> remaining q \<le> remaining p \<Longrightarrow>
      currentToken q \<noteq> EndOfFileToken \<Longrightarrow> returns q (element q) (passes node_in q)"
  shows "returns a (parseDelimitedList c element p) (passes array_in p)"
  unfolding parseDelimitedList_def Let_def
proof (rule list_of_loop [OF assms(1)])
  fix list q
  assume q: "follows (enter_context c p) q" "getNodePos p \<le> getNodePos q" "remaining q \<le> remaining p"
    "nodes_in (getNodePos p) (getNodePos q) list"
  let ?a = "enter_context c p" and ?I = "\<lambda>x q. nodes_in (getNodePos p) (getNodePos q) x"
  show "returns ?a (delimited_step c element list q) (steps ?I q)"
    unfolding delimited_step_def Let_def
  proof (rule returns_bind, rule isListElement_tests [OF q(1)], rule returns_if)
    fix b assume "b \<longrightarrow> list_first c q" "b"
    then have e: "currentToken q \<noteq> EndOfFileToken" by (simp add: list_first_def)
    note elem = then_node_passes [OF returns_returns [OF q(1) elem [OF follows_refl [OF follows_well [OF q(1)]] q(2,3) e]]]
    from q(2,4) show "returns ?a (Option.bind (element q) (\<lambda>(n, p). Option.bind (parseOptional (Punct CommaToken) p) (\<lambda>(comma, p).
        if comma then Some ((True, list @ [n]), p)
        else if isListTerminator c p then Some ((False, list @ [n]), p)
        else Option.bind (parseExpected (Punct CommaToken) None p) (\<lambda>(_, p).
          if getNodePos q = getNodePos p then Option.bind (nextToken p) (\<lambda>(_, p). Some ((True, list @ [n]), p))
          else Some ((True, list @ [n]), p))))) (steps ?I q)"
      by - (assumption | (rule ranges, assumption) | rule elem skip_step [OF q(1) e] parse | linarith | (simp; fail))+
  next
    fix b
    show "returns ?a (if isListTerminator c q then Some ((False, list), q)
        else Option.bind (abortParsingListOrMoveToNextToken c q) (\<lambda>(b, p). Some ((\<not> b, list), p))) (steps ?I q)"
    proof (rule returns_if)
      show "returns ?a (Some ((False, list), q)) (steps ?I q)" using q by (intro returns_Some stepsI) auto
    next
      assume "\<not> isListTerminator c q"
      then have e: "currentToken q \<noteq> EndOfFileToken" by (simp add: isListTerminator_def)
      show "returns ?a (Option.bind (abortParsingListOrMoveToNextToken c q) (\<lambda>(b, p). Some ((\<not> b, list), p))) (steps ?I q)"
        by (rule abort_step [OF e q(1,4)])
    qed
  qed
qed

section \<open>Names\<close>

lemma makeQualifiedName_returns [parse]:
  assumes "node_in lo hi left" and "node_in lo' hi' right" and "follows a p" and "Pos left \<le> Pos right"
    and "hi \<le> getNodePos p" and "hi' \<le> getNodePos p"
    and "\<And>x q. follows a q \<Longrightarrow> getNodePos q = getNodePos p \<Longrightarrow> remaining q = remaining p \<Longrightarrow>
      currentToken q = currentToken p \<Longrightarrow> node_in lo (getNodePos p) x \<Longrightarrow> lo \<le> Pos x \<Longrightarrow> Pos x \<le> getNodePos p \<Longrightarrow> Q x q"
  shows "returns a (makeQualifiedName left right p) Q"
proof -
  have p: "lo \<le> Pos left" "Pos left \<le> hi" using node_in_Pos assms(1) by blast+
  have f: "list_all (field_in (Pos left) (getNodePos p)) (payload (NewQualifiedName left right))"
    using assms p by (auto simp: payloads field_in_def node_in_def)
  have le: "Pos left \<le> getNodePos p" using p assms(5) by simp
  show ?thesis
    unfolding makeQualifiedName_def
    by (rule then_finished [OF finishNode_finished [OF assms(3) le _ f]])
      (simp add: payloads, use p in \<open>auto intro!: assms(7) elim: node_in_mono\<close>)
qed

text \<open>The loops over a node and over a value that is no node.\<close>

lemma node_loop:
  assumes "node_in lo hi x" and "follows a p" and "hi \<le> getNodePos p"
    and "\<And>x q. follows a q \<Longrightarrow> getNodePos p \<le> getNodePos q \<Longrightarrow> remaining q \<le> remaining p \<Longrightarrow>
      node_in lo (getNodePos q) x \<Longrightarrow> lo \<le> Pos x \<Longrightarrow> Pos x \<le> getNodePos q \<Longrightarrow>
      returns a (body x q) (steps (\<lambda>x q. node_in lo (getNodePos q) x) q)"
    and "\<And>x q. follows a q \<Longrightarrow> getNodePos p \<le> getNodePos q \<Longrightarrow> remaining q \<le> remaining p \<Longrightarrow>
      node_in lo (getNodePos q) x \<Longrightarrow> lo \<le> Pos x \<Longrightarrow> Pos x \<le> getNodePos q \<Longrightarrow> Q x q"
  shows "returns a (parse_loop body x p) Q"
proof (rule then_node_grows [OF parse_loop_grows [where V = node_in]])
  show "node_in lo (getNodePos p) x" using assms(1, 3) by (auto intro: node_in_mono)
qed (use assms node_in_Pos in \<open>blast+\<close>)

lemmas any_loop = parse_loop_grows [where V = any_in, THEN then_grows]

lemma parseEntityName_starts [THEN then_node_starts, parse]:
  "follows a p \<Longrightarrow> returns a (parseEntityName p) (starts (\<lambda>p. currentToken p = Identifier) node_in p)"
  unfolding parseEntityName_def
  by (assumption | (rule tokens ranges node_loop, assumption) | rule parse follows_refl follows_well
    | linarith | simp add: payloads)+

section \<open>The recursion\<close>

text \<open>Where a nonterminal consumes a token; the parser of a switch clause is called nowhere else.\<close>

definition first_of :: "Nonterminal \<Rightarrow> Parser \<Rightarrow> bool" where
  "first_of nt p =
     (case nt of
        nt_Statement \<Rightarrow> isStartOfStatementToken p
      | nt_ClassMember \<Rightarrow> isStartOfClassMember p
      | nt_SwitchClause \<Rightarrow> currentToken p = Reserved CaseKeyword \<or> currentToken p = Reserved DefaultKeyword
      | _ \<Rightarrow> False)"

locale parsing =
  fixes rec :: grammar and R :: nat
  assumes rec_returns: "follows a p \<Longrightarrow> remaining p < R \<Longrightarrow> nt = nt_SwitchClause \<longrightarrow> first_of nt p \<Longrightarrow>
    returns a (rec nt p) (starts (first_of nt) node_in p)"

text \<open>The test that also lets the scanner report: the state is the same up to what it reported.\<close>

definition reports :: "(bool \<Rightarrow> bool) \<Rightarrow> Parser \<Rightarrow> bool \<Rightarrow> Parser \<Rightarrow> bool" where
  "reports C p b q \<longleftrightarrow> reported p q \<and> C b"

lemma then_reports:
  assumes "returns a m (reports C p)"
    and "\<And>b q. follows a q \<Longrightarrow> getNodePos q = getNodePos p \<Longrightarrow> remaining q = remaining p \<Longrightarrow> currentToken q = currentToken p \<Longrightarrow>
      scanner q = scanner p \<Longrightarrow> C b \<Longrightarrow> Q b q"
  shows "returns a m Q"
  by (rule returns_weaken [OF assms(1)]) (auto simp: reports_def reported_simps intro!: assms(2))

lemma isAnnotationTypeDeclarationStart_reports:
  assumes "follows a p"
  shows "returns a (isAnnotationTypeDeclarationStart p) (reports (\<lambda>_. True) p)"
proof -
  from assms have w: "well p" by (rule follows_well)
  obtain s where s: "Scan (scanner p) = Some s" "scanned (scanner p) s" by (rule Scan_well [OF w])
  let ?p = "p\<lparr>scanner := s\<lparr>errors := []\<rparr>\<rparr>"
  obtain ds e where r: "report_errors (errors s) ?p = ?p\<lparr>parseDiagnostics := parseDiagnostics p @ ds,
      parseErrorBeforeNextFinishedNode := e\<rparr>"
    using reported_errors [of ?p "errors s"] by (auto simp: reported_def)
  have "restore (snapshot (scanner p)) (s\<lparr>errors := []\<rparr>) = scanner p"
    by (rule Scanner.Scanner.equality) (use s(2) w in \<open>auto simp: restore_def snapshot_def scanned_def well_def inside_def\<close>)
  then have rep: "reported p (report_errors (errors s) ?p\<lparr>scanner := restore (snapshot (scanner p)) (s\<lparr>errors := []\<rparr>)\<rparr>)"
    by (intro reportedI [where ds = ds and e = e]) (simp add: r)
  have "isAnnotationTypeDeclarationStart p =
      Some (token s = Reserved InterfaceKeyword, report_errors (errors s) ?p\<lparr>scanner := restore (snapshot (scanner p)) (s\<lparr>errors := []\<rparr>)\<rparr>)"
    by (simp add: isAnnotationTypeDeclarationStart_def scan_with_def s(1) r)
  with reported_simps(7) [OF rep assms] rep show ?thesis by (simp add: returns_def reports_def)
qed

lemma at_annotation_reports [THEN then_reports, parse]:
  assumes "follows a p"
  shows "returns a (at_annotation p) (reports (\<lambda>b. b \<longrightarrow> currentToken p = Punct AtToken) p)"
  unfolding at_annotation_def
  by (rule returns_if, rule returns_bind, rule returns_weaken [OF isAnnotationTypeDeclarationStart_reports [OF assms]])
    (auto intro!: returns_Some assms simp: reports_def reported_refl)

context parsing
begin

lemmas rec_starts [parse] = rec_returns [THEN then_node_starts]

section \<open>Annotations\<close>

lemma parseAnnotationArgument_passes [THEN then_node_passes, parse]:
  "follows a p \<Longrightarrow> remaining p < R \<Longrightarrow> returns a (parseAnnotationArgument rec p) (passes node_in p)"
  unfolding parseAnnotationArgument_def
  by (assumption | (rule tokens ranges node_loop, assumption) | rule parse follows_refl follows_well
    | linarith | simp add: payloads)+

lemma parseAnnotation_starts [THEN then_node_starts, parse]:
  "follows a p \<Longrightarrow> remaining p \<le> R \<Longrightarrow>
     returns a (parseAnnotation rec p) (starts (\<lambda>p. currentToken p = Punct AtToken) node_in p)"
  unfolding parseAnnotation_def
  by (assumption | (rule tokens ranges node_loop, assumption) | rule parse follows_refl follows_well
    | linarith | simp add: payloads)+

lemma array_or_nil_in: "nodes_in lo hi ns \<Longrightarrow> pos \<le> lo \<Longrightarrow> hi \<le> getNodePos p \<Longrightarrow> pos \<le> getNodePos p \<Longrightarrow>
    a \<le> pos \<Longrightarrow> getNodePos p \<le> b \<Longrightarrow> opt_array_in a b (array_or_nil ns pos p)"
  by (auto simp: array_or_nil_def intro: array_in_created)

lemma parseAnnotations_passes:
  "follows a p \<Longrightarrow> remaining p \<le> R \<Longrightarrow> returns a (parseAnnotations rec p) (passes opt_array_in p)"
  unfolding parseAnnotations_def
  by (assumption | (rule tokens ranges node_loop array_or_nil_in, assumption) | rule parse follows_refl follows_well
    | linarith | simp add: payloads)+

lemma parseAnnotations_none: "currentToken p \<noteq> Punct AtToken \<Longrightarrow> parseAnnotations rec p = Some (None, p)"
  by (simp add: parseAnnotations_def collect_def at_annotation_def array_or_nil_def parse_loop_once)

text \<open>Annotations that are there consume tokens.\<close>

lemma parseAnnotations_keeps:
  assumes "follows a p" and "remaining p \<le> R"
  shows "returns a (parseAnnotations rec p) (\<lambda>_ q. remaining q < remaining p \<or> currentToken q = currentToken p)"
proof -
  let ?I = "\<lambda>_ q. remaining q < remaining p \<or> currentToken q = currentToken p"
  have "returns a (collect at_annotation (parseAnnotation rec) [] p) (\<lambda>x q. getNodePos p \<le> getNodePos q \<and> remaining q \<le> remaining p \<and> ?I x q)"
    unfolding collect_def
    by (rule parse_loop_returns [OF assms(1)])
      (insert assms(2), (assumption | rule parse | linarith | (auto; fail))+)
  then show ?thesis
    unfolding parseAnnotations_def Let_def by (intro returns_bind) (auto elim!: returns_weaken intro!: returns_Some)
qed

lemma parseAnnotations_then [parse]:
  assumes "follows a p" and "remaining p \<le> R"
    and "\<And>x q. follows a q \<Longrightarrow> getNodePos p \<le> getNodePos q \<Longrightarrow> remaining q \<le> remaining p \<Longrightarrow>
      opt_array_in (getNodePos p) (getNodePos q) x \<Longrightarrow> currentToken p \<noteq> Punct AtToken \<longrightarrow> q = p \<Longrightarrow>
      remaining q < remaining p \<or> currentToken q = currentToken p \<Longrightarrow> Q x q"
  shows "returns a (parseAnnotations rec p) Q"
proof (cases "currentToken p = Punct AtToken")
  case True
  then show ?thesis
    using returns_conj [OF parseAnnotations_passes [OF assms(1,2)] parseAnnotations_keeps [OF assms(1,2)]]
    by (elim returns_weaken) (auto simp: passes_def intro!: assms(3))
next
  case False
  then show ?thesis using assms(1) by (simp add: parseAnnotations_none) (auto intro!: returns_Some assms(3))
qed

section \<open>Types\<close>

lemma parseWildcardTypeFrom_spans [THEN then_spans, parse]:
  "follows a p \<Longrightarrow> remaining p \<le> R \<Longrightarrow> position \<le> getNodePos p \<Longrightarrow> currentToken p = Punct QuestionToken \<Longrightarrow>
     returns a (parseWildcardTypeFrom rec position verbatim p) (spans True position p)"
  unfolding parseWildcardTypeFrom_def
  by (assumption | (rule tokens ranges node_loop, assumption) | rule parse follows_refl follows_well
    | linarith | simp add: payloads)+

lemma parseWildcardType_moves [THEN then_node_moves, parse]:
  "follows a p \<Longrightarrow> remaining p \<le> R \<Longrightarrow> currentToken p = Punct QuestionToken \<Longrightarrow>
     returns a (parseWildcardType rec p) (moves node_in p)"
  unfolding parseWildcardType_def
  by (assumption | (rule tokens ranges node_loop, assumption) | rule parse follows_refl follows_well
    | linarith | simp add: payloads)+

lemma parseTypeArgument_passes [THEN then_node_passes, parse]:
  "follows a p \<Longrightarrow> remaining p < R \<Longrightarrow> returns a (parseTypeArgument rec p) (passes node_in p)"
  unfolding parseTypeArgument_def
  by (assumption | (rule tokens ranges node_loop, assumption) | rule parse follows_refl follows_well
    | linarith | simp add: payloads)+

lemma type_arguments_if_passes [THEN then_passes, parse]:
  "follows a p \<Longrightarrow> remaining p \<le> R \<Longrightarrow> returns a (type_arguments_if rec p) (passes opt_array_in p)"
  unfolding type_arguments_if_def parseTypeArguments_def
  by (assumption | (rule tokens ranges node_loop, assumption) | rule parse follows_refl follows_well
    | linarith | simp add: payloads)+

text \<open>The name and the type arguments of a type reference, as the loop over its segments has them.\<close>

definition segment_in :: "nat \<Rightarrow> nat \<Rightarrow> Node \<times> NodeArray option \<times> bool \<Rightarrow> bool" where
  "segment_in lo hi = (\<lambda>(n, args, verbatim). node_in lo hi n \<and> opt_array_in lo hi args)"

lemma segment_inI:
  "node_in l h n \<Longrightarrow> opt_array_in l' h' args \<Longrightarrow> lo \<le> l \<Longrightarrow> h \<le> hi \<Longrightarrow> lo \<le> l' \<Longrightarrow> h' \<le> hi \<Longrightarrow> segment_in lo hi (n, args, v)"
  by (auto simp: segment_in_def intro: node_in_mono opt_array_in_mono)

lemma type_segment_steps:
  "follows a q \<Longrightarrow> remaining q \<le> R \<Longrightarrow> node_in lo hi n \<Longrightarrow> opt_array_in lo hi args \<Longrightarrow> hi \<le> getNodePos q \<Longrightarrow> lo \<le> Pos n \<Longrightarrow>
     Pos n \<le> hi \<Longrightarrow> returns a (type_segment rec (n, args, v) q) (steps (\<lambda>x q. segment_in lo (getNodePos q) x) q)"
  unfolding type_segment_def split_conv
  by (assumption | (rule tokens ranges segment_inI, assumption) | rule parse follows_refl follows_well
    | linarith | simp add: payloads)+

lemma type_segments:
  assumes "node_in lo hi n" and "opt_array_in lo' hi' args" and "follows a p" and "remaining p \<le> R"
    and "hi \<le> getNodePos p" and "lo \<le> lo'" and "hi' \<le> getNodePos p"
    and "\<And>n args v q. follows a q \<Longrightarrow> getNodePos p \<le> getNodePos q \<Longrightarrow> remaining q \<le> remaining p \<Longrightarrow>
      node_in lo (getNodePos q) n \<Longrightarrow> opt_array_in lo (getNodePos q) args \<Longrightarrow> Q (n, args, v) q"
  shows "returns a (parse_loop (type_segment rec) (n, args, v) p) Q"
proof (rule then_grows [OF parse_loop_grows [where V = segment_in and lo = lo]])
  show "segment_in lo (getNodePos p) (n, args, v)" using assms by (auto intro: segment_inI)
  show "returns a (type_segment rec x q) (steps (\<lambda>x q. segment_in lo (getNodePos q) x) q)"
    if "follows a q" "remaining q \<le> remaining p" "segment_in lo (getNodePos q) x" for x q
  proof (cases x)
    case (fields n args v)
    with that(3) have n: "node_in lo (getNodePos q) n" "opt_array_in lo (getNodePos q) args" by (simp_all add: segment_in_def)
    from that(2) assms(4) have "remaining q \<le> R" by simp
    from type_segment_steps [OF that(1) this n order.refl node_in_Pos [OF n(1)]] show ?thesis unfolding fields .
  qed
qed (use assms in \<open>auto simp: segment_in_def\<close>)

lemma parseNonArrayType_starts [THEN then_node_starts, parse]:
  "follows a p \<Longrightarrow> remaining p \<le> R \<Longrightarrow>
     returns a (parseNonArrayType rec p) (starts (\<lambda>p. isStartOfType p \<and> currentToken p \<noteq> Punct AtToken) node_in p)"
  unfolding parseNonArrayType_def
  by (assumption | (rule tokens ranges type_segments, assumption) | rule parse follows_refl follows_well
    | linarith | (auto simp: starters; fail) | simp add: payloads)+

lemma atArrayBracket_tests [THEN then_tests, parse]:
  "follows a p \<Longrightarrow> returns a (atArrayBracket p) (tests (\<lambda>b. b \<longrightarrow> currentToken p = Punct OpenBracketToken) p)"
  unfolding atArrayBracket_def
  by (assumption | (rule tokens ranges node_loop, assumption) | rule parse follows_refl follows_well
    | linarith | (auto simp: starters; fail) | simp add: payloads)+

text \<open>The value of the loop over the dimensions.\<close>

definition pair_node_in :: "nat \<Rightarrow> nat \<Rightarrow> Node \<times> 'a \<Rightarrow> bool" where
  "pair_node_in lo hi = (\<lambda>(n, v). node_in lo hi n)"

lemma pair_in: "node_in l h n \<Longrightarrow> lo \<le> l \<Longrightarrow> h \<le> hi \<Longrightarrow> pair_node_in lo hi (n, v)"
  by (auto simp: pair_node_in_def intro: node_in_mono)

lemma array_dimension_steps:
  "follows a q \<Longrightarrow> remaining q \<le> R \<Longrightarrow> node_in lo hi n \<Longrightarrow> hi \<le> getNodePos q \<Longrightarrow> lo \<le> Pos n \<Longrightarrow> Pos n \<le> hi \<Longrightarrow>
     returns a (array_dimension rec (n, v) q) (steps (\<lambda>x q. pair_node_in lo (getNodePos q) x) q)"
  unfolding array_dimension_def split_conv
  by (assumption | (rule tokens ranges pair_in, assumption) | rule parse follows_refl follows_well
    | linarith | (auto simp: starters; fail) | simp add: payloads)+

lemma pair_loop:
  assumes "node_in lo hi n" and "follows a p" and "hi \<le> getNodePos p"
    and step: "\<And>n v q. follows a q \<Longrightarrow> getNodePos p \<le> getNodePos q \<Longrightarrow> remaining q \<le> remaining p \<Longrightarrow>
      node_in lo (getNodePos q) n \<Longrightarrow> lo \<le> Pos n \<Longrightarrow> Pos n \<le> getNodePos q \<Longrightarrow>
      returns a (body (n, v) q) (steps (\<lambda>x q. pair_node_in lo (getNodePos q) x) q)"
    and "\<And>n v q. follows a q \<Longrightarrow> getNodePos p \<le> getNodePos q \<Longrightarrow> remaining q \<le> remaining p \<Longrightarrow>
      node_in lo (getNodePos q) n \<Longrightarrow> lo \<le> Pos n \<Longrightarrow> Pos n \<le> getNodePos q \<Longrightarrow> Q (n, v) q"
  shows "returns a (parse_loop body (n, v) p) Q"
proof (rule then_grows [OF parse_loop_grows [where V = pair_node_in and lo = lo]])
  show "pair_node_in lo (getNodePos p) (n, v)" using assms(1,3) by (auto intro: pair_in)
  show "returns a (body x q) (steps (\<lambda>x q. pair_node_in lo (getNodePos q) x) q)"
    if "follows a q" "getNodePos p \<le> getNodePos q" "remaining q \<le> remaining p" "pair_node_in lo (getNodePos q) x" for x q
    using that step node_in_Pos by (cases x) (fastforce simp: pair_node_in_def)
qed (use assms node_in_Pos in \<open>auto simp: pair_node_in_def\<close>)

lemma array_dimensions:
  assumes "node_in lo hi n" and "follows a p" and "remaining p \<le> R" and "hi \<le> getNodePos p"
    and "\<And>n v q. follows a q \<Longrightarrow> getNodePos p \<le> getNodePos q \<Longrightarrow> remaining q \<le> remaining p \<Longrightarrow>
      node_in lo (getNodePos q) n \<Longrightarrow> lo \<le> Pos n \<Longrightarrow> Pos n \<le> getNodePos q \<Longrightarrow> Q (n, v) q"
  shows "returns a (parse_loop (array_dimension rec) (n, v) p) Q"
  using assms(1,2,4)
proof (rule pair_loop)
  show "returns a (array_dimension rec (n, v) q) (steps (\<lambda>x q. pair_node_in lo (getNodePos q) x) q)"
    if "follows a q" "remaining q \<le> remaining p" "node_in lo (getNodePos q) n" "lo \<le> Pos n" "Pos n \<le> getNodePos q" for n v q
    using array_dimension_steps [OF that(1) _ that(3) order.refl that(4,5)] that(2) assms(3) by simp
qed (rule assms(5))

lemma parseType_starts [THEN then_node_starts, parse]:
  "follows a p \<Longrightarrow> remaining p \<le> R \<Longrightarrow>
     returns a (parseType rec p) (starts (\<lambda>p. isStartOfType p \<and> currentToken p \<noteq> Punct AtToken) node_in p)"
  unfolding parseType_def
  by (assumption | (rule tokens ranges array_dimensions, assumption) | rule parse follows_refl follows_well
    | linarith | simp add: payloads)+

lemma parseTypeOrVar_starts [THEN then_node_starts, parse]:
  "follows a p \<Longrightarrow> remaining p \<le> R \<Longrightarrow>
     returns a (parseTypeOrVar rec p) (starts (\<lambda>p. isStartOfType p \<and> currentToken p \<noteq> Punct AtToken) node_in p)"
  unfolding parseTypeOrVar_def
  by (assumption | (rule tokens ranges, assumption) | rule parse follows_refl follows_well
    | linarith | (auto simp: isContextualKeyword_def; fail) | simp add: payloads)+

lemma parseTypeList_passes [THEN then_passes, parse]:
  "follows a p \<Longrightarrow> remaining p \<le> R \<Longrightarrow> returns a (parseTypeList rec p) (passes array_in p)"
  unfolding parseTypeList_def
  by (assumption | (rule tokens ranges node_loop, assumption) | rule parse follows_refl follows_well
    | linarith | (auto simp: starters; fail) | simp add: payloads)+

lemma parseTypeParameter_passes [THEN then_node_passes, parse]:
  "follows a p \<Longrightarrow> remaining p \<le> R \<Longrightarrow> returns a (parseTypeParameter rec p) (passes node_in p)"
  unfolding parseTypeParameter_def
  by (assumption | (rule tokens ranges node_loop, assumption) | rule collect_from parse follows_refl follows_well
    | linarith | (auto simp: starters; fail) | simp add: payloads)+

lemma parseTypeParameters_passes:
  "follows a p \<Longrightarrow> remaining p \<le> R \<Longrightarrow> returns a (parseTypeParameters rec p) (passes opt_array_in p)"
  unfolding parseTypeParameters_def
  by (assumption | (rule tokens ranges node_loop, assumption) | rule parse follows_refl follows_well
    | linarith | (auto; fail) | simp add: payloads)+

lemma parseTypeParameters_moves:
  "currentToken p = Punct LessThanToken \<Longrightarrow> follows a p \<Longrightarrow> remaining p \<le> R \<Longrightarrow>
     returns a (parseTypeParameters rec p) (moves opt_array_in p)"
  unfolding parseTypeParameters_def optionally_def
  by (assumption | (rule tokens ranges node_loop, assumption) | rule parse follows_refl follows_well
    | linarith | (auto; fail) | simp add: payloads)+

lemma parseTypeParameters_then [parse]:
  assumes "follows a p" and "remaining p \<le> R"
    and "\<And>x q. follows a q \<Longrightarrow> getNodePos p \<le> getNodePos q \<Longrightarrow> remaining q \<le> remaining p \<Longrightarrow>
      opt_array_in (getNodePos p) (getNodePos q) x \<Longrightarrow>
      currentToken p = Punct LessThanToken \<longrightarrow> remaining q < remaining p \<Longrightarrow>
      currentToken p \<noteq> Punct LessThanToken \<longrightarrow> q = p \<Longrightarrow> Q x q"
  shows "returns a (parseTypeParameters rec p) Q"
proof (cases "currentToken p = Punct LessThanToken")
  case True
  then show ?thesis by (intro then_moves [OF parseTypeParameters_moves [OF True assms(1,2)]] assms(3)) simp_all
next
  case False
  then have "parseTypeParameters rec p = Some (None, p)" by (simp add: parseTypeParameters_def optionally_def)
  with False assms(1) show ?thesis by (auto intro!: returns_Some assms(3))
qed

section \<open>Modifiers and parameters\<close>

lemma at_sealed_tests [THEN then_tests, parse]:
  "follows a p \<Longrightarrow> returns a (at_sealed p) (tests (\<lambda>b. b \<longrightarrow> isContextualKeyword ''sealed'' p) p)"
  unfolding at_sealed_def
  by (assumption | (rule tokens ranges node_loop, assumption) | rule parse follows_refl follows_well
    | linarith | (auto simp: starters; fail) | simp add: payloads)+

lemma at_non_sealed_tests [THEN then_tests, parse]:
  "follows a p \<Longrightarrow> returns a (at_non_sealed p) (tests (\<lambda>b. b \<longrightarrow> isContextualKeyword ''non'' p) p)"
  unfolding at_non_sealed_def
  by (assumption | (rule tokens ranges node_loop, assumption) | rule parse follows_refl follows_well
    | linarith | (auto simp: starters; fail) | simp add: payloads)+

text \<open>The loop over the modifiers keeps the current token until it consumes one, and ends before no modifier.\<close>

definition modifiers_from :: "Parser \<Rightarrow> bool \<Rightarrow> Node list \<Rightarrow> Parser \<Rightarrow> bool" where
  "modifiers_from p done ns q \<longleftrightarrow>
     nodes_in (getNodePos p) (getNodePos q) ns
     \<and> (remaining q < remaining p \<or> currentToken q = currentToken p \<and> (done \<longrightarrow> \<not> isModifierKeyword (currentToken p)))"

lemma modifier_token: "isModifierKeyword (currentToken p) \<Longrightarrow> follows a p \<Longrightarrow> returns a (parseTokenNode p) (moves node_in p)"
  by (rule parseTokenNode_moves [OF refl]) (auto simp: isModifierKeyword_def)

lemma modifiers_fromI:
  assumes "remaining q < remaining p \<or> currentToken q = currentToken p \<and> (d \<longrightarrow> \<not> isModifierKeyword (currentToken p))"
    and "nodes_in lo hi ns" and "getNodePos p \<le> lo" and "hi \<le> getNodePos q"
  shows "modifiers_from p d ns q" and "node_in l h n \<Longrightarrow> getNodePos p \<le> l \<Longrightarrow> h \<le> getNodePos q \<Longrightarrow> modifiers_from p d (ns @ [n]) q"
  using assms by (auto simp: modifiers_from_def intro: nodes_in_mono node_in_mono)

lemma modifier_step_exits:
  "nodes_in (getNodePos p) (getNodePos q) ns \<Longrightarrow> follows a q \<Longrightarrow> getNodePos p \<le> getNodePos q \<Longrightarrow> remaining q \<le> remaining p \<Longrightarrow> remaining p \<le> R \<Longrightarrow>
     remaining q < remaining p \<or> currentToken q = currentToken p \<Longrightarrow>
     returns a (modifier_step rec ns q) (exits (modifiers_from p False) (modifiers_from p True) q)"
  unfolding modifier_step_def
  by (assumption | (rule tokens ranges modifier_token [THEN then_node_moves], assumption) | rule parse modifiers_fromI(2) modifiers_fromI(1) follows_refl follows_well
    | linarith | (auto simp: isContextualKeyword_def; fail) | simp add: payloads)+

lemma parseModifiers_then [parse]:
  assumes "follows a p" and "remaining p \<le> R"
    and "\<And>x q. follows a q \<Longrightarrow> getNodePos p \<le> getNodePos q \<Longrightarrow> remaining q \<le> remaining p \<Longrightarrow>
      opt_array_in (getNodePos p) (getNodePos q) x \<Longrightarrow>
      remaining q < remaining p \<or> currentToken q = currentToken p \<and> \<not> isModifierKeyword (currentToken p) \<Longrightarrow> Q x q"
  shows "returns a (parseModifiers rec p) Q"
proof -
  have "returns a (parse_loop (modifier_step rec) [] p)
      (\<lambda>ns q. getNodePos p \<le> getNodePos q \<and> remaining q \<le> remaining p \<and> modifiers_from p True ns q)"
  proof (rule parse_loop_exits [where I = "modifiers_from p False", OF assms(1)])
    show "modifiers_from p False [] p" by (simp add: modifiers_from_def)
    show "returns a (modifier_step rec ns q) (exits (modifiers_from p False) (modifiers_from p True) q)"
      if "follows a q" "getNodePos p \<le> getNodePos q" "remaining q \<le> remaining p" "modifiers_from p False ns q" for ns q
      by (rule modifier_step_exits) (use that assms(2) in \<open>simp_all add: modifiers_from_def\<close>)
  qed
  then show ?thesis
    unfolding parseModifiers_def Let_def
    by (intro returns_bind, elim returns_weaken)
      (auto simp: modifiers_from_def intro!: returns_Some assms(3) elim!: array_or_nil_in)
qed

lemma parseArrayRankAfterName_passes [THEN then_passes, parse]:
  "follows a p \<Longrightarrow> returns a (parseArrayRankAfterName p) (passes any_in p)"
  unfolding parseArrayRankAfterName_def
  by (assumption | (rule tokens ranges, assumption) | rule any_loop parse follows_refl follows_well | linarith | simp add: payloads)+

lemma parseParameter_passes [THEN then_node_passes, parse]:
  "follows a p \<Longrightarrow> remaining p \<le> R \<Longrightarrow> returns a (parseParameter rec p) (passes node_in p)"
  unfolding parseParameter_def
  by (assumption | (rule tokens ranges node_loop, assumption) | rule parse follows_refl follows_well
    | linarith | (auto simp: starters; fail) | simp add: payloads)+

lemma parseFormalParameters_passes [THEN then_passes, parse]:
  "follows a p \<Longrightarrow> remaining p \<le> R \<Longrightarrow> returns a (parseFormalParameters rec p) (passes array_in p)"
  unfolding parseFormalParameters_def
  by (assumption | (rule tokens ranges node_loop, assumption) | rule parse follows_refl follows_well
    | linarith | (auto simp: starters; fail) | simp add: payloads)+

lemma parseThrows_passes [THEN then_passes, parse]:
  "follows a p \<Longrightarrow> remaining p \<le> R \<Longrightarrow> returns a (parseThrows rec p) (passes opt_array_in p)"
  unfolding parseThrows_def
  by (assumption | (rule tokens ranges node_loop, assumption) | rule parse follows_refl follows_well
    | linarith | (auto simp: starters; fail) | simp add: payloads)+

section \<open>Bodies\<close>

lemma parseClassBody_passes [THEN then_passes, parse]:
  "follows a p \<Longrightarrow> remaining p \<le> R \<Longrightarrow> returns a (parseClassBody rec p) (passes array_in p)"
  unfolding parseClassBody_def
  by (assumption | (rule tokens ranges, assumption) | rule parse follows_refl follows_well
    | linarith | (auto simp: first_of_def list_first_def; fail) | simp add: payloads)+

text \<open>Where the opening token may be missing, something must have been consumed before.\<close>

lemma parseBlock_starts [THEN then_node_starts, parse]:
  "follows a p \<Longrightarrow> remaining p \<le> R \<Longrightarrow> remaining p < R \<or> currentToken p = Punct OpenBraceToken \<Longrightarrow>
     returns a (parseBlock rec p) (starts (\<lambda>p. currentToken p = Punct OpenBraceToken) node_in p)"
  unfolding parseBlock_def
  by (assumption | (rule tokens ranges, assumption) | rule parse follows_refl follows_well
    | linarith | (auto simp: first_of_def list_first_def; fail) | simp add: payloads)+

lemma parseSwitchBlock_passes [THEN then_passes, parse]:
  "follows a p \<Longrightarrow> remaining p < R \<Longrightarrow> returns a (parseSwitchBlock rec p) (passes array_in p)"
  unfolding parseSwitchBlock_def
  by (assumption | (rule tokens ranges, assumption) | rule parse follows_refl follows_well
    | linarith | (auto simp: first_of_def list_first_def; fail) | simp add: payloads)+

lemma parseArgumentList_starts [THEN then_starts, parse]:
  "follows a p \<Longrightarrow> remaining p \<le> R \<Longrightarrow> remaining p < R \<or> currentToken p = Punct OpenParenToken \<Longrightarrow>
     returns a (parseArgumentList rec p) (starts (\<lambda>p. currentToken p = Punct OpenParenToken) array_in p)"
  unfolding parseArgumentList_def
  by (assumption | (rule tokens ranges node_loop, assumption) | rule parse follows_refl follows_well
    | linarith | (auto simp: starters; fail) | simp add: payloads)+

lemma parseArrayInitializer_passes [THEN then_node_passes, parse]:
  "follows a p \<Longrightarrow> remaining p \<le> R \<Longrightarrow> currentToken p = Punct OpenBraceToken \<Longrightarrow>
     returns a (parseArrayInitializer rec p) (passes node_in p)"
  unfolding parseArrayInitializer_def
  by (assumption | (rule tokens ranges node_loop, assumption) | rule parse follows_refl follows_well
    | linarith | (auto simp: starters; fail) | simp add: payloads)+

end

end
