(* ===== verification/ParserExprCorrect.thy ===== *)
theory ParserExprCorrect
  imports ParserExpr ParserTypesCorrect
begin

text \<open>
  Total correctness of expressions, patterns, element values and initializers: the definitions of
  \<open>ParserExpr\<close>, in their order.
\<close>

section \<open>Tokens\<close>

lemma ReScanGreaterToken_keeps:
  assumes "inside s"
  shows "inside (ReScanGreaterToken s)" and "source_text (ReScanGreaterToken s) = source_text s"
    and "fullStartPos (ReScanGreaterToken s) = fullStartPos s" and "errors (ReScanGreaterToken s) = errors s"
    and "s_pos s \<le> s_pos (ReScanGreaterToken s)"
    and "token s = Punct GreaterThanToken \<Longrightarrow> \<exists>k. token (ReScanGreaterToken s) = Punct k"
  using assms charCodeAt_in_text [of s "s_pos s"] charCodeAt_in_text [of s "s_pos s + 1"] charCodeAt_in_text [of s "s_pos s + 2"]
  by (auto simp: ReScanGreaterToken_def Let_def inside_def advance_def set_token_def)

lemma reScanGreaterIfNeeded_then [parse]:
  assumes "follows a p"
    and "\<And>x q. follows a q \<Longrightarrow> getNodePos q = getNodePos p \<Longrightarrow> remaining q = remaining p \<Longrightarrow>
      (currentToken q = EndOfFileToken \<longleftrightarrow> currentToken p = EndOfFileToken) \<Longrightarrow> Q x q"
  shows "returns a (reScanGreaterIfNeeded p) Q"
proof (cases "currentToken p = Punct GreaterThanToken")
  case True
  let ?s = "ReScanGreaterToken (scanner p)"
  let ?q = "p\<lparr>scanner := ?s\<lparr>errors := []\<rparr>, currentToken := token ?s\<rparr>"
  from assms(1) have w: "well p" by (rule follows_well)
  then have i: "inside (scanner p)" and t: "token (scanner p) = Punct GreaterThanToken"
    using True by (simp_all add: well_def)
  note k = ReScanGreaterToken_keeps [OF i]
  from k(6) [OF t] obtain b where b: "token ?s = Punct b" by blast
  have q: "follows a ?q" "getNodePos ?q = getNodePos p" "remaining ?q = remaining p"
    using assms(1) w k b True by (auto simp: follows_def well_def getNodePos_def remaining_def)
  have "reScanGreaterIfNeeded p = Some ((), ?q)"
    using True w k by (simp add: reScanGreaterIfNeeded_def scan_with_def report_errors_def well_def)
  with q b True show ?thesis by (auto intro!: returns_Some assms(2))
next
  case False
  with assms show ?thesis by (auto simp: reScanGreaterIfNeeded_def intro!: returns_Some)
qed

section \<open>Entity names\<close>

text \<open>The entity name of a dotted chain begins where the chain does.\<close>

definition entity_of :: "Node \<Rightarrow> Parser \<Rightarrow> Node option \<Rightarrow> Parser \<Rightarrow> bool" where
  "entity_of e p x q \<longleftrightarrow>
     getNodePos q = getNodePos p \<and> remaining q = remaining p \<and> currentToken q = currentToken p
     \<and> pred_option (\<lambda>n. node_in (Pos e) (getNodePos p) n \<and> Pos n = Pos e) x"

lemma qualified_of_chain:
  assumes "node_in pos (getNodePos p) left" and "Pos left = pos" and "field_in pos (getNodePos p) (Child (Some name))"
    and "follows a p"
  shows "returns a (makeQualifiedName left name p) (\<lambda>x q. finished pos p x q \<and> Pos x = pos)"
proof -
  have le: "pos \<le> getNodePos p" using node_in_Pos [OF assms(1)] assms(2) by simp
  have "list_all (field_in pos (getNodePos p)) (payload (NewQualifiedName left name))"
    using assms(1,3) by (simp add: payloads field_in_values(1))
  moreover have "dotted (node_kind (NewQualifiedName left name)) pos (payload (NewQualifiedName left name))"
    by (simp add: payloads)
  ultimately have "returns a (makeQualifiedName left name p) (finished pos p)"
    unfolding makeQualifiedName_def assms(2) using finishNode_finished assms(4) le by blast
  moreover have "returns a (makeQualifiedName left name p) (\<lambda>x q. Pos x = pos)"
    using calculation assms(2) by (auto simp: makeQualifiedName_def finishNode_def returns_def)
  ultimately show ?thesis by (rule returns_conj)
qed

lemma expressionToEntityName_entity:
  "nested e \<Longrightarrow> follows a p \<Longrightarrow> End e \<le> getNodePos p \<Longrightarrow> returns a (expressionToEntityName e p) (entity_of e p)"
proof (induction e p rule: expressionToEntityName.induct)
  case (2 pos b err expr name p)
  then have d: "Pos expr = pos" "pos \<le> b" "b \<le> getNodePos p" by (simp_all add: dotted_def)
  have f: "field_in pos (getNodePos p) (Child (Some name))" using 2 by (auto simp: field_in_def)
  have "nested expr" "End expr \<le> getNodePos p" using 2(2,4)
    by (auto simp: placeholder_def NewIdentifier_def newNode_def dotted_def)
  from 2(1) [OF this(1) 2(3) this(2)] obtain x q where q: "expressionToEntityName expr p = Some (x, q)" "follows a q" "entity_of expr p x q"
    by (auto simp: returns_def)
  show ?case
  proof (cases x)
    case None
    with q show ?thesis by (auto simp: returns_def entity_of_def)
  next
    case (Some left)
    with q(3) d(1) f have l: "node_in pos (getNodePos q) left" "Pos left = pos" "field_in pos (getNodePos q) (Child (Some name))"
      and eq: "getNodePos q = getNodePos p" "remaining q = remaining p" "currentToken q = currentToken p"
      by (simp_all add: entity_of_def)
    from qualified_of_chain [OF l q(2)] eq show ?thesis
      by (auto simp: q(1) Some returns_def entity_of_def finished_def)
  qed
qed (auto simp: entity_of_def node_in_def intro!: returns_Some)

lemma entityNameOrMissing_finished [parse]:
  assumes "node_in lo hi e" and "follows a p" and "hi \<le> getNodePos p"
    and "\<And>x q. follows a q \<Longrightarrow> getNodePos q = getNodePos p \<Longrightarrow> remaining q = remaining p \<Longrightarrow>
      currentToken q = currentToken p \<Longrightarrow> node_in (Pos e) (getNodePos p) x \<Longrightarrow> Q x q"
  shows "returns a (entityNameOrMissing e p) Q"
proof -
  from assms(1,3) have e: "nested e" "End e \<le> getNodePos p" "Pos e \<le> getNodePos p"
    using node_in_Pos [OF assms(1)] by (auto simp: node_in_def)
  have "returns a (entityNameOrMissing e p) (finished (Pos e) p)"
    unfolding entityNameOrMissing_def
  proof (rule returns_bind, rule returns_weaken [OF expressionToEntityName_entity [OF e(1) assms(2) e(2)]])
    fix x q
    assume "follows a q" "entity_of e p x q"
    then show "returns a (case x of None \<Rightarrow> createMissingNode Identifier False None [] q | Some n \<Rightarrow> Some (n, q)) (finished (Pos e) p)"
      using e(3) by (cases x) (auto simp: entity_of_def finished_def intro: node_in_mono intro!: returns_Some
        createMissingNode_finished)
  qed
  then show ?thesis by (rule then_finished) (auto intro: assms(4))
qed

section \<open>Patterns\<close>

context parsing
begin

lemma parsePattern_passes [THEN then_node_passes, parse]:
  "follows a p \<Longrightarrow> remaining p \<le> R \<Longrightarrow> returns a (parsePattern rec p) (passes node_in p)"
  unfolding parsePattern_def
  by (assumption | (rule tokens ranges node_loop, assumption) | rule parse follows_refl follows_well
    | linarith | (auto simp: starters; fail) | simp add: payloads)+

lemma parseComponentPattern_passes [THEN then_node_passes, parse]:
  "follows a p \<Longrightarrow> remaining p \<le> R \<Longrightarrow> returns a (parseComponentPattern rec p) (passes node_in p)"
  unfolding parseComponentPattern_def
  by (assumption | (rule tokens ranges node_loop, assumption) | rule parse follows_refl follows_well
    | linarith | (auto simp: starters; fail) | simp add: payloads)+

section \<open>Lambdas\<close>

lemma skip_parens_passes [THEN then_passes, parse]:
  "follows a p \<Longrightarrow> returns a (skip_parens depth p) (passes any_in p)"
  unfolding skip_parens_def
  by (assumption | (rule tokens ranges, assumption) | rule any_loop parse follows_refl follows_well | linarith | (simp; fail) | simp add: payloads)+

lemma isLambdaStart_tests [THEN then_tests, parse]:
  "follows a p \<Longrightarrow> returns a (isLambdaStart p)
     (tests (\<lambda>b. b \<longrightarrow> currentToken p = Identifier \<or> currentToken p = Punct OpenParenToken) p)"
  unfolding isLambdaStart_def
  by (assumption | (rule tokens ranges node_loop, assumption) | rule parse follows_refl follows_well
    | linarith | (auto simp: starters; fail) | simp add: payloads)+

lemma parseLambdaParameter_passes [THEN then_node_passes, parse]:
  "follows a p \<Longrightarrow> remaining p \<le> R \<Longrightarrow> returns a (parseLambdaParameter rec p) (passes node_in p)"
  unfolding parseLambdaParameter_def
  by (assumption | (rule tokens ranges node_loop, assumption) | rule parse follows_refl follows_well
    | linarith | (auto simp: starters; fail) | simp add: payloads)+

text \<open>The array of the one parameter is made before the body is parsed.\<close>

lemmas field_in_single = nodes_in_single [THEN field_in_array]

lemma parseLambdaExpression_moves [THEN then_node_moves, parse]:
  "follows a p \<Longrightarrow> remaining p \<le> R \<Longrightarrow> currentToken p = Identifier \<or> currentToken p = Punct OpenParenToken \<Longrightarrow>
     returns a (parseLambdaExpression rec p) (moves node_in p)"
  unfolding parseLambdaExpression_def
  by (assumption | (rule tokens ranges field_in_single, assumption) | rule parse follows_refl follows_well
    | linarith | (auto simp: starters; fail) | simp add: payloads)+

section \<open>Primary expressions\<close>

text \<open>The dimensions of an array creation, the value of its loop with a count.\<close>

definition dims_in :: "nat \<Rightarrow> nat \<Rightarrow> Node list \<times> nat \<Rightarrow> bool" where
  "dims_in lo hi = (\<lambda>(ns, k). nodes_in lo hi ns)"

lemma dims_inI:
  "nodes_in l h ns \<Longrightarrow> lo \<le> l \<Longrightarrow> h \<le> hi \<Longrightarrow> dims_in lo hi (ns, k)"
  "nodes_in l h ns \<Longrightarrow> node_in l' h' n \<Longrightarrow> lo \<le> l \<Longrightarrow> h \<le> hi \<Longrightarrow> lo \<le> l' \<Longrightarrow> h' \<le> hi \<Longrightarrow> dims_in lo hi (ns @ [n], k)"
  by (auto simp: dims_in_def intro: nodes_in_mono node_in_mono)

lemma dims_loop:
  assumes "follows a p"
    and "\<And>ns k q. follows a q \<Longrightarrow> getNodePos p \<le> getNodePos q \<Longrightarrow> remaining q \<le> remaining p \<Longrightarrow>
      nodes_in (getNodePos p) (getNodePos q) ns \<Longrightarrow> returns a (body (ns, k) q) (steps (\<lambda>x q. dims_in (getNodePos p) (getNodePos q) x) q)"
    and "\<And>ns k q. follows a q \<Longrightarrow> getNodePos p \<le> getNodePos q \<Longrightarrow> remaining q \<le> remaining p \<Longrightarrow>
      nodes_in (getNodePos p) (getNodePos q) ns \<Longrightarrow> Q (ns, k) q"
  shows "returns a (parse_loop body ([], 0) p) Q"
  by (rule then_grows [OF parse_loop_grows [where V = dims_in and lo = "getNodePos p"]])
    (use assms in \<open>auto simp: dims_in_def\<close>)

lemma parseArrayCreationRest_spans [THEN then_spans]:
  "node_in lo hi typ \<Longrightarrow> follows a p \<Longrightarrow> hi \<le> getNodePos p \<Longrightarrow> position \<le> lo \<Longrightarrow> position \<le> getNodePos p \<Longrightarrow> remaining p \<le> R \<Longrightarrow>
     returns a (parseArrayCreationRest rec position typ p) (spans False position p)"
  unfolding parseArrayCreationRest_def
  by (assumption | (rule tokens ranges dims_inI, assumption) | rule dims_loop parse follows_refl follows_well
    | linarith | (auto simp: starters; fail) | simp add: payloads)+

lemma class_body_if_passes [THEN then_passes, parse]:
  "follows a p \<Longrightarrow> remaining p \<le> R \<Longrightarrow> returns a (class_body_if rec p) (passes opt_array_in p)"
  unfolding class_body_if_def
  by (assumption | (rule tokens ranges node_loop, assumption) | rule parse follows_refl follows_well
    | linarith | (auto simp: starters; fail) | simp add: payloads)+

lemma parseNewExpression_moves [THEN then_node_moves, parse]:
  "currentToken p = Reserved NewKeyword \<Longrightarrow> follows a p \<Longrightarrow> remaining p \<le> R \<Longrightarrow>
     returns a (parseNewExpression rec p) (moves node_in p)"
  unfolding parseNewExpression_def
  by (assumption | (rule tokens ranges node_loop parseArrayCreationRest_spans, assumption) | rule parse follows_refl follows_well
    | linarith | (auto simp: starters; fail) | simp add: payloads)+

lemma parseSwitchExpression_moves [THEN then_node_moves, parse]:
  "currentToken p = Reserved SwitchKeyword \<Longrightarrow> follows a p \<Longrightarrow> remaining p \<le> R \<Longrightarrow>
     returns a (parseSwitchExpression rec p) (moves node_in p)"
  unfolding parseSwitchExpression_def
  by (assumption | (rule tokens ranges node_loop, assumption) | rule parse follows_refl follows_well
    | linarith | (auto simp: starters; fail) | simp add: payloads)+

lemma class_literal_rest_passes [THEN then_passes, parse]:
  "follows a p \<Longrightarrow> returns a (class_literal_rest p) (passes any_in p)"
  unfolding class_literal_rest_def
  by (assumption | (rule tokens ranges node_loop, assumption) | rule parse follows_refl follows_well
    | linarith | (auto simp: starters; fail) | simp add: payloads)+

text \<open>The operators of a prefix expression are no atoms.\<close>

definition isStartOfAtom :: "Parser \<Rightarrow> bool" where
  "isStartOfAtom p \<longleftrightarrow>
     isStartOfExpression p \<and> currentToken p \<notin> {Punct PlusToken, Punct MinusToken, Punct TildeToken, Punct ExclamationToken,
       Punct PlusPlusToken, Punct MinusMinusToken}"

lemma parseAtom_starts [THEN then_node_starts, parse]:
  "follows a p \<Longrightarrow> remaining p \<le> R \<Longrightarrow> returns a (parseAtom rec p) (starts isStartOfAtom node_in p)"
  unfolding parseAtom_def
  by (assumption | (rule tokens ranges, assumption) | rule parse follows_refl follows_well
    | linarith | (auto simp: starters isStartOfAtom_def; fail) | simp add: payloads)+

section \<open>Suffixes\<close>

lemma dot_suffix_spans [THEN then_spans]:
  "node_in lo hi expr \<Longrightarrow> currentToken p = Punct DotToken \<Longrightarrow> follows a p \<Longrightarrow> remaining p \<le> R \<Longrightarrow> hi \<le> getNodePos p \<Longrightarrow> lo \<le> Pos expr \<Longrightarrow>
     Pos expr \<le> hi \<Longrightarrow> returns a (dot_suffix rec expr p) (spans True (Pos expr) p)"
  unfolding dot_suffix_def makePropertyAccess_def
  by (assumption | (rule tokens ranges node_loop entityNameOrMissing_finished, assumption) | rule parse follows_refl follows_well
    | linarith | (auto simp: starters; fail) | simp add: payloads)+

lemma array_types_finished [THEN then_finished]:
  "node_in pos hi n \<Longrightarrow> follows a p \<Longrightarrow> hi \<le> getNodePos p \<Longrightarrow> pos \<le> getNodePos p \<Longrightarrow>
     returns a (array_types rank pos n p) (finished pos p)"
proof (induction rank arbitrary: hi n p)
  case (Suc rank)
  show ?case
    unfolding array_types.simps
    using Suc.prems
    by - (rule parse, rule parse, assumption, assumption, simp add: payloads, simp add: payloads field_in_values,
      rule returns_weaken, rule Suc.IH [OF _ _ order.refl], auto simp: finished_def)
qed (auto simp: finished_def intro!: returns_Some intro: node_in_mono)

text \<open>A lookahead gives the same answer again: the empty brackets that were seen are counted.\<close>

lemma lookahead_answer:
  assumes "follows a p" and "\<And>b. parserLookAhead (next_is kind) p = Some (b, p) \<Longrightarrow> Q b p"
  shows "returns a (parserLookAhead (next_is kind) p) Q"
proof -
  have "returns p (next_is kind p) (passes any_in p)"
    by (rule next_is_passes [OF follows_refl [OF follows_well [OF assms(1)]]]) (simp add: passes_def)
  then have "returns p (next_is kind p) (\<lambda>_ _. True)" by (rule returns_weaken) simp
  then have "returns a (parserLookAhead (next_is kind) p) (tests (\<lambda>_. True) p)" by (rule parserLookAhead_tests [OF assms(1)])
  then show ?thesis using assms(2) by (auto simp: returns_def tests_def)
qed

lemma count_brackets_moves:
  assumes "parserLookAhead (next_is (Punct CloseBracketToken)) p = Some (True, p)"
    and "currentToken p = Punct OpenBracketToken" and "follows a p"
  shows "returns a (count_brackets p) (\<lambda>_ q. getNodePos p \<le> getNodePos q \<and> remaining q \<le> remaining p \<and> remaining q < remaining p)"
  unfolding count_brackets_def
proof (rule parse_loop_exits [where I = "\<lambda>_ q. q = p \<or> remaining q < remaining p", OF assms(3)])
  fix rank :: nat and q
  assume q: "follows a q" "q = p \<or> remaining q < remaining p"
  let ?body = "\<lambda>q. Option.bind (atArrayBracket q) (\<lambda>(bracket, p).
      if bracket then Option.bind (nextToken p) (\<lambda>(_, p). Option.bind (parseExpected (Punct CloseBracketToken) None p)
        (\<lambda>(_, p). Some ((True, rank + 1), p))) else Some ((False, rank), p))"
  let ?E = "exits (\<lambda>_ q. q = p \<or> remaining q < remaining p) (\<lambda>_ q. remaining q < remaining p)"
  show "returns a (?body q) (?E q)"
  proof (cases "q = p")
    case True
    have "atArrayBracket p = Some (True, p)" using assms(1,2) by (simp add: atArrayBracket_def)
    then have "?body p = Option.bind (nextToken p) (\<lambda>(_, p). Option.bind (parseExpected (Punct CloseBracketToken) None p)
        (\<lambda>(_, p). Some ((True, rank + 1), p)))" by simp
    moreover from assms(2,3) have "returns a \<dots> (?E p)"
      by - (assumption | (rule tokens, assumption) | rule parse disjI2 | linarith | (simp; fail))+
    ultimately show ?thesis using True by simp
  next
    case False
    with q show ?thesis
      by - (assumption | (rule tokens, assumption) | rule parse disjI2 | linarith | (simp; fail))+
  qed
qed simp

lemma empty_bracket_suffix:
  "parserLookAhead (next_is (Punct CloseBracketToken)) p = Some (True, p) \<Longrightarrow> currentToken p = Punct OpenBracketToken \<Longrightarrow>
     follows a p \<Longrightarrow> (\<And>x q. follows a q \<Longrightarrow> getNodePos p \<le> getNodePos q \<Longrightarrow> remaining q < remaining p \<Longrightarrow> Q x q) \<Longrightarrow>
     returns a (count_brackets p) Q"
  by (rule returns_weaken [OF count_brackets_moves]) auto

lemma bracket_suffix_spans [THEN then_spans]:
  "node_in lo hi expr \<Longrightarrow> currentToken p = Punct OpenBracketToken \<Longrightarrow> follows a p \<Longrightarrow> remaining p \<le> R \<Longrightarrow> hi \<le> getNodePos p \<Longrightarrow> lo \<le> Pos expr \<Longrightarrow>
     Pos expr \<le> hi \<Longrightarrow> returns a (bracket_suffix rec expr p) (spans True (Pos expr) p)"
  unfolding bracket_suffix_def
  by (assumption | (rule tokens ranges node_loop entityNameOrMissing_finished array_types_finished, assumption) | rule lookahead_answer empty_bracket_suffix parse follows_refl follows_well
    | linarith | (auto simp: starters; fail) | simp add: payloads)+

lemma method_reference_suffix_spans [THEN then_spans]:
  "node_in lo hi expr \<Longrightarrow> currentToken p = Punct ColonColonToken \<Longrightarrow> follows a p \<Longrightarrow> remaining p \<le> R \<Longrightarrow> hi \<le> getNodePos p \<Longrightarrow> lo \<le> Pos expr \<Longrightarrow>
     Pos expr \<le> hi \<Longrightarrow> returns a (method_reference_suffix rec expr p) (spans True (Pos expr) p)"
  unfolding method_reference_suffix_def
  by (assumption | (rule tokens ranges node_loop, assumption) | rule parse follows_refl follows_well
    | linarith | (auto simp: starters; fail) | simp add: payloads)+

lemma parseExpressionSuffixes_spans:
  "node_in lo hi expr \<Longrightarrow> follows a p \<Longrightarrow> remaining p \<le> R \<Longrightarrow> hi \<le> getNodePos p \<Longrightarrow>
     returns a (parseExpressionSuffixes rec expr p) (spans False lo p)"
  unfolding parseExpressionSuffixes_def suffix_step_def
  by (assumption | (rule tokens ranges node_loop dot_suffix_spans bracket_suffix_spans method_reference_suffix_spans, assumption) | rule parse follows_refl follows_well
    | linarith | (auto simp: starters; fail) | simp add: payloads)+

lemma parsePrimaryExpression_starts [THEN then_node_starts, parse]:
  "follows a p \<Longrightarrow> remaining p \<le> R \<Longrightarrow> returns a (parsePrimaryExpression rec p) (starts isStartOfAtom node_in p)"
  unfolding parsePrimaryExpression_def
  by (assumption | (rule tokens ranges parseExpressionSuffixes_spans [THEN then_spans], assumption) | rule parse follows_refl follows_well
    | linarith | (auto simp: starters; fail) | simp add: payloads)+

lemma parsePostfixExpression_starts [THEN then_node_starts, parse]:
  "follows a p \<Longrightarrow> remaining p \<le> R \<Longrightarrow> returns a (parsePostfixExpression rec p) (starts isStartOfAtom node_in p)"
  unfolding parsePostfixExpression_def
  by (assumption | (rule tokens ranges node_loop, assumption) | rule parse follows_refl follows_well
    | linarith | (auto simp: starters; fail) | simp add: payloads)+

section \<open>Casts and unary expressions\<close>

lemma skip_bounds_passes [THEN then_passes, parse]:
  "follows a p \<Longrightarrow> remaining p \<le> R \<Longrightarrow> returns a (skip_bounds rec p) (passes any_in p)"
  unfolding skip_bounds_def
  by (assumption | (rule tokens ranges, assumption) | rule any_loop parse follows_refl follows_well | linarith | simp add: payloads)+

lemma isCastExpression_tests [THEN then_tests, parse]:
  "follows a p \<Longrightarrow> remaining p \<le> R \<Longrightarrow> returns a (isCastExpression rec p) (tests (\<lambda>_. True) p)"
  unfolding isCastExpression_def
  by (assumption | (rule tokens ranges node_loop, assumption) | rule parse follows_refl follows_well
    | linarith | (auto simp: starters; fail) | simp add: payloads)+

lemma parseCastExpression_moves [THEN then_node_moves, parse]:
  "currentToken p = Punct OpenParenToken \<Longrightarrow> follows a p \<Longrightarrow> remaining p \<le> R \<Longrightarrow>
     returns a (parseCastExpression rec p) (moves node_in p)"
  unfolding parseCastExpression_def
  by (assumption | (rule tokens ranges node_loop, assumption) | rule parse follows_refl follows_well
    | linarith | (auto simp: starters; fail) | simp add: payloads)+

lemma parseUnaryExpression_starts [THEN then_node_starts, parse]:
  "follows a p \<Longrightarrow> remaining p \<le> R \<Longrightarrow> returns a (parseUnaryExpression rec p) (starts isStartOfExpression node_in p)"
  unfolding parseUnaryExpression_def
  by (assumption | (rule tokens ranges, assumption) | rule parse follows_refl follows_well
    | linarith | (auto simp: isStartOfAtom_def; fail) | simp add: payloads)+

section \<open>Binary, conditional and assignment expressions\<close>

lemma instanceof_step_spans [THEN then_spans]:
  "node_in lo hi left \<Longrightarrow> currentToken p = Reserved InstanceofKeyword \<Longrightarrow> follows a p \<Longrightarrow> remaining p \<le> R \<Longrightarrow> hi \<le> getNodePos p \<Longrightarrow> position \<le> lo \<Longrightarrow>
     position \<le> getNodePos p \<Longrightarrow> returns a (instanceof_step rec position left p) (spans True position p)"
  unfolding instanceof_step_def
  by (assumption | (rule tokens ranges node_loop, assumption) | rule parse follows_refl follows_well
    | linarith | (auto simp: starters; fail) | simp add: payloads)+

lemma operator_moves:
  "\<not> (binaryOperatorPrecedence (currentToken p) = 0 \<or> c) \<Longrightarrow> follows a p \<Longrightarrow> returns a (nextToken p) (moves any_in p)"
  "isAssignmentOperator (currentToken p) \<Longrightarrow> follows a p \<Longrightarrow> returns a (nextToken p) (moves any_in p)"
  by (rule nextToken_not_end; auto simp: binaryOperatorPrecedence_def isAssignmentOperator_def)+

lemma parseBinaryExpressionRest_spans:
  "node_in lo hi left \<Longrightarrow> follows a p \<Longrightarrow> remaining p \<le> R \<Longrightarrow> hi \<le> getNodePos p \<Longrightarrow> position \<le> lo \<Longrightarrow> lo \<le> position \<Longrightarrow>
     returns a (parseBinaryExpressionRest rec left minPrecedence position p) (spans False position p)"
  unfolding parseBinaryExpressionRest_def binary_step_def
  by (assumption | (rule tokens ranges operator_moves [THEN then_moves] instanceof_step_spans node_loop, assumption) | rule parse follows_refl follows_well
    | linarith | (simp; fail) | simp add: payloads)+

lemma parseBinaryExpression_starts [THEN then_node_starts, parse]:
  "follows a p \<Longrightarrow> remaining p \<le> R \<Longrightarrow>
     returns a (parseBinaryExpression rec minPrecedence p) (starts isStartOfExpression node_in p)"
  unfolding parseBinaryExpression_def
  by (assumption | (rule tokens ranges parseBinaryExpressionRest_spans [THEN then_spans], assumption) | rule parse follows_refl follows_well
    | linarith | (auto simp: starters; fail) | simp add: payloads)+

lemma parseConditionalExpression_starts [THEN then_node_starts, parse]:
  "follows a p \<Longrightarrow> remaining p \<le> R \<Longrightarrow>
     returns a (parseConditionalExpression rec p) (starts isStartOfExpression node_in p)"
  unfolding parseConditionalExpression_def
  by (assumption | (rule tokens ranges node_loop, assumption) | rule parse follows_refl follows_well
    | linarith | (auto; fail) | simp add: payloads)+

lemma parseExpression_starts [THEN then_node_starts, parse]:
  "follows a p \<Longrightarrow> remaining p \<le> R \<Longrightarrow> returns a (parseExpression rec p) (starts isStartOfExpression node_in p)"
  unfolding parseExpression_def parseAssignmentExpression_def
  by (assumption | (rule tokens ranges operator_moves [THEN then_moves], assumption) | rule parse follows_refl follows_well
    | linarith | (auto; fail) | simp add: payloads)+

section \<open>Element values and initializers\<close>

lemma parseElementValueArrayInitializer_passes [THEN then_node_passes, parse]:
  "currentToken p = Punct OpenBraceToken \<Longrightarrow> follows a p \<Longrightarrow> remaining p \<le> R \<Longrightarrow>
     returns a (parseElementValueArrayInitializer rec p) (passes node_in p)"
  unfolding parseElementValueArrayInitializer_def
  by (assumption | (rule tokens ranges node_loop, assumption) | rule parse follows_refl follows_well
    | linarith | (auto; fail) | simp add: payloads)+

lemma parseElementValue_passes [THEN then_node_passes, parse]:
  "follows a p \<Longrightarrow> remaining p \<le> R \<Longrightarrow> returns a (parseElementValue rec p) (passes node_in p)"
  unfolding parseElementValue_def
  by (assumption | (rule tokens ranges node_loop, assumption) | rule parse follows_refl follows_well
    | linarith | (auto; fail) | simp add: payloads)+

lemma parseVariableInitializer_passes [THEN then_node_passes, parse]:
  "follows a p \<Longrightarrow> remaining p \<le> R \<Longrightarrow> returns a (parseVariableInitializer rec p) (passes node_in p)"
  unfolding parseVariableInitializer_def
  by (assumption | (rule tokens ranges node_loop, assumption) | rule parse follows_refl follows_well
    | linarith | (auto; fail) | simp add: payloads)+

end

end
