(* ===== verification/ParserDeclsCorrect.thy ===== *)
theory ParserDeclsCorrect
  imports ParserDecls ParserExprCorrect
begin

text \<open>
  Total correctness of declarations, members and module declarations: the definitions of \<open>ParserDecls\<close>.
  A declaration whose modifiers were read before it gets the position where they begin, so its node
  spans from there.
\<close>

context parsing
begin

section \<open>Variables and fields\<close>

lemma parseVariableDeclarator_spans [THEN then_spans]:
  "node_in lo hi name \<Longrightarrow> follows a p \<Longrightarrow> remaining p \<le> R \<Longrightarrow> hi \<le> getNodePos p \<Longrightarrow> Pos name \<le> hi \<Longrightarrow>
     returns a (parseVariableDeclarator rec name p) (spans False (Pos name) p)"
  unfolding parseVariableDeclarator_def
  by (assumption | (rule tokens ranges node_loop, assumption) | rule parse follows_refl follows_well
    | linarith | (auto; fail) | simp add: payloads)+

lemma named_declarator_passes [THEN then_node_passes, parse]:
  "follows a p \<Longrightarrow> remaining p \<le> R \<Longrightarrow> returns a (named_declarator rec p) (passes node_in p)"
  unfolding named_declarator_def
  by (assumption | (rule tokens ranges node_loop parseVariableDeclarator_spans, assumption) | rule parse follows_refl follows_well
    | linarith | (auto; fail) | simp add: payloads)+

lemma parseFieldDeclaration_spans [THEN then_spans, parse]:
  "opt_array_in l1 h1 modifiers \<Longrightarrow> node_in l2 h2 typ \<Longrightarrow> node_in lo hi firstName \<Longrightarrow> follows a p \<Longrightarrow> remaining p \<le> R \<Longrightarrow>
     position \<le> l1 \<Longrightarrow> h1 \<le> getNodePos p \<Longrightarrow> position \<le> l2 \<Longrightarrow> h2 \<le> getNodePos p \<Longrightarrow> hi \<le> getNodePos p \<Longrightarrow>
     position \<le> Pos firstName \<Longrightarrow> Pos firstName \<le> hi \<Longrightarrow> position \<le> getNodePos p \<Longrightarrow>
     returns a (parseFieldDeclaration rec position modifiers typ firstName p) (spans False position p)"
  unfolding parseFieldDeclaration_def
  by (assumption | (rule tokens ranges node_loop parseVariableDeclarator_spans, assumption) | rule parse follows_refl follows_well
    | linarith | (auto; fail) | simp add: payloads)+

lemma parseLocalVariableDeclarationRest_spans [THEN then_spans, parse]:
  "opt_array_in l h modifiers \<Longrightarrow> follows a p \<Longrightarrow> remaining p \<le> R \<Longrightarrow> position \<le> l \<Longrightarrow> h \<le> getNodePos p \<Longrightarrow>
     position \<le> getNodePos p \<Longrightarrow>
     returns a (parseLocalVariableDeclarationRest rec position modifiers p)
       (spans (isStartOfType p \<and> currentToken p \<noteq> Punct AtToken) position p)"
  unfolding parseLocalVariableDeclarationRest_def
  by (assumption | (rule tokens ranges node_loop, assumption) | rule parse follows_refl follows_well
    | linarith | (auto; fail) | simp add: payloads)+

section \<open>Methods and constructors\<close>

text \<open>The value of the loop over the brackets after the parameters.\<close>

definition snd_node_in :: "nat \<Rightarrow> nat \<Rightarrow> nat \<times> Node \<Rightarrow> bool" where
  "snd_node_in lo hi = (\<lambda>(i, n). node_in lo hi n)"

lemma snd_inI: "node_in l h n \<Longrightarrow> lo \<le> l \<Longrightarrow> h \<le> hi \<Longrightarrow> snd_node_in lo hi (i, n)"
  by (auto simp: snd_node_in_def intro: node_in_mono)

text \<open>Of the ranks that the loop asks for, only a positive one goes on, so a bracket was read.\<close>

lemma parseArrayRankAfterName_then:
  assumes "follows a p"
    and "\<And>k q. follows a q \<Longrightarrow> getNodePos p \<le> getNodePos q \<Longrightarrow> remaining q \<le> remaining p \<Longrightarrow>
      k = 0 \<or> remaining q < remaining p \<Longrightarrow> Q k q"
  shows "returns a (parseArrayRankAfterName p) Q"
proof -
  let ?I = "\<lambda>k q. k = 0 \<or> remaining q < remaining p"
  have "returns a (parseArrayRankAfterName p) (\<lambda>k q. getNodePos p \<le> getNodePos q \<and> remaining q \<le> remaining p \<and> ?I k q)"
    unfolding parseArrayRankAfterName_def
    by (rule parse_loop_returns [where I = ?I, OF assms(1)])
      (assumption | (rule tokens, assumption) | rule parse | linarith | (simp; fail))+
  then show ?thesis by (rule returns_weaken) (auto intro: assms(2))
qed

lemma method_array_type_steps:
  "node_in lo hi n \<Longrightarrow> follows a p \<Longrightarrow> hi \<le> getNodePos p \<Longrightarrow> lo \<le> Pos n \<Longrightarrow> Pos n \<le> hi \<Longrightarrow>
     returns a (method_array_type (i, n) p) (steps (\<lambda>x q. snd_node_in lo (getNodePos q) x) p)"
  unfolding method_array_type_def split_conv
  by (assumption | (rule tokens ranges snd_inI, assumption) | rule parseArrayRankAfterName_then parse follows_refl follows_well
    | linarith | (auto; fail) | simp add: payloads)+

lemma method_array_types:
  assumes "node_in lo hi n" and "follows a p" and "hi \<le> getNodePos p"
    and "\<And>i n q. follows a q \<Longrightarrow> getNodePos p \<le> getNodePos q \<Longrightarrow> remaining q \<le> remaining p \<Longrightarrow>
      node_in lo (getNodePos q) n \<Longrightarrow> lo \<le> Pos n \<Longrightarrow> Pos n \<le> getNodePos q \<Longrightarrow> Q (i, n) q"
  shows "returns a (parse_loop method_array_type (i, n) p) Q"
proof (rule then_grows [OF parse_loop_grows [where V = snd_node_in and lo = lo]])
  show "snd_node_in lo (getNodePos p) (i, n)" using assms by (auto intro: snd_inI)
  show "returns a (method_array_type x q) (steps (\<lambda>x q. snd_node_in lo (getNodePos q) x) q)"
    if "follows a q" "snd_node_in lo (getNodePos q) x" for x q
  proof (cases x)
    case (Pair j m)
    with that(2) have m: "node_in lo (getNodePos q) m" by (simp add: snd_node_in_def)
    from method_array_type_steps [OF m that(1) order.refl node_in_Pos [OF m]] show ?thesis unfolding Pair .
  qed
qed (use assms node_in_Pos in \<open>auto simp: snd_node_in_def\<close>)

lemma parseMethodDeclaration_spans [THEN then_spans, parse]:
  "opt_array_in l1 h1 modifiers \<Longrightarrow> opt_array_in l2 h2 typeParameters \<Longrightarrow> node_in l3 h3 typ \<Longrightarrow> node_in l4 h4 name \<Longrightarrow>
     follows a p \<Longrightarrow> remaining p \<le> R \<Longrightarrow> position \<le> l1 \<Longrightarrow> h1 \<le> getNodePos p \<Longrightarrow> position \<le> l2 \<Longrightarrow> h2 \<le> getNodePos p \<Longrightarrow>
     position \<le> l3 \<Longrightarrow> h3 \<le> getNodePos p \<Longrightarrow> position \<le> l4 \<Longrightarrow> h4 \<le> getNodePos p \<Longrightarrow> position \<le> getNodePos p \<Longrightarrow>
     returns a (parseMethodDeclaration rec position modifiers typeParameters typ name p) (spans False position p)"
  unfolding parseMethodDeclaration_def
  by (assumption | (rule tokens ranges node_loop method_array_types, assumption) | rule parse follows_refl follows_well
    | linarith | (auto; fail) | simp add: payloads)+

lemma parseConstructorDeclaration_spans [THEN then_spans, parse]:
  "opt_array_in l1 h1 modifiers \<Longrightarrow> opt_array_in l2 h2 typeParameters \<Longrightarrow> currentToken p = Identifier \<Longrightarrow> follows a p \<Longrightarrow>
     remaining p \<le> R \<Longrightarrow> position \<le> l1 \<Longrightarrow> h1 \<le> getNodePos p \<Longrightarrow> position \<le> l2 \<Longrightarrow> h2 \<le> getNodePos p \<Longrightarrow> position \<le> getNodePos p \<Longrightarrow>
     returns a (parseConstructorDeclaration rec position modifiers typeParameters p) (spans True position p)"
  unfolding parseConstructorDeclaration_def
  by (assumption | (rule tokens ranges node_loop, assumption) | rule parse follows_refl follows_well
    | linarith | (auto; fail) | simp add: payloads)+

lemma parseInitializerBlock_spans [THEN then_spans, parse]:
  "currentToken p = Punct OpenBraceToken \<Longrightarrow> follows a p \<Longrightarrow> remaining p \<le> R \<Longrightarrow> position \<le> getNodePos p \<Longrightarrow>
     returns a (parseInitializerBlock rec position modifiers p) (spans True position p)"
  unfolding parseInitializerBlock_def
  by (assumption | (rule tokens ranges node_loop, assumption) | rule parse follows_refl follows_well
    | linarith | (auto; fail) | simp add: payloads)+

lemma parseCompactConstructor_spans [THEN then_spans, parse]:
  "opt_array_in l1 h1 modifiers \<Longrightarrow> currentToken p = Identifier \<Longrightarrow> follows a p \<Longrightarrow> remaining p \<le> R \<Longrightarrow> position \<le> l1 \<Longrightarrow>
     h1 \<le> getNodePos p \<Longrightarrow> position \<le> getNodePos p \<Longrightarrow>
     returns a (parseCompactConstructor rec position modifiers p) (spans True position p)"
  unfolding parseCompactConstructor_def
  by (assumption | (rule tokens ranges node_loop, assumption) | rule parse follows_refl follows_well
    | linarith | (auto; fail) | simp add: payloads)+

lemma isConstructorDeclaration_tests [THEN then_tests, parse]:
  "follows a p \<Longrightarrow> returns a (isConstructorDeclaration p) (tests (\<lambda>b. b \<longrightarrow> currentToken p = Identifier) p)"
  unfolding isConstructorDeclaration_def
  by (assumption | (rule tokens ranges node_loop, assumption) | rule parse follows_refl follows_well
    | linarith | (auto; fail) | simp add: payloads)+

section \<open>Type declarations\<close>

lemma parseEnumConstant_passes [THEN then_node_passes, parse]:
  "follows a p \<Longrightarrow> remaining p \<le> R \<Longrightarrow> returns a (parseEnumConstant rec p) (passes node_in p)"
  unfolding parseEnumConstant_def
  by (assumption | (rule tokens ranges node_loop, assumption) | rule parse follows_refl follows_well
    | linarith | (auto; fail) | simp add: payloads)+

lemma another_constant_then [parse]:
  assumes "follows a p"
    and "\<And>b q. follows a q \<Longrightarrow> getNodePos p \<le> getNodePos q \<Longrightarrow> remaining q \<le> remaining p \<Longrightarrow>
      b \<longrightarrow> remaining q < remaining p \<Longrightarrow> Q b q"
  shows "returns a (another_constant p) Q"
  unfolding another_constant_def
  using assms(1) by (rule returns_bind [OF parseOptional_takes]) (auto intro!: returns_Some assms(2))

lemma parseEnumBody_then [parse]:
  assumes "follows a p" and "remaining p < R"
    and "\<And>x y q. follows a q \<Longrightarrow> getNodePos p \<le> getNodePos q \<Longrightarrow> remaining q \<le> remaining p \<Longrightarrow>
      array_in (getNodePos p) (getNodePos q) x \<Longrightarrow> array_in (getNodePos p) (getNodePos q) y \<Longrightarrow> Q (x, y) q"
  shows "returns a (parseEnumBody rec p) Q"
proof -
  have "returns a (parseEnumBody rec p) (passes (\<lambda>lo hi (x, y). array_in lo hi x \<and> array_in lo hi y) p)"
    using assms(1,2) unfolding parseEnumBody_def
    by - (assumption | (rule tokens ranges, assumption) | rule parse follows_refl follows_well
      | linarith | (auto simp: first_of_def list_first_def; fail) | simp add: payloads)+
  then show ?thesis by (rule then_passes) (auto intro: assms(3))
qed

lemma keyword_type_list_passes [THEN then_passes, parse]:
  "follows a p \<Longrightarrow> remaining p \<le> R \<Longrightarrow> kind \<noteq> EndOfFileToken \<Longrightarrow> returns a (keyword_type_list rec kind p) (passes opt_array_in p)"
  unfolding keyword_type_list_def
  by (assumption | (rule tokens ranges node_loop, assumption) | rule parse follows_refl follows_well
    | linarith | (auto; fail) | simp add: payloads)+

lemma permits_list_passes [THEN then_passes, parse]:
  "follows a p \<Longrightarrow> remaining p \<le> R \<Longrightarrow> returns a (permits_list rec p) (passes opt_array_in p)"
  unfolding permits_list_def
  by (assumption | (rule tokens ranges node_loop, assumption) | rule parse follows_refl follows_well
    | linarith | (auto; fail) | simp add: payloads)+

lemma parseClassDeclaration_spans [THEN then_spans, parse]:
  "opt_array_in l h modifiers \<Longrightarrow> currentToken p = Reserved ClassKeyword \<Longrightarrow> follows a p \<Longrightarrow> remaining p \<le> R \<Longrightarrow> position \<le> l \<Longrightarrow>
     h \<le> getNodePos p \<Longrightarrow> position \<le> getNodePos p \<Longrightarrow>
     returns a (parseClassDeclaration rec position modifiers p) (spans True position p)"
  unfolding parseClassDeclaration_def
  by (assumption | (rule tokens ranges node_loop, assumption) | rule parse follows_refl follows_well
    | linarith | (auto; fail) | simp add: payloads)+

lemma parseInterfaceDeclaration_spans [THEN then_spans, parse]:
  "opt_array_in l h modifiers \<Longrightarrow> currentToken p = Reserved InterfaceKeyword \<Longrightarrow> follows a p \<Longrightarrow> remaining p \<le> R \<Longrightarrow> position \<le> l \<Longrightarrow>
     h \<le> getNodePos p \<Longrightarrow> position \<le> getNodePos p \<Longrightarrow>
     returns a (parseInterfaceDeclaration rec position modifiers p) (spans True position p)"
  unfolding parseInterfaceDeclaration_def
  by (assumption | (rule tokens ranges node_loop, assumption) | rule parse follows_refl follows_well
    | linarith | (auto; fail) | simp add: payloads)+

lemma parseEnumDeclaration_spans [THEN then_spans, parse]:
  "opt_array_in l h modifiers \<Longrightarrow> currentToken p = Reserved EnumKeyword \<Longrightarrow> follows a p \<Longrightarrow> remaining p \<le> R \<Longrightarrow> position \<le> l \<Longrightarrow>
     h \<le> getNodePos p \<Longrightarrow> position \<le> getNodePos p \<Longrightarrow>
     returns a (parseEnumDeclaration rec position modifiers p) (spans True position p)"
  unfolding parseEnumDeclaration_def
  by (assumption | (rule tokens ranges node_loop, assumption) | rule parse follows_refl follows_well
    | linarith | (auto; fail) | simp add: payloads)+

lemma parseAnnotationTypeDeclaration_spans [THEN then_spans, parse]:
  "opt_array_in l h modifiers \<Longrightarrow> currentToken p = Punct AtToken \<Longrightarrow> follows a p \<Longrightarrow> remaining p \<le> R \<Longrightarrow> position \<le> l \<Longrightarrow>
     h \<le> getNodePos p \<Longrightarrow> position \<le> getNodePos p \<Longrightarrow>
     returns a (parseAnnotationTypeDeclaration rec position modifiers p) (spans True position p)"
  unfolding parseAnnotationTypeDeclaration_def
  by (assumption | (rule tokens ranges node_loop, assumption) | rule parse follows_refl follows_well
    | linarith | (auto; fail) | simp add: payloads)+

lemma parseRecordComponent_passes [THEN then_node_passes, parse]:
  "follows a p \<Longrightarrow> remaining p \<le> R \<Longrightarrow> returns a (parseRecordComponent rec p) (passes node_in p)"
  unfolding parseRecordComponent_def
  by (assumption | (rule tokens ranges node_loop, assumption) | rule parse follows_refl follows_well
    | linarith | (auto; fail) | simp add: payloads)+

lemma parseRecordDeclaration_spans [THEN then_spans, parse]:
  "opt_array_in l h modifiers \<Longrightarrow> isContextualKeyword ''record'' p \<Longrightarrow> follows a p \<Longrightarrow> remaining p \<le> R \<Longrightarrow> position \<le> l \<Longrightarrow>
     h \<le> getNodePos p \<Longrightarrow> position \<le> getNodePos p \<Longrightarrow>
     returns a (parseRecordDeclaration rec position modifiers p) (spans True position p)"
  unfolding parseRecordDeclaration_def
  by (assumption | (rule tokens ranges node_loop, assumption) | rule parse follows_refl follows_well
    | linarith | (auto; fail) | simp add: payloads)+

text \<open>The dispatch on the keyword consumes it; what comes otherwise decides for itself.\<close>

lemma declaration_by_keyword_spans:
  assumes "opt_array_in l h modifiers" and "follows a p" and "remaining p \<le> R" and "position \<le> l" and "h \<le> getNodePos p"
    and "position \<le> getNodePos p"
    and "currentToken p \<notin> {Reserved ClassKeyword, Reserved InterfaceKeyword, Reserved EnumKeyword, Punct AtToken} \<Longrightarrow>
      returns a (otherwise p) (spans c position p)"
  shows "returns a (declaration_by_keyword rec position modifiers otherwise p) (spans c position p)"
  unfolding declaration_by_keyword_def
  using assms
  by - (assumption | (rule tokens ranges, assumption) | rule parse follows_refl follows_well | linarith | (auto; fail) | simp add: payloads)+

lemma skip_unless_end:
  "opt_array_in l h modifiers \<Longrightarrow> follows a p \<Longrightarrow> position \<le> l \<Longrightarrow> h \<le> getNodePos p \<Longrightarrow> position \<le> getNodePos p \<Longrightarrow>
     returns a (Option.bind (if currentToken p \<noteq> EndOfFileToken then nextToken p else Some (EndOfFileToken, p))
       (\<lambda>(_, p). finishNode (NewClassDeclaration modifiers (NewIdentifier []) None None None None None) position p))
     (spans (currentToken p \<noteq> EndOfFileToken) position p)"
  by (assumption | (rule tokens ranges, assumption) | rule parse | linarith | (auto; fail)
    | simp add: payloads field_in_simps(8) [unfolded payloads])+

lemma missing_declaration_spans:
  assumes "opt_array_in l h modifiers" and "follows a p" and "position \<le> l" and "h \<le> getNodePos p" and "position \<le> getNodePos p"
  shows "returns a (missing_declaration position modifiers p) (spans (currentToken p \<noteq> EndOfFileToken) position p)"
proof -
  let ?q = "parseErrorAtCurrentToken DeclarationExpected [] p"
  note q = reported_simps [OF reported_parseErrorAtCurrentToken [of p DeclarationExpected "[]"]]
  have "returns a (missing_declaration position modifiers p) (spans (currentToken ?q \<noteq> EndOfFileToken) position ?q)"
    unfolding missing_declaration_def Let_def by (rule skip_unless_end [OF assms(1) q(7)]) (use assms in \<open>simp_all add: q\<close>)
  then show ?thesis by (rule returns_weaken) (simp add: spans_def q)
qed

lemma type_declaration_spans [THEN then_spans]:
  "opt_array_in l h modifiers \<Longrightarrow> follows a p \<Longrightarrow> remaining p \<le> R \<Longrightarrow> position \<le> l \<Longrightarrow> h \<le> getNodePos p \<Longrightarrow> position \<le> getNodePos p \<Longrightarrow>
     returns a (declaration_by_keyword rec position modifiers (missing_declaration position modifiers) p)
       (spans (currentToken p \<noteq> EndOfFileToken) position p)"
  by (rule declaration_by_keyword_spans) (auto intro: missing_declaration_spans)

lemma parseTypeDeclaration_starts [THEN then_node_starts, parse]:
  "follows a p \<Longrightarrow> remaining p \<le> R \<Longrightarrow>
     returns a (parseTypeDeclaration rec p) (starts (\<lambda>p. currentToken p \<noteq> EndOfFileToken) node_in p)"
  unfolding parseTypeDeclaration_def
  by (assumption | (rule tokens ranges node_loop type_declaration_spans, assumption) | rule parse follows_refl follows_well
    | linarith | (auto; fail) | simp add: payloads)+

section \<open>Members\<close>

lemma parseEmptyStatement_starts [THEN then_node_starts, parse]:
  "follows a p \<Longrightarrow> returns a (parseEmptyStatement p) (starts (\<lambda>p. currentToken p = Punct SemicolonToken) node_in p)"
  unfolding parseEmptyStatement_def
  by (assumption | (rule tokens ranges node_loop, assumption) | rule parse follows_refl follows_well
    | linarith | (auto; fail) | simp add: payloads)+

lemma parse_method_or_field_spans:
  "opt_array_in l h modifiers \<Longrightarrow> follows a p \<Longrightarrow> remaining p \<le> R \<Longrightarrow> position \<le> l \<Longrightarrow> h \<le> getNodePos p \<Longrightarrow> position \<le> getNodePos p \<Longrightarrow>
     returns a (parse_method_or_field rec position modifiers p)
       (spans (currentToken p = Punct LessThanToken \<or> isStartOfType p \<and> currentToken p \<noteq> Punct AtToken) position p)"
  unfolding parse_method_or_field_def
  by (assumption | (rule tokens ranges node_loop, assumption) | rule parse follows_refl follows_well
    | linarith | (auto; fail) | simp add: payloads)+

text \<open>A member consumes a token where its modifiers have ended before a type declaration, a type parameter or a type.\<close>

definition member_rest :: "Parser \<Rightarrow> bool" where
  "member_rest p \<longleftrightarrow>
     currentToken p \<in> {Reserved ClassKeyword, Reserved InterfaceKeyword, Reserved EnumKeyword, Punct AtToken, Punct LessThanToken}
     \<or> isStartOfType p"

lemma member_spans [THEN then_spans]:
  assumes "opt_array_in l h modifiers" and "follows a p" and "remaining p \<le> R" and "position \<le> l" and "h \<le> getNodePos p"
    and "position \<le> getNodePos p"
  shows "returns a (declaration_by_keyword rec position modifiers (parse_method_or_field rec position modifiers) p)
    (spans (member_rest p) position p)"
  by (rule declaration_by_keyword_spans [OF assms], rule returns_weaken, rule parse_method_or_field_spans [OF assms])
    (auto simp: spans_def member_rest_def)

lemma member_token:
  "isStartOfClassMember p \<Longrightarrow> \<not> isModifierKeyword (currentToken p) \<Longrightarrow> currentToken p \<noteq> Punct SemicolonToken \<Longrightarrow>
     currentToken p \<noteq> Punct OpenBraceToken \<Longrightarrow> currentToken q = currentToken p \<Longrightarrow> member_rest q"
  unfolding isStartOfClassMember_def member_rest_def isStartOfType_def by (elim disjE insertE) simp_all

lemma member_consumes:
  assumes "isStartOfClassMember p" and "remaining q < remaining p \<or> currentToken q = currentToken p \<and> \<not> isModifierKeyword (currentToken p)"
    and "currentToken p \<noteq> Punct SemicolonToken" and "currentToken q \<noteq> Punct OpenBraceToken" and "remaining q \<le> remaining p"
    and "remaining r \<le> remaining q" and "member_rest q \<longrightarrow> remaining r < remaining q"
  shows "remaining r < remaining p"
  using assms(2)
proof
  assume "currentToken q = currentToken p \<and> \<not> isModifierKeyword (currentToken p)"
  with member_token [OF assms(1)] assms(3,4) have "member_rest q" by simp
  with assms(5,7) show ?thesis by simp
qed (use assms(6) in simp)

lemma parseClassMember_starts [THEN then_node_starts, parse]:
  "follows a p \<Longrightarrow> remaining p \<le> R \<Longrightarrow> returns a (parseClassMember rec p) (starts isStartOfClassMember node_in p)"
  unfolding parseClassMember_def
  by (assumption | (rule tokens ranges member_spans, assumption) | rule parse follows_refl follows_well
    | linarith | (rule member_consumes; assumption) | (auto; fail) | simp add: payloads)+

section \<open>Modules\<close>

lemma returns_pair: "(\<And>x y. z = (x, y) \<Longrightarrow> returns a (f x y p) Q) \<Longrightarrow> returns a (case_prod f z p) Q"
  by (cases z) simp

lemma requires_modifiers_passes [THEN then_passes, parse]:
  "follows a p \<Longrightarrow> returns a (requires_modifiers p) (passes any_in p)"
  unfolding requires_modifiers_def
  by (assumption | (rule tokens ranges, assumption) | rule any_loop returns_pair parse follows_refl follows_well | linarith
    | (auto simp: isContextualKeyword_def; fail) | simp add: payloads)+

lemma parseRequiresDirective_starts [THEN then_node_starts, parse]:
  "follows a p \<Longrightarrow> returns a (parseRequiresDirective p) (starts (isContextualKeyword ''requires'') node_in p)"
  unfolding parseRequiresDirective_def parseModuleName_def
  by (assumption | (rule tokens ranges, assumption) | rule parse returns_pair | linarith | (auto; fail) | simp add: payloads)+

lemma name_list_passes [THEN then_passes, parse]:
  "follows a p \<Longrightarrow> returns a (name_list p) (passes array_in p)"
  unfolding name_list_def
  by (assumption | (rule tokens ranges node_loop, assumption) | rule parse follows_refl follows_well
    | linarith | (auto; fail) | simp add: payloads)+

lemma parseExportsOrOpensDirective_starts [THEN then_node_starts, parse]:
  "follows a p \<Longrightarrow> returns a (parseExportsOrOpensDirective keyword exports p) (starts (isContextualKeyword keyword) node_in p)"
  unfolding parseExportsOrOpensDirective_def parseToModuleList_def
  by (assumption | (rule tokens ranges node_loop, assumption) | rule parse follows_refl follows_well
    | linarith | (auto; fail) | simp add: payloads)+

lemma parseUsesDirective_starts [THEN then_node_starts, parse]:
  "follows a p \<Longrightarrow> returns a (parseUsesDirective p) (starts (isContextualKeyword ''uses'') node_in p)"
  unfolding parseUsesDirective_def
  by (assumption | (rule tokens ranges node_loop, assumption) | rule parse follows_refl follows_well
    | linarith | (auto; fail) | simp add: payloads)+

lemma parseProvidesDirective_starts [THEN then_node_starts, parse]:
  "follows a p \<Longrightarrow> returns a (parseProvidesDirective p) (starts (isContextualKeyword ''provides'') node_in p)"
  unfolding parseProvidesDirective_def
  by (assumption | (rule tokens ranges node_loop, assumption) | rule parse follows_refl follows_well
    | linarith | (auto; fail) | simp add: payloads)+

lemma parseModuleDirective_starts [THEN then_node_starts, parse]:
  "follows a p \<Longrightarrow> returns a (parseModuleDirective p) (starts isModuleDirectiveStart node_in p)"
  unfolding parseModuleDirective_def
  by (assumption | (rule tokens ranges, assumption) | rule parse | linarith | (auto simp: isModuleDirectiveStart_def; fail) | simp add: payloads)+

lemma parseModuleDeclaration_passes [THEN then_node_passes, parse]:
  "follows a p \<Longrightarrow> remaining p \<le> R \<Longrightarrow> returns a (parseModuleDeclaration rec p) (passes node_in p)"
  unfolding parseModuleDeclaration_def parseModuleName_def
  by (assumption | (rule tokens ranges, assumption) | rule parse follows_refl follows_well | linarith
    | simp add: list_first_def payloads)+

end

end
