(* ===== verification/ParserCorrect.thy ===== *)
theory ParserCorrect
  imports Parser ParserDeclsCorrect
begin

text \<open>
  Total correctness of statements and of the source file. The locale \<open>parsing\<close> is interpreted on the
  parser of the nonterminals with fuel, so \<open>ParseSourceFile\<close> returns a tree whose ranges are nested, on
  every text that does not end in a backslash.
\<close>

context parsing
begin

section \<open>Statements\<close>

text \<open>Where no type begins, \<open>parseType\<close> leaves the token for its caller.\<close>

lemma parseType_missing:
  assumes "\<not> isStartOfType p" and "currentToken p \<notin> {Punct DotToken, Punct OpenBracketToken, Punct LessThanToken}" and "follows a p"
  shows "returns a (parseType rec p) (\<lambda>_ q. currentToken q = currentToken p)"
proof -
  have none: "currentToken p \<noteq> Punct AtToken" "currentToken p \<noteq> Identifier" "currentToken p \<noteq> Punct QuestionToken"
      "\<not> isPrimitiveTypeKeyword (currentToken p)" "currentToken p \<noteq> Reserved VoidKeyword"
    using assms(1) by (simp_all add: isStartOfType_def)
  have "returns a (parseIdentifier p) (finished (getNodePos p) p)"
    unfolding parseIdentifier_def using none assms(3) by (auto simp: finished_def intro!: createMissingNode_finished)
  then obtain n q where q: "parseIdentifier p = Some (n, q)" "follows a q" "currentToken q = currentToken p"
    by (auto simp: returns_def finished_def)
  have "type_arguments_if rec q = Some (None, q)" using assms(2) q(3) by (simp add: type_arguments_if_def optionally_def)
  moreover have "parse_loop (type_segment rec) (n, None, False) q = Some ((n, None, False), q)"
    by (rule parse_loop_once) (use assms(2) q(3) in \<open>simp add: type_segment_def\<close>)
  ultimately have "parseNonArrayType rec p = finishNode (NewTypeReference n None None False) (getNodePos p) q"
    using none q(1) by (simp add: parseNonArrayType_def parseAnnotations_none)
  then obtain m where m: "parseNonArrayType rec p = Some (m, q\<lparr>parseErrorBeforeNextFinishedNode := False\<rparr>)"
    by (simp add: finishNode_def)
  have "parse_loop (array_dimension rec) (m, verbatim_reference m) (q\<lparr>parseErrorBeforeNextFinishedNode := False\<rparr>) =
      Some ((m, verbatim_reference m), q\<lparr>parseErrorBeforeNextFinishedNode := False\<rparr>)"
    by (rule parse_loop_once) (use assms(2) none q(3) in \<open>simp add: array_dimension_def atArrayBracket_def\<close>)
  with m have "parseType rec p = Some (m, q\<lparr>parseErrorBeforeNextFinishedNode := False\<rparr>)" by (simp add: parseType_def)
  moreover have "follows a (q\<lparr>parseErrorBeforeNextFinishedNode := False\<rparr>)"
    by (rule reported_simps(7) [OF reportedI [where ds = "[]" and e = False] q(2)]) simp
  ultimately show ?thesis using q(3) by (simp add: returns_def)
qed

text \<open>What a lookahead for a declaration has seen, and what a local declaration then consumes.\<close>

definition typeish :: "Parser \<Rightarrow> bool" where
  "typeish p \<longleftrightarrow> isStartOfType p \<or> currentToken p \<in> {Punct DotToken, Punct OpenBracketToken, Punct LessThanToken}"

lemma isLocalVariableDeclarationStart_tests [THEN then_tests, parse]:
  assumes "follows a p" and "remaining p \<le> R"
  shows "returns a (isLocalVariableDeclarationStart rec p) (tests (\<lambda>b. b \<longrightarrow> typeish p) p)"
proof (cases "typeish p")
  case True
  with assms show ?thesis
    unfolding isLocalVariableDeclarationStart_def
    by - (assumption | (rule tokens ranges, assumption) | rule parse follows_refl follows_well | linarith | (simp; fail) | simp add: payloads)+
next
  case False
  then have id: "currentToken p \<noteq> Identifier" and m: "returns p (parseType rec p) (\<lambda>_ q. currentToken q = currentToken p)"
    using parseType_missing [OF _ _ follows_refl [OF follows_well [OF assms(1)]]]
    by (auto simp: typeish_def isStartOfType_def)
  then show ?thesis
    unfolding isLocalVariableDeclarationStart_def
    by (intro parserLookAhead_tests [OF assms(1)] returns_bind) (auto elim!: returns_weaken intro!: returns_Some)
qed

text \<open>The first tokens of a local declaration, and of it after its modifiers.\<close>

definition local_start :: "Parser \<Rightarrow> bool" where
  "local_start p \<longleftrightarrow> isModifierKeyword (currentToken p) \<or> currentToken p = Punct AtToken \<or> isStartOfType p"

definition local_rest :: "Parser \<Rightarrow> bool" where
  "local_rest p \<longleftrightarrow>
     currentToken p \<in> {Reserved ClassKeyword, Reserved InterfaceKeyword, Reserved EnumKeyword, Punct AtToken} \<or> isStartOfType p"

lemma local_declaration_start_tests [THEN then_tests, parse]:
  "follows a p \<Longrightarrow> remaining p \<le> R \<Longrightarrow> returns a (local_declaration_start rec p)
     (tests (\<lambda>b. (b \<longrightarrow> local_start p \<or> typeish p) \<and> (\<not> b \<longrightarrow> \<not> isModifierKeyword (currentToken p) \<and> currentToken p \<noteq> Punct AtToken)) p)"
  unfolding local_declaration_start_def
  by (assumption | (rule tokens ranges, assumption) | rule parse | linarith | (auto simp: local_start_def; fail))+

lemma local_rest_spans [THEN then_spans]:
  assumes "opt_array_in l h modifiers" and "follows a p" and "remaining p \<le> R" and "position \<le> l" and "h \<le> getNodePos p"
    and "position \<le> getNodePos p"
  shows "returns a (declaration_by_keyword rec position modifiers (\<lambda>p.
      Option.bind (parseLocalVariableDeclarationRest rec position modifiers p) (\<lambda>(node, p).
        Option.bind (parseExpected (Punct SemicolonToken) None p) (\<lambda>(_, p). Some (node, p)))) p)
    (spans (local_rest p) position p)"
proof (rule declaration_by_keyword_spans [OF assms])
  show "returns a (Option.bind (parseLocalVariableDeclarationRest rec position modifiers p) (\<lambda>(node, p).
      Option.bind (parseExpected (Punct SemicolonToken) None p) (\<lambda>(_, p). Some (node, p)))) (spans (local_rest p) position p)"
    if "currentToken p \<notin> {Reserved ClassKeyword, Reserved InterfaceKeyword, Reserved EnumKeyword, Punct AtToken}"
    using assms that
    by - (assumption | (rule tokens ranges, assumption) | rule parse | linarith | (auto simp: local_rest_def; fail) | simp add: payloads)+
qed

lemma local_consumes:
  assumes "local_start p" and "remaining q < remaining p \<or> currentToken q = currentToken p \<and> \<not> isModifierKeyword (currentToken p)"
    and "remaining q \<le> remaining p" and "remaining r \<le> remaining q" and "local_rest q \<longrightarrow> remaining r < remaining q"
  shows "remaining r < remaining p"
  using assms(2)
proof
  assume "currentToken q = currentToken p \<and> \<not> isModifierKeyword (currentToken p)"
  with assms(1) have "local_rest q" by (simp add: local_start_def local_rest_def isStartOfType_def)
  with assms(3,5) show ?thesis by simp
qed (use assms(4) in simp)

lemma parseLocalDeclarationStatement_starts [THEN then_node_starts, parse]:
  "follows a p \<Longrightarrow> remaining p \<le> R \<Longrightarrow> returns a (parseLocalDeclarationStatement rec p) (starts local_start node_in p)"
  unfolding parseLocalDeclarationStatement_def
  by (assumption | (rule tokens ranges local_rest_spans, assumption) | rule parse | linarith | (rule local_consumes; assumption)
    | simp add: payloads)+

lemma parseIfStatement_moves [THEN then_node_moves, parse]:
  "currentToken p = Reserved IfKeyword \<Longrightarrow> follows a p \<Longrightarrow> remaining p \<le> R \<Longrightarrow> returns a (parseIfStatement rec p) (moves node_in p)"
  unfolding parseIfStatement_def
  by (assumption | (rule tokens ranges node_loop, assumption) | rule parse follows_refl follows_well
    | linarith | (simp; fail) | simp add: payloads)+

lemma parseWhileStatement_moves [THEN then_node_moves, parse]:
  "currentToken p = Reserved WhileKeyword \<Longrightarrow> follows a p \<Longrightarrow> remaining p \<le> R \<Longrightarrow> returns a (parseWhileStatement rec p) (moves node_in p)"
  unfolding parseWhileStatement_def
  by (assumption | (rule tokens ranges node_loop, assumption) | rule parse follows_refl follows_well
    | linarith | (simp; fail) | simp add: payloads)+

lemma parseDoStatement_moves [THEN then_node_moves, parse]:
  "currentToken p = Reserved DoKeyword \<Longrightarrow> follows a p \<Longrightarrow> remaining p \<le> R \<Longrightarrow> returns a (parseDoStatement rec p) (moves node_in p)"
  unfolding parseDoStatement_def
  by (assumption | (rule tokens ranges node_loop, assumption) | rule parse follows_refl follows_well
    | linarith | (simp; fail) | simp add: payloads)+

lemma isForEachHeader_tests [THEN then_tests, parse]:
  "follows a p \<Longrightarrow> remaining p \<le> R \<Longrightarrow> returns a (isForEachHeader rec p) (tests (\<lambda>_. True) p)"
  unfolding isForEachHeader_def
  by (assumption | (rule tokens ranges node_loop, assumption) | rule parse follows_refl follows_well
    | linarith | (simp; fail) | simp add: payloads)+

lemma expression_list_passes [THEN then_passes, parse]:
  "follows a p \<Longrightarrow> remaining p \<le> R \<Longrightarrow> returns a (expression_list rec p) (passes array_in p)"
  unfolding expression_list_def
  by (assumption | (rule tokens ranges node_loop, assumption) | rule parse follows_refl follows_well
    | linarith | (simp; fail) | simp add: payloads)+

lemma for_initializer_then [parse]:
  assumes "follows a p" and "remaining p \<le> R"
    and "\<And>x y q. follows a q \<Longrightarrow> getNodePos p \<le> getNodePos q \<Longrightarrow> remaining q \<le> remaining p \<Longrightarrow>
      opt_node_in (getNodePos p) (getNodePos q) x \<Longrightarrow> opt_array_in (getNodePos p) (getNodePos q) y \<Longrightarrow> Q (x, y) q"
  shows "returns a (for_initializer rec p) Q"
proof -
  have "returns a (for_initializer rec p) (passes (\<lambda>lo hi (x, y). opt_node_in lo hi x \<and> opt_array_in lo hi y) p)"
    using assms(1,2) unfolding for_initializer_def
    by - (assumption | (rule tokens ranges, assumption) | rule parse | linarith | simp add: payloads)+
  then show ?thesis by (rule then_passes) (auto intro: assms(3))
qed

lemma parseForStatement_moves [THEN then_node_moves, parse]:
  "currentToken p = Reserved ForKeyword \<Longrightarrow> follows a p \<Longrightarrow> remaining p \<le> R \<Longrightarrow> returns a (parseForStatement rec p) (moves node_in p)"
  unfolding parseForStatement_def
  by (assumption | (rule tokens ranges node_loop, assumption) | rule parse follows_refl follows_well
    | linarith | (simp; fail) | simp add: payloads)+

lemma parseReturnStatement_moves [THEN then_node_moves, parse]:
  "currentToken p = Reserved ReturnKeyword \<Longrightarrow> follows a p \<Longrightarrow> remaining p \<le> R \<Longrightarrow> returns a (parseReturnStatement rec p) (moves node_in p)"
  unfolding parseReturnStatement_def
  by (assumption | (rule tokens ranges node_loop, assumption) | rule parse follows_refl follows_well
    | linarith | (simp; fail) | simp add: payloads)+

lemma parseThrowStatement_moves [THEN then_node_moves, parse]:
  "currentToken p = Reserved ThrowKeyword \<Longrightarrow> follows a p \<Longrightarrow> remaining p \<le> R \<Longrightarrow> returns a (parseThrowStatement rec p) (moves node_in p)"
  unfolding parseThrowStatement_def
  by (assumption | (rule tokens ranges node_loop, assumption) | rule parse follows_refl follows_well
    | linarith | (simp; fail) | simp add: payloads)+

lemma parseBreakOrContinue_starts [THEN then_node_starts, parse]:
  "kind \<noteq> PropertyAccessExpression \<Longrightarrow> follows a p \<Longrightarrow> returns a (parseBreakOrContinue kind p) (starts (\<lambda>p. currentToken p \<noteq> EndOfFileToken) node_in p)"
  unfolding parseBreakOrContinue_def
  by (assumption | (rule tokens ranges node_loop, assumption) | rule parse follows_refl follows_well
    | linarith | (simp; fail) | simp add: payloads)+

lemma parseSynchronizedStatement_moves [THEN then_node_moves, parse]:
  "currentToken p = Reserved SynchronizedKeyword \<Longrightarrow> follows a p \<Longrightarrow> remaining p \<le> R \<Longrightarrow>
     returns a (parseSynchronizedStatement rec p) (moves node_in p)"
  unfolding parseSynchronizedStatement_def
  by (assumption | (rule tokens ranges node_loop, assumption) | rule parse follows_refl follows_well
    | linarith | (simp; fail) | simp add: payloads)+

lemma parseAssertStatement_moves [THEN then_node_moves, parse]:
  "currentToken p = Reserved AssertKeyword \<Longrightarrow> follows a p \<Longrightarrow> remaining p \<le> R \<Longrightarrow> returns a (parseAssertStatement rec p) (moves node_in p)"
  unfolding parseAssertStatement_def
  by (assumption | (rule tokens ranges node_loop, assumption) | rule parse follows_refl follows_well
    | linarith | (simp; fail) | simp add: payloads)+

lemma parseLabeledStatement_moves [THEN then_node_moves, parse]:
  "currentToken p = Identifier \<Longrightarrow> follows a p \<Longrightarrow> remaining p \<le> R \<Longrightarrow> returns a (parseLabeledStatement rec p) (moves node_in p)"
  unfolding parseLabeledStatement_def
  by (assumption | (rule tokens ranges node_loop, assumption) | rule parse follows_refl follows_well
    | linarith | (simp; fail) | simp add: payloads)+

lemma parseYieldStatement_moves [THEN then_node_moves, parse]:
  "isContextualKeyword ''yield'' p \<Longrightarrow> follows a p \<Longrightarrow> remaining p \<le> R \<Longrightarrow> returns a (parseYieldStatement rec p) (moves node_in p)"
  unfolding parseYieldStatement_def
  by (assumption | (rule tokens ranges node_loop, assumption) | rule parse follows_refl follows_well
    | linarith | (simp; fail) | simp add: payloads)+

section \<open>Try\<close>

lemma parseResource_passes [THEN then_node_passes, parse]:
  "follows a p \<Longrightarrow> remaining p \<le> R \<Longrightarrow> returns a (parseResource rec p) (passes node_in p)"
  unfolding parseResource_def
  by (assumption | (rule tokens ranges node_loop, assumption) | rule parse follows_refl follows_well
    | linarith | (simp; fail) | simp add: payloads)+

lemma another_resource_then [parse]:
  assumes "follows a p"
    and "\<And>b q. follows a q \<Longrightarrow> getNodePos p \<le> getNodePos q \<Longrightarrow> remaining q \<le> remaining p \<Longrightarrow>
      b \<longrightarrow> remaining q < remaining p \<Longrightarrow> Q b q"
  shows "returns a (another_resource p) Q"
  unfolding another_resource_def
  using assms(1) by (rule returns_bind [OF parseOptional_takes]) (auto intro!: returns_Some assms(2))

lemma parseResourceSpecification_passes [THEN then_passes, parse]:
  "follows a p \<Longrightarrow> remaining p \<le> R \<Longrightarrow> returns a (parseResourceSpecification rec p) (passes array_in p)"
  unfolding parseResourceSpecification_def
  by (assumption | (rule tokens ranges node_loop, assumption) | rule parse follows_refl follows_well
    | linarith | (simp; fail) | simp add: payloads)+

lemma parseCatchClause_moves [THEN then_node_moves, parse]:
  "currentToken p = Reserved CatchKeyword \<Longrightarrow> follows a p \<Longrightarrow> remaining p \<le> R \<Longrightarrow> returns a (parseCatchClause rec p) (moves node_in p)"
  unfolding parseCatchClause_def
  by (assumption | (rule tokens ranges node_loop, assumption) | rule parse follows_refl follows_well
    | linarith | (simp; fail) | simp add: payloads)+

lemma parseTryStatement_moves [THEN then_node_moves, parse]:
  "currentToken p = Reserved TryKeyword \<Longrightarrow> follows a p \<Longrightarrow> remaining p \<le> R \<Longrightarrow> returns a (parseTryStatement rec p) (moves node_in p)"
  unfolding parseTryStatement_def
  by (assumption | (rule tokens ranges node_loop, assumption) | rule parse follows_refl follows_well
    | linarith | (simp; fail) | simp add: payloads)+

section \<open>Switch\<close>

lemma isPatternStart_tests [THEN then_tests, parse]:
  "follows a p \<Longrightarrow> remaining p \<le> R \<Longrightarrow> returns a (isPatternStart rec p) (tests (\<lambda>_. True) p)"
  unfolding isPatternStart_def
  by (assumption | (rule tokens ranges node_loop, assumption) | rule parse follows_refl follows_well
    | linarith | (simp; fail) | simp add: payloads)+

lemma parseCaseLabelElement_passes [THEN then_node_passes, parse]:
  "follows a p \<Longrightarrow> remaining p \<le> R \<Longrightarrow> returns a (parseCaseLabelElement rec p) (passes node_in p)"
  unfolding parseCaseLabelElement_def
  by (assumption | (rule tokens ranges node_loop, assumption) | rule parse follows_refl follows_well
    | linarith | (simp; fail) | simp add: payloads)+

lemma case_labels_passes [THEN then_passes, parse]:
  "follows a p \<Longrightarrow> remaining p \<le> R \<Longrightarrow> returns a (case_labels rec p) (passes array_in p)"
  unfolding case_labels_def
  by (assumption | (rule tokens ranges node_loop, assumption) | rule parse follows_refl follows_well
    | linarith | (simp; fail) | simp add: payloads)+

lemma clause_head_then [parse]:
  assumes "follows a p" and "remaining p \<le> R"
    and "\<And>d x y q. follows a q \<Longrightarrow> getNodePos p \<le> getNodePos q \<Longrightarrow> remaining q \<le> remaining p \<Longrightarrow>
      first_of nt_SwitchClause p \<longrightarrow> remaining q < remaining p \<Longrightarrow>
      opt_array_in (getNodePos p) (getNodePos q) x \<Longrightarrow> opt_node_in (getNodePos p) (getNodePos q) y \<Longrightarrow> Q (d, x, y) q"
  shows "returns a (clause_head rec p) Q"
proof -
  have "returns a (clause_head rec p) (starts (first_of nt_SwitchClause)
      (\<lambda>lo hi (d, x, y). opt_array_in lo hi x \<and> opt_node_in lo hi y) p)"
    using assms(1,2) unfolding clause_head_def
    by - (assumption | (rule tokens ranges, assumption) | rule parseOptional_kind parse | linarith | (auto simp: first_of_def; fail) | simp add: payloads)+
  then show ?thesis by (rule then_starts) (auto intro: assms(3))
qed

lemma arrow_body_passes [THEN then_node_passes, parse]:
  "follows a p \<Longrightarrow> remaining p < R \<Longrightarrow> returns a (arrow_body rec p) (passes node_in p)"
  unfolding arrow_body_def makeExpressionStatement_def
  by (assumption | (rule tokens ranges node_loop, assumption) | rule parse follows_refl follows_well
    | linarith | (simp; fail) | simp add: payloads)+

lemma clause_goes_on_tests [THEN then_tests, parse]:
  "follows a p \<Longrightarrow> returns a (clause_goes_on p) (tests (\<lambda>b. b \<longrightarrow> first_of nt_Statement p) p)"
  unfolding clause_goes_on_def by (auto simp: first_of_def tests_def intro!: returns_Some)

lemma parseSwitchClause_moves [THEN then_node_moves, parse]:
  "follows a p \<Longrightarrow> remaining p \<le> R \<Longrightarrow> first_of nt_SwitchClause p \<Longrightarrow>
     returns a (parseSwitchClause rec p) (moves node_in p)"
  unfolding parseSwitchClause_def
  by (assumption | (rule tokens ranges field_in_single, assumption) | rule parse | linarith | (simp; fail) | simp add: payloads)+

lemma parseSwitchStatement_moves [THEN then_node_moves, parse]:
  "currentToken p = Reserved SwitchKeyword \<Longrightarrow> follows a p \<Longrightarrow> remaining p \<le> R \<Longrightarrow> returns a (parseSwitchStatement rec p) (moves node_in p)"
  unfolding parseSwitchStatement_def
  by (assumption | (rule tokens ranges node_loop, assumption) | rule parse follows_refl follows_well
    | linarith | (simp; fail) | simp add: payloads)+

section \<open>Any statement\<close>

lemma at_yield_tests [THEN then_tests, parse]:
  "follows a p \<Longrightarrow> returns a (at_yield p) (tests (\<lambda>b. b \<longrightarrow> isContextualKeyword ''yield'' p) p)"
  unfolding at_yield_def
  by (assumption | (rule tokens ranges node_loop, assumption) | rule parse follows_refl follows_well
    | linarith | (simp; fail) | simp add: payloads)+

lemma at_label_tests [THEN then_tests, parse]:
  "follows a p \<Longrightarrow> returns a (at_label p) (tests (\<lambda>b. b \<longrightarrow> currentToken p = Identifier) p)"
  unfolding at_label_def
  by (assumption | (rule tokens ranges node_loop, assumption) | rule parse follows_refl follows_well
    | linarith | (simp; fail) | simp add: payloads)+

text \<open>What is left where no keyword introduces the statement.\<close>

definition other_start :: "Parser \<Rightarrow> bool" where
  "other_start p \<longleftrightarrow> isModifierKeyword (currentToken p) \<or> currentToken p = Punct AtToken \<or> isStartOfExpression p"

lemma other_declaration: "other_start p \<Longrightarrow> local_start p \<or> typeish p \<Longrightarrow> local_start p"
  unfolding other_start_def local_start_def typeish_def isStartOfExpression_def isStartOfType_def
  by (elim disjE insertE) simp_all

lemma other_consumes:
  assumes "other_start p"
    and "(b \<longrightarrow> local_start p \<or> typeish p) \<and> (\<not> b \<longrightarrow> \<not> isModifierKeyword (currentToken p) \<and> currentToken p \<noteq> Punct AtToken)"
  shows "b \<Longrightarrow> local_start p \<longrightarrow> remaining q < remaining p \<Longrightarrow> remaining q < remaining p"
    and "\<not> b \<Longrightarrow> isStartOfExpression p \<longrightarrow> remaining r < remaining p \<Longrightarrow> remaining q \<le> remaining r \<Longrightarrow> remaining q < remaining p"
  using assms other_declaration [OF assms(1)] by (auto simp: other_start_def)

lemma parse_other_statement_starts [THEN then_node_starts]:
  "follows a p \<Longrightarrow> remaining p \<le> R \<Longrightarrow> returns a (parse_other_statement rec p) (starts other_start node_in p)"
  unfolding parse_other_statement_def
  by (assumption | (rule tokens ranges, assumption) | rule parse | linarith
    | (rule other_consumes(1); assumption) | (rule other_consumes(2), assumption, assumption, assumption, assumption, linarith)
    | simp add: payloads)+

lemma keyword_statement: "isStartOfStatementToken p \<Longrightarrow> currentToken p \<notin> {Punct SemicolonToken, Punct OpenBraceToken, Reserved IfKeyword,
    Reserved WhileKeyword, Reserved DoKeyword, Reserved ForKeyword, Reserved TryKeyword, Reserved SwitchKeyword, Reserved ReturnKeyword,
    Reserved ThrowKeyword, Reserved BreakKeyword, Reserved ContinueKeyword, Reserved SynchronizedKeyword, Reserved AssertKeyword,
    Reserved ClassKeyword, Reserved InterfaceKeyword, Reserved EnumKeyword} \<Longrightarrow> other_start p"
  unfolding isStartOfStatementToken_def other_start_def by (elim disjE insertE) simp_all

lemma declaration_statement [THEN then_node_moves]:
  "currentToken p \<in> {Reserved ClassKeyword, Reserved InterfaceKeyword, Reserved EnumKeyword} \<Longrightarrow> follows a p \<Longrightarrow> remaining p \<le> R \<Longrightarrow>
     returns a (parseTypeDeclaration rec p) (moves node_in p)"
  by (assumption | rule parse | linarith | (auto; fail))+

lemmas keyword_statements = parseIfStatement_moves parseWhileStatement_moves parseDoStatement_moves parseForStatement_moves parseReturnStatement_moves parseThrowStatement_moves parseSynchronizedStatement_moves parseAssertStatement_moves parseTryStatement_moves parseSwitchStatement_moves

lemma starts_moves: "returns a m (moves V p) \<Longrightarrow> returns a m (starts S V p)"
  by (erule returns_weaken) (simp add: moves_def starts_def)

lemma simple_statements [THEN then_node_moves]:
  "currentToken p = Punct SemicolonToken \<Longrightarrow> follows a p \<Longrightarrow> returns a (parseEmptyStatement p) (moves node_in p)"
  "currentToken p = Punct OpenBraceToken \<Longrightarrow> follows a p \<Longrightarrow> remaining p \<le> R \<Longrightarrow> returns a (parseBlock rec p) (moves node_in p)"
  "currentToken p = Reserved BreakKeyword \<Longrightarrow> follows a p \<Longrightarrow> returns a (parseBreakOrContinue BreakStatement p) (moves node_in p)"
  "currentToken p = Reserved ContinueKeyword \<Longrightarrow> follows a p \<Longrightarrow> returns a (parseBreakOrContinue ContinueStatement p) (moves node_in p)"
  by (assumption | rule parse | linarith | (simp; fail))+

lemma parseStatement_starts [THEN then_node_starts, parse]:
  assumes "follows a p" and "remaining p \<le> R"
  shows "returns a (parseStatement rec p) (starts isStartOfStatementToken node_in p)"
  unfolding parseStatement_def
proof (intro returns_if)
  let ?keywords = "{Punct SemicolonToken, Punct OpenBraceToken, Reserved IfKeyword,
    Reserved WhileKeyword, Reserved DoKeyword, Reserved ForKeyword, Reserved TryKeyword, Reserved SwitchKeyword, Reserved ReturnKeyword,
    Reserved ThrowKeyword, Reserved BreakKeyword, Reserved ContinueKeyword, Reserved SynchronizedKeyword, Reserved AssertKeyword,
    Reserved ClassKeyword, Reserved InterfaceKeyword, Reserved EnumKeyword}"
  assume "currentToken p \<noteq> Punct SemicolonToken" "currentToken p \<noteq> Punct OpenBraceToken" "currentToken p \<noteq> Reserved IfKeyword"
    "currentToken p \<noteq> Reserved WhileKeyword" "currentToken p \<noteq> Reserved DoKeyword" "currentToken p \<noteq> Reserved ForKeyword"
    "currentToken p \<noteq> Reserved TryKeyword" "currentToken p \<noteq> Reserved SwitchKeyword" "currentToken p \<noteq> Reserved ReturnKeyword"
    "currentToken p \<noteq> Reserved ThrowKeyword" "currentToken p \<noteq> Reserved BreakKeyword" "currentToken p \<noteq> Reserved ContinueKeyword"
    "currentToken p \<noteq> Reserved SynchronizedKeyword" "currentToken p \<noteq> Reserved AssertKeyword"
    "currentToken p \<notin> {Reserved ClassKeyword, Reserved InterfaceKeyword, Reserved EnumKeyword}"
  then have "isStartOfStatementToken p \<longrightarrow> other_start p" using keyword_statement [of p] by simp
  then show "returns a (parse_other_statement rec p) (starts isStartOfStatementToken node_in p)"
    by (intro parse_other_statement_starts assms startsI) auto
qed (use assms in \<open>auto intro!: starts_moves movesI simple_statements declaration_statement keyword_statements\<close>)

section \<open>The source file\<close>

lemma parse_nonterminal_starts:
  assumes "follows a p" and "remaining p \<le> R" and "nt = nt_SwitchClause \<longrightarrow> first_of nt p"
  shows "returns a (parse_nonterminal rec nt p) (starts (first_of nt) node_in p)"
proof (cases nt)
  case nt_ClassMember
  with assms show ?thesis
    by (auto simp: parse_nonterminal_def first_of_def intro!: parseClassMember_starts startsI)
next
  case nt_Statement
  with assms show ?thesis
    by (auto simp: parse_nonterminal_def first_of_def intro!: parseStatement_starts startsI)
next
  case nt_SwitchClause
  with assms show ?thesis
    by (auto simp: parse_nonterminal_def intro!: parseSwitchClause_moves startsI)
qed (insert assms, simp_all add: parse_nonterminal_def,
  (assumption | rule parse | linarith | (simp add: first_of_def; fail))+)

lemma array_in_Pos: "array_in lo hi x \<Longrightarrow> lo \<le> array_Pos x" "array_in lo hi x \<Longrightarrow> array_Pos x \<le> hi"
    "array_in lo hi x \<Longrightarrow> array_in (array_Pos x) hi x"
  by (cases x; simp add: array_in_def)+

lemma parsePackageDeclaration_spans:
  assumes "opt_array_in lo hi annotations" and "currentToken p = Reserved PackageKeyword" and "follows a p" and "hi \<le> getNodePos p"
    and "lo \<le> getNodePos p"
  shows "returns a (parsePackageDeclaration annotations p) (spans True lo p)"
proof -
  let ?pos = "case annotations of None \<Rightarrow> getNodePos p | Some x \<Rightarrow> array_Pos x"
  have pos: "lo \<le> ?pos" "?pos \<le> getNodePos p" "opt_array_in ?pos hi annotations"
    using assms array_in_Pos [of lo hi "the annotations"] by (cases annotations; simp)+
  have "returns a (parsePackageDeclaration annotations p) (spans True ?pos p)"
    unfolding parsePackageDeclaration_def using assms pos(2,3)
    by - (rule returns_let, (assumption | (rule tokens ranges, assumption) | rule parse | linarith | (simp; fail) | simp add: payloads)+)
  then show ?thesis using pos(1) by (elim returns_weaken) (auto simp: spans_def intro: node_in_mono)
qed

lemma package_without_annotations:
  "currentToken p = Reserved PackageKeyword \<Longrightarrow> follows a p \<Longrightarrow>
     returns a (parsePackageDeclaration None p) (spans True (getNodePos p) p)"
  by (rule parsePackageDeclaration_spans [where hi = "getNodePos p"]) simp_all

lemmas package_declarations [THEN then_spans] = package_without_annotations parsePackageDeclaration_spans

lemma import_segments_then:
  assumes "node_in lo hi n" and "follows a p" and "hi \<le> getNodePos p"
    and "\<And>n v q. follows a q \<Longrightarrow> getNodePos p \<le> getNodePos q \<Longrightarrow> remaining q \<le> remaining p \<Longrightarrow>
      node_in lo (getNodePos q) n \<Longrightarrow> lo \<le> Pos n \<Longrightarrow> Pos n \<le> getNodePos q \<Longrightarrow> Q (n, v) q"
  shows "returns a (import_segments n p) Q"
  unfolding import_segments_def
proof (rule pair_loop [OF assms(1-3)])
  fix n v q
  assume q: "follows a q" "node_in lo (getNodePos q) n" "lo \<le> Pos n" "Pos n \<le> getNodePos q"
  then show "returns a ((case (n, v) of (name, isOnDemand) \<Rightarrow> \<lambda>p. Option.bind (parseOptional (Punct DotToken) p) (\<lambda>(dot, p).
      if \<not> dot then Some ((False, name, isOnDemand), p)
      else if currentToken p = Punct AsteriskToken then Option.bind (nextToken p) (\<lambda>(_, p). Some ((False, name, True), p))
      else Option.bind (parseIdentifier p) (\<lambda>(right, p). Option.bind (makeQualifiedName name right p)
        (\<lambda>(name, p). Some ((True, name, isOnDemand), p))))) q) (steps (\<lambda>x q. pair_node_in lo (getNodePos q) x) q)"
    unfolding split_conv
    by - (assumption | (rule tokens ranges pair_in, assumption) | rule parse | linarith | (simp; fail) | simp add: payloads)+
qed (rule assms(4))

lemma parseImportDeclaration_moves [THEN then_node_moves, parse]:
  "currentToken p = Reserved ImportKeyword \<Longrightarrow> follows a p \<Longrightarrow> returns a (parseImportDeclaration p) (moves node_in p)"
  unfolding parseImportDeclaration_def
  by (assumption | (rule tokens ranges node_loop import_segments_then, assumption) | rule parse follows_refl follows_well
    | linarith | (simp; fail) | simp add: payloads)+

lemma parseImportDeclarations_passes [THEN then_passes, parse]:
  "follows a p \<Longrightarrow> returns a (parseImportDeclarations p) (passes array_in p)"
  unfolding parseImportDeclarations_def
  by (assumption | (rule tokens ranges node_loop, assumption) | rule parse follows_refl follows_well
    | linarith | (simp; fail) | simp add: payloads)+

lemma parseSourceElement_starts [THEN then_node_starts, parse]:
  "follows a p \<Longrightarrow> remaining p \<le> R \<Longrightarrow>
     returns a (parseSourceElement rec p) (starts (\<lambda>p. currentToken p \<noteq> EndOfFileToken) node_in p)"
  unfolding parseSourceElement_def
  by (assumption | (rule tokens ranges node_loop, assumption) | rule parse follows_refl follows_well
    | linarith | (simp; fail) | simp add: payloads)+

lemma after_annotations_tests [THEN then_tests, parse]:
  "follows a p \<Longrightarrow> remaining p \<le> R \<Longrightarrow> returns a (after_annotations rec test p) (tests (\<lambda>_. True) p)"
  unfolding after_annotations_def
  by (assumption | (rule tokens ranges node_loop, assumption) | rule parse follows_refl follows_well
    | linarith | (simp; fail) | simp add: payloads)+

lemma package_part_passes [THEN then_passes, parse]:
  "follows a p \<Longrightarrow> remaining p \<le> R \<Longrightarrow> returns a (package_part rec p) (passes opt_node_in p)"
  unfolding package_part_def optionally_def
  by (assumption | (rule tokens ranges node_loop package_declarations, assumption) | rule parse follows_refl follows_well
    | linarith | (simp; fail) | simp add: payloads)+

lemma unit_body_then [parse]:
  assumes "follows a p" and "remaining p \<le> R"
    and "\<And>x y q. follows a q \<Longrightarrow> getNodePos p \<le> getNodePos q \<Longrightarrow> remaining q \<le> remaining p \<Longrightarrow>
      opt_node_in (getNodePos p) (getNodePos q) x \<Longrightarrow> array_in (getNodePos p) (getNodePos q) y \<Longrightarrow> Q (x, y) q"
  shows "returns a (unit_body rec pkg p) Q"
proof -
  have "returns a (unit_body rec pkg p) (passes (\<lambda>lo hi (x, y). opt_node_in lo hi x \<and> array_in lo hi y) p)"
    using assms(1,2) unfolding unit_body_def
    by - (assumption | (rule tokens ranges, assumption) | rule parse follows_refl follows_well | linarith
      | (simp add: list_first_def; fail) | simp add: payloads)+
  then show ?thesis by (rule then_passes) (auto intro: assms(3))
qed

lemma parseExpectedToken_passes [THEN then_node_passes, parse]:
  "follows a p \<Longrightarrow> returns a (parseExpectedToken kind m p) (passes node_in p)"
  unfolding parseExpectedToken_def
  by (assumption | (rule tokens ranges node_loop, assumption) | rule parse follows_refl follows_well
    | linarith | (simp; fail) | simp add: payloads)+

end

section \<open>Enough fuel\<close>

text \<open>
  With fuel \<open>n\<close> every nonterminal is parsed where less than \<open>n\<close> is left of the text: a nonterminal calls the
  others only after it has consumed a token.
\<close>

lemma parse_parsing: "parsing (parse n) n"
proof (induction n)
  case (Suc n)
  show ?case
  proof
    fix a p nt
    assume "follows a p" "remaining p < Suc n" "nt = nt_SwitchClause \<longrightarrow> first_of nt p"
    then show "returns a (parse (Suc n) nt p) (starts (first_of nt) node_in p)"
      using parsing.parse_nonterminal_starts [OF Suc.IH] by simp
  qed
qed (unfold_locales, simp)

interpretation grammar: parsing "parse n" n for n
  by (rule parse_parsing)

text \<open>The first token is read from a parser that has none.\<close>

lemma first_token:
  assumes "txt = [] \<or> last txt \<noteq> BACKSLASH"
  obtains k p where "nextToken (NewParser name txt) = Some (k, p)" and "well p" and "sourceText p = txt" and "fileName p = name"
    and "parsingContext p = 0" and "getNodePos p = 0"
proof -
  let ?p = "NewParser name txt"
  have i: "inside (scanner ?p)" "source_text (scanner ?p) = txt" "s_pos (scanner ?p) = 0" "source_end (scanner ?p) = length txt"
    by (simp_all add: NewParser_def NewScanner_def inside_def)
  from Scan_None [OF i(1)] assms i(2) obtain s where s: "Scan (scanner ?p) = Some s" by fastforce
  note sc = Scan_scanned [OF s]
  have src: "inside s" "source_text s = txt" "fullStartPos s = 0" "source_end s = length txt"
    using sc i by (simp_all add: scanned_def)
  have pos: "if token s = EndOfFileToken then s_pos s = length txt else 0 < s_pos s"
    using sc src by (auto simp: scanned_def inside_def)
  let ?q = "?p\<lparr>scanner := s\<lparr>errors := []\<rparr>, currentToken := token s\<rparr>"
  obtain ds e where r: "report_errors (errors s) (?p\<lparr>scanner := s\<lparr>errors := []\<rparr>\<rparr>) = ?p\<lparr>scanner := s\<lparr>errors := []\<rparr>,
      parseDiagnostics := ds, parseErrorBeforeNextFinishedNode := e\<rparr>"
    using reported_errors [of "?p\<lparr>scanner := s\<lparr>errors := []\<rparr>\<rparr>" "errors s"] by (auto simp: reported_def NewParser_def)
  have "nextToken ?p = Some (token s, ?q\<lparr>parseDiagnostics := ds, parseErrorBeforeNextFinishedNode := e\<rparr>)"
    by (simp add: nextToken_def scan_with_def s r)
  moreover have "well (?q\<lparr>parseDiagnostics := ds, parseErrorBeforeNextFinishedNode := e\<rparr>)"
    using src pos assms by (auto simp: well_def NewParser_def)
  moreover have "getNodePos (?q\<lparr>parseDiagnostics := ds, parseErrorBeforeNextFinishedNode := e\<rparr>) = 0"
    by (simp add: getNodePos_def src)
  ultimately show ?thesis by (intro that) (simp_all add: NewParser_def)
qed

end
