(* ===== verification/SourceFileCorrect.thy ===== *)
theory SourceFileCorrect
  imports ParserCorrect
begin

text \<open>
  What \<open>ParseSourceFile\<close> promises of every text: it returns, with a tree whose ranges are nested in the
  text; a source file without a module declaration covers the whole text; a lookahead leaves the parser as
  it was.
\<close>

section \<open>The whole text\<close>

text \<open>A test of the parser depends on the scanner and the current token only.\<close>

definition agrees :: "Parser \<Rightarrow> Parser \<Rightarrow> bool" where
  "agrees p q \<longleftrightarrow> scanner q = scanner p \<and> currentToken q = currentToken p"

lemma nextToken_agrees:
  assumes "agrees p q" and "nextToken p = Some (k, r)"
  shows "\<exists>s. nextToken q = Some (k, s) \<and> agrees r s"
proof -
  from assms(2) obtain s where s: "Scan (scanner p) = Some s"
    and r: "k = token s" "r = (report_errors (errors s) (p\<lparr>scanner := s\<lparr>errors := []\<rparr>\<rparr>))\<lparr>currentToken := token s\<rparr>"
    by (auto simp: nextToken_def scan_with_def split: option.splits)
  have "nextToken q = Some (k, (report_errors (errors s) (q\<lparr>scanner := s\<lparr>errors := []\<rparr>\<rparr>))\<lparr>currentToken := token s\<rparr>)"
    using assms(1) s r(1) by (simp add: nextToken_def scan_with_def agrees_def)
  then show ?thesis by (simp add: agrees_def r(2) reported_simps(1) [OF reported_errors])
qed

lemma isContextualKeyword_agrees: "agrees p q \<Longrightarrow> isContextualKeyword name q = isContextualKeyword name p"
  by (simp add: isContextualKeyword_def agrees_def)

lemma isRecordDeclarationStart_agrees:
  assumes "follows p p" and "reported p q"
  shows "\<exists>b. isRecordDeclarationStart p = Some (b, p) \<and> isRecordDeclarationStart q = Some (b, q)"
proof -
  let ?cb = "\<lambda>p. Option.bind (nextToken p) (\<lambda>(_, p). if currentToken p \<noteq> Identifier then Some (False, p)
      else Option.bind (nextToken p) (\<lambda>(_, p). Some (currentToken p = Punct OpenParenToken \<or> currentToken p = Punct LessThanToken, p)))"
  have ag: "agrees p q" using assms(2) by (simp add: agrees_def reported_simps)
  have wq: "follows q q" using reported_simps(6) [OF assms(2)] assms(1) by (simp add: follows_well follows_refl)
  have same: "map_option fst (?cb p) = map_option fst (?cb q)"
  proof (cases "nextToken p")
    case None
    then show ?thesis using nextToken_Some [OF follows_well [OF assms(1)]] by auto
  next
    case (Some kr)
    obtain k r where kr: "kr = (k, r)" by (cases kr)
    from nextToken_agrees [OF ag] Some kr obtain s where s: "nextToken q = Some (k, s)" "agrees r s" by blast
    have wr: "well r" using nextToken_well(1) [OF follows_well [OF assms(1)]] Some kr by (auto dest: follows_well)
    from nextToken_Some [OF wr] obtain k' r' where r': "nextToken r = Some (k', r')" by blast
    from nextToken_agrees [OF s(2) this] obtain s' where s': "nextToken s = Some (k', s')" "agrees r' s'" by blast
    show ?thesis using Some kr s r' s' by (simp add: agrees_def)
  qed
  have "returns p (isRecordDeclarationStart p) (tests (\<lambda>_. True) p)" "returns q (isRecordDeclarationStart q) (tests (\<lambda>_. True) q)"
    by (rule isRecordDeclarationStart_tests [OF assms(1)], simp add: tests_def,
        rule isRecordDeclarationStart_tests [OF wq], simp add: tests_def)
  then obtain b c where bc: "isRecordDeclarationStart p = Some (b, p)" "isRecordDeclarationStart q = Some (c, q)"
    by (auto simp: returns_def tests_def)
  have "b = c"
    using bc same isContextualKeyword_agrees [OF ag, of "''record''"]
    by (auto simp: isRecordDeclarationStart_def parserLookAhead_def bind_eq_Some_conv split: if_splits)
  with bc show ?thesis by blast
qed

lemma isStartOfStatement_agrees:
  assumes "follows p p" and "reported p q"
  shows "\<exists>b. isStartOfStatement p = Some (b, p) \<and> isStartOfStatement q = Some (b, q)"
proof -
  have ag: "agrees p q" using assms(2) by (simp add: agrees_def reported_simps)
  then have "currentToken q = currentToken p" by (simp add: agrees_def)
  with isRecordDeclarationStart_agrees [OF assms] isContextualKeyword_agrees [OF ag] show ?thesis
    by (auto simp: isStartOfStatement_def)
qed

text \<open>At the top level no token that is skipped could be parsed by an enclosing list, so the list goes on.\<close>

lemma top_level_context:
  assumes "parsingContext p = 1" and "isStartOfStatement p = Some (False, p)" and "currentToken p \<noteq> EndOfFileToken"
  shows "isInSomeParsingContext p = Some (False, p)"
  using assms
  by (simp add: isInSomeParsingContext_def parsing_contexts_def isListElement_def isListTerminator_def bit_1_iff)

lemma top_level_abort:
  assumes "follows a p" and "parsingContext p = 1" and "isStartOfStatement p = Some (False, p)" and "currentToken p \<noteq> EndOfFileToken"
  shows "returns a (abortParsingListOrMoveToNextToken ctxSourceElements p)
    (\<lambda>b q. \<not> b \<and> getNodePos p \<le> getNodePos q \<and> remaining q < remaining p)"
proof -
  let ?q = "parsingContextErrors ctxSourceElements p"
  have rep: "reported p ?q" by (simp add: parsingContextErrors_def reported_parseErrorAtCurrentToken)
  note q = reported_simps [OF rep]
  have ctx: "parsingContext ?q = 1" using rep assms(2) by (auto simp: reported_def)
  from isStartOfStatement_agrees [OF follows_refl [OF follows_well [OF assms(1)]] rep] assms(3)
  have "isStartOfStatement ?q = Some (False, ?q)" by auto
  from top_level_context [OF ctx this] assms(4) q(2) have in_none: "isInSomeParsingContext ?q = Some (False, ?q)" by simp
  show ?thesis
    unfolding abortParsingListOrMoveToNextToken_def Let_def in_none
    by (simp, rule returns_bind, rule then_moves [OF nextToken_not_end [OF _ q(7) [OF assms(1)]]])
      (use assms(4) q in \<open>auto intro!: returns_Some\<close>)
qed

text \<open>The module declaration of a source file.\<close>

definition source_module :: "Node \<Rightarrow> Node option" where
  "source_module n = (case payload n of [_, _, Child m, _, _] \<Rightarrow> m | _ \<Rightarrow> None)"

context parsing
begin

lemma parseList_source_end:
  assumes "follows a p" and "remaining p \<le> R" and "parsingContext p = 0"
  shows "returns a (parseList ctxSourceElements (parseSourceElement rec) p) (\<lambda>_ q. currentToken q = EndOfFileToken)"
proof -
  let ?e = "enter_context ctxSourceElements p" and ?step = "list_step ctxSourceElements (parseSourceElement rec)"
  note e = enter_follows [OF assms(1), of ctxSourceElements]
  have ctx: "parsingContext ?e = 1" using assms(3) by (simp add: enter_context_def)
  have "returns ?e (parse_loop ?step [] ?e)
      (\<lambda>_ q. getNodePos ?e \<le> getNodePos q \<and> remaining q \<le> remaining ?e \<and> currentToken q = EndOfFileToken)"
  proof (rule parse_loop_exits [where I = "\<lambda>_ _. True", OF e(1) TrueI])
    fix list q
    assume q: "follows ?e q" "remaining q \<le> remaining ?e"
    let ?E = "exits (\<lambda>_ _. True) (\<lambda>_ q. currentToken q = EndOfFileToken) q"
    have wq: "follows q q" and rq: "remaining q \<le> R" and cq: "parsingContext q = 1"
      using q e(3) assms(2) ctx by (auto simp: follows_well follows_refl, simp add: follows_def)
    show "returns ?e (?step list q) ?E"
    proof (cases "currentToken q = EndOfFileToken")
      case True
      with q(1) show ?thesis by (auto simp: list_step_def isListTerminator_def exits_def intro!: returns_Some)
    next
      case False
      from isStartOfStatement_agrees [OF wq reported_refl] obtain b where b: "isStartOfStatement q = Some (b, q)" by blast
      show ?thesis
      proof (cases b)
        case True
        with False b have "?step list q = Option.bind (parseSourceElement rec q) (\<lambda>(n, p). Some ((True, list @ [n]), p))"
          by (simp add: list_step_def isListTerminator_def isListElement_def)
        moreover from q(1) rq False have "returns ?e \<dots> ?E"
          by - (rule parse | assumption | linarith | (simp; fail))+
        ultimately show ?thesis by simp
      next
        case nb: False
        with False b have "?step list q = Option.bind (abortParsingListOrMoveToNextToken ctxSourceElements q) (\<lambda>(b, p). Some ((\<not> b, list), p))"
          by (simp add: list_step_def isListTerminator_def isListElement_def)
        moreover have "returns ?e \<dots> ?E"
          by (rule returns_bind, rule returns_weaken [OF top_level_abort [OF q(1) cq]])
            (use nb b False in \<open>auto simp: exits_def intro!: returns_Some\<close>)
        ultimately show ?thesis by simp
      qed
    qed
  qed
  then obtain list q where "parse_loop ?step [] ?e = Some (list, q)" "follows ?e q" "currentToken q = EndOfFileToken"
    by (auto simp: returns_def)
  with e(4) show ?thesis by (auto simp: parseList_def returns_def Let_def)
qed

text \<open>The parts of a source file: its module declaration decides where the parser stops.\<close>

lemma unit_body_end:
  assumes "follows a p" and "remaining p \<le> R" and "parsingContext p = 0"
  shows "returns a (unit_body rec pkg p) (\<lambda>(modul, _) q. modul = None \<longrightarrow> currentToken q = EndOfFileToken)"
proof -
  let ?test = "if isModuleKeyword p then Some (True, p) else after_annotations rec isModuleKeyword p"
  have "returns a ?test (tests (\<lambda>_. True) p)"
    using assms(1,2) by - (assumption | rule parse | (simp; fail))+
  then obtain b where b: "?test = Some (b, p)" by (auto simp: returns_def tests_def)
  have m: "returns a (Option.bind (parseModuleDeclaration rec p) (\<lambda>(modul, p). Some ((Some modul, createNodeArray [] (getNodePos p) p), p)))
      (\<lambda>(modul, _) q. modul = None \<longrightarrow> currentToken q = EndOfFileToken)"
    by (rule returns_bind, rule parseModuleDeclaration_passes [OF assms(1,2)]) (auto intro!: returns_Some)
  have l: "returns a (Option.bind (parseList ctxSourceElements (parseSourceElement rec) p) (\<lambda>(statements, p). Some ((None, statements), p)))
      (\<lambda>(modul, _) q. modul = None \<longrightarrow> currentToken q = EndOfFileToken)"
    by (rule returns_bind, rule returns_weaken [OF parseList_source_end [OF assms]]) (auto intro!: returns_Some)
  show ?thesis unfolding unit_body_def b by (cases "b \<and> pkg = None") (use m l in \<open>simp_all del: not_None_eq\<close>)
qed

lemma unit_body_ends:
  assumes "follows a p" and "remaining p \<le> R" and "parsingContext a = 0"
    and "\<And>x y q. follows a q \<Longrightarrow> getNodePos p \<le> getNodePos q \<Longrightarrow> remaining q \<le> remaining p \<Longrightarrow>
      opt_node_in (getNodePos p) (getNodePos q) x \<Longrightarrow> array_in (getNodePos p) (getNodePos q) y \<Longrightarrow>
      x = None \<longrightarrow> currentToken q = EndOfFileToken \<Longrightarrow> Q (x, y) q"
  shows "returns a (unit_body rec pkg p) Q"
proof -
  have "parsingContext p = 0" using assms(1,3) by (simp add: follows_def)
  note e = unit_body_end [OF assms(1,2) this]
  have "returns a (unit_body rec pkg p) (\<lambda>x q. follows a q \<and> getNodePos p \<le> getNodePos q \<and> remaining q \<le> remaining p
      \<and> opt_node_in (getNodePos p) (getNodePos q) (fst x) \<and> array_in (getNodePos p) (getNodePos q) (snd x))"
    by (rule unit_body_then [OF assms(1,2)]) simp
  from returns_conj [OF this e] show ?thesis by (rule returns_weaken) (auto intro: assms(4))
qed

lemma end_of_file_token:
  assumes "follows a p"
    and "\<And>x q. follows a q \<Longrightarrow> getNodePos p \<le> getNodePos q \<Longrightarrow> remaining q \<le> remaining p \<Longrightarrow> node_in (getNodePos p) (getNodePos q) x \<Longrightarrow>
      currentToken p = EndOfFileToken \<longrightarrow> getNodePos q = length (sourceText a) \<Longrightarrow> Q x q"
  shows "returns a (parseExpectedToken EndOfFileToken m p) Q"
proof -
  have "returns a (parseExpectedToken EndOfFileToken m p) (\<lambda>x q. getNodePos p \<le> getNodePos q \<and> remaining q \<le> remaining p
      \<and> node_in (getNodePos p) (getNodePos q) x)"
    by (rule parseExpectedToken_passes [OF assms(1)]) simp
  moreover have "returns a (parseExpectedToken EndOfFileToken m p)
      (\<lambda>_ q. currentToken p = EndOfFileToken \<longrightarrow> getNodePos q = length (sourceText a))"
  proof (cases "currentToken p = EndOfFileToken")
    case True
    from assms(1) have w: "well p" by (rule follows_well)
    obtain s q where s: "scanned (scanner p) s" and r: "reported (p\<lparr>scanner := s\<lparr>errors := []\<rparr>, currentToken := token s\<rparr>) q"
      and n: "nextToken p = Some (token s, q)" by (rule nextToken_state [OF w])
    let ?q = "q\<lparr>parseErrorBeforeNextFinishedNode := False\<rparr>"
    have "getNodePos q = length (sourceText a)"
      using w True s assms(1) unfolding reported_simps(4) [OF r] by (simp add: getNodePos_def scanned_def well_def follows_def)
    then have "getNodePos ?q = length (sourceText a)" by (simp add: getNodePos_def)
    moreover have "reported q ?q" by (rule reportedI [where ds = "[]" and e = False]) simp
    then have "follows a ?q" by (rule reported_simps(7)) (rule follows_trans [OF assms(1) nextToken_well(1) [OF w n]])
    moreover have "\<exists>node. parseTokenNode p = Some (node, ?q)"
      by (simp add: parseTokenNode_def n finishNode_def Let_def)
    ultimately have "returns a (parseTokenNode p) (\<lambda>_ q. getNodePos q = length (sourceText a))"
      by (auto simp: returns_def)
    with True show ?thesis by (auto simp: parseExpectedToken_def elim: returns_weaken)
  next
    case False
    show ?thesis by (rule parseExpectedToken_passes [OF assms(1)]) (simp add: False)
  qed
  ultimately show ?thesis by (rule returns_weaken [OF returns_conj]) (blast intro: assms(2))
qed

lemma compilation_unit_returns:
  assumes p: "follows a p" "remaining p \<le> R" "parsingContext a = 0"
  shows "returns a (compilation_unit rec p) (\<lambda>n q. node_in (getNodePos p) (getNodePos q) n \<and> getNodePos p = Pos n \<and>
    End n = getNodePos q \<and> (source_module n = None \<longrightarrow> End n = length (sourceText a)))"
  unfolding compilation_unit_def
proof (rule returns_let, rule returns_bind, rule package_part_passes [OF p(1,2)], rule returns_bind, rule parseImportDeclarations_passes)
  fix pkg q importList r
  assume q: "follows a q" "getNodePos p \<le> getNodePos q" "remaining q \<le> remaining p" "opt_node_in (getNodePos p) (getNodePos q) pkg"
    and r: "follows a r" "getNodePos q \<le> getNodePos r" "remaining r \<le> remaining q" "array_in (getNodePos q) (getNodePos r) importList"
  from r(3) q(3) p(2) have rR: "remaining r \<le> R" by linarith
  show "returns a (Option.bind (unit_body rec pkg r) (\<lambda>((modul, statements), p'). Option.bind (parseExpectedToken EndOfFileToken None p')
      (\<lambda>(eof, p'). finishNode (NewSourceFile pkg importList modul statements eof) (getNodePos p) p')))
    (\<lambda>n q. node_in (getNodePos p) (getNodePos q) n \<and> getNodePos p = Pos n \<and>
      End n = getNodePos q \<and> (source_module n = None \<longrightarrow> End n = length (sourceText a)))"
  proof (rule returns_bind, rule unit_body_ends [OF r(1) rR p(3)], unfold split_conv, rule returns_bind, rule end_of_file_token, assumption)
    fix modul statements s eof t
    assume s: "follows a s" "getNodePos r \<le> getNodePos s" "remaining s \<le> remaining r" "opt_node_in (getNodePos r) (getNodePos s) modul"
        "array_in (getNodePos r) (getNodePos s) statements" "modul = None \<longrightarrow> currentToken s = EndOfFileToken"
      and t: "follows a t" "getNodePos s \<le> getNodePos t" "node_in (getNodePos s) (getNodePos t) eof"
        "currentToken s = EndOfFileToken \<longrightarrow> getNodePos t = length (sourceText a)"
    show "returns a (finishNode (NewSourceFile pkg importList modul statements eof) (getNodePos p) t)
      (\<lambda>n q. node_in (getNodePos p) (getNodePos q) n \<and> getNodePos p = Pos n \<and>
        End n = getNodePos q \<and> (source_module n = None \<longrightarrow> End n = length (sourceText a)))"
    proof -
      have "returns a (finishNode (NewSourceFile pkg importList modul statements eof) (getNodePos p) t) (finished (getNodePos p) t)"
        using q r s t by - (rule finishNode_finished conjI | (rule field_in_values, assumption) | linarith | (simp; fail) | simp add: payloads)+
      moreover have "returns a (finishNode (NewSourceFile pkg importList modul statements eof) (getNodePos p) t)
          (\<lambda>n q. getNodePos p = Pos n \<and> End n = getNodePos q \<and> (source_module n = None \<longrightarrow> End n = length (sourceText a)))"
        unfolding finishNode_def
        by (rule returns_reported [OF t(1) reportedI [where ds = "[]" and e = False]])
          (use s(6) t(4) in \<open>auto simp: source_module_def NewSourceFile_def newNode_def\<close>)
      ultimately show ?thesis by (rule returns_weaken [OF returns_conj]) (auto simp: finished_def)
    qed
  qed
qed (use p in simp_all)

end

section \<open>Every text is parsed\<close>

text \<open>The fuel of \<open>ParseSourceFile\<close> is more than what is left of the text after the first token.\<close>

lemma ParseSourceFile_result:
  assumes "txt = [] \<or> last txt \<noteq> BACKSLASH"
  obtains r where "ParseSourceFile name txt = Some r" and "file_name r = name" and "file_text r = txt"
    and "nested (file_node r)" and "Pos (file_node r) = 0" and "End (file_node r) \<le> length txt"
    and "source_module (file_node r) = None \<Longrightarrow> End (file_node r) = length txt"
proof -
  from first_token [OF assms] obtain k p where n: "nextToken (NewParser name txt) = Some (k, p)" and p: "well p" "sourceText p = txt"
    "fileName p = name" "parsingContext p = 0" "getNodePos p = 0" by metis
  have "remaining p \<le> length txt + 2" using remaining_less [OF p(1)] p(2) by simp
  from grammar.compilation_unit_returns [OF follows_refl [OF p(1)] this p(4)]
  obtain x q where x: "compilation_unit (parse (length txt + 2)) p = Some (x, q)" "follows p q" "node_in 0 (getNodePos q) x"
    "Pos x = 0" "source_module x = None \<longrightarrow> End x = length txt"
    unfolding returns_def p(2,5) by force
  have "getNodePos q \<le> length txt" using getNodePos_le [OF follows_well [OF x(2)]] x(2) p(2) by (simp add: follows_def)
  with x p have "nested x" "End x \<le> length txt" "fileName q = name" "sourceText q = txt"
    by (auto simp: node_in_def follows_def)
  with x n show ?thesis
    by (intro that [of "\<lparr>file_node = x, file_name = fileName q, file_text = sourceText q, file_diagnostics = parseDiagnostics q\<rparr>"])
      (simp_all add: ParseSourceFile_def parse_source_file_def)
qed

text \<open>
  C1. \<open>ParseSourceFile\<close> returns on every text that does not end in a backslash, however broken: the fuel of the
  grammar and of its loops never runs out and the scanner never panics. The file keeps its name and text.
\<close>

theorem ParseSourceFile_returns:
  assumes "txt = [] \<or> last txt \<noteq> BACKSLASH"
  shows "\<exists>r. ParseSourceFile name txt = Some r \<and> file_name r = name \<and> file_text r = txt"
  using ParseSourceFile_result [OF assms] by metis

theorem ParseSourceFile_returns_witness:
  "\<exists>r. ParseSourceFile ''A.java'' ''class { = ) @ ( <'' = Some r \<and> file_name r = ''A.java''
     \<and> file_text r = ''class { = ) @ ( <''"
  by (rule ParseSourceFile_returns) (simp add: BACKSLASH_def)



text \<open>
  C3. A source file without a module declaration covers its text: the parser never stops before the end of the
  text, whatever it has to skip.
\<close>

theorem ParseSourceFile_covers:
  assumes "ParseSourceFile name txt = Some r" and "txt = [] \<or> last txt \<noteq> BACKSLASH"
    and "source_module (file_node r) = None"
  shows "End (file_node r) = length txt"
proof -
  from ParseSourceFile_result [OF assms(2), of name] obtain s where "ParseSourceFile name txt = Some s"
    "source_module (file_node s) = None \<Longrightarrow> End (file_node s) = length txt" by metis
  with assms(1,3) show ?thesis by simp
qed

theorem ParseSourceFile_covers_witness:
  "map_option (\<lambda>r. End (file_node r)) (ParseSourceFile ''A'' ''} ) class A{}'') = Some 13"
proof -
  have "map_option (\<lambda>r. source_module (file_node r)) (ParseSourceFile ''A'' ''} ) class A{}'') = Some None" by code_simp
  then obtain r where r: "ParseSourceFile ''A'' ''} ) class A{}'' = Some r" "source_module (file_node r) = None" by auto
  from ParseSourceFile_covers [OF r(1) _ r(2)] show ?thesis by (simp add: r BACKSLASH_def)
qed

text \<open>A module declaration ends the source file: what follows it is neither parsed nor reported.\<close>

lemma module_ends_source_file:
  "map_option (\<lambda>r. (file_diagnostics r, End (file_node r))) (ParseSourceFile ''m'' ''module m {} class {'') = Some ([], 11)"
  by code_simp

text \<open>
  C34. The brackets after the parameters of a method are consumed by the bound of the loop that counts them, which is
  evaluated again for each turn: however many pairs there are, the return type gets one dimension only, so that
  \<open>int m()[][]\<close> is read as \<open>int[] m()\<close>.
\<close>

theorem method_array_rank_lost:
  assumes "parseArrayRankAfterName p = Some (Suc rank, q)" and "currentToken q \<noteq> Punct OpenBracketToken"
  shows "\<exists>r. parse_loop method_array_type (0, returnType) p
      = Some ((1, Node (DeclNode ArrayType) (Pos returnType) (getNodePos q) (parseErrorBeforeNextFinishedNode q)
          [Child (Some returnType), Flag False]), r)"
proof -
  let ?r = "q\<lparr>parseErrorBeforeNextFinishedNode := False\<rparr>"
  have "parseArrayRankAfterName ?r = Some (0, ?r)"
    using assms(2) by (simp add: parseArrayRankAfterName_def parse_loop_once)
  with assms(1) show ?thesis
    by (simp add: parse_loop_def method_array_type_def finishNode_def NewArrayType_def newNode_def)
qed

theorem method_array_rank_lost_witness:
  "case nextToken (NewParser ''A'' ''[][];'') of None \<Rightarrow> False
   | Some (_, p) \<Rightarrow> map_option fst (parseArrayRankAfterName p) = Some 2
       \<and> map_option (fst \<circ> fst) (parse_loop method_array_type (0, NewVarType) p) = Some 1"
proof -
  have "Option.bind (nextToken (NewParser ''A'' ''[][];'')) (\<lambda>(_, p). map_option (\<lambda>(rank, q). (rank, currentToken q)) (parseArrayRankAfterName p))
      = Some (2, Punct SemicolonToken)" by code_simp
  then obtain k p q where p: "nextToken (NewParser ''A'' ''[][];'') = Some (k, p)" "parseArrayRankAfterName p = Some (Suc 1, q)"
    "currentToken q = Punct SemicolonToken"
    by (auto simp: bind_eq_Some_conv numeral_2_eq_2)
  from method_array_rank_lost [OF p(2), of NewVarType] p(3) obtain x r where "parse_loop method_array_type (0, NewVarType) p = Some ((1, x), r)"
    by auto
  with p show ?thesis by (auto simp: numeral_2_eq_2)
qed

text \<open>
  C5. The lookaheads that decide between the readings of an expression or a statement answer and leave the
  parser exactly as it was: its scanner, its token, its diagnostics and its error flag.
\<close>

theorem lookaheads_pure:
  assumes "well p" and "remaining p \<le> n"
  shows "\<exists>cast lambda foreach local_variable.
      isCastExpression (parse n) p = Some (cast, p) \<and> isLambdaStart p = Some (lambda, p)
      \<and> isForEachHeader (parse n) p = Some (foreach, p)
      \<and> isLocalVariableDeclarationStart (parse n) p = Some (local_variable, p)"
proof -
  note p = follows_refl [OF assms(1)]
  have "returns p (isCastExpression (parse n) p) (\<lambda>_ q. q = p)" "returns p (isLambdaStart p) (\<lambda>_ q. q = p)"
    "returns p (isForEachHeader (parse n) p) (\<lambda>_ q. q = p)" "returns p (isLocalVariableDeclarationStart (parse n) p) (\<lambda>_ q. q = p)"
    by (rule grammar.isCastExpression_tests grammar.isLambdaStart_tests grammar.isForEachHeader_tests
        grammar.isLocalVariableDeclarationStart_tests; use p assms(2) in \<open>simp\<close>)+
  then show ?thesis by (auto simp: returns_def)
qed

theorem lookaheads_pure_witness:
  "\<exists>k p. nextToken (NewParser ''A'' ''(int) x'') = Some (k, p) \<and> (\<exists>cast lambda foreach local_variable.
      isCastExpression (parse 9) p = Some (cast, p) \<and> isLambdaStart p = Some (lambda, p)
      \<and> isForEachHeader (parse 9) p = Some (foreach, p)
      \<and> isLocalVariableDeclarationStart (parse 9) p = Some (local_variable, p))"
proof -
  have "''(int) x'' = [] \<or> last ''(int) x'' \<noteq> BACKSLASH" by (simp add: BACKSLASH_def)
  from first_token [OF this, of "''A''"] obtain k p where p: "nextToken (NewParser ''A'' ''(int) x'') = Some (k, p)" "well p"
    "sourceText p = ''(int) x''" by metis
  have "remaining p \<le> 9" using remaining_less [OF p(2)] p(3) by simp
  from lookaheads_pure [OF p(2) this] p(1) show ?thesis by blast
qed

end
