(* ===== verification/Precedence.thy ===== *)
theory Precedence
  imports SourceFileCorrect
begin

text \<open>
  The trees of binary expressions: whatever the grammar's other nonterminals return, an expression that
  \<open>parseBinaryExpression\<close> reads is bracketed by the precedence of its operators, to the left among equals,
  and it ends only before a token that binds less than asked.
\<close>

section \<open>Bracketing\<close>

text \<open>The level of a node whose top is an infix operator, of either kind, or a binary one.\<close>

definition operator_level :: "Field list \<Rightarrow> nat" where
  "operator_level fs = (case fs of [_, Operator op, _] \<Rightarrow> binaryOperatorPrecedence op | _ \<Rightarrow> 0)"

definition binary_level :: "Node \<Rightarrow> nat option" where
  "binary_level n = (if node_kind n = CodeNode BinaryExpression then Some (operator_level (payload n)) else None)"

definition level :: "Node \<Rightarrow> nat option" where
  "level n = (if node_kind n = CodeNode InstanceofExpression then Some relationalPrecedence else binary_level n)"

text \<open>
  The operands of a binary operator: the left one binds at least as much, the right one more. The left
  operand of an operator may also be an \<open>instanceof\<close>, which nothing but its type follows.
\<close>

fun bracketed :: "Node \<Rightarrow> bool" where
  "bracketed (Node k a b e fs) \<longleftrightarrow>
     (if k = CodeNode BinaryExpression then
        (case fs of
           [Child (Some l), Operator op, Child (Some r)] \<Rightarrow>
             0 < binaryOperatorPrecedence op
             \<and> pred_option (\<lambda>i. binaryOperatorPrecedence op \<le> i) (binary_level l)
             \<and> pred_option (\<lambda>i. binaryOperatorPrecedence op < i) (level r)
             \<and> bracketed l \<and> bracketed r
         | _ \<Rightarrow> False)
      else if k = CodeNode InstanceofExpression then
        (case fs of
           Child (Some l) # _ \<Rightarrow> pred_option (\<lambda>i. relationalPrecedence \<le> i) (binary_level l) \<and> bracketed l
         | _ \<Rightarrow> False)
      else True)"

text \<open>No operator that binds at least \<open>m\<close> follows, also when a \<open>>\<close> is merged with what comes after it.\<close>

definition stopped :: "nat \<Rightarrow> Parser \<Rightarrow> bool" where
  "stopped m p \<longleftrightarrow>
     (if currentToken p = Reserved InstanceofKeyword then relationalPrecedence < m
      else pred_option (\<lambda>(_, q). binaryOperatorPrecedence (currentToken q) = 0 \<or> binaryOperatorPrecedence (currentToken q) < m)
        (reScanGreaterIfNeeded p))"

section \<open>What a method returns, if it returns\<close>

definition yields :: "('a \<Rightarrow> Parser \<Rightarrow> bool) \<Rightarrow> 'a parsed \<Rightarrow> bool" where
  "yields Q m \<longleftrightarrow> pred_option (case_prod Q) m"

named_theorems yield \<open>what a method returns, by the shape of its computation\<close>

lemma yields_bind [yield]: "yields (\<lambda>x q. yields Q (g x q)) m \<Longrightarrow> yields Q (Option.bind m (\<lambda>(x, q). g x q))"
  by (cases m) (auto simp: yields_def)

lemma yields_any: "yields (\<lambda>_ _. True) m"
  by (cases m) (auto simp: yields_def)

lemma yields_weaken: "yields P m \<Longrightarrow> (\<And>x q. P x q \<Longrightarrow> Q x q) \<Longrightarrow> yields Q m"
  by (cases m) (auto simp: yields_def)

lemma yields_bind_any [yield]: "(\<And>x q. yields Q (g x q)) \<Longrightarrow> yields Q (Option.bind m (\<lambda>(x, q). g x q))"
  by (cases m) (auto simp: yields_def)

lemma yields_Some [yield]: "Q x q \<Longrightarrow> yields Q (Some (x, q))"
  by (simp add: yields_def)

lemma yields_if [yield]: "(b \<Longrightarrow> yields Q m) \<Longrightarrow> (\<not> b \<Longrightarrow> yields Q n) \<Longrightarrow> yields Q (if b then m else n)"
  by simp

lemma yields_let [yield]: "yields Q (f e) \<Longrightarrow> yields Q (Let e f)"
  by simp

lemma yields_loop:
  assumes "\<And>x p. I x p \<Longrightarrow> yields (\<lambda>(again, y) q. if again then I y q else Q y q) (body x p)" and "I x p"
  shows "yields Q (parse_loop body x p)"
proof -
  have "yields Q (loop n body x p)" if "I x p" for n
    using that
  proof (induction n arbitrary: x p)
    case (Suc n)
    from assms(1) [OF Suc.prems] Suc.IH show ?case
      by (cases "body x p") (auto simp: yields_def split: if_splits)
  qed (simp add: yields_def)
  with assms(2) show ?thesis unfolding parse_loop_def by blast
qed

section \<open>A unary expression has no infix operator at its top\<close>

text \<open>The node made last decides.\<close>

lemma finishNode_yields [yield]:
  "node_kind n \<noteq> CodeNode BinaryExpression \<Longrightarrow> node_kind n \<noteq> CodeNode InstanceofExpression \<Longrightarrow>
     yields (\<lambda>x _. level x = None) (finishNode n position p)"
  by (simp add: finishNode_def yields_def level_def binary_level_def)

lemma createMissingNode_yields [yield]: "yields (\<lambda>x _. level x = None) (createMissingNode kind c m args p)"
  by (simp add: createMissingNode_def Let_def finishNode_yields NewIdentifier_def newToken_def newNode_def)

lemma parseIdentifier_yields [yield]: "yields (\<lambda>x _. level x = None) (parseIdentifier p)"
  unfolding parseIdentifier_def
  by (intro yields_if yields_let yields_bind_any finishNode_yields createMissingNode_yields) (simp_all add: node_factory)

lemma parseTokenNode_yields [yield]: "yields (\<lambda>x _. level x = None) (parseTokenNode p)"
  unfolding parseTokenNode_def by (intro yields_let yields_bind_any finishNode_yields) (simp_all add: node_factory)

lemmas unary_results = yields_if yields_let yields_bind_any finishNode_yields createMissingNode_yields parseIdentifier_yields
  parseTokenNode_yields

lemma parseAtom_yields: "yields (\<lambda>x _. level x = None) (parseAtom rec p)"
  unfolding parseAtom_def parseNewExpression_def parseArrayCreationRest_def parseSwitchExpression_def
  by (intro unary_results) (auto simp: node_factory intro!: unary_results)

lemma suffix_yields:
  "yields (\<lambda>x _. level x = None) (dot_suffix rec expr p)"
  "yields (\<lambda>x _. level x = None) (bracket_suffix rec expr p)"
  "yields (\<lambda>x _. level x = None) (method_reference_suffix rec expr p)"
  unfolding dot_suffix_def bracket_suffix_def method_reference_suffix_def makePropertyAccess_def
  by (intro unary_results; simp add: node_factory)+

lemma parsePrimaryExpression_yields: "yields (\<lambda>x _. level x = None) (parsePrimaryExpression rec p)"
  unfolding parsePrimaryExpression_def parseExpressionSuffixes_def
proof (rule yields_bind, rule yields_weaken [OF parseAtom_yields])
  fix atom q
  assume "level atom = None"
  then show "yields (\<lambda>x _. level x = None) (parse_loop (suffix_step rec) atom q)"
  proof (rule yields_loop [where I = "\<lambda>x _. level x = None", rotated])
    fix x r
    assume x: "level x = None"
    have again: "yields (\<lambda>x _. level x = None) m \<Longrightarrow>
        yields (\<lambda>(again, y) q. if again then level y = None else level y = None) (Option.bind m (\<lambda>(y, q). Some ((True, y), q)))"
      for m by (cases m) (auto simp: yields_def)
    show "yields (\<lambda>(again, y) q. if again then level y = None else level y = None) (suffix_step rec x r)"
      unfolding suffix_step_def
      by (intro yields_if again suffix_yields yields_bind_any [where g = "\<lambda>args p. Option.bind (f args p) g" for f g] finishNode_yields)
        (simp_all add: node_factory x yields_def)
  qed
qed

lemma parseUnaryExpression_yields: "yields (\<lambda>x _. level x = None) (parseUnaryExpression rec p)"
proof -
  have postfix: "yields (\<lambda>x _. level x = None) (parsePostfixExpression rec q)" for q
    unfolding parsePostfixExpression_def
    by (rule yields_bind, rule yields_weaken [OF parsePrimaryExpression_yields])
      (intro unary_results yields_Some; simp add: node_factory)
  have cast: "yields (\<lambda>x _. level x = None) (parseCastExpression rec q)" for q
    unfolding parseCastExpression_def by (intro unary_results) (simp_all add: node_factory)
  show ?thesis
    unfolding parseUnaryExpression_def by (intro unary_results postfix cast) (simp_all add: node_factory)
qed

section \<open>The loop over the operators\<close>

text \<open>Merging a second time changes nothing.\<close>

lemma ReScanGreaterToken_errors: "ReScanGreaterToken (s\<lparr>errors := es\<rparr>) = (ReScanGreaterToken s)\<lparr>errors := es\<rparr>"
  by (simp add: ReScanGreaterToken_def Let_def charCodeAt_def set_token_def advance_def)

lemma ReScanGreaterToken_idem:
  "token (ReScanGreaterToken s) = Punct GreaterThanToken \<Longrightarrow> ReScanGreaterToken s = s"
  by (auto simp: ReScanGreaterToken_def Let_def set_token_def split: if_splits)

lemma reScanGreaterIfNeeded_idem:
  assumes "reScanGreaterIfNeeded p = Some (u, q)" and "reScanGreaterIfNeeded q = Some (v, r)"
  shows "currentToken r = currentToken q"
proof (cases "currentToken p = Punct GreaterThanToken \<and> currentToken q = Punct GreaterThanToken")
  case True
  let ?s = "ReScanGreaterToken (scanner p)"
  from True assms(1) have q: "scanner q = ?s\<lparr>errors := []\<rparr>" "token ?s = Punct GreaterThanToken"
    by (auto simp: reScanGreaterIfNeeded_def scan_with_def reported_simps(1) [OF reported_errors])
  with True assms(2) show ?thesis
    by (auto simp: reScanGreaterIfNeeded_def scan_with_def ReScanGreaterToken_errors ReScanGreaterToken_idem [OF q(2)])
next
  case False
  with assms show ?thesis by (auto simp: reScanGreaterIfNeeded_def)
qed

lemma stopped_flag: "stopped m (p\<lparr>parseErrorBeforeNextFinishedNode := e\<rparr>) = stopped m p"
  by (simp add: stopped_def reScanGreaterIfNeeded_def scan_with_def)

lemma stopped_rescanned:
  assumes "reScanGreaterIfNeeded p = Some (u, q)" and "currentToken q \<noteq> Reserved InstanceofKeyword"
    and "binaryOperatorPrecedence (currentToken q) = 0 \<or> binaryOperatorPrecedence (currentToken q) < m"
  shows "stopped m q"
  using assms reScanGreaterIfNeeded_idem [OF assms(1)] by (cases "reScanGreaterIfNeeded q") (auto simp: stopped_def)

lemma rescan_no_keyword:
  "reScanGreaterIfNeeded p = Some (u, q) \<Longrightarrow> currentToken p \<noteq> Reserved InstanceofKeyword \<Longrightarrow> well p \<Longrightarrow>
     currentToken q \<noteq> Reserved InstanceofKeyword"
  by (auto simp: reScanGreaterIfNeeded_def scan_with_def ReScanGreaterToken_def Let_def set_token_def well_def split: if_splits)

text \<open>What the loop keeps: the left operand is bracketed, binds at least \<open>m\<close>, and what follows a binary one binds no more than it.\<close>

definition left_operand :: "nat \<Rightarrow> Node \<Rightarrow> Parser \<Rightarrow> bool" where
  "left_operand m x p \<longleftrightarrow>
     bracketed x \<and> pred_option (\<lambda>i. m \<le> i) (level x) \<and> pred_option (\<lambda>i. stopped (Suc i) p) (binary_level x)"

definition loop_operand :: "nat \<Rightarrow> nat \<Rightarrow> Node \<Rightarrow> Parser \<Rightarrow> bool" where
  "loop_operand position m x q \<longleftrightarrow> position \<le> getNodePos q \<and> node_in position (getNodePos q) x \<and> left_operand m x q"

definition climbed :: "nat \<Rightarrow> Node \<Rightarrow> Parser \<Rightarrow> bool" where
  "climbed m x p \<longleftrightarrow> bracketed x \<and> pred_option (\<lambda>i. m \<le> i) (level x) \<and> stopped m p"

lemma unary_operand: "level x = None \<Longrightarrow> left_operand m x p"
  by (cases x) (auto simp: left_operand_def level_def binary_level_def split: if_splits)

lemma returns_yields: "returns a m P \<Longrightarrow> yields Q m \<Longrightarrow> returns a m (\<lambda>x q. P x q \<and> Q x q)"
  by (auto simp: returns_def yields_def)

locale climbing = parsing +
  assumes rec_climbed: "follows a p \<Longrightarrow> remaining p < R \<Longrightarrow> returns a (rec (nt_Binary m) p) (climbed m)"
begin

lemma instanceof_step_yields:
  assumes "left_operand m left p" and "currentToken p = Reserved InstanceofKeyword" and "m \<le> relationalPrecedence"
  shows "yields (left_operand m) (instanceof_step rec position left q)"
proof -
  have fin: "yields (left_operand m) (finishNode (NewInstanceofExpression left t name pattern) position r)" for t name pattern r
    using assms
    by (auto simp: finishNode_def yields_def left_operand_def level_def binary_level_def NewInstanceofExpression_def newNode_def
        stopped_def option.pred_set less_Suc_eq_le)
  show ?thesis
    unfolding instanceof_step_def by (intro yields_let yields_if yields_bind_any fin)
qed

lemma binary_step_instanceof:
  assumes p: "follows a p" "remaining p \<le> R" and left: "loop_operand position m left p"
    and io: "currentToken p = Reserved InstanceofKeyword"
  shows "returns a (binary_step rec m position left p) (exits (loop_operand position m) (climbed m) p)"
proof (cases "relationalPrecedence < m")
  case True
  with io left p show ?thesis
    by (auto simp: binary_step_def exits_def climbed_def loop_operand_def left_operand_def stopped_def intro!: returns_Some)
next
  case False
  from left have l: "position \<le> getNodePos p" "node_in position (getNodePos p) left" "left_operand m left p"
    by (simp_all add: loop_operand_def)
  have "returns a (instanceof_step rec position left p)
      (\<lambda>x q. getNodePos p \<le> getNodePos q \<and> remaining q < remaining p \<and> node_in position (getNodePos q) x)"
    by (rule instanceof_step_spans [OF l(2) io p]) (use l in auto)
  from returns_yields [OF this instanceof_step_yields [OF l(3) io]] False l
  have "returns a (Option.bind (instanceof_step rec position left p) (\<lambda>(left, p). Some ((True, left), p)))
      (exits (loop_operand position m) (climbed m) p)"
    by (intro returns_bind) (auto simp: exits_def loop_operand_def intro!: returns_Some elim!: returns_weaken)
  with io False show ?thesis by (simp add: binary_step_def)
qed

lemma new_binary_yields:
  assumes left: "bracketed left" "pred_option (\<lambda>i. binaryOperatorPrecedence op \<le> i) (binary_level left)"
    and right: "climbed (Suc (binaryOperatorPrecedence op)) right r"
    and op: "binaryOperatorPrecedence op \<noteq> 0" "m \<le> binaryOperatorPrecedence op"
  shows "yields (left_operand m) (finishNode (NewBinaryExpression left op right) position r)"
proof -
  have st: "stopped (Suc (binaryOperatorPrecedence op)) (r\<lparr>parseErrorBeforeNextFinishedNode := False\<rparr>)"
    using right by (simp add: climbed_def stopped_flag)
  show ?thesis
    using assms st
    by (auto simp: finishNode_def yields_def left_operand_def climbed_def level_def binary_level_def operator_level_def NewBinaryExpression_def newNode_def
        option.pred_set Suc_le_eq)
qed

lemma binary_step_exits:
  assumes p: "follows a p" "remaining p \<le> R" and left: "loop_operand position m left p"
  shows "returns a (binary_step rec m position left p) (exits (loop_operand position m) (climbed m) p)"
proof (cases "currentToken p = Reserved InstanceofKeyword")
  case True
  with binary_step_instanceof [OF p left] show ?thesis .
next
  case False
  from left have l: "position \<le> getNodePos p" "node_in position (getNodePos p) left" "left_operand m left p"
    by (simp_all add: loop_operand_def)
  have "returns a (reScanGreaterIfNeeded p) (\<lambda>_ q. getNodePos q = getNodePos p \<and> remaining q = remaining p)"
    by (rule reScanGreaterIfNeeded_then [OF p(1)]) simp
  then obtain q where q: "reScanGreaterIfNeeded p = Some ((), q)" "follows a q" "getNodePos q = getNodePos p" "remaining q = remaining p"
    by (auto simp: returns_def)
  let ?k = "binaryOperatorPrecedence (currentToken q)"
  show ?thesis
  proof (cases "?k = 0 \<or> ?k < m")
    case True
    with stopped_rescanned [OF q(1) rescan_no_keyword [OF q(1) False follows_well [OF p(1)]]] l
    have "climbed m left q" by (auto simp: climbed_def left_operand_def)
    with True False q show ?thesis by (auto simp: binary_step_def exits_def intro!: returns_Some)
  next
    case nz: False
    have lev: "pred_option (\<lambda>i. ?k \<le> i) (binary_level left)"
      using l(3) False q(1) nz by (auto simp: left_operand_def stopped_def option.pred_set)
    have step: "binary_step rec m position left p = Option.bind (nextToken q) (\<lambda>(_, r). Option.bind (rec (nt_Binary (?k + 1)) r)
        (\<lambda>(right, r). Option.bind (finishNode (NewBinaryExpression left (currentToken q) right) position r)
          (\<lambda>(left, r). Some ((True, left), r))))"
      using False q(1) nz by (simp add: binary_step_def Let_def)
    show ?thesis
      unfolding step
    proof (rule returns_bind, rule then_moves [OF operator_moves(1) [OF nz q(2)]])
      fix k r
      assume r: "follows a r" "getNodePos q \<le> getNodePos r" "remaining r < remaining q"
      with p(2) q(4) have R: "remaining r < R" by simp
      have rec: "returns a (rec (nt_Binary (?k + 1)) r) (\<lambda>x s. starts (first_of (nt_Binary (?k + 1))) node_in r x s \<and> climbed (Suc ?k) x s)"
        using returns_conj [OF rec_returns [OF r(1) R] rec_climbed [OF r(1) R, of "?k + 1"]] by simp
      show "returns a (Option.bind (rec (nt_Binary (?k + 1)) r) (\<lambda>(right, r). Option.bind
          (finishNode (NewBinaryExpression left (currentToken q) right) position r) (\<lambda>(left, r). Some ((True, left), r))))
        (exits (loop_operand position m) (climbed m) p)"
      proof (rule returns_bind, rule returns_weaken [OF rec])
        fix right s
        assume s: "follows a s" "starts (first_of (nt_Binary (?k + 1))) node_in r right s \<and> climbed (Suc ?k) right s"
        then have s': "getNodePos r \<le> getNodePos s" "remaining s \<le> remaining r" "node_in (getNodePos r) (getNodePos s) right"
          by (auto simp: starts_def passes_def)
        have "returns a (finishNode (NewBinaryExpression left (currentToken q) right) position s) (finished position s)"
          using l q r s s' by - (rule finishNode_finished conjI | (rule field_in_values, assumption) | linarith | (simp; fail) | simp add: payloads)+
        from returns_yields [OF this new_binary_yields [of left "currentToken q" right s m position]] l s(2) lev nz
        have "returns a (finishNode (NewBinaryExpression left (currentToken q) right) position s)
            (\<lambda>x q. finished position s x q \<and> left_operand m x q)" by (auto simp: left_operand_def)
        then show "returns a (Option.bind (finishNode (NewBinaryExpression left (currentToken q) right) position s)
            (\<lambda>(left, r). Some ((True, left), r))) (exits (loop_operand position m) (climbed m) p)"
          using l q r s' by (intro returns_bind) (auto simp: exits_def loop_operand_def finished_def intro!: returns_Some elim!: returns_weaken)
      qed
    qed
  qed
qed

lemma parseBinaryExpression_climbed:
  assumes "follows a p" and "remaining p \<le> R"
  shows "returns a (parseBinaryExpression rec m p) (climbed m)"
  unfolding parseBinaryExpression_def parseBinaryExpressionRest_def
proof (rule returns_let, rule returns_bind)
  have "returns a (parseUnaryExpression rec p) (\<lambda>x q. getNodePos p \<le> getNodePos q \<and> remaining q \<le> remaining p
      \<and> node_in (getNodePos p) (getNodePos q) x)"
    by (rule parseUnaryExpression_starts [OF assms]) simp
  from returns_yields [OF this parseUnaryExpression_yields]
  show "returns a (parseUnaryExpression rec p)
     (\<lambda>left q. returns a (parse_loop (binary_step rec m (getNodePos p)) left q) (climbed m))"
  proof (rule returns_weaken)
    fix left q
    assume q: "follows a q" "(getNodePos p \<le> getNodePos q \<and> remaining q \<le> remaining p \<and> node_in (getNodePos p) (getNodePos q) left)
        \<and> level left = None"
    then have "loop_operand (getNodePos p) m left q" by (simp add: loop_operand_def unary_operand)
    then have "returns a (parse_loop (binary_step rec m (getNodePos p)) left q)
        (\<lambda>x r. getNodePos q \<le> getNodePos r \<and> remaining r \<le> remaining q \<and> climbed m x r)"
      by (rule parse_loop_exits [where I = "loop_operand (getNodePos p) m", OF q(1)]) (use q(2) assms(2) in \<open>auto intro: binary_step_exits\<close>)
    then show "returns a (parse_loop (binary_step rec m (getNodePos p)) left q) (climbed m)"
      by (auto elim: returns_weaken)
  qed
qed

end

section \<open>The grammar\<close>

lemma parse_climbing: "climbing (parse n) n"
proof (induction n)
  case 0
  show ?case by (unfold_locales, simp)
next
  case (Suc n)
  from parse_parsing [of "Suc n"] show ?case
    unfolding climbing_def climbing_axioms_def
    using climbing.parseBinaryExpression_climbed [OF Suc.IH] by (auto simp: parse_nonterminal_def)
qed

interpretation expressions: climbing "parse n" n for n
  by (rule parse_climbing)

text \<open>
  C4. Precedence climbing is right: at every valid state \<open>parseBinaryExpression\<close> returns a tree in which the left
  operand of each binary operator binds at least as much as the operator and the right operand binds more, so
  equal operators group to the left; no operator at its top binds less than asked; and it stops only before a token that
  is no such operator, merged \<open>>\<close> tokens included.
\<close>

theorem parseBinaryExpression_precedence:
  assumes "well p" and "remaining p \<le> n"
  shows "\<exists>x q. parseBinaryExpression (parse n) m p = Some (x, q) \<and> bracketed x \<and> pred_option (\<lambda>i. m \<le> i) (level x) \<and> stopped m q"
  using expressions.parseBinaryExpression_climbed [OF follows_refl [OF assms(1)] assms(2), of m]
  by (auto simp: returns_def climbed_def)

theorem parseBinaryExpression_precedence_witness:
  "\<exists>k p. nextToken (NewParser ''A'' ''a - b - c * d >> e == f'') = Some (k, p)
     \<and> (\<exists>x q. parseBinaryExpression (parse 30) 1 p = Some (x, q) \<and> bracketed x \<and> pred_option (\<lambda>i. 1 \<le> i) (level x) \<and> stopped 1 q)"
proof -
  have "''a - b - c * d >> e == f'' = [] \<or> last ''a - b - c * d >> e == f'' \<noteq> BACKSLASH" by (simp add: BACKSLASH_def)
  from first_token [OF this, of "''A''"] obtain k p where p: "nextToken (NewParser ''A'' ''a - b - c * d >> e == f'') = Some (k, p)"
    "well p" "sourceText p = ''a - b - c * d >> e == f''" by metis
  have "remaining p \<le> 30" using remaining_less [OF p(2)] p(3) by simp
  from parseBinaryExpression_precedence [OF p(2) this, of 1] p(1) show ?thesis by blast
qed

end
