(* ===== verification/Spec2Isabelle.thy ===== *)
theory Spec2Isabelle
  imports MavenVersion SemverBump UpdateCorrect LayoutCorrect JdwpClient Framing LineMap ConstFold ClassRoundtrip StubCorrect
    StringEscape Comments Precedence
begin

text \<open>
  A verification library for cappu (\<open>togo/\<close>, the Go implementation): a build tool, package
  manager, formatter, language server, debug adapter and compiler for Java. The paths below are
  relative to \<open>togo/internal/\<close>; a theory names its source file in its first lines.

  The parts and how they interact:

  \<^item> Package management. \<open>packages/version_range.go\<close> orders versions and picks one for a spec
    (\<open>MavenVersion\<close>); \<open>packages/types.go\<close>, \<open>license.go\<close> and \<open>install/store.go\<close> name artifacts
    (\<open>Packages\<close>); \<open>packages/resolver.go\<close> walks the dependency graph breadth first, the nearest version
    winning (\<open>Resolve\<close>, \<open>ResolveCorrect\<close>); \<open>install/plan.go\<close> selects the versions of \<open>cappu add\<close>,
    \<open>update\<close> and \<open>outdated\<close> by resolving each candidate (\<open>UpdatePlan\<close>, \<open>UpdateCorrect\<close>);
    \<open>semver/semver.go\<close> is \<open>cappu version\<close> (\<open>SemverBump\<close>). The package sources are parameters, with
    their documented behaviour as hypotheses; the in-memory source of the code is modelled and
    discharges them.
  \<^item> The wire protocols. \<open>wire/wire.go\<close> frames the language server and the debug adapter
    (\<open>Framing\<close>); \<open>jdwp/\<close> is the debugger's client: codecs and packets (\<open>JdwpCodec\<close>), commands and events
    (\<open>JdwpCommands\<close>, \<open>JdwpCorrect\<close>) and the connection as a transition system (\<open>JdwpClient\<close>). Both
    cut a byte stream into frames, the locale of \<open>StreamSplit\<close>.
  \<^item> The front end of the compiler. \<open>compiler/kinds.go\<close>, \<open>keywords.go\<close> and \<open>scanner.go\<close>
    (\<open>SyntaxKinds\<close>, \<open>Scanner\<close>; \<open>ScannerCorrect\<close>, \<open>TokenStream\<close> and \<open>TokenSpelling\<close> prove what a run
    of the scanner does), \<open>linemap.go\<close> (\<open>LineMap\<close>), \<open>constfold.go\<close> (\<open>ConstFold\<close>), and the string escapes of
    \<open>disasm.go\<close>, which the scanner reads back (\<open>StringEscape\<close>).
  \<^item> The parser. \<open>compiler/ast.go\<close>, \<open>kinds.go\<close> and the \<open>nodes\<close> files are the nodes and their factory
    (\<open>SyntaxTree\<close>). \<open>parser.go\<close> is the parser's state, its error recovery and the source file
    (\<open>ParserState\<close>, \<open>ParserTypes\<close>, \<open>Parser\<close>), with the types of \<open>parser_decls.go\<close> (\<open>ParserTypes\<close>),
    \<open>parser_expr.go\<close> (\<open>ParserExpr\<close>), \<open>parser_decls.go\<close>, \<open>parser_members.go\<close> and \<open>parser_module.go\<close>
    (\<open>ParserDecls\<close>) and \<open>parser_stmts.go\<close> (\<open>Parser\<close>). It drives the scanner token by token, saves and
    restores it in a lookahead, and merges \<open>>\<close> tokens where an expression wants them. \<open>ParserLogic\<close>,
    \<open>ParserTypesCorrect\<close>, \<open>ParserExprCorrect\<close>, \<open>ParserDeclsCorrect\<close>, \<open>ParserCorrect\<close>,
    \<open>SourceFileCorrect\<close> and \<open>Precedence\<close> prove it.
  \<^item> Class files. \<open>compiler/bytebuffer.go\<close>, \<open>constantpool.go\<close> and the assembly in \<open>bytecode.go\<close>
    (\<open>ClassPool\<close>, \<open>PoolCorrect\<close>, \<open>PoolSites\<close>), the reader \<open>classfile_reader.go\<close> (\<open>ClassRead\<close>,
    \<open>ClassRoundtrip\<close>) and the Java stubs it makes of them (\<open>ClassStub\<close>, \<open>StubCorrect\<close>).
  \<^item> The formatter. \<open>format/comments.go\<close> recovers the comments between the tokens (\<open>Comments\<close>),
    \<open>format/doc.go\<close> lays a document out (\<open>LayoutDoc\<close>, \<open>LayoutCorrect\<close>).

  How the code is rendered. \<open>GoPrelude\<close> and \<open>GoUtf8\<close> hold what Go's standard library gives: a
  string is a list of bytes, a slice out of range or a failed assertion is a panic, and a function
  that can panic returns an option, or a sum with the panic as a value where the code also returns
  errors. A struct with state is a record that each operation takes and returns. Integers are
  words where the width matters (JDWP ids, flags, class file fields, folded constants) and \<open>nat\<close>
  or \<open>int\<close> where the code's values are bounded by a length. A loop is a recursion with its
  termination proof. Three parts have fuel: the resolver's breadth-first walk, whose theorems show
  that enough fuel exists and that more changes nothing, and the packet loop of the JDWP client,
  whose fuel is the number of buffered bytes, at least eleven of which go with each packet; and the
  parser. Its methods call each other through a parameter, the parser of the nonterminals, which
  \<open>parse\<close> closes with one unit of fuel per nested nonterminal; \<open>ParseSourceFile\<close> gives the length of the text
  plus 2, and so does each of its loops. That is enough for every text: a method calls a nonterminal only after
  it has consumed a token and a loop goes on only if its body has (\<open>remaining\<close> falls), error recovery included.

  What the lemmas show. Each component has its invariant and the lemmas that its operations keep it
  (\<open>kept\<close> and \<open>inside\<close> for the scanner, \<open>well\<close> for the parser, the pool's well-formedness, the connection's reachable
  states, the resolution's table), the behaviour of each operation on every branch, and where two parts meet
  a round trip or a refinement: written packets, frames, class files, string literals and words are read
  back; the constant folder equals a reference evaluator; the layout's column equals the writer's. Where
  the code deviates from what its comments say, the theorem states what it does and shows the deviation by
  an evaluated example.

  The parser's lemmas are a total correctness logic: \<open>returns\<close> says that a method returns, keeps the invariant
  and has a postcondition on the node and on the state (it only moves forward, it consumed a token, it left the
  state as it was), and each method has one rule, which the rules of its callers use. The locales \<open>parsing\<close>
  and \<open>climbing\<close> hold what the methods need of the recursion; the grammar of the model with any fuel interprets both.

  Not modelled. What works on the parser's tree (checker, emitters, printer, language
  services, decompiler), and what the binder stores in it; the servers' dispatch over goroutines and JSON; network access, archives and
  files; the command line. Within the modelled files: \<open>prefetchLevel\<close> of the resolver and the
  width caches of \<open>doc.go\<close> only store values computed elsewhere; \<open>strings.ToLower\<close> and
  \<open>TrimSpace\<close> are modelled on ASCII, which is what versions, licenses and headers use; allocation
  and the sharing of immutable trees have no counterpart.
\<close>

end
